(* ===== verification/Shop_Prelude.thy ===== *)
theory Shop_Prelude
  imports Main "HOL-Library.List_Lexorder" "HOL-Library.Char_ord" "HOL-Library.Product_Lexorder"
begin

text \<open>
  Shared vocabulary of the development: the failures the TypeScript code throws, BigInt
  division, rounding-up division, and the few SQL operations (guarded UPDATE, row lookup,
  unique insert) in which every handler of \<^verbatim>\<open>src/features\<close> is written, with the
  lemmas the component theories use about them.
\<close>

section \<open>Failures\<close>

text \<open>
  A thrown \<^verbatim>\<open>DomainError(code, status, message)\<close> keeps its code and status;
  the message is not modelled. \<open>DbAbort\<close> is a statement the database refuses
  (a constraint or a trigger's \<^verbatim>\<open>RAISE(ABORT, ...)\<close>): the batch it belongs to
  has no effect. \<open>ZodError\<close> is an input a schema rejects, \<open>PlainError\<close> a thrown
  \<^verbatim>\<open>Error\<close> with its message.
\<close>

datatype failure =
    DomainError string nat
  | RangeError
  | TypeError
  | SyntaxError
  | ZodError
  | DbAbort string
  | PlainError string

type_synonym 'a result = "failure + 'a"

named_theorems sql_simps "rewriting guarded updates and lookups"
named_theorems div_simps "rewriting BigInt division on non-negative values"

text \<open>Sequencing of computations that may throw.\<close>

fun and_then :: "'a result \<Rightarrow> ('a \<Rightarrow> 'b result) \<Rightarrow> 'b result" where
  "and_then (Inl e) f = Inl e"
| "and_then (Inr x) f = f x"

lemma and_then_Inr: "and_then r f = Inr y \<longleftrightarrow> (\<exists>x. r = Inr x \<and> f x = Inr y)"
  by (cases r) auto

definition demand :: "bool \<Rightarrow> failure \<Rightarrow> unit result" where
  "demand c e = (if c then Inr () else Inl e)"

lemma demand_Inr [simp]: "demand c e = Inr x \<longleftrightarrow> c"
  by (simp add: demand_def)

section \<open>BigInt arithmetic\<close>

text \<open>
  JavaScript's BigInt quotient truncates towards zero and the remainder takes the sign of
  the dividend. Division by \<open>0n\<close> throws a RangeError; definitions that divide
  test for it first.
\<close>

definition big_quot :: "int \<Rightarrow> int \<Rightarrow> int" where
  "big_quot a b = sgn a * sgn b * (\<bar>a\<bar> div \<bar>b\<bar>)"

definition big_rem :: "int \<Rightarrow> int \<Rightarrow> int" where
  "big_rem a b = a - b * big_quot a b"

lemma big_quot_nonneg [div_simps]: "0 \<le> a \<Longrightarrow> 0 < b \<Longrightarrow> big_quot a b = a div b"
  by (cases "a = 0") (auto simp: big_quot_def)

lemma big_rem_nonneg [div_simps]: "0 \<le> a \<Longrightarrow> 0 < b \<Longrightarrow> big_rem a b = a mod b"
  by (simp add: big_rem_def big_quot_nonneg minus_mult_div_eq_mod)

definition ceil_div :: "int \<Rightarrow> int \<Rightarrow> int" where
  "ceil_div n d = big_quot (n + d - 1) d"

lemma ceil_div_eq [div_simps]: "0 \<le> n \<Longrightarrow> 0 < d \<Longrightarrow> ceil_div n d = (n + d - 1) div d"
  by (simp add: ceil_div_def big_quot_nonneg)

lemma ceil_div_ge: "0 \<le> n \<Longrightarrow> 0 < d \<Longrightarrow> n \<le> ceil_div n d * d"
proof -
  assume n: "0 \<le> n" and d: "0 < d"
  have "(n + d - 1) div d * d = (n + d - 1) - (n + d - 1) mod d"
    by (simp add: minus_mod_eq_div_mult)
  moreover have "(n + d - 1) mod d \<le> d - 1" using pos_mod_bound [OF d, of "n + d - 1"] by linarith
  ultimately show ?thesis unfolding ceil_div_eq [OF n d] by linarith
qed

lemma ceil_div_less: "0 \<le> n \<Longrightarrow> 0 < d \<Longrightarrow> (ceil_div n d - 1) * d < n"
proof -
  assume n: "0 \<le> n" and d: "0 < d"
  have "(n + d - 1) div d * d = (n + d - 1) - (n + d - 1) mod d"
    by (simp add: minus_mod_eq_div_mult)
  moreover have "0 \<le> (n + d - 1) mod d" using d by simp
  ultimately show ?thesis unfolding ceil_div_eq [OF n d] left_diff_distrib by linarith
qed

lemma ceil_div_nonneg: "0 \<le> n \<Longrightarrow> 0 < d \<Longrightarrow> 0 \<le> ceil_div n d"
  by (simp add: ceil_div_eq pos_imp_zdiv_nonneg_iff)

lemma ceil_div_least: "0 \<le> n \<Longrightarrow> 0 < d \<Longrightarrow> n \<le> m * d \<Longrightarrow> ceil_div n d \<le> m"
proof -
  assume n: "0 \<le> n" and d: "0 < d" and m: "n \<le> m * d"
  from ceil_div_less [OF n d] m have "(ceil_div n d - 1) * d < m * d" by linarith
  with d have "ceil_div n d - 1 < m" by (simp add: mult_less_cancel_right)
  then show ?thesis by simp
qed

lemma div_mult_le_int: "0 < b \<Longrightarrow> a div b * b \<le> (a::int)"
  using pos_mod_sign [of b a] minus_mod_eq_div_mult [of a b] by linarith

definition int64_max :: int where
  "int64_max = 9223372036854775807"

section \<open>SQL tables as lists of rows\<close>

text \<open>
  A table is the list of its rows. \<open>sql_update P f\<close> is
  \<^verbatim>\<open>UPDATE t SET ... WHERE P\<close>, \<open>sql_changes P\<close> the row count it reports
  (\<^verbatim>\<open>meta.changes\<close> and \<^verbatim>\<open>changes()\<close>), \<open>sql_first P\<close> a
  \<^verbatim>\<open>SELECT ... WHERE P LIMIT 1\<close> in row order.
\<close>

definition sql_update :: "('r \<Rightarrow> bool) \<Rightarrow> ('r \<Rightarrow> 'r) \<Rightarrow> 'r list \<Rightarrow> 'r list" where
  "sql_update P f t = map (\<lambda>r. if P r then f r else r) t"

definition sql_changes :: "('r \<Rightarrow> bool) \<Rightarrow> 'r list \<Rightarrow> nat" where
  "sql_changes P t = length (filter P t)"

definition sql_first :: "('r \<Rightarrow> bool) \<Rightarrow> 'r list \<Rightarrow> 'r option" where
  "sql_first P t = find P t"

definition sql_exists :: "('r \<Rightarrow> bool) \<Rightarrow> 'r list \<Rightarrow> bool" where
  "sql_exists P t = list_ex P t"

text \<open>
  \<^verbatim>\<open>SELECT ... WHERE P ORDER BY key\<close>; SQLite compares TEXT bytewise, which is the
  lexicographic order of \<open>string\<close> here.
\<close>

definition sql_ordered :: "('r \<Rightarrow> 'k::linorder) \<Rightarrow> ('r \<Rightarrow> bool) \<Rightarrow> 'r list \<Rightarrow> 'r list" where
  "sql_ordered key P t = sort_key key (filter P t)"

definition sql_first_by :: "('r \<Rightarrow> 'k::linorder) \<Rightarrow> ('r \<Rightarrow> bool) \<Rightarrow> 'r list \<Rightarrow> 'r option" where
  "sql_first_by key P t = (case sql_ordered key P t of [] \<Rightarrow> None | r # _ \<Rightarrow> Some r)"

lemma set_sql_ordered [simp]: "set (sql_ordered key P t) = {r \<in> set t. P r}"
  by (auto simp: sql_ordered_def)

lemma sql_first_by_Some:
  assumes "sql_first_by key P t = Some r"
  shows "r \<in> set t \<and> P r \<and> (\<forall>s\<in>set t. P s \<longrightarrow> key r \<le> key s)"
proof -
  from assms obtain rest where o: "sql_ordered key P t = r # rest"
    by (auto simp: sql_first_by_def split: list.splits)
  then have "r \<in> set (sql_ordered key P t)" by simp
  moreover have "sorted (map key (r # rest))" using o unfolding sql_ordered_def by (metis sorted_sort_key)
  moreover have "set (r # rest) = {s \<in> set t. P s}" using o by (metis set_sql_ordered)
  ultimately show ?thesis by auto
qed

lemma sql_first_by_None: "sql_first_by key P t = None \<longleftrightarrow> (\<forall>r\<in>set t. \<not> P r)"
proof -
  have "sql_first_by key P t = None \<longleftrightarrow> sql_ordered key P t = []"
    by (simp add: sql_first_by_def split: list.split)
  also have "\<dots> \<longleftrightarrow> set (sql_ordered key P t) = {}" by (simp del: set_sql_ordered)
  finally show ?thesis by auto
qed

lemma sql_update_Nil [simp]: "sql_update P f [] = []"
  by (simp add: sql_update_def)

lemma sql_update_Cons [simp]:
  "sql_update P f (r # t) = (if P r then f r else r) # sql_update P f t"
  by (simp add: sql_update_def)

lemma length_sql_update [simp]: "length (sql_update P f t) = length t"
  by (simp add: sql_update_def)

lemma sql_first_Some:
  "sql_first P t = Some r \<Longrightarrow> r \<in> set t \<and> P r"
  by (auto simp: sql_first_def find_Some_iff)

lemma sql_first_None [sql_simps]: "sql_first P t = None \<longleftrightarrow> (\<forall>r\<in>set t. \<not> P r)"
  by (auto simp: sql_first_def find_None_iff)

lemma sql_first_Cons [simp]:
  "sql_first P (r # t) = (if P r then Some r else sql_first P t)"
  by (simp add: sql_first_def)

lemma sql_first_Nil [simp]: "sql_first P [] = None"
  by (simp add: sql_first_def)

lemma sql_first_append:
  "sql_first P (s @ t) = (case sql_first P s of Some r \<Rightarrow> Some r | None \<Rightarrow> sql_first P t)"
  by (induction s) auto

lemma sql_changes_zero [sql_simps]: "sql_changes P t = 0 \<longleftrightarrow> (\<forall>r\<in>set t. \<not> P r)"
  by (auto simp: sql_changes_def filter_empty_conv)

lemma sql_changes_pos [sql_simps]: "0 < sql_changes P t \<longleftrightarrow> (\<exists>r\<in>set t. P r)"
  by (auto simp: sql_changes_def filter_empty_conv)

lemma sql_update_none [sql_simps]:
  "\<forall>r\<in>set t. \<not> P r \<Longrightarrow> sql_update P f t = t"
  by (induction t) auto

lemma sql_update_cong_key:
  "(\<And>r. k (f r) = k r) \<Longrightarrow> map k (sql_update P f t) = map k t"
  by (induction t) auto

lemma sql_first_update_key:
  assumes "\<And>r. k (f r) = k r"
  shows "sql_first (\<lambda>r. k r = x) (sql_update P f t)
       = map_option (\<lambda>r. if P r then f r else r) (sql_first (\<lambda>r. k r = x) t)"
  using assms by (induction t) auto

text \<open>On a table keyed by \<open>k\<close>, an update guarded by the key touches one row at most.\<close>

lemma keyed_other: "distinct (map k (r # t)) \<Longrightarrow> s \<in> set t \<Longrightarrow> k s \<noteq> k r"
  by (metis distinct.simps(2) image_eqI list.map(2) list.set_map)

lemma keyed_first:
  "distinct (map k t) \<Longrightarrow> r \<in> set t \<Longrightarrow> sql_first (\<lambda>s. k s = k r) t = Some r"
proof (induction t)
  case Nil
  then show ?case by simp
next
  case (Cons s t)
  then show ?case using keyed_other [of k s t r] by auto
qed

lemma keyed_changes_le_one:
  "distinct (map k t) \<Longrightarrow> sql_changes (\<lambda>r. k r = x \<and> P r) t \<le> 1"
proof (induction t)
  case Nil
  then show ?case by (simp add: sql_changes_def)
next
  case (Cons r t)
  show ?case
  proof (cases "k r = x")
    case True
    with Cons.prems have "\<forall>s\<in>set t. k s \<noteq> x" using keyed_other by fastforce
    then have "filter (\<lambda>r. k r = x \<and> P r) t = []" by (auto simp: filter_empty_conv)
    then show ?thesis by (simp add: sql_changes_def)
  next
    case False
    with Cons show ?thesis by (simp add: sql_changes_def)
  qed
qed

lemma keyed_changes:
  assumes "distinct (map k t)"
  shows "sql_changes (\<lambda>r. k r = x \<and> P r) t
       = (case sql_first (\<lambda>r. k r = x) t of Some r \<Rightarrow> (if P r then 1 else 0) | None \<Rightarrow> 0)"
  using assms
proof (induction t)
  case Nil
  then show ?case by (simp add: sql_changes_def)
next
  case (Cons r t)
  show ?case
  proof (cases "k r = x")
    case True
    with Cons.prems have "\<forall>s\<in>set t. k s \<noteq> x" using keyed_other by fastforce
    then have "filter (\<lambda>s. k s = x \<and> P s) t = []" by (auto simp: filter_empty_conv)
    with True show ?thesis by (simp add: sql_changes_def)
  next
    case False
    with Cons show ?thesis by (simp add: sql_changes_def)
  qed
qed

text \<open>A keyed update changes a column's sum by the change of the one row it touches.\<close>

lemma keyed_sum_update:
  fixes g :: "'r \<Rightarrow> int"
  assumes "distinct (map k t)" and "sql_first (\<lambda>r. k r = x) t = Some r"
  shows "sum_list (map g (sql_update (\<lambda>s. k s = x \<and> P s) f t))
       = sum_list (map g t) + (if P r then g (f r) - g r else 0)"
  using assms
proof (induction t)
  case Nil
  then show ?case by simp
next
  case (Cons s t)
  show ?case
  proof (cases "k s = x")
    case True
    with Cons.prems have "s = r" and "\<forall>u\<in>set t. k u \<noteq> x" using keyed_other by fastforce+
    with True show ?thesis by (simp add: sql_update_none)
  next
    case False
    with Cons show ?thesis by simp
  qed
qed

lemma sum_list_update_same:
  "(\<And>r. P r \<Longrightarrow> g (f r) = g r) \<Longrightarrow> map g (sql_update P f t) = map g t"
  by (induction t) auto

section \<open>Sums\<close>

lemma sum_zero_all: "\<forall>w\<in>set ws. 0 \<le> w \<Longrightarrow> sum_list ws = 0 \<Longrightarrow> \<forall>w\<in>set ws. w = (0::int)"
  by (simp add: sum_list_nonneg_eq_0_iff)

lemma sum_list_update_int: "i < length am \<Longrightarrow> sum_list (am[i := v]) = sum_list am + v - (am ! i :: int)"
  by (induction am arbitrary: i) (auto split: nat.split)

text \<open>Summing over all keys what an association list gives them, zero where it gives nothing.\<close>

lemma sum_list_map_of:
  fixes ps :: "('k \<times> int) list"
  assumes "distinct ks" and "distinct (map fst ps)" and "fst ` set ps \<subseteq> set ks"
  shows "sum_list (map (\<lambda>k. case map_of ps k of None \<Rightarrow> 0 | Some v \<Rightarrow> v) ks) = sum_list (map snd ps)"
proof -
  let ?f = "\<lambda>k. case map_of ps k of None \<Rightarrow> 0 | Some v \<Rightarrow> v"
  have "sum_list (map ?f ks) = sum ?f (set ks)" using assms(1) by (rule sum_list_distinct_conv_sum_set)
  also have "\<dots> = sum ?f (fst ` set ps)"
    using assms(3) by (intro sum.mono_neutral_right) (auto simp: map_of_eq_None_iff [symmetric] split: option.split)
  also have "\<dots> = sum_list (map ?f (map fst ps))"
    using assms(2) sum_list_distinct_conv_sum_set [of "map fst ps" ?f] by (simp add: set_map)
  also have "map ?f (map fst ps) = map snd ps"
    using assms(2) by (auto intro!: map_cong simp: map_of_is_SomeI)
  finally show ?thesis .
qed

lemma sum_list_indices:
  fixes g :: "nat \<Rightarrow> int"
  assumes "distinct is" and "\<forall>i\<in>set is. i < n"
  shows "sum_list (map (\<lambda>j. if j \<in> set is then g j else 0) [0..<n]) = sum_list (map g is)"
proof -
  have "sum_list (map (\<lambda>j. if j \<in> set is then g j else 0) [0..<n])
      = (\<Sum>j\<in>{0..<n}. if j \<in> set is then g j else 0)"
    by (simp add: sum_list_distinct_conv_sum_set)
  also have "\<dots> = sum g ({0..<n} \<inter> set is)" by (simp add: sum.inter_restrict)
  also have "{0..<n} \<inter> set is = set is" using assms(2) by auto
  also have "sum g (set is) = sum_list (map g is)" using assms(1) by (simp add: sum_list_distinct_conv_sum_set)
  finally show ?thesis .
qed

section \<open>Statements and batches\<close>

text \<open>
  A prepared statement reads the row count of the statement before it
  (\<^verbatim>\<open>changes()\<close>) and the database, and either aborts or returns the new database
  with its own row count. \<^verbatim>\<open>db.batch([...])\<close> is one transaction: an abort leaves the
  database as it was, which is what \<open>run_batch\<close> returns to its caller as a failure.
\<close>

type_synonym 'db stmt = "nat \<Rightarrow> 'db \<Rightarrow> ('db \<times> nat) result"

fun batch_from :: "nat \<Rightarrow> 'db stmt list \<Rightarrow> 'db \<Rightarrow> ('db \<times> nat list) result" where
  "batch_from n [] db = Inr (db, [])"
| "batch_from n (s # ss) db =
     (case s n db of
        Inl e \<Rightarrow> Inl e
      | Inr (db', c) \<Rightarrow>
          (case batch_from c ss db' of
             Inl e \<Rightarrow> Inl e
           | Inr (db'', cs) \<Rightarrow> Inr (db'', c # cs)))"

definition run_batch :: "'db stmt list \<Rightarrow> 'db \<Rightarrow> ('db \<times> nat list) result" where
  "run_batch ss db = batch_from 0 ss db"

text \<open>A statement keeps a predicate when it holds after every run that does not abort.\<close>

definition stmt_keeps :: "('db \<Rightarrow> bool) \<Rightarrow> 'db stmt \<Rightarrow> bool" where
  "stmt_keeps I s \<longleftrightarrow> (\<forall>n db db' c. I db \<longrightarrow> s n db = Inr (db', c) \<longrightarrow> I db')"

named_theorems keeps "statements that keep an invariant"

lemma stmt_keepsI: "(\<And>n db db' c. I db \<Longrightarrow> s n db = Inr (db', c) \<Longrightarrow> I db') \<Longrightarrow> stmt_keeps I s"
  by (auto simp: stmt_keeps_def)

lemma batch_from_append:
  "batch_from n (ss @ ts) db = Inr (db', cs) \<Longrightarrow>
   \<exists>mid c1 m c2. batch_from n ss db = Inr (mid, c1) \<and> batch_from m ts mid = Inr (db', c2) \<and> cs = c1 @ c2"
proof (induction ss arbitrary: n db cs)
  case Nil
  then show ?case by auto
next
  case (Cons s ss)
  from Cons.prems obtain d c ds where "s n db = Inr (d, c)" "batch_from c (ss @ ts) d = Inr (db', ds)"
    "cs = c # ds" by (auto split: sum.splits prod.splits)
  with Cons.IH [OF this(2)] show ?case by fastforce
qed

lemma batch_from_keeps:
  "\<forall>s\<in>set ss. stmt_keeps I s \<Longrightarrow> I db \<Longrightarrow> batch_from n ss db = Inr (db', cs) \<Longrightarrow> I db'"
proof (induction ss arbitrary: n db cs)
  case Nil
  then show ?case by simp
next
  case (Cons s ss)
  from Cons.prems(3) obtain d c ds where s: "s n db = Inr (d, c)" "batch_from c ss d = Inr (db', ds)"
    by (auto split: sum.splits prod.splits)
  with Cons.prems have "I d" by (auto simp: stmt_keeps_def)
  with Cons.IH s(2) Cons.prems(1) show ?case by auto
qed

lemma run_batch_keeps:
  "\<forall>s\<in>set ss. stmt_keeps I s \<Longrightarrow> I db \<Longrightarrow> run_batch ss db = Inr (db', cs) \<Longrightarrow> I db'"
  unfolding run_batch_def by (rule batch_from_keeps)

section \<open>Optimistic locking\<close>

text \<open>
  Handlers read a row with its version, decide, and write with
  \<^verbatim>\<open>WHERE id = ? AND version = ?\<close>, setting the version one higher. The locale is that
  contract: of two writers that read the same version one writes, and a writer that loses
  changes nothing.
\<close>

locale versioned =
  fixes key :: "'r \<Rightarrow> 'k" and version :: "'r \<Rightarrow> nat" and store :: "'a \<Rightarrow> 'r \<Rightarrow> 'r"
  assumes store_key: "key (store a r) = key r"
    and store_version: "version (store a r) = Suc (version r)"
begin

definition cas :: "('r \<Rightarrow> bool) \<Rightarrow> 'k \<Rightarrow> nat \<Rightarrow> 'a \<Rightarrow> 'r list \<Rightarrow> 'r list" where
  "cas P k v a t = sql_update (\<lambda>r. key r = k \<and> version r = v \<and> P r) (store a) t"

definition cas_changes :: "('r \<Rightarrow> bool) \<Rightarrow> 'k \<Rightarrow> nat \<Rightarrow> 'r list \<Rightarrow> nat" where
  "cas_changes P k v t = sql_changes (\<lambda>r. key r = k \<and> version r = v \<and> P r) t"

lemma cas_keys: "map key (cas P k v a t) = map key t"
  unfolding cas_def by (rule sql_update_cong_key) (rule store_key)

lemma loser_changes_nothing: "cas_changes P k v t = 0 \<Longrightarrow> cas P k v a t = t"
  by (simp add: cas_changes_def cas_def sql_changes_zero sql_update_none)

lemma one_winner:
  assumes "distinct (map key t)" and "0 < cas_changes P k v t"
  shows "cas_changes Q k v (cas P k v a t) = 0"
proof -
  from assms(2) obtain r where r: "r \<in> set t" "key r = k" "version r = v" "P r"
    by (auto simp: cas_changes_def sql_changes_pos)
  have "\<forall>s\<in>set (cas P k v a t). key s = k \<longrightarrow> version s \<noteq> v"
  proof (intro ballI impI)
    fix s assume s: "s \<in> set (cas P k v a t)" "key s = k"
    then obtain q where q: "q \<in> set t" "s = (if key q = k \<and> version q = v \<and> P q then store a q else q)"
      by (auto simp: cas_def sql_update_def)
    with s(2) have "key q = k" using store_key by (metis (full_types))
    with assms(1) q(1) r have "q = r" by (metis keyed_first option.inject)
    with q(2) r store_version show "version s \<noteq> v" by simp
  qed
  then show ?thesis by (auto simp: cas_changes_def sql_changes_zero)
qed

lemma cas_winner_row:
  assumes "distinct (map key t)" and "sql_first (\<lambda>r. key r = k) t = Some r"
    and "version r = v" and "P r"
  shows "sql_first (\<lambda>r. key r = k) (cas P k v a t) = Some (store a r)"
  using sql_first_update_key [of key "store a" k "\<lambda>r. key r = k \<and> version r = v \<and> P r" t, OF store_key]
    assms sql_first_Some [OF assms(2)] by (simp add: cas_def)

end

end
