(* ===== verification/Money.thy ===== *)
theory Money
  imports Shop_Prelude
begin

text \<open>
  \<^verbatim>\<open>src/lib/money.ts\<close>, \<^verbatim>\<open>src/lib/units.ts\<close> and
  \<^verbatim>\<open>src/features/suppliers/money.ts\<close>: amounts travel as decimal strings and
  are computed on as BigInt counts of minor units. The lemmas relate every conversion to
  the exact rational value of the string: parsing rounds as asked, printing and parsing
  are inverse, and converted amounts are rounded up by less than one unit.
\<close>

section \<open>Digit strings\<close>

definition digit :: "char \<Rightarrow> bool" where
  "digit c \<longleftrightarrow> 48 \<le> (of_char c :: nat) \<and> (of_char c :: nat) \<le> 57"

definition nonzero_digit :: "char \<Rightarrow> bool" where
  "nonzero_digit c \<longleftrightarrow> 49 \<le> (of_char c :: nat) \<and> (of_char c :: nat) \<le> 57"

definition digit_value :: "char \<Rightarrow> nat" where
  "digit_value c = of_char c - 48"

definition digit_char :: "nat \<Rightarrow> char" where
  "digit_char n = char_of (n + 48)"

text \<open>BigInt of a string of digits; the empty string reads as \<open>0n\<close>.\<close>

definition digits_value :: "string \<Rightarrow> nat" where
  "digits_value s = foldl (\<lambda>n c. 10 * n + digit_value c) 0 s"

text \<open>\<^verbatim>\<open>toString\<close> of a non-negative BigInt.\<close>

fun nat_string :: "nat \<Rightarrow> string" where
  "nat_string n = (if n < 10 then [digit_char n] else nat_string (n div 10) @ [digit_char (n mod 10)])"

declare nat_string.simps [simp del]

definition big_string :: "int \<Rightarrow> string" where
  "big_string i = (if i < 0 then CHR ''-'' # nat_string (nat (- i)) else nat_string (nat i))"

text \<open>\<^verbatim>\<open>padEnd\<close>, \<^verbatim>\<open>padStart\<close> with ''0''.\<close>

definition pad_end :: "nat \<Rightarrow> string \<Rightarrow> string" where
  "pad_end n s = s @ replicate (n - length s) (CHR ''0'')"

definition pad_start :: "nat \<Rightarrow> string \<Rightarrow> string" where
  "pad_start n s = replicate (n - length s) (CHR ''0'') @ s"

definition strip_zeros :: "string \<Rightarrow> string" where
  "strip_zeros s = rev (dropWhile (\<lambda>c. c = CHR ''0'') (rev s))"

text \<open>The parts of a decimal string before and after its first dot.\<close>

definition whole_part :: "string \<Rightarrow> string" where
  "whole_part s = takeWhile (\<lambda>c. c \<noteq> CHR ''.'') s"

definition fraction_part :: "string \<Rightarrow> string" where
  "fraction_part s = drop 1 (dropWhile (\<lambda>c. c \<noteq> CHR ''.'') s)"

text \<open>\<^verbatim>\<open>/^(0|[1-9]\d*)(\.\d+)?$/\<close>\<close>

definition canonical_whole :: "string \<Rightarrow> bool" where
  "canonical_whole w \<longleftrightarrow>
     w = ''0'' \<or> (w \<noteq> [] \<and> nonzero_digit (hd w) \<and> list_all digit (tl w))"

definition decimal_pattern :: "string \<Rightarrow> bool" where
  "decimal_pattern s \<longleftrightarrow>
     canonical_whole (whole_part s) \<and>
     (CHR ''.'' \<in> set s \<longrightarrow> fraction_part s \<noteq> [] \<and> list_all digit (fraction_part s))"

section \<open>Operations of money.ts\<close>

datatype rounding = Reject | Down | Up

definition decimal_to_units :: "string \<Rightarrow> int \<Rightarrow> rounding \<Rightarrow> int result" where
  "decimal_to_units value decimals r =
     (if decimals < 0 \<or> decimals > 30 then Inl RangeError
      else if \<not> decimal_pattern value then Inl TypeError
      else
        (let d = nat decimals; whole = whole_part value; fraction = fraction_part value in
         if length fraction \<le> d then Inr (int (digits_value (whole @ pad_end d fraction)))
         else
           (let kept = take d fraction;
                discarded = drop d fraction;
                base = int (digits_value (whole @ kept))
            in
            if r = Reject \<and> list_ex nonzero_digit discarded then Inl RangeError
            else if r = Up \<and> list_ex nonzero_digit discarded then Inr (base + 1)
            else Inr base)))"

definition units_to_decimal :: "int \<Rightarrow> nat \<Rightarrow> string result" where
  "units_to_decimal value decimals =
     (if value < 0 then Inl RangeError
      else if decimals = 0 then Inr (big_string value)
      else
        (let padded = pad_start (decimals + 1) (big_string value);
             whole = take (length padded - decimals) padded;
             fraction = strip_zeros (drop (length padded - decimals) padded)
         in Inr (if fraction \<noteq> [] then whole @ ''.'' @ fraction else whole)))"

definition quantize_units_up :: "int \<Rightarrow> int \<Rightarrow> int \<Rightarrow> (int \<times> int) result" where
  "quantize_units_up value decimals maximum_decimals =
     (if value < 0 then Inl RangeError
      else if decimals < 0 \<or> decimals > 30 then Inl RangeError
      else if maximum_decimals < 0 \<or> maximum_decimals > 30 then Inl RangeError
      else
        (let step = 10 ^ nat (max 0 (decimals - maximum_decimals))
         in Inr (step, big_quot (value + step - 1) step * step)))"

definition decimal_places :: "string \<Rightarrow> nat" where
  "decimal_places value = length (takeWhile (\<lambda>c. c \<noteq> CHR ''.'') (fraction_part value))"

definition convert_by_rate :: "string \<Rightarrow> nat \<Rightarrow> string \<Rightarrow> nat \<Rightarrow> nat \<Rightarrow> string result" where
  "convert_by_rate amount amount_decimals rate rate_decimals output_decimals =
     (case decimal_to_units amount (int amount_decimals) Reject of
        Inl e \<Rightarrow> Inl e
      | Inr amount_units \<Rightarrow>
          (case decimal_to_units rate (int rate_decimals) Reject of
             Inl e \<Rightarrow> Inl e
           | Inr rate_units \<Rightarrow>
               (let numerator = amount_units * rate_units * 10 ^ output_decimals;
                    denominator = 10 ^ (amount_decimals + rate_decimals)
                in units_to_decimal (ceil_div numerator denominator) output_decimals)))"

definition divide_by_rate :: "string \<Rightarrow> nat \<Rightarrow> string \<Rightarrow> nat \<Rightarrow> nat \<Rightarrow> string result" where
  "divide_by_rate amount amount_decimals rate rate_decimals output_decimals =
     (case decimal_to_units amount (int amount_decimals) Reject of
        Inl e \<Rightarrow> Inl e
      | Inr amount_units \<Rightarrow>
          (case decimal_to_units rate (int rate_decimals) Reject of
             Inl e \<Rightarrow> Inl e
           | Inr rate_units \<Rightarrow>
               if rate_units \<le> 0 then Inl RangeError
               else
                 (let numerator = amount_units * 10 ^ (rate_decimals + output_decimals);
                      denominator = rate_units * 10 ^ amount_decimals
                  in units_to_decimal (ceil_div numerator denominator) output_decimals)))"

text \<open>\<^verbatim>\<open>src/lib/units.ts\<close>\<close>

definition decimal_to_minor :: "string \<Rightarrow> int \<Rightarrow> int result" where
  "decimal_to_minor amount decimals = decimal_to_units amount decimals Reject"

definition minor_to_decimal :: "int \<Rightarrow> nat \<Rightarrow> string result" where
  "minor_to_decimal amount_minor decimals = units_to_decimal amount_minor decimals"

section \<open>Operations of suppliers/money.ts\<close>

definition js_space :: "char \<Rightarrow> bool" where
  "js_space c \<longleftrightarrow> (of_char c :: nat) = 32 \<or> (9 \<le> (of_char c :: nat) \<and> (of_char c :: nat) \<le> 13)"

definition js_trim :: "string \<Rightarrow> string" where
  "js_trim s = rev (dropWhile js_space (rev (dropWhile js_space s)))"

definition supplier_decimal_to_minor :: "string \<Rightarrow> int \<Rightarrow> int result" where
  "supplier_decimal_to_minor value decimals =
     (if decimals < 0 \<or> decimals > 8 then Inl (DomainError ''invalid_supplier_money'' 502)
      else
        (let v = js_trim value; fraction = fraction_part v in
         if \<not> decimal_pattern v \<or> int (length fraction) > decimals
         then Inl (DomainError ''invalid_supplier_money'' 502)
         else Inr (int (digits_value (whole_part v)) * 10 ^ nat decimals
                   + int (digits_value (pad_end (nat decimals) fraction)))))"

definition max_safe_integer :: int where
  "max_safe_integer = 9007199254740991"

definition multiply_minor :: "string \<Rightarrow> int \<Rightarrow> int result" where
  "multiply_minor unit_minor quantity =
     (if \<not> canonical_whole unit_minor \<or> \<bar>quantity\<bar> > max_safe_integer \<or> quantity < 1
      then Inl (DomainError ''invalid_supplier_money'' 500)
      else Inr (int (digits_value unit_minor) * quantity))"

definition markup_minor :: "string \<Rightarrow> string \<Rightarrow> int \<Rightarrow> int result" where
  "markup_minor cost_minor fixed_minor markup_bps =
     (if \<not> canonical_whole cost_minor \<or> \<not> canonical_whole fixed_minor
         \<or> \<bar>markup_bps\<bar> > max_safe_integer \<or> markup_bps < 0
      then Inl (DomainError ''invalid_supplier_money'' 500)
      else
        (let cost = int (digits_value cost_minor);
             proportional = big_quot (cost * (10000 + markup_bps) + 9999) 10000
         in Inr (proportional + int (digits_value fixed_minor))))"

section \<open>Digit-string lemmas\<close>

lemma digit_value_char [simp]: "n < 10 \<Longrightarrow> digit_value (digit_char n) = n"
  by (simp add: digit_value_def digit_char_def)

lemma digit_digit_char [simp]: "n < 10 \<Longrightarrow> digit (digit_char n)"
  by (simp add: digit_def digit_char_def)

lemma nonzero_digit_char [simp]: "n < 10 \<Longrightarrow> nonzero_digit (digit_char n) \<longleftrightarrow> n \<noteq> 0"
  by (auto simp: nonzero_digit_def digit_char_def)

lemma digit_zero [simp]: "digit (CHR ''0'')" "digit_value (CHR ''0'') = 0" "\<not> digit (CHR ''.'')"
  by (simp_all add: digit_def digit_value_def)

lemma digit_char_zero: "digit_char 0 = CHR ''0''"
  by code_simp

lemma digits_value_append:
  "digits_value (xs @ ys) = digits_value xs * 10 ^ length ys + digits_value ys"
proof -
  have gen: "foldl (\<lambda>n c. 10 * n + digit_value c) a zs
      = a * 10 ^ length zs + foldl (\<lambda>n c. 10 * n + digit_value c) 0 zs" for a zs
  proof (induction zs arbitrary: a)
    case Nil
    then show ?case by simp
  next
    case (Cons z zs)
    show ?case using Cons.IH [of "10 * a + digit_value z"] Cons.IH [of "digit_value z"]
      by (simp add: algebra_simps)
  qed
  show ?thesis unfolding digits_value_def foldl_append by (rule gen)
qed

lemma digits_value_Nil [simp]: "digits_value [] = 0"
  by (simp add: digits_value_def)

lemma digits_value_single [simp]: "digits_value [c] = digit_value c"
  by (simp add: digits_value_def)

lemma digits_value_Cons:
  "digits_value (c # s) = digit_value c * 10 ^ length s + digits_value s"
  using digits_value_append [of "[c]" s] by simp

lemma digits_value_zeros [simp]: "digits_value (replicate n (CHR ''0'')) = 0"
  by (induction n) (simp_all add: digits_value_Cons)

lemma digits_value_pad_end:
  "digits_value (pad_end n s) = digits_value s * 10 ^ (n - length s)"
  by (simp add: pad_end_def digits_value_append)

lemma digits_value_pad_start [simp]: "digits_value (pad_start n s) = digits_value s"
  by (simp add: pad_start_def digits_value_append)

lemma digit_value_le: "digit c \<Longrightarrow> digit_value c \<le> 9"
  unfolding digit_def digit_value_def by arith

lemma digits_value_less: "list_all digit s \<Longrightarrow> digits_value s < 10 ^ length s"
proof (induction s)
  case Nil
  then show ?case by simp
next
  case (Cons c s)
  then have "digit_value c * 10 ^ length s + digits_value s < 9 * 10 ^ length s + 10 ^ length s"
    using digit_value_le [of c] by (intro add_le_less_mono mult_right_mono) auto
  then show ?case by (simp add: digits_value_Cons)
qed

lemma digits_value_eq_0:
  "list_all digit s \<Longrightarrow> digits_value s = 0 \<longleftrightarrow> \<not> list_ex nonzero_digit s"
  by (induction s) (auto simp: digits_value_Cons digit_def nonzero_digit_def digit_value_def)

lemma nat_string_value [simp]: "digits_value (nat_string n) = n"
proof (induction n rule: nat_string.induct)
  case (1 n)
  show ?case
  proof (cases "n < 10")
    case True
    then show ?thesis by (simp add: nat_string.simps [of n])
  next
    case False
    with 1 show ?thesis by (simp add: nat_string.simps [of n] digits_value_append)
  qed
qed

lemma nat_string_digits: "list_all digit (nat_string n)"
proof (induction n rule: nat_string.induct)
  case (1 n)
  then show ?case by (cases "n < 10") (simp_all add: nat_string.simps [of n])
qed

lemma nat_string_head: "nat_string n \<noteq> [] \<and> (0 < n \<longrightarrow> nonzero_digit (hd (nat_string n)))"
proof (induction n rule: nat_string.induct)
  case (1 n)
  then show ?case by (cases "n < 10") (auto simp: nat_string.simps [of n])
qed

lemma list_all_tl: "list_all P s \<Longrightarrow> list_all P (tl s)"
  by (cases s) simp_all

lemma canonical_nat_string: "canonical_whole (nat_string n)"
proof (cases "n = 0")
  case True
  then show ?thesis by (simp add: canonical_whole_def nat_string.simps [of 0] digit_char_zero)
next
  case False
  then show ?thesis
    using nat_string_head [of n] nat_string_digits [of n]
    by (simp add: canonical_whole_def list_all_tl)
qed

lemma canonical_whole_digits: "canonical_whole w \<Longrightarrow> list_all digit w"
  by (cases w) (auto simp: canonical_whole_def nonzero_digit_def digit_def)

lemma canonical_whole_nonempty: "canonical_whole w \<Longrightarrow> w \<noteq> []"
  by (auto simp: canonical_whole_def)

lemma digits_no_dot: "list_all digit s \<Longrightarrow> CHR ''.'' \<notin> set s"
  by (auto simp: list_all_iff)

section \<open>Parsing: agreement with the rational value\<close>

text \<open>A decimal string denotes \<open>decimal_numerator s / 10 ^ length (fraction_part s)\<close>.\<close>

definition decimal_numerator :: "string \<Rightarrow> nat" where
  "decimal_numerator s = digits_value (whole_part s @ fraction_part s)"

lemma decimal_fraction_digits: "decimal_pattern s \<Longrightarrow> list_all digit (fraction_part s)"
proof (cases "CHR ''.'' \<in> set s")
  case False
  then have "dropWhile (\<lambda>c. c \<noteq> CHR ''.'') s = []" by (auto simp: dropWhile_eq_Nil_conv)
  then have "fraction_part s = []" unfolding fraction_part_def by (simp only: drop_Nil)
  then show ?thesis by simp
qed (simp add: decimal_pattern_def)

lemma units_padded:
  assumes "length f \<le> d"
  shows "digits_value (w @ pad_end d f) * 10 ^ length f = digits_value (w @ f) * 10 ^ d"
proof -
  have len: "length (pad_end d f) = d" using assms by (simp add: pad_end_def)
  have "(10::nat) ^ (d - length f) * 10 ^ length f = 10 ^ d"
    using assms by (simp add: power_add [symmetric])
  then show ?thesis
    by (simp add: digits_value_append digits_value_pad_end len add_mult_distrib mult.assoc)
qed

text \<open>Splitting the numerator at \<open>d\<close> fraction digits: quotient and remainder by a power of ten.\<close>

lemma units_split:
  assumes "d \<le> length f" and "list_all digit f"
  shows "digits_value (w @ f)
       = digits_value (w @ take d f) * 10 ^ (length f - d) + digits_value (drop d f)"
    and "digits_value (drop d f) < 10 ^ (length f - d)"
proof -
  have "digits_value ((w @ take d f) @ drop d f)
      = digits_value (w @ take d f) * 10 ^ length (drop d f) + digits_value (drop d f)"
    by (rule digits_value_append)
  then show "digits_value (w @ f)
       = digits_value (w @ take d f) * 10 ^ (length f - d) + digits_value (drop d f)"
    by simp
  have "list_all digit (drop d f)"
    using assms(2) by (metis append_take_drop_id list_all_append)
  then show "digits_value (drop d f) < 10 ^ (length f - d)"
    using digits_value_less [of "drop d f"] by simp
qed

lemma scaled_div:
  fixes b r d k :: nat
  assumes "r < 10 ^ k"
  shows "(b * 10 ^ k + r) * 10 ^ d div 10 ^ (k + d) = b"
    and "10 ^ (k + d) dvd (b * 10 ^ k + r) * 10 ^ d \<longleftrightarrow> r = 0"
proof -
  have "(b * 10 ^ k + r) div 10 ^ k = b" using assms by simp
  then show "(b * 10 ^ k + r) * 10 ^ d div 10 ^ (k + d) = b"
    by (simp add: power_add)
  have "10 ^ (k + d) dvd (b * 10 ^ k + r) * 10 ^ d \<longleftrightarrow> (10 :: nat) ^ k dvd b * 10 ^ k + r"
    by (simp add: power_add)
  also have "\<dots> \<longleftrightarrow> 10 ^ k dvd r" by (simp add: dvd_add_right_iff)
  also have "\<dots> \<longleftrightarrow> r = 0" using assms nat_dvd_not_less by blast
  finally show "10 ^ (k + d) dvd (b * 10 ^ k + r) * 10 ^ d \<longleftrightarrow> r = 0" .
qed

definition units_of_rational :: "nat \<Rightarrow> nat \<Rightarrow> rounding \<Rightarrow> int result" where
  "units_of_rational n q r =
     (case r of
        Reject \<Rightarrow> if q dvd n then Inr (int (n div q)) else Inl RangeError
      | Down \<Rightarrow> Inr (int (n div q))
      | Up \<Rightarrow> Inr (if q dvd n then int (n div q) else int (n div q) + 1))"

text \<open>
  C15. Reading a decimal string into minor units agrees with the rational number it denotes:
  exact, rejected, rounded down or rounded up as asked.
\<close>

lemma decimal_to_units_rational:
  assumes pat: "decimal_pattern s" and d: "d \<le> 30"
  shows "decimal_to_units s (int d) r
       = units_of_rational (decimal_numerator s * 10 ^ d) (10 ^ length (fraction_part s)) r"
proof (cases "length (fraction_part s) \<le> d")
  case True
  have eq: "decimal_numerator s * 10 ^ d
      = digits_value (whole_part s @ pad_end d (fraction_part s)) * 10 ^ length (fraction_part s)"
    using units_padded [OF True, of "whole_part s"] by (simp add: decimal_numerator_def)
  show ?thesis
    unfolding eq units_of_rational_def decimal_to_units_def
    using True pat d by (simp split: rounding.split)
next
  case False
  let ?f = "fraction_part s" and ?w = "whole_part s"
  let ?k = "length ?f - d" and ?D = "digits_value (drop d ?f)"
  let ?b = "digits_value (?w @ take d ?f)"
  from False have le: "d \<le> length ?f" by simp
  note split = units_split(1) [OF le decimal_fraction_digits [OF pat], of ?w]
    units_split(2) [OF le decimal_fraction_digits [OF pat]]
  have num: "decimal_numerator s = ?b * 10 ^ ?k + ?D"
    by (simp add: decimal_numerator_def split(1))
  have len: "length ?f = ?k + d" using le by simp
  have q: "decimal_numerator s * 10 ^ d div 10 ^ length ?f = ?b"
    using scaled_div(1) [OF split(2), of ?b d] num len by metis
  have dv: "10 ^ length ?f dvd decimal_numerator s * 10 ^ d \<longleftrightarrow> ?D = 0"
    using scaled_div(2) [OF split(2), of d ?b] num len by metis
  have "list_all digit (drop d ?f)"
    using decimal_fraction_digits [OF pat] by (metis append_take_drop_id list_all_append)
  then have nz: "list_ex nonzero_digit (drop d ?f) \<longleftrightarrow> ?D \<noteq> 0" by (simp add: digits_value_eq_0)
  show ?thesis
    unfolding units_of_rational_def q dv decimal_to_units_def
    using False pat d by (simp add: Let_def nz split: rounding.split)
qed

lemma decimal_to_units_rational_witness:
  "decimal_to_units ''1.505'' (int 2) Up = units_of_rational (decimal_numerator ''1.505'' * 10 ^ 2) (10 ^ length (fraction_part ''1.505'')) Up
   \<and> decimal_to_units ''1.505'' 2 Up = Inr 151"
proof -
  have "decimal_pattern ''1.505''" by code_simp
  moreover have "decimal_to_units ''1.505'' 2 Up = Inr 151" by code_simp
  ultimately show ?thesis using decimal_to_units_rational [of "''1.505''" 2 Up] by simp
qed

section \<open>Printing, and parsing what was printed\<close>

lemma strip_zeros_zeros: "\<exists>n. s = strip_zeros s @ replicate n (CHR ''0'')"
proof (induction s rule: rev_induct)
  case Nil
  show ?case by (simp add: strip_zeros_def)
next
  case (snoc c s)
  show ?case
  proof (cases "c = CHR ''0''")
    case True
    then have "strip_zeros (s @ [c]) = strip_zeros s" by (simp add: strip_zeros_def)
    moreover obtain n where "s = strip_zeros s @ replicate n (CHR ''0'')" using snoc.IH by blast
    ultimately have "s @ [c] = strip_zeros (s @ [c]) @ replicate (Suc n) (CHR ''0'')"
      using True by (metis append_assoc replicate_append_same replicate_Suc)
    then show ?thesis by blast
  next
    case False
    then have "strip_zeros (s @ [c]) = s @ [c]" by (simp add: strip_zeros_def)
    then have "s @ [c] = strip_zeros (s @ [c]) @ replicate 0 (CHR ''0'')" by simp
    then show ?thesis by blast
  qed
qed

lemma strip_zeros_pad: "pad_end (length s) (strip_zeros s) = s"
proof -
  obtain n where n: "s = strip_zeros s @ replicate n (CHR ''0'')" using strip_zeros_zeros by blast
  then have "length s = length (strip_zeros s) + n" by (metis length_append length_replicate)
  then have "length s - length (strip_zeros s) = n" by simp
  with n show ?thesis unfolding pad_end_def by metis
qed

lemma strip_zeros_length: "length (strip_zeros s) \<le> length s"
  using strip_zeros_zeros [of s] by (metis length_append le_add1)

lemma strip_zeros_digits: "list_all digit s \<Longrightarrow> list_all digit (strip_zeros s)"
  using strip_zeros_zeros [of s] by (metis list_all_append)

lemma whole_part_dot:
  assumes "list_all digit w"
  shows "whole_part (w @ CHR ''.'' # f) = w \<and> fraction_part (w @ CHR ''.'' # f) = f"
proof -
  have nd: "\<And>x. x \<in> set w \<Longrightarrow> x \<noteq> CHR ''.''" using digits_no_dot [OF assms] by blast
  show ?thesis
    unfolding whole_part_def fraction_part_def
    using takeWhile_append2 [of w "\<lambda>c. c \<noteq> CHR ''.''" "CHR ''.'' # f"]
      dropWhile_append2 [of w "\<lambda>c. c \<noteq> CHR ''.''" "CHR ''.'' # f"] nd by simp
qed

lemma whole_part_no_dot:
  assumes "list_all digit w"
  shows "whole_part w = w \<and> fraction_part w = []"
proof -
  have nd: "\<And>x. x \<in> set w \<Longrightarrow> x \<noteq> CHR ''.''" using digits_no_dot [OF assms] by blast
  have dw: "dropWhile (\<lambda>c. c \<noteq> CHR ''.'') w = []"
    using nd by (auto simp: dropWhile_eq_Nil_conv)
  show ?thesis
    unfolding whole_part_def fraction_part_def dw drop_Nil
    using takeWhile_append2 [of w "\<lambda>c. c \<noteq> CHR ''.''" "[]"] nd by simp
qed

lemma canonical_take:
  assumes "canonical_whole s" and "0 < n" and "n \<le> length s"
  shows "canonical_whole (take n s)"
proof -
  from assms obtain c t where s: "s = c # t" by (cases s) auto
  obtain m where n: "n = Suc m" using assms by (cases n) auto
  show ?thesis
  proof (cases "s = ''0''")
    case True
    with assms show ?thesis by simp
  next
    case False
    with assms(1) s have "nonzero_digit c" "list_all digit t" by (auto simp: canonical_whole_def)
    then show ?thesis
      using s n by (auto simp: canonical_whole_def list_all_iff dest: in_set_takeD)
  qed
qed

text \<open>The padded print of \<open>value\<close> splits into a canonical whole part and \<open>d\<close> fraction digits.\<close>

lemma padded_split:
  fixes v d :: nat
  assumes d: "0 < d"
  defines "p \<equiv> pad_start (d + 1) (nat_string v)"
  shows "canonical_whole (take (length p - d) p)"
    and "length (drop (length p - d) p) = d"
    and "list_all digit (drop (length p - d) p)"
    and "digits_value p = v"
proof -
  have len: "d + 1 \<le> length p" by (simp add: p_def pad_start_def)
  show "length (drop (length p - d) p) = d" using len by simp
  have dig: "list_all digit p"
    by (auto simp: p_def pad_start_def nat_string_digits list_all_iff
        dest: nat_string_digits [unfolded list_all_iff, rule_format])
  then show "list_all digit (drop (length p - d) p)"
    by (metis append_take_drop_id list_all_append)
  show "digits_value p = v" by (simp add: p_def)
  show "canonical_whole (take (length p - d) p)"
  proof (cases "length (nat_string v) \<le> d")
    case True
    then have l: "length p = d + 1"
      and p: "p = CHR ''0'' # replicate (d - length (nat_string v)) (CHR ''0'') @ nat_string v"
      by (simp_all add: p_def pad_start_def Suc_diff_le)
    from l have "length p - d = 1" by simp
    moreover have "take 1 p = ''0''" by (simp add: p)
    ultimately show ?thesis by (simp add: canonical_whole_def)
  next
    case False
    then have "p = nat_string v" by (simp add: p_def pad_start_def)
    with False canonical_nat_string [of v] show ?thesis
      by (simp add: canonical_take)
  qed
qed

lemma units_to_decimal_zero_places:
  "0 \<le> v \<Longrightarrow> units_to_decimal v 0 = Inr (nat_string (nat v))"
  by (simp add: units_to_decimal_def big_string_def)

lemma units_to_decimal_shape:
  assumes v: "0 \<le> v"
  obtains s where "units_to_decimal v d = Inr s" and "decimal_pattern s"
    and "length (fraction_part s) \<le> d"
    and "digits_value (whole_part s @ pad_end d (fraction_part s)) = nat v"
proof (cases "d = 0")
  case True
  have "decimal_pattern (nat_string (nat v))"
    using whole_part_no_dot [OF nat_string_digits [of "nat v"]] canonical_nat_string [of "nat v"]
      digits_no_dot [OF nat_string_digits [of "nat v"]]
    by (simp add: decimal_pattern_def)
  with that [of "nat_string (nat v)"] True v whole_part_no_dot [OF nat_string_digits [of "nat v"]]
  show ?thesis by (simp add: units_to_decimal_zero_places pad_end_def)
next
  case False
  define p where "p = pad_start (d + 1) (nat_string (nat v))"
  define w where "w = take (length p - d) p"
  define fr where "fr = drop (length p - d) p"
  note ps = padded_split [of d "nat v", folded p_def, folded w_def fr_def]
  from False have d: "0 < d" by simp
  have w: "canonical_whole w" "list_all digit w" using ps(1) [OF d] canonical_whole_digits by auto
  have pad: "pad_end d (strip_zeros fr) = fr" using strip_zeros_pad [of fr] ps(2) [OF d] by simp
  have sl: "length (strip_zeros fr) \<le> d" using strip_zeros_length [of fr] ps(2) [OF d] by simp
  have val: "digits_value (w @ fr) = nat v" using ps(4) [OF d] by (simp add: w_def fr_def)
  have res: "units_to_decimal v d
      = Inr (if strip_zeros fr \<noteq> [] then w @ ''.'' @ strip_zeros fr else w)"
    using v d by (simp add: units_to_decimal_def big_string_def p_def w_def fr_def Let_def)
  show ?thesis
  proof (cases "strip_zeros fr = []")
    case True
    with res have r: "units_to_decimal v d = Inr w" by simp
    show ?thesis
    proof (rule that [OF r])
      show "decimal_pattern w"
        using w whole_part_no_dot [OF w(2)] digits_no_dot [OF w(2)] by (simp add: decimal_pattern_def)
      show "length (fraction_part w) \<le> d" using whole_part_no_dot [OF w(2)] by simp
      show "digits_value (whole_part w @ pad_end d (fraction_part w)) = nat v"
        using whole_part_no_dot [OF w(2)] pad True val by simp
    qed
  next
    case False
    let ?s = "w @ CHR ''.'' # strip_zeros fr"
    from res False have r: "units_to_decimal v d = Inr ?s" by simp
    note dot = whole_part_dot [OF w(2), of "strip_zeros fr"]
    show ?thesis
    proof (rule that [OF r])
      show "decimal_pattern ?s"
        using w dot False strip_zeros_digits [OF ps(3) [OF d]] by (simp add: decimal_pattern_def)
      show "length (fraction_part ?s) \<le> d" using dot sl by simp
      show "digits_value (whole_part ?s @ pad_end d (fraction_part ?s)) = nat v"
        using dot pad val by simp
    qed
  qed
qed

lemma units_decimal_roundtrip:
  assumes "0 \<le> v" and "d \<le> 30"
  shows "\<exists>s. units_to_decimal v d = Inr s \<and> decimal_to_units s (int d) r = Inr v"
proof -
  obtain s where s: "units_to_decimal v d = Inr s" "decimal_pattern s"
    "length (fraction_part s) \<le> d"
    "digits_value (whole_part s @ pad_end d (fraction_part s)) = nat v"
    using units_to_decimal_shape [OF assms(1)] by blast
  then have "decimal_to_units s (int d) r = Inr v"
    using assms by (simp add: decimal_to_units_def Let_def)
  with s show ?thesis by blast
qed



section \<open>Rate conversion and rounding up\<close>

text \<open>
  Whenever a conversion returns, the printed amount is the exact product (quotient) rounded
  up: at least the exact value and less than one output unit above it.
\<close>

definition rounded_up :: "int \<Rightarrow> int \<Rightarrow> int \<Rightarrow> bool" where
  "rounded_up u n d \<longleftrightarrow> n \<le> u * d \<and> (u - 1) * d < n"

lemma ceil_div_rounded_up: "0 \<le> n \<Longrightarrow> 0 < d \<Longrightarrow> rounded_up (ceil_div n d) n d"
  by (simp add: rounded_up_def ceil_div_ge ceil_div_less)

lemma rounded_up_unique:
  assumes "0 < d" and "rounded_up u n d" and "rounded_up w n d"
  shows "u = w"
proof -
  from assms(2,3) have "(u - 1) * d < w * d" "(w - 1) * d < u * d"
    unfolding rounded_up_def by linarith+
  with assms(1) have "u - 1 < w" "w - 1 < u" by (meson mult_less_cancel_right_pos)+
  then show ?thesis by simp
qed

lemma decimal_to_units_nonneg: "decimal_to_units s d r = Inr u \<Longrightarrow> 0 \<le> u"
  by (auto simp: decimal_to_units_def Let_def split: if_splits)

lemma convert_by_rate_units:
  assumes a: "decimal_to_units amount (int ad) Reject = Inr a"
    and r: "decimal_to_units rate (int rd) Reject = Inr q" and od: "od \<le> 30"
  shows "\<exists>s u. convert_by_rate amount ad rate rd od = Inr s
    \<and> decimal_to_units s (int od) Reject = Inr u
    \<and> rounded_up u (a * q * 10 ^ od) (10 ^ (ad + rd))"
proof -
  let ?n = "a * q * 10 ^ od" and ?d = "10 ^ (ad + rd) :: int"
  have n: "0 \<le> ?n" using decimal_to_units_nonneg [OF a] decimal_to_units_nonneg [OF r] by simp
  have d: "0 < ?d" by simp
  obtain s where "units_to_decimal (ceil_div ?n ?d) od = Inr s"
    "decimal_to_units s (int od) Reject = Inr (ceil_div ?n ?d)"
    using units_decimal_roundtrip [OF ceil_div_nonneg [OF n d] od] by blast
  with a r ceil_div_rounded_up [OF n d] show ?thesis
    by (auto simp: convert_by_rate_def Let_def)
qed

lemma divide_by_rate_units:
  assumes a: "decimal_to_units amount (int ad) Reject = Inr a"
    and r: "decimal_to_units rate (int rd) Reject = Inr q" and q: "0 < q" and od: "od \<le> 30"
  shows "\<exists>s u. divide_by_rate amount ad rate rd od = Inr s
    \<and> decimal_to_units s (int od) Reject = Inr u
    \<and> rounded_up u (a * 10 ^ (rd + od)) (q * 10 ^ ad)"
proof -
  let ?n = "a * 10 ^ (rd + od)" and ?d = "q * 10 ^ ad"
  have n: "0 \<le> ?n" using decimal_to_units_nonneg [OF a] by simp
  have d: "0 < ?d" using q by simp
  obtain s where "units_to_decimal (ceil_div ?n ?d) od = Inr s"
    "decimal_to_units s (int od) Reject = Inr (ceil_div ?n ?d)"
    using units_decimal_roundtrip [OF ceil_div_nonneg [OF n d] od] by blast
  with a r q ceil_div_rounded_up [OF n d] show ?thesis
    by (auto simp: divide_by_rate_def Let_def)
qed

lemma divide_by_zero_rate:
  "decimal_to_units amount (int ad) Reject = Inr a \<Longrightarrow> decimal_to_units rate (int rd) Reject = Inr 0
    \<Longrightarrow> divide_by_rate amount ad rate rd od = Inl RangeError"
  by (simp add: divide_by_rate_def)

lemma quantize_least_multiple:
  assumes "quantize_units_up v d m = Inr (step, amount)"
  shows "step dvd amount \<and> rounded_up (amount div step) v step"
proof -
  from assms have v: "0 \<le> v"
    and step: "step = 10 ^ nat (max 0 (d - m))" and amount: "amount = ceil_div v step * step"
    by (auto simp: quantize_units_up_def ceil_div_def Let_def split: if_splits)
  have pos: "0 < step" by (simp add: step)
  with amount have "amount div step = ceil_div v step" by simp
  with ceil_div_rounded_up [OF v pos] amount show ?thesis by simp
qed

lemma quantize_least_multiple_witness:
  "quantize_units_up 1234567 6 2 = Inr (10000, 1240000)
   \<and> 10000 dvd (1240000 :: int) \<and> rounded_up 124 1234567 10000"
proof -
  have q: "quantize_units_up 1234567 6 2 = Inr (10000, 1240000)" by code_simp
  then show ?thesis using quantize_least_multiple [OF q] by simp
qed

section \<open>Supplier money\<close>

lemma supplier_decimal_agrees:
  assumes "supplier_decimal_to_minor s d = Inr u"
  shows "decimal_to_units (js_trim s) d Reject = Inr u"
proof -
  let ?v = "js_trim s"
  from assms have d: "0 \<le> d" "d \<le> 8" and pat: "decimal_pattern ?v"
    and len: "length (fraction_part ?v) \<le> nat d"
    and u: "u = int (digits_value (whole_part ?v)) * 10 ^ nat d
              + int (digits_value (pad_end (nat d) (fraction_part ?v)))"
    by (auto simp: supplier_decimal_to_minor_def Let_def split: if_splits)
  have pl: "length (pad_end (nat d) (fraction_part ?v)) = nat d"
    using len by (simp add: pad_end_def)
  from d pat len u show ?thesis
    by (simp add: decimal_to_units_def Let_def digits_value_append pl)
qed

lemma supplier_decimal_agrees_witness:
  "supplier_decimal_to_minor '' 12.5 '' 2 = Inr 1250 \<and> decimal_to_units (js_trim '' 12.5 '') 2 Reject = Inr 1250"
proof -
  have q: "supplier_decimal_to_minor '' 12.5 '' 2 = Inr 1250" by code_simp
  then show ?thesis using supplier_decimal_agrees [OF q] by simp
qed

lemma markup_covers_cost:
  assumes "markup_minor cost fixed bps = Inr p"
  shows "int (digits_value cost) + int (digits_value fixed) \<le> p
    \<and> int (digits_value cost) * (10000 + bps) \<le> (p - int (digits_value fixed)) * 10000"
proof -
  let ?c = "int (digits_value cost)" and ?f = "int (digits_value fixed)"
  from assms have bps: "0 \<le> bps"
    and p: "p = big_quot (?c * (10000 + bps) + 9999) 10000 + ?f"
    by (auto simp: markup_minor_def Let_def split: if_splits)
  have n: "0 \<le> ?c * (10000 + bps)" using bps by simp
  have "p - ?f = ceil_div (?c * (10000 + bps)) 10000" by (simp add: p ceil_div_def add.commute)
  then have ge: "?c * (10000 + bps) \<le> (p - ?f) * 10000"
    using ceil_div_ge [OF n] by simp
  have "?c * 10000 \<le> ?c * (10000 + bps)" using bps by (intro mult_left_mono) auto
  from this ge have "?c * 10000 \<le> (p - ?f) * 10000" by (rule order_trans)
  then have "?c \<le> p - ?f" by simp
  with ge show ?thesis by simp
qed

lemma markup_covers_cost_witness:
  "markup_minor ''1001'' ''50'' 1500 = Inr 1202
   \<and> int (digits_value ''1001'') + int (digits_value ''50'') \<le> 1202"
proof -
  have q: "markup_minor ''1001'' ''50'' 1500 = Inr 1202" by code_simp
  then show ?thesis using markup_covers_cost [OF q] by simp
qed

end
