(* ===== verification/Rates.thy ===== *)
theory Rates
  imports Money
begin

text \<open>
  Payment fees (\<^verbatim>\<open>src/features/shop-payments/fees.ts\<close>), exchange rates
  (\<^verbatim>\<open>src/features/exchange-rates/rates.ts\<close>) and the immutable quote of a
  payment currency (\<^verbatim>\<open>src/features/exchange-rates/server/quote.ts\<close>).
  Amounts are BigInt values here; the strings around them are the prints and parses of
  theory \<^theory_text>\<open>Money\<close>. The number of decimals of a currency comes from the platform's
  Intl data and is a parameter, \<open>currency_decimals\<close>.
\<close>

section \<open>Fees\<close>

definition gross_up_payment_amount :: "int \<Rightarrow> int \<Rightarrow> int \<Rightarrow> int result" where
  "gross_up_payment_amount amount fee_bps fixed =
     (if fee_bps < 0 \<or> fee_bps \<ge> 10000 \<or> amount < 0 \<or> fixed < 0
      then Inl (DomainError ''payment_channel_fee_invalid'' 500)
      else
        (let numerator = (amount + fixed) * 10000;
             denominator = 10000 - fee_bps
         in Inr (ceil_div numerator denominator)))"

definition payment_surcharge_amount :: "int \<Rightarrow> int \<Rightarrow> int \<Rightarrow> int result" where
  "payment_surcharge_amount amount fee_bps fixed =
     (case gross_up_payment_amount amount fee_bps fixed of
        Inl e \<Rightarrow> Inl e
      | Inr gross \<Rightarrow> Inr (gross - amount))"

definition payment_processing_fee_amount :: "int \<Rightarrow> int \<Rightarrow> int \<Rightarrow> int result" where
  "payment_processing_fee_amount amount fee_bps fixed =
     (if fee_bps < 0 \<or> fee_bps \<ge> 10000 \<or> amount < 0 \<or> fixed < 0
      then Inl (DomainError ''payment_channel_fee_invalid'' 500)
      else
        (let proportional = big_quot (amount * fee_bps + (if fee_bps > 0 then 9999 else 0)) 10000
         in Inr (proportional + fixed)))"

text \<open>
  What the provider keeps of a charge is the processing fee of the charged amount; the
  charge is the least amount whose net, before rounding the fee, still covers the price.
\<close>

lemma gross_up_rounded:
  assumes "gross_up_payment_amount a bps f = Inr g"
  shows "rounded_up g ((a + f) * 10000) (10000 - bps)"
proof -
  from assms have c: "0 \<le> bps" "bps < 10000" "0 \<le> a" "0 \<le> f"
    and g: "g = ceil_div ((a + f) * 10000) (10000 - bps)"
    by (auto simp: gross_up_payment_amount_def Let_def split: if_splits)
  show ?thesis unfolding g by (rule ceil_div_rounded_up) (use c in simp_all)
qed

lemma processing_fee_rounded:
  assumes "payment_processing_fee_amount g bps f = Inr fee"
  shows "rounded_up (fee - f) (g * bps) 10000"
proof -
  from assms have c: "0 \<le> bps" "0 \<le> g"
    and fee: "fee = big_quot (g * bps + (if bps > 0 then 9999 else 0)) 10000 + f"
    by (auto simp: payment_processing_fee_amount_def Let_def split: if_splits)
  have n: "0 \<le> g * bps" using c by simp
  have "fee - f = ceil_div (g * bps) 10000"
    using c by (cases "bps = 0") (auto simp: fee ceil_div_def big_quot_def add.commute)
  then show ?thesis using ceil_div_rounded_up [OF n] by simp
qed

lemma gross_up_covers:
  assumes g: "gross_up_payment_amount a bps f = Inr g"
    and fee: "payment_processing_fee_amount g bps f = Inr fee"
  shows "a \<le> g - fee"
proof -
  from gross_up_rounded [OF g] have "(a + f) * 10000 \<le> g * (10000 - bps)"
    by (simp add: rounded_up_def)
  moreover from processing_fee_rounded [OF fee] have "(fee - f - 1) * 10000 < g * bps"
    by (simp add: rounded_up_def)
  ultimately have "(a + f) * 10000 + (fee - f - 1) * 10000 < g * 10000"
    by (simp add: right_diff_distrib)
  then have "(a + fee - 1) * 10000 < g * 10000" by (simp add: algebra_simps)
  then show ?thesis by simp
qed

lemma gross_up_covers_witness:
  "gross_up_payment_amount 10000 290 30 = Inr 10330 \<and> payment_processing_fee_amount 10330 290 30 = Inr 330
   \<and> (10000 :: int) \<le> 10330 - 330"
proof -
  have g: "gross_up_payment_amount 10000 290 30 = Inr 10330" by code_simp
  have f: "payment_processing_fee_amount 10330 290 30 = Inr 330" by code_simp
  show ?thesis using gross_up_covers [OF g f] g f by simp
qed

section \<open>Exchange rates\<close>

text \<open>\<^verbatim>\<open>/^(?:0\.(?:0*?[1-9]\d*)|[1-9]\d*(?:\.\d+)?)$/\<close>: a positive decimal.\<close>

definition exchange_rate_pattern :: "string \<Rightarrow> bool" where
  "exchange_rate_pattern s \<longleftrightarrow>
     (if whole_part s = ''0''
      then CHR ''.'' \<in> set s \<and> list_all digit (fraction_part s) \<and> list_ex nonzero_digit (fraction_part s)
      else decimal_pattern s)"

definition inverse_adjusted_rate :: "string \<Rightarrow> int \<Rightarrow> string result" where
  "inverse_adjusted_rate raw_rate adjustment_bps =
     (if \<not> exchange_rate_pattern raw_rate then Inl TypeError
      else if adjustment_bps \<le> -10000 \<or> adjustment_bps > 100000 then Inl RangeError
      else
        (let decimals = decimal_places raw_rate in
         case decimal_to_units raw_rate (int decimals) Reject of
           Inl e \<Rightarrow> Inl e
         | Inr raw \<Rightarrow>
             (let units = big_quot (raw * 10000 * 10 ^ 12) (10000 + adjustment_bps) in
              if units \<le> 0 then Inl RangeError else units_to_decimal units (decimals + 12))))"

definition apply_rate_adjustment :: "string \<Rightarrow> int \<Rightarrow> string result" where
  "apply_rate_adjustment rate adjustment_bps =
     (if \<not> exchange_rate_pattern rate then Inl TypeError
      else if adjustment_bps \<le> -10000 \<or> adjustment_bps > 100000 then Inl RangeError
      else
        (let decimals = decimal_places rate in
         case decimal_to_units rate (int decimals) Reject of
           Inl e \<Rightarrow> Inl e
         | Inr units \<Rightarrow> units_to_decimal (units * (10000 + adjustment_bps)) (decimals + 4)))"

datatype direction = Multiply | Divide

definition upper_char :: "char \<Rightarrow> char" where
  "upper_char c = (if 97 \<le> (of_char c :: nat) \<and> (of_char c :: nat) \<le> 122
                   then char_of ((of_char c :: nat) - 32) else c)"

definition to_upper :: "string \<Rightarrow> string" where
  "to_upper s = map upper_char s"

record converted =
  cv_amount_minor :: int
  cv_currency :: string
  cv_decimals :: nat

definition convert_minor_amount ::
    "(string \<Rightarrow> nat) \<Rightarrow> int \<Rightarrow> nat \<Rightarrow> string \<Rightarrow> string \<Rightarrow> direction \<Rightarrow> converted result" where
  "convert_minor_amount currency_decimals amount_minor from_decimals to_currency rate direction =
     (let output_decimals = currency_decimals (to_upper to_currency) in
      case minor_to_decimal amount_minor from_decimals of
        Inl e \<Rightarrow> Inl e
      | Inr amount \<Rightarrow>
          (let rate_decimals = decimal_places rate in
           case (if direction = Multiply
                 then convert_by_rate amount from_decimals rate rate_decimals output_decimals
                 else divide_by_rate amount from_decimals rate rate_decimals output_decimals) of
             Inl e \<Rightarrow> Inl e
           | Inr converted \<Rightarrow>
               (case decimal_to_units converted (int output_decimals) Reject of
                  Inl e \<Rightarrow> Inl e
                | Inr units \<Rightarrow>
                    Inr \<lparr>cv_amount_minor = units, cv_currency = to_upper to_currency,
                         cv_decimals = output_decimals\<rparr>)))"

section \<open>The payment-currency quote\<close>

record exchange_rate =
  er_id :: string
  er_base :: string
  er_quote :: string
  er_raw_rate :: string
  er_rate :: string
  er_source :: string
  er_adjustment_bps :: int
  er_observed_at :: int
  er_sort_order :: int
  er_enabled :: bool

datatype quote_direction = Parity | Rated direction

record currency_quote =
  cq_amount_minor :: int
  cq_currency :: string
  cq_decimals :: nat
  cq_rate_id :: "string option"
  cq_rate :: string
  cq_direction :: quote_direction
  cq_source :: string
  cq_adjustment_bps :: int
  cq_observed_at :: int

definition find_rate :: "exchange_rate list \<Rightarrow> string \<Rightarrow> string \<Rightarrow> exchange_rate option" where
  "find_rate rates currency payment_currency =
     sql_first_by
       (\<lambda>r. (if er_base r = currency then 0 else 1 :: int, er_sort_order r, - er_observed_at r, er_id r))
       (\<lambda>r. (er_base r = currency \<and> er_quote r = payment_currency
             \<or> er_base r = payment_currency \<and> er_quote r = currency) \<and> er_enabled r)
       rates"

definition quote_payment_currency ::
    "(string \<Rightarrow> nat) \<Rightarrow> exchange_rate list \<Rightarrow> int \<Rightarrow> int \<Rightarrow> string \<Rightarrow> nat \<Rightarrow> string \<Rightarrow> currency_quote result" where
  "quote_payment_currency currency_decimals rates now amount_minor currency0 decimals payment_currency0 =
     (let currency = to_upper currency0; payment_currency = to_upper payment_currency0 in
      if currency = payment_currency then
        Inr \<lparr>cq_amount_minor = amount_minor, cq_currency = currency, cq_decimals = decimals,
             cq_rate_id = None, cq_rate = ''1'', cq_direction = Parity, cq_source = ''parity'',
             cq_adjustment_bps = 0, cq_observed_at = now\<rparr>
      else
        (case find_rate rates currency payment_currency of
           None \<Rightarrow> Inl (DomainError ''exchange_rate_unavailable'' 409)
         | Some rate \<Rightarrow>
             (let direction = (if er_base rate = currency then Multiply else Divide) in
              case (if direction = Divide \<and> er_adjustment_bps rate \<noteq> 0
                    then inverse_adjusted_rate (er_raw_rate rate) (er_adjustment_bps rate)
                    else Inr (er_rate rate)) of
                Inl e \<Rightarrow> Inl e
              | Inr effective_rate \<Rightarrow>
                  (case convert_minor_amount currency_decimals amount_minor decimals
                          payment_currency effective_rate direction of
                     Inl e \<Rightarrow> Inl e
                   | Inr c \<Rightarrow>
                       Inr \<lparr>cq_amount_minor = cv_amount_minor c, cq_currency = cv_currency c,
                            cq_decimals = cv_decimals c, cq_rate_id = Some (er_id rate),
                            cq_rate = effective_rate, cq_direction = Rated direction,
                            cq_source = er_source rate,
                            cq_adjustment_bps = er_adjustment_bps rate,
                            cq_observed_at = er_observed_at rate\<rparr>))))"

section \<open>Which rate is used, and what the payer pays\<close>

lemma decimal_places_fraction:
  assumes "decimal_pattern s"
  shows "decimal_places s = length (fraction_part s)"
proof -
  have "\<forall>c\<in>set (fraction_part s). c \<noteq> CHR ''.''"
    using digits_no_dot [OF decimal_fraction_digits [OF assms]] by blast
  then have "takeWhile (\<lambda>c. c \<noteq> CHR ''.'') (fraction_part s) = fraction_part s"
    by (simp only: takeWhile_eq_all_conv)
  then show ?thesis unfolding decimal_places_def by (simp only:)
qed

lemma decimal_to_units_pattern: "decimal_to_units s d r = Inr u \<Longrightarrow> decimal_pattern s \<and> 0 \<le> d \<and> d \<le> 30"
  by (auto simp: decimal_to_units_def split: if_splits)

text \<open>Reading a printed amount back at its own scale loses only the stripped zeros.\<close>

lemma printed_units_rescale:
  assumes pr: "units_to_decimal v d = Inr s" and v: "0 \<le> v"
    and q: "decimal_to_units s (int (decimal_places s)) Reject = Inr q"
  shows "decimal_places s \<le> d \<and> v = q * 10 ^ (d - decimal_places s)"
proof -
  obtain s' where s': "units_to_decimal v d = Inr s'" "decimal_pattern s'"
    "length (fraction_part s') \<le> d"
    "digits_value (whole_part s' @ pad_end d (fraction_part s')) = nat v"
    using units_to_decimal_shape [OF v] by blast
  with pr have eq: "s' = s" by simp
  let ?f = "fraction_part s" and ?w = "whole_part s"
  have pl: "decimal_places s = length ?f" using s' eq decimal_places_fraction by simp
  with q have qv: "q = int (digits_value (?w @ ?f))"
    by (auto simp: decimal_to_units_def pad_end_def Let_def split: if_splits)
  have "nat v = digits_value (?w @ ?f) * 10 ^ (d - length ?f)"
  proof -
    have "pad_end d ?f = ?f @ replicate (d - length ?f) (CHR ''0'')" by (simp add: pad_end_def)
    then have "?w @ pad_end d ?f = (?w @ ?f) @ replicate (d - length ?f) (CHR ''0'')" by simp
    then have "digits_value (?w @ pad_end d ?f) = digits_value (?w @ ?f) * 10 ^ (d - length ?f)"
      by (simp only: digits_value_append [of "?w @ ?f"] length_replicate digits_value_zeros add_0_right)
    with s' eq show ?thesis by simp
  qed
  then have "int (nat v) = int (digits_value (?w @ ?f) * 10 ^ (d - length ?f))" by (simp only:)
  then have "v = int (digits_value (?w @ ?f) * 10 ^ (d - length ?f))" using v by (simp only: int_nat_eq if_True)
  with qv pl s' eq show ?thesis by simp
qed

lemma convert_minor_Inr:
  assumes c: "convert_minor_amount cd a fd cur rate dir = Inr c" and od: "cd (to_upper cur) \<le> 30"
    and fd: "fd \<le> 30"
  obtains q where "decimal_to_units rate (int (decimal_places rate)) Reject = Inr q"
    and "0 \<le> a" and "dir = Multiply \<Longrightarrow> rounded_up (cv_amount_minor c)
             (a * q * 10 ^ cd (to_upper cur)) (10 ^ (fd + decimal_places rate))"
    and "dir = Divide \<Longrightarrow> 0 < q \<and> rounded_up (cv_amount_minor c)
             (a * 10 ^ (decimal_places rate + cd (to_upper cur))) (q * 10 ^ fd)"
proof -
  have a: "0 \<le> a" using c
    by (auto simp: convert_minor_amount_def minor_to_decimal_def units_to_decimal_def Let_def
        split: sum.splits if_splits)
  obtain s where s: "units_to_decimal a fd = Inr s" "decimal_to_units s (int fd) Reject = Inr a"
    using units_decimal_roundtrip [OF a fd] by blast
  show thesis
  proof (cases "decimal_to_units rate (int (decimal_places rate)) Reject")
    case (Inl e)
    with c s show thesis
      by (auto simp: convert_minor_amount_def minor_to_decimal_def convert_by_rate_def
          divide_by_rate_def Let_def split: sum.splits if_splits)
  next
    case (Inr q)
    show thesis
    proof (cases dir)
      case Multiply
      from convert_by_rate_units [OF s(2) Inr od] obtain t u where
        "convert_by_rate s fd rate (decimal_places rate) (cd (to_upper cur)) = Inr t"
        "decimal_to_units t (int (cd (to_upper cur))) Reject = Inr u"
        "rounded_up u (a * q * 10 ^ cd (to_upper cur)) (10 ^ (fd + decimal_places rate))" by blast
      with c s Multiply that [OF Inr a] show thesis
        by (auto simp: convert_minor_amount_def minor_to_decimal_def Let_def)
    next
      case Divide
      have q: "0 < q"
      proof (rule ccontr)
        assume "\<not> 0 < q"
        with decimal_to_units_nonneg [OF Inr] have "q = 0" by simp
        with c s Divide Inr divide_by_zero_rate [OF s(2), of rate "decimal_places rate"] show False
          by (simp add: convert_minor_amount_def minor_to_decimal_def Let_def)
      qed
      from divide_by_rate_units [OF s(2) Inr q od] obtain t u where
        "divide_by_rate s fd rate (decimal_places rate) (cd (to_upper cur)) = Inr t"
        "decimal_to_units t (int (cd (to_upper cur))) Reject = Inr u"
        "rounded_up u (a * 10 ^ (decimal_places rate + cd (to_upper cur))) (q * 10 ^ fd)" by blast
      with c s Divide q that [OF Inr a] show thesis
        by (auto simp: convert_minor_amount_def minor_to_decimal_def Let_def)
    qed
  qed
qed

lemma inverse_adjusted_units:
  assumes "inverse_adjusted_rate raw_rate bps = Inr s"
  obtains raw u where "decimal_to_units raw_rate (int (decimal_places raw_rate)) Reject = Inr raw"
    and "units_to_decimal u (decimal_places raw_rate + 12) = Inr s"
    and "0 < u" and "-10000 < bps" and "u * (10000 + bps) \<le> raw * 10000 * 10 ^ 12"
proof -
  from assms obtain raw where raw: "decimal_to_units raw_rate (int (decimal_places raw_rate)) Reject = Inr raw"
    by (auto simp: inverse_adjusted_rate_def Let_def split: if_splits sum.splits)
  let ?n = "raw * 10000 * 10 ^ 12" and ?u = "big_quot (raw * 10000 * 10 ^ 12) (10000 + bps)"
  from assms raw have bps: "-10000 < bps" and u: "0 < ?u" "units_to_decimal ?u (decimal_places raw_rate + 12) = Inr s"
    by (auto simp: inverse_adjusted_rate_def Let_def split: if_splits)
  have n: "0 \<le> ?n" using decimal_to_units_nonneg [OF raw] by simp
  have "?u * (10000 + bps) = ?n div (10000 + bps) * (10000 + bps)"
    using n bps by (simp add: div_simps)
  also have "\<dots> = ?n - ?n mod (10000 + bps)" by (rule minus_mod_eq_div_mult [symmetric])
  also have "\<dots> \<le> ?n" using bps by simp
  finally show thesis using that raw u bps by blast
qed

text \<open>
  A divided payment never costs the shop its adjustment: the payer pays at least the price
  times \<open>(10000 + bps) / 10000\<close> over the raw rate.
\<close>

lemma inverse_quote_favours_shop:
  assumes r: "inverse_adjusted_rate raw_rate bps = Inr s"
    and c: "convert_minor_amount cd a fd cur s Divide = Inr c"
    and od: "cd (to_upper cur) \<le> 30" and fd: "fd \<le> 30"
    and raw: "decimal_to_units raw_rate (int (decimal_places raw_rate)) Reject = Inr raw"
  shows "a * (10000 + bps) * 10 ^ (decimal_places raw_rate + cd (to_upper cur))
       \<le> cv_amount_minor c * raw * 10000 * 10 ^ fd"
proof -
  let ?o = "cd (to_upper cur)" and ?p = "decimal_places raw_rate" and ?x = "cv_amount_minor c"
  obtain u where u: "units_to_decimal u (?p + 12) = Inr s" "0 < u" "-10000 < bps"
    "u * (10000 + bps) \<le> raw * 10000 * 10 ^ 12"
    using inverse_adjusted_units [OF r] raw by (metis sum.inject(2))
  obtain q where q: "decimal_to_units s (int (decimal_places s)) Reject = Inr q" "0 \<le> a" "0 < q"
    and ru: "rounded_up ?x (a * 10 ^ (decimal_places s + ?o)) (q * 10 ^ fd)"
    using convert_minor_Inr [OF c od fd] by metis
  from printed_units_rescale [OF u(1) _ q(1)] u(2)
  have ps: "decimal_places s \<le> ?p + 12" and uq: "u = q * 10 ^ (?p + 12 - decimal_places s)" by auto
  let ?z = "10 ^ (?p + 12 - decimal_places s) :: int"
  from ru have "a * 10 ^ (decimal_places s + ?o) \<le> ?x * (q * 10 ^ fd)" by (simp add: rounded_up_def)
  then have "a * 10 ^ (decimal_places s + ?o) * ?z \<le> ?x * (q * 10 ^ fd) * ?z"
    by (rule mult_right_mono) simp
  moreover have "(10 :: int) ^ (decimal_places s + ?o) * ?z = 10 ^ (?p + ?o) * 10 ^ 12"
  proof -
    have "decimal_places s + ?o + (?p + 12 - decimal_places s) = ?p + ?o + 12" using ps by simp
    then show ?thesis by (metis power_add)
  qed
  ultimately have le: "a * 10 ^ (?p + ?o) * 10 ^ 12 \<le> ?x * u * 10 ^ fd"
    by (simp only: uq mult.assoc mult.commute mult.left_commute)
  have x: "0 \<le> ?x"
  proof (rule ccontr)
    assume "\<not> 0 \<le> ?x"
    with q(3) have "?x * (q * 10 ^ fd) < 0" by (simp add: mult_neg_pos)
    with ru q(2) show False unfolding rounded_up_def
      by (meson mult_nonneg_nonneg not_le order_trans zero_le_numeral zero_le_power)
  qed
  have "a * 10 ^ (?p + ?o) * 10 ^ 12 * (10000 + bps) \<le> ?x * u * 10 ^ fd * (10000 + bps)"
    by (rule mult_right_mono [OF le]) (use u in simp)
  also have "\<dots> = ?x * 10 ^ fd * (u * (10000 + bps))" by (simp add: algebra_simps)
  also have "\<dots> \<le> ?x * 10 ^ fd * (raw * 10000 * 10 ^ 12)"
    by (rule mult_left_mono [OF u(4)]) (use x in simp)
  finally have "(a * (10000 + bps) * 10 ^ (?p + ?o)) * 10 ^ 12 \<le> (?x * raw * 10000 * 10 ^ fd) * 10 ^ 12"
    by (simp only: mult.assoc mult.commute mult.left_commute)
  then show ?thesis by (rule mult_right_le_imp_le) simp
qed

lemma inverse_quote_favours_shop_witness:
  "inverse_adjusted_rate ''2.5'' (-5000) = Inr ''5''
   \<and> convert_minor_amount (\<lambda>_. 2) 101 2 ''usd'' ''5'' Divide
       = Inr \<lparr> cv_amount_minor = 21, cv_currency = ''USD'', cv_decimals = 2 \<rparr>
   \<and> 101 * 5000 * 10 ^ 3 \<le> (21 :: int) * 25 * 10000 * 10 ^ 2"
proof -
  have pat: "exchange_rate_pattern ''2.5''" and p2: "decimal_places ''2.5'' = 1"
    and raw1: "decimal_to_units ''2.5'' 1 Reject = Inr 25" by code_simp+
  have n: "nat_string 50000000000000 = ''50000000000000''"
    by (simp add: nat_string.simps digit_char_def char_of_def bit_Suc_0_iff)
  have "units_to_decimal 50000000000000 13 = Inr ''5''"
    by (simp add: units_to_decimal_def big_string_def n pad_start_def strip_zeros_def)
  then have r: "inverse_adjusted_rate ''2.5'' (-5000) = Inr ''5''"
    using pat by (simp add: inverse_adjusted_rate_def Let_def p2 raw1 div_simps)
  have c: "convert_minor_amount (\<lambda>_. 2) 101 2 ''usd'' ''5'' Divide
      = Inr \<lparr> cv_amount_minor = 21, cv_currency = ''USD'', cv_decimals = 2 \<rparr>" by code_simp
  have raw: "decimal_to_units ''2.5'' (int (decimal_places ''2.5'')) Reject = Inr 25"
    using raw1 by (simp add: p2)
  show ?thesis using inverse_quote_favours_shop [OF r c _ _ raw] r c p2 by simp
qed

end
