(* ===== verification/Apportion.thy ===== *)
theory Apportion
  imports Shop_Prelude "HOL-Library.Multiset"
begin

text \<open>
  Largest-remainder division of an amount over weights, the computation that
  \<^verbatim>\<open>pricePromotion\<close> (\<^verbatim>\<open>src/features/promotions/pricing.ts\<close>) and
  \<^verbatim>\<open>promotionRefundSplit\<close> (\<^verbatim>\<open>src/features/promotions/server/refunds.ts\<close>)
  share: every weight gets the truncated share, and the units left over go one each to the
  largest remainders, ties in a given order. The locale \<open>apportionment\<close> is the interface
  its two clients rely on.
\<close>

section \<open>The computation\<close>

text \<open>
  The loop over the sorted copy: \<^verbatim>\<open>if (left === 0n) break; row.amount += 1n; left -= 1n\<close>,
  with rows named by their position, since the sorted copy shares the row objects.
\<close>

fun bump :: "int \<Rightarrow> nat list \<Rightarrow> int list \<Rightarrow> int list" where
  "bump left [] amounts = amounts"
| "bump left (i # is) amounts =
     (if left = 0 then amounts else bump (left - 1) is (amounts[i := amounts ! i + 1]))"

definition shares :: "int \<Rightarrow> int \<Rightarrow> int list \<Rightarrow> int list" where
  "shares denom tot ws = map (\<lambda>w. big_quot (tot * w) denom) ws"

definition remainders :: "int \<Rightarrow> int \<Rightarrow> int list \<Rightarrow> int list" where
  "remainders denom tot ws = map (\<lambda>w. big_rem (tot * w) denom) ws"

definition remainder_order :: "(nat \<Rightarrow> 'k::linorder) \<Rightarrow> int list \<Rightarrow> nat list" where
  "remainder_order tie rems = sort_key (\<lambda>i. (- (rems ! i), tie i)) [0..<length rems]"

definition apportion :: "(nat \<Rightarrow> 'k::linorder) \<Rightarrow> int \<Rightarrow> int \<Rightarrow> int list \<Rightarrow> int list" where
  "apportion tie denom tot ws =
     (let amounts = shares denom tot ws
      in bump (tot - sum_list amounts) (remainder_order tie (remainders denom tot ws)) amounts)"

section \<open>Its laws\<close>

lemma length_bump [simp]: "length (bump left is am) = length am"
  by (induction left "is" am rule: bump.induct) auto

lemma bump_nth:
  assumes "0 \<le> left" and "distinct is" and "\<forall>j\<in>set is. j < length am" and "i < length am"
  shows "bump left is am ! i = am ! i + (if i \<in> set (take (nat left) is) then 1 else 0)"
  using assms
proof (induction left "is" am rule: bump.induct)
  case (1 left am)
  then show ?case by simp
next
  case (2 left j js am)
  show ?case
  proof (cases "left = 0")
    case True
    then show ?thesis by simp
  next
    case False
    let ?am = "am[j := am ! j + 1]"
    obtain m where m: "nat left = Suc m" using False "2.prems"(1) by (cases "nat left") auto
    then have m': "nat (left - 1) = m" by simp
    have "bump (left - 1) js ?am ! i = ?am ! i + (if i \<in> set (take m js) then 1 else 0)"
      using "2.IH" False "2.prems" m' by auto
    moreover have "j \<notin> set (take m js)" using "2.prems"(2) by (auto dest: in_set_takeD)
    ultimately show ?thesis using False m "2.prems" by (auto simp: nth_list_update)
  qed
qed

lemma sum_list_bump:
  assumes "0 \<le> left" and "\<forall>j\<in>set is. j < length am"
  shows "sum_list (bump left is am) = sum_list am + min left (int (length is))"
  using assms
proof (induction left "is" am rule: bump.induct)
  case (1 left am)
  then show ?case by simp
next
  case (2 left j js am)
  show ?case
  proof (cases "left = 0")
    case True
    then show ?thesis by simp
  next
    case False
    have "sum_list (am[j := am ! j + 1]) = sum_list am + 1"
      using "2.prems"(2) by (simp add: sum_list_update_int)
    with False 2 show ?thesis by simp
  qed
qed

lemma descending_take_positive:
  fixes xs :: "int list"
  shows "sorted (map uminus xs) \<Longrightarrow> k \<le> length (filter (\<lambda>x. 0 < x) xs) \<Longrightarrow> x \<in> set (take k xs) \<Longrightarrow> 0 < x"
proof (induction xs arbitrary: k)
  case Nil
  then show ?case by simp
next
  case (Cons y ys)
  show ?case
  proof (cases "0 < y")
    case True
    with Cons show ?thesis by (cases k) auto
  next
    case False
    with Cons.prems(1) have "filter (\<lambda>x. 0 < x) (y # ys) = []" by (auto simp: filter_empty_conv)
    with Cons.prems show ?thesis by simp
  qed
qed

lemma sum_less_count:
  fixes xs :: "int list"
  assumes "\<forall>x\<in>set xs. 0 \<le> x \<and> x < d" and "0 < d"
  shows "sum_list xs \<le> int (length (filter (\<lambda>x. 0 < x) xs)) * d"
  using assms(1)
proof (induction xs)
  case Nil
  then show ?case by simp
next
  case (Cons x xs)
  then have "sum_list xs \<le> int (length (filter (\<lambda>x. 0 < x) xs)) * d" by simp
  with Cons.prems show ?case by (cases "0 < x") (simp_all add: algebra_simps)
qed

lemma set_remainder_order [simp]: "set (remainder_order tie rems) = {0..<length rems}"
  by (simp add: remainder_order_def)

lemma distinct_remainder_order [simp]: "distinct (remainder_order tie rems)"
  by (simp add: remainder_order_def)

lemma length_remainder_order [simp]: "length (remainder_order tie rems) = length rems"
  by (simp add: remainder_order_def)

lemma remainder_order_descending:
  "sorted (map uminus (map (nth rems) (remainder_order tie rems)))"
proof -
  have "sorted (map (\<lambda>i. (- (rems ! i), tie i)) (remainder_order tie rems))"
    by (simp add: remainder_order_def)
  then show ?thesis
    by (simp add: sorted_wrt_map o_def) (rule sorted_wrt_mono_rel, auto)
qed

lemma remainder_order_positive:
  assumes "k \<le> length (filter (\<lambda>x. 0 < x) rems)" and "i \<in> set (take k (remainder_order tie rems))"
  shows "0 < rems ! i"
proof -
  let ?o = "remainder_order tie rems"
  have "mset ?o = mset [0..<length rems]" by (simp add: remainder_order_def)
  then have "mset (map (nth rems) ?o) = mset (map (nth rems) [0..<length rems])" by (metis mset_map)
  then have "mset (map (nth rems) ?o) = mset rems" by (simp only: map_nth)
  then have "size (filter_mset (\<lambda>x. 0 < x) (mset (map (nth rems) ?o)))
      = size (filter_mset (\<lambda>x. 0 < x) (mset rems))" by (simp only:)
  then have c: "length (filter (\<lambda>x. 0 < x) (map (nth rems) ?o)) = length (filter (\<lambda>x. 0 < x) rems)"
    by (simp only: mset_filter [symmetric] size_mset)
  have "rems ! i \<in> set (take k (map (nth rems) ?o))" using assms(2) by (simp add: take_map)
  with descending_take_positive [OF remainder_order_descending] c assms(1) show ?thesis by metis
qed

text \<open>
  With non-negative weights summing to the denominator, the amounts left over are covered
  by positive remainders, so the parts sum to the total and none exceeds its rounded-up share.
\<close>

lemma apportion_laws:
  assumes w: "\<forall>w\<in>set ws. 0 \<le> w" and d: "denom = sum_list ws" "0 < denom" and t: "0 \<le> tot"
    and p: "ps = apportion tie denom tot ws"
  shows "length ps = length ws" and "sum_list ps = tot"
    and "i < length ws \<Longrightarrow> tot * (ws ! i) div denom \<le> ps ! i"
    and "i < length ws \<Longrightarrow> (ps ! i - 1) * denom < tot * (ws ! i) \<or> ps ! i = 0"
proof -
  let ?am = "shares denom tot ws" and ?re = "remainders denom tot ws"
  let ?left = "tot - sum_list ?am" and ?o = "remainder_order tie ?re"
  have am: "?am = map (\<lambda>w. tot * w div denom) ws" using w d t by (simp add: shares_def div_simps)
  have re: "?re = map (\<lambda>w. tot * w mod denom) ws" using w d t by (simp add: remainders_def div_simps)
  have "sum_list (map (\<lambda>w. tot * w div denom) ws) * denom
      = sum_list (map (\<lambda>w. tot * w) ws) - sum_list (map (\<lambda>w. tot * w mod denom) ws)"
    by (induction ws) (simp_all add: algebra_simps minus_mod_eq_div_mult [symmetric])
  also have "sum_list (map (\<lambda>w. tot * w) ws) = tot * denom" by (simp add: d sum_list_const_mult)
  finally have eq: "?left * denom = sum_list ?re" by (simp add: am re left_diff_distrib)
  have bnd: "\<forall>x\<in>set ?re. 0 \<le> x \<and> x < denom" unfolding re using d(2) by auto
  have "0 \<le> sum_list ?re" using bnd by (intro sum_list_nonneg) auto
  with eq d have left: "0 \<le> ?left" by (metis mult_neg_pos not_le)
  from sum_less_count [OF bnd d(2)] eq d
  have cnt: "?left \<le> int (length (filter (\<lambda>x. 0 < x) ?re))" by (metis mult_le_cancel_right_pos)
  have lens: "length ?re = length ws" "length ?am = length ws"
    by (simp_all add: remainders_def shares_def)
  have o: "\<forall>j\<in>set ?o. j < length ?am" by (simp add: lens)
  have "length (filter (\<lambda>x. 0 < x) ?re) \<le> length ws" using lens by (metis length_filter_le)
  with cnt have lle: "?left \<le> int (length ?o)" by (simp add: lens)
  show "length ps = length ws" by (simp add: p apportion_def Let_def lens)
  show "sum_list ps = tot"
    using sum_list_bump [OF left o] lle by (simp add: p apportion_def Let_def)
  assume i: "i < length ws"
  have nth: "ps ! i = tot * (ws ! i) div denom + (if i \<in> set (take (nat ?left) ?o) then 1 else 0)"
    using bump_nth [OF left distinct_remainder_order o, of i] i lens
    by (simp add: p apportion_def Let_def am)
  then show "tot * (ws ! i) div denom \<le> ps ! i" by simp
  have div: "tot * (ws ! i) div denom * denom = tot * (ws ! i) - tot * (ws ! i) mod denom"
    by (rule minus_mod_eq_div_mult [symmetric])
  show "(ps ! i - 1) * denom < tot * (ws ! i) \<or> ps ! i = 0"
  proof (cases "i \<in> set (take (nat ?left) ?o)")
    case True
    have "0 < ?re ! i" using remainder_order_positive [OF _ True] cnt by simp
    then have "0 < tot * (ws ! i) mod denom" using i by (simp add: re)
    with div nth True show ?thesis by simp
  next
    case False
    have m: "0 \<le> tot * (ws ! i) mod denom" using d(2) by simp
    have "(ps ! i - 1) * denom = tot * (ws ! i) - tot * (ws ! i) mod denom - denom"
      using nth False div by (simp add: left_diff_distrib)
    with m d(2) have "(ps ! i - 1) * denom < tot * (ws ! i)" by linarith
    then show ?thesis ..
  qed
qed

lemma apportion_bounded:
  assumes w: "\<forall>w\<in>set ws. 0 \<le> w" and d: "denom = sum_list ws" "0 < denom"
    and t: "0 \<le> tot" "tot \<le> denom" and i: "i < length ws"
  shows "0 \<le> apportion tie denom tot ws ! i" and "apportion tie denom tot ws ! i \<le> ws ! i"
proof -
  let ?p = "apportion tie denom tot ws ! i"
  note laws = apportion_laws [OF w d t(1) refl, where tie = tie]
  have wi: "0 \<le> ws ! i" using w i by simp
  have "0 \<le> tot * (ws ! i) div denom" using wi t d by (simp add: pos_imp_zdiv_nonneg_iff)
  with laws(3) [OF i] show "0 \<le> ?p" by simp
  show "?p \<le> ws ! i"
  proof (cases "?p = 0")
    case True
    with wi show ?thesis by simp
  next
    case False
    with laws(4) [OF i] have "(?p - 1) * denom < tot * (ws ! i)" by simp
    also have "\<dots> \<le> ws ! i * denom"
      using mult_right_mono [OF t(2) wi] by (simp add: mult.commute)
    finally have "?p - 1 < ws ! i" using d by (simp add: mult_less_cancel_right)
    then show ?thesis by simp
  qed
qed

section \<open>The interface\<close>

text \<open>
  What a client may rely on: an amount within the available weights is split into parts,
  one per weight, none above its weight. Drawing repeatedly on what is left never overdraws a
  weight, and drawing everything empties every weight.
\<close>

locale apportionment =
  fixes split :: "int \<Rightarrow> int list \<Rightarrow> int list"
  assumes split_length: "\<forall>w\<in>set ws. 0 \<le> w \<Longrightarrow> 0 \<le> t \<Longrightarrow> t \<le> sum_list ws \<Longrightarrow> length (split t ws) = length ws"
    and split_sum: "\<forall>w\<in>set ws. 0 \<le> w \<Longrightarrow> 0 \<le> t \<Longrightarrow> t \<le> sum_list ws \<Longrightarrow> sum_list (split t ws) = t"
    and split_bounds: "\<forall>w\<in>set ws. 0 \<le> w \<Longrightarrow> 0 \<le> t \<Longrightarrow> t \<le> sum_list ws \<Longrightarrow> i < length ws
        \<Longrightarrow> 0 \<le> split t ws ! i \<and> split t ws ! i \<le> ws ! i"
begin

definition left_after :: "int \<Rightarrow> int list \<Rightarrow> int list" where
  "left_after t ws = map2 (-) ws (split t ws)"

fun drain :: "int list \<Rightarrow> int list \<Rightarrow> int list" where
  "drain [] ws = ws"
| "drain (t # ts) ws = drain ts (left_after t ws)"

lemma left_after_nonneg:
  assumes "\<forall>w\<in>set ws. 0 \<le> w" and "0 \<le> t" and "t \<le> sum_list ws"
  shows "\<forall>w\<in>set (left_after t ws). 0 \<le> w"
  using split_bounds [OF assms] split_length [OF assms]
  by (auto simp: left_after_def in_set_conv_nth)

lemma left_after_length:
  assumes "\<forall>w\<in>set ws. 0 \<le> w" and "0 \<le> t" and "t \<le> sum_list ws"
  shows "length (left_after t ws) = length ws"
  using split_length [OF assms] by (simp add: left_after_def)

lemma sum_map2_minus: "length xs = length ys \<Longrightarrow> sum_list (map2 (-) xs ys) = sum_list xs - (sum_list ys :: int)"
  by (induction xs ys rule: list_induct2) auto

lemma left_after_sum:
  assumes "\<forall>w\<in>set ws. 0 \<le> w" and "0 \<le> t" and "t \<le> sum_list ws"
  shows "sum_list (left_after t ws) = sum_list ws - t"
  using split_length [OF assms] split_sum [OF assms] by (simp add: left_after_def sum_map2_minus)

lemma drain_laws:
  assumes "\<forall>w\<in>set ws. 0 \<le> w" and "\<forall>t\<in>set ts. 0 \<le> t" and "sum_list ts \<le> sum_list ws"
  shows "(\<forall>w\<in>set (drain ts ws). 0 \<le> w) \<and> length (drain ts ws) = length ws
    \<and> sum_list (drain ts ws) = sum_list ws - sum_list ts"
  using assms
proof (induction ts arbitrary: ws)
  case Nil
  then show ?case by simp
next
  case (Cons t ts)
  have "0 \<le> sum_list ts" using Cons.prems(2) by (intro sum_list_nonneg) auto
  with Cons.prems have t: "0 \<le> t" "t \<le> sum_list ws" by auto
  note la = left_after_nonneg [OF Cons.prems(1) t] left_after_length [OF Cons.prems(1) t]
    left_after_sum [OF Cons.prems(1) t]
  from Cons.IH [OF la(1)] Cons.prems la(2,3) show ?case by simp
qed

lemma drain_everything:
  assumes "\<forall>w\<in>set ws. 0 \<le> w" and "\<forall>t\<in>set ts. 0 \<le> t" and "sum_list ts = sum_list ws"
  shows "drain ts ws = replicate (length ws) 0"
proof -
  from drain_laws [OF assms(1,2)] assms(3) have d: "\<forall>w\<in>set (drain ts ws). 0 \<le> w"
    "length (drain ts ws) = length ws" "sum_list (drain ts ws) = 0" by auto
  then have "\<forall>w\<in>set (drain ts ws). w = 0" by (simp add: sum_list_nonneg_eq_0_iff)
  with d(2) show ?thesis by (simp add: replicate_eqI)
qed

end

definition largest_remainder :: "int \<Rightarrow> int list \<Rightarrow> int list" where
  "largest_remainder tot ws = apportion (\<lambda>i. i) (sum_list ws) tot ws"

lemma apportion_zero_denom:
  "\<forall>w\<in>set ws. w = 0 \<Longrightarrow> apportion tie 0 0 ws = replicate (length ws) 0"
proof -
  assume z: "\<forall>w\<in>set ws. w = 0"
  have am: "shares 0 0 ws = replicate (length ws) 0"
    by (rule replicate_eqI) (auto simp: shares_def big_quot_def)
  have "bump 0 is xs = xs" for "is" and xs :: "int list" by (cases "is") auto
  with am show ?thesis by (simp add: apportion_def Let_def sum_list_replicate)
qed

interpretation lr: apportionment largest_remainder
proof
  fix ws :: "int list" and t :: int and i
  assume w: "\<forall>w\<in>set ws. 0 \<le> w" and t: "0 \<le> t" "t \<le> sum_list ws"
  consider "0 < sum_list ws" | "sum_list ws = 0" using t by linarith
  note c = this
  show len: "length (largest_remainder t ws) = length ws"
    by (simp add: largest_remainder_def apportion_def shares_def Let_def)
  have zero: "largest_remainder t ws = replicate (length ws) 0" if "sum_list ws = 0"
  proof -
    have "t = 0" using t that by simp
    with apportion_zero_denom [OF sum_zero_all [OF w that]] that show ?thesis
      by (simp add: largest_remainder_def)
  qed
  show "sum_list (largest_remainder t ws) = t"
    using c
  proof cases
    case 1
    then show ?thesis using apportion_laws(2) [OF w refl _ t(1) refl] by (simp add: largest_remainder_def)
  next
    case 2
    then show ?thesis using zero t by (simp add: sum_list_replicate)
  qed
  assume i: "i < length ws"
  show "0 \<le> largest_remainder t ws ! i \<and> largest_remainder t ws ! i \<le> ws ! i"
    using c
  proof cases
    case 1
    then show ?thesis using apportion_bounded [OF w refl _ t i, where tie = "\<lambda>i. i"] by (simp add: largest_remainder_def)
  next
    case 2
    then show ?thesis using zero w i by simp
  qed
qed

end
