(* ===== verification/Pricing.thy ===== *)
theory Pricing
  imports Money Apportion
begin

text \<open>
  The price of an order: unit prices (\<^verbatim>\<open>src/features/storefront/volume-pricing.ts\<close>),
  promotion budgets (\<^verbatim>\<open>src/features/promotions/pricing.ts\<close>) and the discount a
  coupon gives each line (\<^verbatim>\<open>priceStoreCoupon\<close>, \<^verbatim>\<open>eligibleLines\<close> and
  \<^verbatim>\<open>allocateDiscount\<close> of \<^verbatim>\<open>src/features/storefront/server/multi-order.ts\<close>).
  \<^verbatim>\<open>localeCompare\<close> orders by the platform's collation, which is a sort key here
  (\<open>collate\<close>).
\<close>

section \<open>Unit prices\<close>

record volume_step =
  vs_min_quantity :: int
  vs_discount :: int

record customer_step =
  cs_min_quantity :: int
  cs_price :: int
  cs_channel_prices :: "string \<rightharpoonup> int"

datatype price_source = ListPrice | VolumePrice | CustomerPrice

text \<open>The loop of \<^verbatim>\<open>deepestStep\<close>; \<open>found\<close> is its accumulator.\<close>

fun deepest_from :: "('s \<Rightarrow> int) \<Rightarrow> int \<Rightarrow> 's option \<Rightarrow> 's list \<Rightarrow> 's option" where
  "deepest_from min_quantity quantity found [] = found"
| "deepest_from min_quantity quantity found (step # steps) =
     deepest_from min_quantity quantity
       (if min_quantity step \<le> quantity
           \<and> (case found of None \<Rightarrow> True | Some f \<Rightarrow> min_quantity f < min_quantity step)
        then Some step else found) steps"

definition deepest_step :: "('s \<Rightarrow> int) \<Rightarrow> 's list \<Rightarrow> int \<Rightarrow> 's option" where
  "deepest_step min_quantity steps quantity = deepest_from min_quantity quantity None steps"

definition resolve_unit_price ::
  "int \<Rightarrow> int \<Rightarrow> string option \<Rightarrow> int \<Rightarrow> volume_step list \<Rightarrow> customer_step list \<Rightarrow> int \<times> price_source" where
  "resolve_unit_price list_price base_price channel quantity volume_steps customer_steps =
     (let after_volume =
        (case deepest_step vs_min_quantity volume_steps quantity of
           None \<Rightarrow> (list_price, ListPrice)
         | Some volume \<Rightarrow>
             (let discount = vs_discount volume
              in if discount > 0 \<and> discount < list_price \<and> list_price - discount < list_price
                 then (list_price - discount, VolumePrice) else (list_price, ListPrice)))
      in (case deepest_step cs_min_quantity customer_steps quantity of
            None \<Rightarrow> after_volume
          | Some customer \<Rightarrow>
              (let named = Option.bind channel (cs_channel_prices customer);
                   price = (case named of
                              Some p \<Rightarrow> p
                            | None \<Rightarrow> cs_price customer + (list_price - base_price))
               in if price > 0 \<and> price < fst after_volume then (price, CustomerPrice)
                  else after_volume)))"

definition purchase_maximum :: "int \<Rightarrow> int \<Rightarrow> int" where
  "purchase_maximum available_stock maximum_quantity =
     (if available_stock < 0 then maximum_quantity else min maximum_quantity available_stock)"

definition alipay_price :: "int \<Rightarrow> int option \<Rightarrow> int \<Rightarrow> int option \<Rightarrow> int" where
  "alipay_price item_price alipay price named =
     (case named of Some n \<Rightarrow> n
      | None \<Rightarrow> (case alipay of None \<Rightarrow> price | Some a \<Rightarrow> price + a - item_price))"

definition margin_minor :: "int \<Rightarrow> int \<Rightarrow> int option \<Rightarrow> int option" where
  "margin_minor price fee_bps cost =
     (case cost of None \<Rightarrow> None
      | Some c \<Rightarrow> (let net = big_quot (price * (10000 - fee_bps)) 10000 in Some (net - c)))"

section \<open>Promotion budgets\<close>

datatype promotion_purpose = Referral | Recall

record promotion_item =
  pi_id :: string
  pi_budget :: string
  pi_subtotal :: string
  pi_quantity :: int

record promotion_price =
  pp_discount :: int
  pp_reward :: int
  pp_lines :: "(string \<times> int \<times> int) list"

definition promotion_budgets :: "string list" where
  "promotion_budgets = [''0'', ''100'', ''200'', ''400'', ''800'']"

definition promotion_cap_minor :: int where
  "promotion_cap_minor = 800"

text \<open>\<^verbatim>\<open>Number.isSafeInteger\<close> and \<^verbatim>\<open>/^\d+$/\<close>.\<close>

definition promotion_item_valid :: "promotion_item \<Rightarrow> bool" where
  "promotion_item_valid item \<longleftrightarrow>
     pi_budget item \<in> set promotion_budgets
     \<and> pi_subtotal item \<noteq> [] \<and> list_all digit (pi_subtotal item)
     \<and> \<bar>pi_quantity item\<bar> \<le> max_safe_integer \<and> 1 \<le> pi_quantity item"

definition promotion_row_budget :: "promotion_purpose \<Rightarrow> promotion_item \<Rightarrow> int" where
  "promotion_row_budget purpose item =
     (let amount = int (digits_value (pi_subtotal item));
          requested = int (digits_value (pi_budget item)) * pi_quantity item;
          budget = (if requested < amount then requested else amount)
      in if purpose = Referral then big_quot budget 2 else budget)"

text \<open>
  With a zero sum the code writes zero amounts and remainders; \<open>apportion\<close> yields the same,
  since its total is then zero too (\<open>apportion_zero_denom\<close>).
\<close>

definition price_promotion ::
  "(string \<Rightarrow> 'k::linorder) \<Rightarrow> promotion_purpose \<Rightarrow> promotion_item list \<Rightarrow> promotion_price result" where
  "price_promotion collate purpose items =
     (if \<not> list_all promotion_item_valid items
      then Inl (DomainError ''promotion_configuration_invalid'' 409)
      else
        (let budgets = map (promotion_row_budget purpose) items;
             sum = sum_list budgets;
             cap = (if purpose = Referral then big_quot promotion_cap_minor 2 else promotion_cap_minor);
             tot = (if sum < cap then sum else cap);
             amounts = apportion (\<lambda>i. collate (pi_id (items ! i))) sum tot budgets
         in Inr \<lparr> pp_discount = tot,
                  pp_reward = (if purpose = Referral then tot else 0),
                  pp_lines = map2 (\<lambda>item a. (pi_id item, a, if purpose = Referral then a else 0))
                               items amounts \<rparr>))"

section \<open>Coupons over order lines\<close>

datatype coupon_purpose = Standard | Promotion promotion_purpose

datatype coupon_type = Fixed | Percentage

record coupon_row =
  c_id :: string
  c_purpose :: coupon_purpose
  c_type :: coupon_type
  c_currency :: "string option"
  c_currency_decimals :: "nat option"
  c_value_minor :: "int option"
  c_value_bps :: "int option"
  c_minimum_order :: "int option"
  c_maximum_discount :: "int option"

record coupon_scope =
  scope_products :: "string list"
  scope_tags :: "string list"

record pricing_line =
  pl_id :: string
  pl_sellable :: string
  pl_product :: string
  pl_currency :: string
  pl_decimals :: nat
  pl_promotion_budget :: string
  pl_quantity :: int
  pl_source :: price_source
  pl_subtotal :: int
  pl_discount :: int

definition assert_single_currency :: "pricing_line list \<Rightarrow> unit result" where
  "assert_single_currency lines =
     (if length (remdups (map (\<lambda>l. (pl_currency l, pl_decimals l)) lines)) \<noteq> 1
      then Inl (DomainError ''cart_currency_conflict'' 409) else Inr ())"

text \<open>
  Lines are shared objects in the code: the filtered and sorted copies hold the same objects
  the order keeps. A line is named by its position here. \<open>stored\<close> is the row
  \<^verbatim>\<open>eligibleLines\<close> reads again (\<open>None\<close> when it is gone); the scope inside is
  \<open>None\<close> when its JSON does not parse. \<open>product_tags\<close> are the rows of
  \<^verbatim>\<open>products\<close> with their tag names.
\<close>

definition eligible_lines ::
  "(string \<times> string list) list \<Rightarrow> coupon_scope option option \<Rightarrow> pricing_line list \<Rightarrow> nat list result" where
  "eligible_lines product_tags stored lines =
     (case (case stored of None \<Rightarrow> Some \<lparr> scope_products = [], scope_tags = [] \<rparr> | Some scope \<Rightarrow> scope) of
        None \<Rightarrow> Inl (DomainError ''coupon_scope_invalid'' 409)
      | Some scope \<Rightarrow>
          (if scope_products scope = [] \<and> scope_tags scope = [] then Inr [0..<length lines]
           else
             (let tagged = map fst (filter (\<lambda>p. list_ex (\<lambda>t. t \<in> set (scope_tags scope)) (snd p)
                             \<and> fst p \<in> set (map pl_product lines)) product_tags);
                  eligible = filter (\<lambda>i. pl_product (lines ! i) \<in> set (scope_products scope)
                               \<or> pl_product (lines ! i) \<in> set tagged) [0..<length lines]
              in if eligible = [] then Inl (DomainError ''coupon_scope_invalid'' 409)
                 else Inr eligible)))"

definition set_discount :: "int \<Rightarrow> pricing_line \<Rightarrow> pricing_line" where
  "set_discount d l = l \<lparr> pl_discount := d \<rparr>"

text \<open>The allocation loop over the sorted eligible lines: the new lines and the sum allocated.\<close>

fun allocate_shares :: "int \<Rightarrow> int \<Rightarrow> nat list \<Rightarrow> pricing_line list \<Rightarrow> pricing_line list \<times> int" where
  "allocate_shares tot denom [] lines = (lines, 0)"
| "allocate_shares tot denom (i # is) lines =
     (let share = big_quot (tot * pl_subtotal (lines ! i)) denom;
          (lines', allocated) = allocate_shares tot denom is (lines[i := set_discount share (lines ! i)])
      in (lines', share + allocated))"

definition coupon_total :: "coupon_row \<Rightarrow> int \<Rightarrow> int" where
  "coupon_total coupon eligible_subtotal =
     (let raw = (if c_type coupon = Fixed then (case c_value_minor coupon of Some v \<Rightarrow> v | None \<Rightarrow> 0)
                 else big_quot (eligible_subtotal
                        * (case c_value_bps coupon of Some v \<Rightarrow> v | None \<Rightarrow> 0)) 10000);
          capped = (case c_maximum_discount coupon of Some m \<Rightarrow> min raw m | None \<Rightarrow> raw)
      in min capped eligible_subtotal)"

definition allocate_discount ::
  "(string \<Rightarrow> 'k::linorder) \<Rightarrow> coupon_row option \<Rightarrow> int \<Rightarrow> nat list \<Rightarrow> pricing_line list
   \<Rightarrow> (int \<times> pricing_line list) result" where
  "allocate_discount collate coupon order_subtotal eligible lines =
     (case (coupon, eligible) of
        (None, _) \<Rightarrow> Inr (0, lines)
      | (_, []) \<Rightarrow> Inr (0, lines)
      | (Some c, i # _) \<Rightarrow>
          (if (case c_currency c of None \<Rightarrow> False
               | Some cur \<Rightarrow> cur \<noteq> pl_currency (lines ! i)
                   \<or> c_currency_decimals c \<noteq> Some (pl_decimals (lines ! i)))
           then Inl (DomainError ''coupon_currency_invalid'' 409)
           else if (case c_minimum_order c of None \<Rightarrow> False | Some m \<Rightarrow> order_subtotal < m)
           then Inl (DomainError ''coupon_minimum_not_met'' 409)
           else
             (let eligible_subtotal = sum_list (map (\<lambda>j. pl_subtotal (lines ! j)) eligible);
                  tot = coupon_total c eligible_subtotal;
                  ordered = sort_key (\<lambda>j. collate (pl_sellable (lines ! j))) eligible
              in if eligible_subtotal = 0 then Inl RangeError
                 else
                   (let (lines', allocated) = allocate_shares tot eligible_subtotal ordered lines;
                        first = hd ordered
                    in Inr (tot, lines'[first := set_discount
                              (pl_discount (lines' ! first) + (tot - allocated)) (lines' ! first)])))))"

record store_coupon_price =
  sp_purpose :: coupon_purpose
  sp_discount :: int
  sp_reward :: int
  sp_lines :: "(string \<times> int \<times> int) list"

definition promotion_item_of :: "pricing_line \<Rightarrow> promotion_item" where
  "promotion_item_of l = \<lparr> pi_id = pl_id l, pi_budget = pl_promotion_budget l,
     pi_subtotal = big_string (pl_subtotal l), pi_quantity = pl_quantity l \<rparr>"

definition price_store_coupon ::
  "(string \<Rightarrow> 'k::linorder) \<Rightarrow> (string \<times> string list) list \<Rightarrow> coupon_scope option option
   \<Rightarrow> coupon_row option \<Rightarrow> pricing_line list \<Rightarrow> (store_coupon_price \<times> pricing_line list) result" where
  "price_store_coupon collate product_tags stored coupon lines =
     (case (case coupon of
              None \<Rightarrow> Inr [0..<length lines]
            | Some _ \<Rightarrow> (case eligible_lines product_tags stored lines of
                           Inl e \<Rightarrow> Inl e
                         | Inr is \<Rightarrow> Inr (filter (\<lambda>i. pl_source (lines ! i) = ListPrice) is))) of
        Inl e \<Rightarrow> Inl e
      | Inr eligible \<Rightarrow>
          (if coupon \<noteq> None \<and> eligible = [] \<and> list_ex (\<lambda>l. pl_source l \<noteq> ListPrice) lines
           then Inl (DomainError ''coupon_not_combinable'' 409)
           else
             (let subtotal = sum_list (map pl_subtotal lines);
                  standard = (case allocate_discount collate coupon subtotal eligible lines of
                      Inl e \<Rightarrow> Inl e
                    | Inr (discount, lines') \<Rightarrow>
                        Inr (\<lparr> sp_purpose = Standard, sp_discount = discount, sp_reward = 0,
                               sp_lines = map (\<lambda>l. (pl_id l, pl_discount l, 0)) lines' \<rparr>, lines'))
              in case coupon of
                   None \<Rightarrow> standard
                 | Some c \<Rightarrow>
                     (case c_purpose c of
                        Standard \<Rightarrow> standard
                      | Promotion purpose \<Rightarrow>
                          (if list_ex (\<lambda>l. pl_currency l \<noteq> ''CNY'' \<or> pl_decimals l \<noteq> 2) lines
                           then Inl (DomainError ''coupon_currency_invalid'' 409)
                           else
                             (case price_promotion collate purpose
                                     (map (\<lambda>i. promotion_item_of (lines ! i)) eligible) of
                                Inl e \<Rightarrow> Inl e
                              | Inr pricing \<Rightarrow>
                                  (if pp_discount pricing = 0
                                   then Inl (DomainError ''coupon_scope_invalid'' 409)
                                   else Inr (\<lparr> sp_purpose = Promotion purpose,
                                               sp_discount = pp_discount pricing,
                                               sp_reward = pp_reward pricing,
                                               sp_lines = pp_lines pricing \<rparr>,
                                             map (\<lambda>l. set_discount
                                               (case map_of (pp_lines pricing) (pl_id l) of
                                                  None \<Rightarrow> 0 | Some (d, _) \<Rightarrow> d) l) lines))))))))"

section \<open>Unit price laws\<close>

lemma deepest_from_Some:
  "deepest_from m q found steps = Some s \<Longrightarrow> (found = Some s \<or> s \<in> set steps \<and> m s \<le> q)
     \<and> (\<forall>t\<in>set steps. m t \<le> q \<longrightarrow> m t \<le> m s) \<and> (case found of None \<Rightarrow> True | Some f \<Rightarrow> m f \<le> m s)"
proof (induction steps arbitrary: found)
  case Nil
  then show ?case by simp
next
  case (Cons t steps)
  from Cons.IH [OF Cons.prems [simplified]] show ?case
    by (auto split: if_splits option.splits)
qed

lemma deepest_from_None: "deepest_from m q found steps = None \<longleftrightarrow> found = None \<and> (\<forall>t\<in>set steps. q < m t)"
  by (induction steps arbitrary: found) (auto split: option.splits)

lemma deepest_step_Some:
  "deepest_step m steps q = Some s \<Longrightarrow> s \<in> set steps \<and> m s \<le> q \<and> (\<forall>t\<in>set steps. m t \<le> q \<longrightarrow> m t \<le> m s)"
  unfolding deepest_step_def by (drule deepest_from_Some) simp

text \<open>The prices a buyer may be offered for one quantity: the list price and each valid agreement.\<close>

definition volume_offer :: "int \<Rightarrow> int \<Rightarrow> volume_step list \<Rightarrow> int option" where
  "volume_offer list_price quantity steps =
     (case deepest_step vs_min_quantity steps quantity of
        None \<Rightarrow> None
      | Some v \<Rightarrow> (if 0 < vs_discount v \<and> vs_discount v < list_price
                  then Some (list_price - vs_discount v) else None))"

definition customer_offer ::
  "int \<Rightarrow> int \<Rightarrow> string option \<Rightarrow> int \<Rightarrow> customer_step list \<Rightarrow> int option" where
  "customer_offer list_price base_price channel quantity steps =
     (case deepest_step cs_min_quantity steps quantity of
        None \<Rightarrow> None
      | Some c \<Rightarrow>
          (let price = (case Option.bind channel (cs_channel_prices c) of
                          Some p \<Rightarrow> p | None \<Rightarrow> cs_price c + (list_price - base_price))
           in if 0 < price then Some price else None))"

lemma resolve_unit_price_min:
  "fst (resolve_unit_price l b ch q vs cs)
     = Min (set (l # map the (filter (\<lambda>p. p \<noteq> None) [volume_offer l q vs, customer_offer l b ch q cs])))"
  by (auto simp: resolve_unit_price_def volume_offer_def customer_offer_def Let_def
      split: option.splits)

section \<open>Promotion laws\<close>

lemma if_less_min: "(if a < b then a else b) = min a (b::int)"
  by auto

lemma promotion_row_budget_bounds:
  assumes "promotion_item_valid item"
  shows "0 \<le> promotion_row_budget purpose item"
    and "promotion_row_budget purpose item \<le> int (digits_value (pi_subtotal item))"
    and "purpose = Referral \<Longrightarrow> 2 * promotion_row_budget purpose item \<le> int (digits_value (pi_subtotal item))"
    and "promotion_row_budget purpose item \<le> int (digits_value (pi_budget item)) * pi_quantity item"
proof -
  let ?b = "min (int (digits_value (pi_budget item)) * pi_quantity item) (int (digits_value (pi_subtotal item)))"
  have b: "0 \<le> ?b" using assms by (simp add: promotion_item_valid_def)
  have eq: "promotion_row_budget purpose item = (if purpose = Referral then ?b div 2 else ?b)"
    using b unfolding promotion_row_budget_def Let_def if_less_min by (simp add: div_simps)
  show "0 \<le> promotion_row_budget purpose item"
    and "promotion_row_budget purpose item \<le> int (digits_value (pi_subtotal item))"
    and "purpose = Referral \<Longrightarrow> 2 * promotion_row_budget purpose item \<le> int (digits_value (pi_subtotal item))"
    and "promotion_row_budget purpose item \<le> int (digits_value (pi_budget item)) * pi_quantity item"
    using b unfolding eq by auto
qed

lemma promotion_row_budget_referral:
  assumes "promotion_item_valid item"
  shows "2 * promotion_row_budget Referral item
    \<le> min (int (digits_value (pi_subtotal item))) (int (digits_value (pi_budget item)) * pi_quantity item)"
proof -
  let ?b = "min (int (digits_value (pi_budget item)) * pi_quantity item) (int (digits_value (pi_subtotal item)))"
  have "0 \<le> ?b" using assms by (simp add: promotion_item_valid_def)
  then have "promotion_row_budget Referral item = ?b div 2"
    unfolding promotion_row_budget_def Let_def if_less_min by (simp add: div_simps)
  moreover have "2 * (?b div 2) \<le> ?b" by linarith
  ultimately show ?thesis by (simp only: min.commute)
qed

lemma price_promotion_Inr:
  assumes "price_promotion collate purpose items = Inr p"
  obtains amounts where "length amounts = length items" and "sum_list amounts = pp_discount p"
    and "\<forall>i<length items. 0 \<le> amounts ! i \<and> amounts ! i \<le> promotion_row_budget purpose (items ! i)"
    and "pp_lines p = map2 (\<lambda>item a. (pi_id item, a, if purpose = Referral then a else 0)) items amounts"
    and "pp_reward p = (if purpose = Referral then pp_discount p else 0)"
    and "0 \<le> pp_discount p" and "pp_discount p \<le> (if purpose = Referral then 400 else 800)"
    and "list_all promotion_item_valid items"
proof -
  let ?ws = "map (promotion_row_budget purpose) items"
  let ?tot = "min (sum_list ?ws) (if purpose = Referral then 400 else 800)"
  let ?am = "apportion (\<lambda>i. collate (pi_id (items ! i))) (sum_list ?ws) ?tot ?ws"
  from assms have v: "list_all promotion_item_valid items" by (auto simp: price_promotion_def split: if_splits)
  have cap: "big_quot 800 2 = 400" by (simp add: div_simps)
  let ?p = "\<lparr> pp_discount = ?tot, pp_reward = (if purpose = Referral then ?tot else 0),
      pp_lines = map2 (\<lambda>item a. (pi_id item, a, if purpose = Referral then a else 0)) items ?am \<rparr>"
  have "price_promotion collate purpose items = Inr ?p"
    using v unfolding price_promotion_def Let_def promotion_cap_minor_def if_less_min cap by simp
  with assms have p: "p = ?p" by simp
  have w: "\<forall>w\<in>set ?ws. 0 \<le> w" using v promotion_row_budget_bounds(1) by (auto simp: list_all_iff)
  then have s: "0 \<le> sum_list ?ws" by (intro sum_list_nonneg) auto
  have t: "0 \<le> ?tot" "?tot \<le> sum_list ?ws" using s by auto
  have am: "length ?am = length ?ws \<and> sum_list ?am = ?tot \<and> (\<forall>i<length ?ws. 0 \<le> ?am ! i \<and> ?am ! i \<le> ?ws ! i)"
  proof (cases "sum_list ?ws = 0")
    case True
    then have z: "\<forall>w\<in>set ?ws. w = 0" by (rule sum_zero_all [OF w])
    have t0: "?tot = 0" using True by simp
    have am: "?am = replicate (length ?ws) 0" unfolding t0 unfolding True by (rule apportion_zero_denom [OF z])
    have "sum_list ?am = ?tot" unfolding am unfolding t0 by (simp add: sum_list_replicate)
    moreover have "\<forall>i<length ?ws. 0 \<le> ?am ! i \<and> ?am ! i \<le> ?ws ! i" unfolding am using w by simp
    moreover have "length ?am = length ?ws" unfolding am by simp
    ultimately show ?thesis by blast
  next
    case False
    with s have pos: "0 < sum_list ?ws" by simp
    show ?thesis
      using apportion_laws(1,2) [OF w refl pos t(1) refl] apportion_bounded [OF w refl pos t]
      by blast
  qed
  show thesis
    by (rule that [of ?am]) (use am v t in \<open>auto simp: p\<close>)
qed


section \<open>Coupon laws\<close>

lemma allocate_shares_laws:
  assumes "distinct is" and "\<forall>i\<in>set is. i < length lines"
    and "allocate_shares tot denom is lines = (lines', allocated)"
  shows "length lines' = length lines"
    and "\<forall>j<length lines. lines' ! j =
           (if j \<in> set is then set_discount (big_quot (tot * pl_subtotal (lines ! j)) denom) (lines ! j)
            else lines ! j)"
    and "allocated = sum_list (map (\<lambda>j. big_quot (tot * pl_subtotal (lines ! j)) denom) is)"
proof -
  have "length lines' = length lines \<and> (\<forall>j<length lines. lines' ! j =
           (if j \<in> set is then set_discount (big_quot (tot * pl_subtotal (lines ! j)) denom) (lines ! j)
            else lines ! j))
    \<and> allocated = sum_list (map (\<lambda>j. big_quot (tot * pl_subtotal (lines ! j)) denom) is)"
    using assms
  proof (induction "is" arbitrary: lines lines' allocated)
    case Nil
    then show ?case by simp
  next
    case (Cons i js)
    let ?d = "big_quot (tot * pl_subtotal (lines ! i)) denom"
    let ?lines = "lines[i := set_discount ?d (lines ! i)]"
    obtain l a where r: "allocate_shares tot denom js ?lines = (l, a)" by fastforce
    from Cons.prems have ij: "i \<notin> set js" "i < length lines" "\<forall>j\<in>set js. j < length ?lines" "distinct js" by auto
    have same: "\<forall>j\<in>set js. ?lines ! j = lines ! j" using ij by (metis nth_list_update_neq)
    from Cons.prems(3) r have la: "lines' = l" "allocated = ?d + a" by (simp_all add: Let_def)
    from Cons.IH [OF ij(4) ij(3) r] ij same show ?case
      by (auto simp: la nth_list_update cong: map_cong)
  qed
  then show "length lines' = length lines"
    and "\<forall>j<length lines. lines' ! j =
           (if j \<in> set is then set_discount (big_quot (tot * pl_subtotal (lines ! j)) denom) (lines ! j)
            else lines ! j)"
    and "allocated = sum_list (map (\<lambda>j. big_quot (tot * pl_subtotal (lines ! j)) denom) is)" by auto
qed

definition coupon_values_valid :: "coupon_row \<Rightarrow> bool" where
  "coupon_values_valid c \<longleftrightarrow> (\<forall>v\<in>set_option (c_value_minor c). 0 \<le> v)
     \<and> (\<forall>v\<in>set_option (c_value_bps c). 0 \<le> v) \<and> (\<forall>v\<in>set_option (c_maximum_discount c). 0 \<le> v)"

lemma coupon_total_bounds:
  assumes "coupon_values_valid c" and "0 \<le> s"
  shows "0 \<le> coupon_total c s" and "coupon_total c s \<le> s"
  using assms unfolding coupon_values_valid_def coupon_total_def Let_def
  by (auto simp: div_simps pos_imp_zdiv_nonneg_iff split: option.splits)

text \<open>
  Every eligible line gets its truncated share; the first line in collation order gets what
  truncation left over, fewer units than there are eligible lines.
\<close>

lemma allocate_discount_some:
  assumes a: "allocate_discount collate (Some c) sub eligible lines = Inr (tot, lines')"
    and e: "distinct eligible" "\<forall>i\<in>set eligible. i < length lines"
    and s: "\<forall>l\<in>set lines. 0 \<le> pl_subtotal l \<and> pl_discount l = 0"
    and c: "coupon_values_valid c"
  obtains ds first where "length ds = length lines" and "lines' = map2 set_discount ds lines"
    and "sum_list ds = tot" and "\<forall>d\<in>set ds. 0 \<le> d" and "0 \<le> tot"
    and "tot \<le> sum_list (map (\<lambda>j. pl_subtotal (lines ! j)) eligible)"
    and "\<forall>j<length lines. j \<noteq> first \<longrightarrow> ds ! j \<le> pl_subtotal (lines ! j)"
    and "\<forall>j<length lines. j \<notin> set eligible \<longrightarrow> ds ! j = 0"
proof (cases "eligible = []")
  case True
  with a have r: "tot = 0" "lines' = lines" by (auto simp: allocate_discount_def)
  have l: "lines = map2 set_discount (replicate (length lines) 0) lines"
    by (rule nth_equalityI) (use s in \<open>auto simp: set_discount_def\<close>)
  show thesis
    by (rule that [of "replicate (length lines) 0" 0])
      (use r s l True in \<open>auto simp: sum_list_replicate\<close>)
next
  case False
  let ?es = "sum_list (map (\<lambda>j. pl_subtotal (lines ! j)) eligible)"
  let ?o = "sort_key (\<lambda>j. collate (pl_sellable (lines ! j))) eligible"
  define t where "t = coupon_total c ?es"
  define share where "share j = big_quot (t * pl_subtotal (lines ! j)) ?es" for j
  obtain l al where r: "allocate_shares t ?es ?o lines = (l, al)" by fastforce
  from a False r have nz: "?es \<noteq> 0" and tot: "tot = t"
    and l': "lines' = l[hd ?o := set_discount (pl_discount (l ! hd ?o) + (t - al)) (l ! hd ?o)]"
    by (auto simp: allocate_discount_def Let_def t_def split: if_splits list.splits)
  have sub: "0 \<le> pl_subtotal (lines ! j)" if "j < length lines" for j using s that by simp
  then have "0 \<le> ?es" using e(2) by (intro sum_list_nonneg) auto
  with nz have es: "0 < ?es" by simp
  note tb = coupon_total_bounds [OF c less_imp_le [OF es], folded t_def]
  have sh: "share j = t * pl_subtotal (lines ! j) div ?es" if "j < length lines" for j
    using tb(1) sub [OF that] es by (simp add: share_def div_simps)
  note al = allocate_shares_laws [OF _ _ r, folded share_def, simplified, OF e]
  have first: "hd ?o \<in> set eligible" using False by (metis hd_in_set set_empty set_sort)
  have "al = sum_list (map share eligible)"
    using al(3) sum_mset_sum_list [of "map share ?o"] sum_mset_sum_list [of "map share eligible"]
    by simp
  then have alloc: "al = sum_list (map share eligible)" .
  have "al * ?es \<le> t * ?es"
  proof -
    have "al * ?es = sum_list (map (\<lambda>j. share j * ?es) eligible)"
      by (simp only: alloc sum_list_mult_const)
    also have "\<dots> \<le> sum_list (map (\<lambda>j. t * pl_subtotal (lines ! j)) eligible)"
    proof (rule sum_list_mono)
      fix j assume "j \<in> set eligible"
      then have "share j = t * pl_subtotal (lines ! j) div ?es" using e(2) by (intro sh) simp
      then show "share j * ?es \<le> t * pl_subtotal (lines ! j)" using div_mult_le_int [OF es] by simp
    qed
    also have "\<dots> = t * ?es" by (rule sum_list_const_mult)
    finally show ?thesis .
  qed
  with es have le: "al \<le> t" by simp
  let ?d = "\<lambda>j. share j + (if j = hd ?o then t - al else 0)"
  let ?ds = "map (\<lambda>j. if j \<in> set eligible then ?d j else 0) [0..<length lines]"
  have d0: "0 \<le> share j" if "j < length lines" for j
    using sh [OF that] tb(1) sub [OF that] es by (simp add: pos_imp_zdiv_nonneg_iff)
  show thesis
  proof (rule that [of ?ds "hd ?o"])
    show "length ?ds = length lines" by simp
    show "lines' = map2 set_discount ?ds lines"
      by (rule nth_equalityI)
        (use al(1,2) first e s in \<open>auto simp: l' set_discount_def nth_list_update\<close>)
    have "sum_list ?ds = sum_list (map ?d eligible)" by (rule sum_list_indices [OF e])
    also have "\<dots> = sum_list (map share eligible)
        + sum_list (map (\<lambda>j. if j = hd ?o then t - al else 0) eligible)" by (rule sum_list_addf)
    also have "sum_list (map (\<lambda>j. if j = hd ?o then t - al else 0) eligible) = t - al"
      using first e(1) by (simp add: sum_list_distinct_conv_sum_set)
    finally show "sum_list ?ds = tot" using alloc tot by simp
    show "\<forall>d\<in>set ?ds. 0 \<le> d" using d0 le by auto
    show "0 \<le> tot" "tot \<le> ?es" using tb tot by simp_all
    show "\<forall>j<length lines. j \<noteq> hd ?o \<longrightarrow> ?ds ! j \<le> pl_subtotal (lines ! j)"
    proof (intro allI impI)
      fix j assume j: "j < length lines" "j \<noteq> hd ?o"
      have "share j * ?es \<le> t * pl_subtotal (lines ! j)"
        unfolding sh [OF j(1)] using es by (rule div_mult_le_int)
      also have "\<dots> \<le> ?es * pl_subtotal (lines ! j)" using tb(2) sub [OF j(1)] by (rule mult_right_mono)
      finally have "share j \<le> pl_subtotal (lines ! j)" using es by (simp add: mult.commute)
      with j sub [OF j(1)] show "?ds ! j \<le> pl_subtotal (lines ! j)" by simp
    qed
    show "\<forall>j<length lines. j \<notin> set eligible \<longrightarrow> ?ds ! j = 0" by simp
  qed
qed

lemma eligible_lines_Inr:
  "eligible_lines pt stored lines = Inr is \<Longrightarrow> distinct is \<and> (\<forall>i\<in>set is. i < length lines)"
  by (auto simp: eligible_lines_def Let_def split: option.splits if_splits)

lemma eligible_sum_le:
  assumes "distinct is" "\<forall>i\<in>set is. i < length lines" and "\<forall>l\<in>set lines. 0 \<le> pl_subtotal l"
  shows "sum_list (map (\<lambda>j. pl_subtotal (lines ! j)) is) \<le> sum_list (map pl_subtotal lines)"
proof -
  have "sum_list (map (\<lambda>j. pl_subtotal (lines ! j)) is)
      = sum_list (map (\<lambda>j. if j \<in> set is then pl_subtotal (lines ! j) else 0) [0..<length lines])"
    by (rule sum_list_indices [OF assms(1,2), symmetric])
  also have "\<dots> \<le> sum_list (map (\<lambda>j. pl_subtotal (lines ! j)) [0..<length lines])"
    using assms(3) by (intro sum_list_mono) auto
  also have "map (\<lambda>j. pl_subtotal (lines ! j)) [0..<length lines] = map pl_subtotal lines"
    by (rule nth_equalityI) auto
  finally show ?thesis .
qed

text \<open>What pricing promises the order: the same lines, and discounts that add up within the subtotal.\<close>

definition discounts_fit :: "store_coupon_price \<Rightarrow> pricing_line list \<Rightarrow> pricing_line list \<Rightarrow> bool" where
  "discounts_fit p lines lines' \<longleftrightarrow>
     map (pl_discount_update (\<lambda>_. 0)) lines' = lines
     \<and> sp_discount p = sum_list (map pl_discount lines')
     \<and> (\<forall>l\<in>set lines'. 0 \<le> pl_discount l)
     \<and> 0 \<le> sp_discount p \<and> sp_discount p \<le> sum_list (map pl_subtotal lines)
     \<and> 0 \<le> sp_reward p \<and> sp_reward p \<le> sp_discount p"

lemma map2_set_discount:
  assumes "length ds = length lines" and "\<forall>l\<in>set lines. pl_discount l = 0"
  shows "map (pl_discount_update (\<lambda>_. 0)) (map2 set_discount ds lines) = lines"
    and "map pl_discount (map2 set_discount ds lines) = ds"
  using assms by (induction ds lines rule: list_induct2) (auto simp: set_discount_def)

lemma allocate_discount_fits:
  assumes "allocate_discount collate coupon sub eligible lines = Inr (tot, lines')"
    and "distinct eligible" "\<forall>i\<in>set eligible. i < length lines"
    and "\<forall>l\<in>set lines. 0 \<le> pl_subtotal l \<and> pl_discount l = 0"
    and "\<forall>c\<in>set_option coupon. coupon_values_valid c"
    and "sp_discount p = tot" "sp_reward p = 0"
  shows "discounts_fit p lines lines'"
proof (cases coupon)
  case None
  with assms(1) have r: "tot = 0" "lines' = lines" by (auto simp: allocate_discount_def)
  have z: "map pl_discount lines = replicate (length lines) 0"
    using assms(4) by (auto intro: replicate_eqI)
  have "map (pl_discount_update (\<lambda>_. 0)) lines = lines" using assms(4) by (auto intro: map_idI)
  moreover have "0 \<le> sum_list (map pl_subtotal lines)" using assms(4) by (intro sum_list_nonneg) auto
  ultimately show ?thesis using r z assms(4,6,7) by (simp add: discounts_fit_def sum_list_replicate)
next
  case (Some c)
  then have c: "coupon_values_valid c" using assms(5) by simp
  from allocate_discount_some [OF assms(1) [unfolded Some] assms(2,3,4) c]
  obtain ds first where ds: "length ds = length lines" "lines' = map2 set_discount ds lines"
    "sum_list ds = tot" "\<forall>d\<in>set ds. 0 \<le> d" "0 \<le> tot"
    "tot \<le> sum_list (map (\<lambda>j. pl_subtotal (lines ! j)) eligible)" by metis
  have z: "\<forall>l\<in>set lines. pl_discount l = 0" and nn: "\<forall>l\<in>set lines. 0 \<le> pl_subtotal l"
    using assms(4) by auto
  note m = map2_set_discount [OF ds(1) z, folded ds(2)]
  have "\<forall>l\<in>set lines'. 0 \<le> pl_discount l" using ds(4) m(2) by (metis image_eqI list.set_map)
  then show ?thesis
    using ds m eligible_sum_le [OF assms(2,3) nn] assms(6,7) unfolding discounts_fit_def by simp
qed

lemma promotion_discounts_fit:
  assumes p: "price_promotion collate purpose (map (\<lambda>i. promotion_item_of (lines ! i)) eligible) = Inr pp"
    and e: "distinct eligible" "\<forall>i\<in>set eligible. i < length lines"
    and s: "\<forall>l\<in>set lines. 0 \<le> pl_subtotal l \<and> pl_discount l = 0"
    and ids: "distinct (map pl_id lines)"
    and q: "sp_discount q = pp_discount pp" "sp_reward q = pp_reward pp"
    and l': "lines' = map (\<lambda>l. set_discount
               (case map_of (pp_lines pp) (pl_id l) of None \<Rightarrow> 0 | Some (d, _) \<Rightarrow> d) l) lines"
  shows "discounts_fit q lines lines'"
proof -
  let ?items = "map (\<lambda>i. promotion_item_of (lines ! i)) eligible"
  obtain am where am: "length am = length eligible"
    "sum_list am = pp_discount pp"
    "\<forall>i<length eligible. 0 \<le> am ! i \<and> am ! i \<le> promotion_row_budget purpose (?items ! i)"
    "pp_lines pp = map2 (\<lambda>item a. (pi_id item, a, if purpose = Referral then a else 0)) ?items am"
    "pp_reward pp = (if purpose = Referral then pp_discount pp else 0)" "0 \<le> pp_discount pp"
    "list_all promotion_item_valid ?items" by (rule price_promotion_Inr [OF p, unfolded length_map])
  let ?keys = "map (\<lambda>i. pl_id (lines ! i)) eligible"
  let ?ps = "zip ?keys am"
  have d: "(case map_of (pp_lines pp) k of None \<Rightarrow> 0 | Some (d, _) \<Rightarrow> d)
      = (case map_of ?ps k of None \<Rightarrow> 0 | Some d \<Rightarrow> d)" for k
  proof -
    have "pp_lines pp = map (\<lambda>(k, a). (k, (\<lambda>a. (a, if purpose = Referral then a else 0)) a)) ?ps"
      unfolding am(4) by (rule nth_equalityI) (use am(1) in \<open>auto simp: promotion_item_of_def\<close>)
    then have "map_of (pp_lines pp) = map_option (\<lambda>a. (a, if purpose = Referral then a else 0)) \<circ> map_of ?ps"
      by (simp only: map_of_map)
    then show ?thesis by (auto split: option.split)
  qed
  have keys: "distinct ?keys"
    using e ids by (auto simp: distinct_map inj_on_def distinct_conv_nth nth_eq_iff_index_eq)
  have fst: "map fst ?ps = ?keys" and snd: "map snd ?ps = am" using am(1) by simp_all
  have sub: "fst ` set ?ps \<subseteq> set (map pl_id lines)"
    using e(2) fst by (auto dest!: set_zip_leftD)
  let ?g = "\<lambda>k. case map_of ?ps k of None \<Rightarrow> 0 | Some d \<Rightarrow> d"
  have disc: "map pl_discount lines' = map ?g (map pl_id lines)"
    unfolding l' d by (simp add: set_discount_def)
  have total_eq: "sum_list (map pl_discount lines') = pp_discount pp"
    unfolding disc using sum_list_map_of [OF ids _ sub] fst keys snd am(2) by simp
  have nn: "0 \<le> ?g k" for k
  proof (cases "map_of ?ps k")
    case (Some v)
    then have "v \<in> set am" by (meson map_of_SomeD set_zip_rightD)
    then have "0 \<le> v" using am(1,3) by (auto simp: in_set_conv_nth)
    with Some show ?thesis by simp
  qed simp
  have budget: "am ! i \<le> pl_subtotal (lines ! (eligible ! i))" if i: "i < length eligible" for i
  proof -
    have v: "promotion_item_valid (?items ! i)" using am(7) i by (simp add: list_all_length)
    have "0 \<le> pl_subtotal (lines ! (eligible ! i))" using s e(2) i by auto
    then have "int (digits_value (pi_subtotal (?items ! i))) = pl_subtotal (lines ! (eligible ! i))"
      using i by (simp add: promotion_item_of_def big_string_def)
    with promotion_row_budget_bounds(2) [OF v, of purpose] am(3) i show ?thesis by fastforce
  qed
  have "sum_list am \<le> sum_list (map (\<lambda>j. pl_subtotal (lines ! j)) eligible)"
    using am(1) budget by (intro sum_list_mono2) auto
  also have "\<dots> \<le> sum_list (map pl_subtotal lines)"
    using e s by (intro eligible_sum_le) auto
  finally have "pp_discount pp \<le> sum_list (map pl_subtotal lines)" using am(2) by simp
  moreover have "map (pl_discount_update (\<lambda>_. 0)) lines' = lines"
    unfolding l' using s by (auto simp: set_discount_def intro: map_idI)
  moreover have "\<forall>l\<in>set lines'. 0 \<le> pl_discount l" unfolding l' d using nn by (auto simp: set_discount_def)
  ultimately show ?thesis using total_eq am(5,6) q by (simp add: discounts_fit_def)
qed

text \<open>Pricing goes one of two ways.\<close>

lemma price_store_coupon_cases:
  assumes "price_store_coupon collate pt stored coupon lines = Inr (p, lines')"
  obtains el where "distinct el" "\<forall>i\<in>set el. i < length lines"
      "allocate_discount collate coupon (sum_list (map pl_subtotal lines)) el lines = Inr (sp_discount p, lines')"
      "sp_reward p = 0" "sp_lines p = map (\<lambda>l. (pl_id l, pl_discount l, 0)) lines'"
  | el purpose pp where "distinct el" "\<forall>i\<in>set el. i < length lines"
      "price_promotion collate purpose (map (\<lambda>i. promotion_item_of (lines ! i)) el) = Inr pp"
      "sp_discount p = pp_discount pp" "sp_reward p = pp_reward pp" "sp_lines p = pp_lines pp"
      "lines' = map (\<lambda>l. set_discount
               (case map_of (pp_lines pp) (pl_id l) of None \<Rightarrow> 0 | Some (d, _) \<Rightarrow> d) l) lines"
proof -
  from assms obtain el where el: "(case coupon of
        None \<Rightarrow> Inr [0..<length lines]
      | Some _ \<Rightarrow> (case eligible_lines pt stored lines of
          Inl e \<Rightarrow> Inl e
        | Inr is \<Rightarrow> Inr (filter (\<lambda>i. pl_source (lines ! i) = ListPrice) is))) = Inr el"
    unfolding price_store_coupon_def by (auto split: sum.splits)
  then have e: "distinct el" "\<forall>i\<in>set el. i < length lines"
    using eligible_lines_Inr [of pt stored lines] by (auto split: option.splits sum.splits)
  from assms consider
      (standard) "allocate_discount collate coupon (sum_list (map pl_subtotal lines)) el lines = Inr (sp_discount p, lines')"
        "sp_reward p = 0" "sp_lines p = map (\<lambda>l. (pl_id l, pl_discount l, 0)) lines'"
    | (promotion) purpose pp where
        "price_promotion collate purpose (map (\<lambda>i. promotion_item_of (lines ! i)) el) = Inr pp"
        "sp_discount p = pp_discount pp" "sp_reward p = pp_reward pp" "sp_lines p = pp_lines pp"
        "lines' = map (\<lambda>l. set_discount
               (case map_of (pp_lines pp) (pl_id l) of None \<Rightarrow> 0 | Some (d, _) \<Rightarrow> d) l) lines"
    unfolding price_store_coupon_def el Let_def
    by (auto split: if_splits option.splits sum.splits coupon_purpose.splits)
  then show thesis by cases (use e that in blast)+
qed

lemma price_store_coupon_fits:
  assumes "price_store_coupon collate pt stored coupon lines = Inr (p, lines')"
    and "distinct (map pl_id lines)"
    and "\<forall>l\<in>set lines. 0 \<le> pl_subtotal l \<and> pl_discount l = 0"
    and "\<forall>c\<in>set_option coupon. coupon_values_valid c"
  shows "discounts_fit p lines lines'"
  using price_store_coupon_cases [OF assms(1)]
proof cases
  case 1
  then show ?thesis using allocate_discount_fits assms(3,4) by blast
next
  case 2
  then show ?thesis using promotion_discounts_fit assms(2,3) by blast
qed

text \<open>Pricing keeps the identity of every line and speaks of no other.\<close>

lemma set_discount_ids: "map pl_id (l[i := set_discount e (l ! i)]) = map pl_id l"
  by (simp add: map_update set_discount_def) (metis list_update_id map_update)

lemma allocate_shares_ids: "map pl_id (fst (allocate_shares t n is ls)) = map pl_id ls"
  by (induction t n "is" ls rule: allocate_shares.induct) (simp_all add: Let_def case_prod_unfold set_discount_ids)

lemma allocate_discount_ids: "allocate_discount collate c sub el ls = Inr (tot, ls') \<Longrightarrow> map pl_id ls' = map pl_id ls"
  using allocate_shares_ids set_discount_ids
  by (auto simp: allocate_discount_def Let_def case_prod_unfold split: option.splits list.splits if_splits)

lemma price_store_coupon_ids:
  assumes "price_store_coupon collate pt stored coupon lines = Inr (p, lines')"
  shows "map pl_id lines' = map pl_id lines \<and> fst ` set (sp_lines p) \<subseteq> pl_id ` set lines"
  using price_store_coupon_cases [OF assms]
proof cases
  case (1 el)
  note i = allocate_discount_ids [OF 1(3)]
  then have "pl_id ` set lines' = pl_id ` set lines" by (metis list.set_map)
  with 1(5) i show ?thesis by (auto simp: image_image)
next
  case (2 el purpose pp)
  have "map fst (pp_lines pp) = map (\<lambda>i. pl_id (lines ! i)) el"
    by (rule price_promotion_Inr [OF 2(3)]) (auto simp: promotion_item_of_def intro!: nth_equalityI)
  then have "fst ` set (pp_lines pp) = (\<lambda>i. pl_id (lines ! i)) ` set el" by (metis list.set_map)
  with 2(2,6) show ?thesis by (auto simp: 2(7) set_discount_def)
qed

section \<open>Properties\<close>

lemma unit_price_is_lowest_offer:
  "fst (resolve_unit_price l b ch q vs cs)
     = Min (set (l # map the (filter (\<lambda>p. p \<noteq> None) [volume_offer l q vs, customer_offer l b ch q cs])))"
  by (rule resolve_unit_price_min)

text \<open>
  A promotion gives away at most its cap, and never more than a line's price and budget.
\<close>

lemma promotion_within_budget:
  assumes "price_promotion collate purpose items = Inr p"
  shows "sum_list (map (fst \<circ> snd) (pp_lines p)) = pp_discount p
    \<and> sum_list (map (snd \<circ> snd) (pp_lines p)) = pp_reward p
    \<and> pp_discount p + pp_reward p \<le> promotion_cap_minor
    \<and> map fst (pp_lines p) = map pi_id items
    \<and> (\<forall>i<length items. fst (snd (pp_lines p ! i)) + snd (snd (pp_lines p ! i))
         \<le> min (int (digits_value (pi_subtotal (items ! i))))
               (int (digits_value (pi_budget (items ! i))) * pi_quantity (items ! i)))"
proof -
  obtain am where am: "length am = length items" "sum_list am = pp_discount p"
    "\<forall>i<length items. 0 \<le> am ! i \<and> am ! i \<le> promotion_row_budget purpose (items ! i)"
    "pp_lines p = map2 (\<lambda>item a. (pi_id item, a, if purpose = Referral then a else 0)) items am"
    "pp_reward p = (if purpose = Referral then pp_discount p else 0)" "0 \<le> pp_discount p"
    "pp_discount p \<le> (if purpose = Referral then 400 else 800)" "list_all promotion_item_valid items"
    by (rule price_promotion_Inr [OF assms])
  have d: "map (fst \<circ> snd) (pp_lines p) = am" unfolding am(4) by (rule nth_equalityI) (use am(1) in auto)
  have r: "map (snd \<circ> snd) (pp_lines p) = (if purpose = Referral then am else map (\<lambda>_. 0) am)"
    unfolding am(4) by (rule nth_equalityI) (use am(1) in auto)
  have k: "map fst (pp_lines p) = map pi_id items" unfolding am(4) by (rule nth_equalityI) (use am(1) in auto)
  have b: "fst (snd (pp_lines p ! i)) + snd (snd (pp_lines p ! i))
      \<le> min (int (digits_value (pi_subtotal (items ! i))))
            (int (digits_value (pi_budget (items ! i))) * pi_quantity (items ! i))"
    if i: "i < length items" for i
  proof -
    have "promotion_item_valid (items ! i)" using am(8) i by (simp add: list_all_length)
    note pb = promotion_row_budget_bounds [OF this, of purpose] promotion_row_budget_referral [OF this]
    have n: "pp_lines p ! i = (pi_id (items ! i), am ! i, if purpose = Referral then am ! i else 0)"
      unfolding am(4) using am(1) i by simp
    show ?thesis using pb am(3) i by (cases purpose) (fastforce simp: n)+
  qed
  show ?thesis using d r k b am by (auto simp: promotion_cap_minor_def)
qed

lemma promotion_within_budget_witness:
  "\<exists>p. price_promotion (\<lambda>s. s) Referral
       [\<lparr> pi_id = ''a'', pi_budget = ''100'', pi_subtotal = ''51'', pi_quantity = 1 \<rparr>,
        \<lparr> pi_id = ''b'', pi_budget = ''200'', pi_subtotal = ''90'', pi_quantity = 2 \<rparr>] = Inr p
     \<and> pp_discount p = 70 \<and> sum_list (map (fst \<circ> snd) (pp_lines p)) = 70"
proof -
  let ?is = "[\<lparr> pi_id = ''a'', pi_budget = ''100'', pi_subtotal = ''51'', pi_quantity = 1 \<rparr>,
        \<lparr> pi_id = ''b'', pi_budget = ''200'', pi_subtotal = ''90'', pi_quantity = 2 \<rparr>]"
  have p: "price_promotion (\<lambda>s. s) Referral ?is
      = Inr \<lparr> pp_discount = 70, pp_reward = 70, pp_lines = [(''a'', 25, 25), (''b'', 45, 45)] \<rparr>" by code_simp
  show ?thesis using promotion_within_budget [OF p] p by auto
qed

text \<open>
  C10. Pricing an order with a valid coupon changes only the discounts of its lines: none is
  negative, they add up to the discount of the order, and that is at most the subtotal of the
  order; a reward never exceeds the discount.
\<close>

lemma order_discounts_fit:
  assumes "price_store_coupon collate pt stored coupon lines = Inr (p, lines')"
    and "distinct (map pl_id lines)"
    and "\<forall>l\<in>set lines. 0 \<le> pl_subtotal l \<and> pl_discount l = 0"
    and "\<forall>c\<in>set_option coupon. coupon_values_valid c"
  shows "discounts_fit p lines lines'"
  by (rule price_store_coupon_fits [OF assms])

definition sample_line :: "string \<Rightarrow> int \<Rightarrow> pricing_line" where
  "sample_line i subtotal = \<lparr> pl_id = i, pl_sellable = i, pl_product = ''p'', pl_currency = ''CNY'',
     pl_decimals = 2, pl_promotion_budget = ''0'', pl_quantity = 1, pl_source = ListPrice,
     pl_subtotal = subtotal, pl_discount = 0 \<rparr>"

definition half_off :: coupon_row where
  "half_off = \<lparr> c_id = ''c'', c_purpose = Standard, c_type = Percentage, c_currency = None,
     c_currency_decimals = None, c_value_minor = None, c_value_bps = Some 5000,
     c_minimum_order = None, c_maximum_discount = None \<rparr>"

lemma order_discounts_fit_witness:
  "\<exists>p lines'. price_store_coupon (\<lambda>s. s) [] None (Some half_off)
        [sample_line ''a'' 1, sample_line ''b'' 11, sample_line ''c'' 11] = Inr (p, lines')
     \<and> sp_discount p = 11 \<and> map pl_discount lines' = [1, 5, 5]
     \<and> discounts_fit p [sample_line ''a'' 1, sample_line ''b'' 11, sample_line ''c'' 11] lines'"
proof -
  let ?ls = "[sample_line ''a'' 1, sample_line ''b'' 11, sample_line ''c'' 11]"
  have "case price_store_coupon (\<lambda>s. s) [] None (Some half_off) ?ls of
      Inl _ \<Rightarrow> False | Inr (p, ls) \<Rightarrow> sp_discount p = 11 \<and> map pl_discount ls = [1, 5, 5]" by code_simp
  then obtain p lines' where r: "price_store_coupon (\<lambda>s. s) [] None (Some half_off) ?ls = Inr (p, lines')"
    and d: "sp_discount p = 11" "map pl_discount lines' = [1, 5, 5]" by (auto split: sum.splits)
  have "discounts_fit p ?ls lines'"
    by (rule order_discounts_fit [OF r]) (auto simp: sample_line_def half_off_def coupon_values_valid_def)
  with r d show ?thesis by (intro exI conjI)
qed

lemma first_line_over_discounted:
  "case price_store_coupon (\<lambda>s. s) [] None (Some half_off)
      [sample_line ''a'' 1, sample_line ''b'' 11, sample_line ''c'' 11, sample_line ''d'' 3] of
     Inl _ \<Rightarrow> False
   | Inr (p, lines') \<Rightarrow> sp_discount p = 13 \<and> map pl_discount lines' = [2, 5, 5, 1]"
  by code_simp

lemma free_lines_divide_by_zero:
  assumes "lines \<noteq> []" and "\<forall>l\<in>set lines. pl_subtotal l = 0 \<and> pl_source l = ListPrice"
    and "c_purpose c = Standard" and "c_currency c = None" and "c_minimum_order c = None"
  shows "price_store_coupon collate pt None (Some c) lines = Inl RangeError"
proof -
  have e: "eligible_lines pt None lines = Inr [0..<length lines]" by (simp add: eligible_lines_def)
  have f: "filter (\<lambda>i. pl_source (lines ! i) = ListPrice) [0..<length lines] = [0..<length lines]"
    using assms(2) by (auto intro: filter_True)
  have z: "sum_list (map (\<lambda>j. pl_subtotal (lines ! j)) [0..<length lines]) = 0"
  proof -
    have "map (\<lambda>j. pl_subtotal (lines ! j)) [0..<length lines] = replicate (length lines) 0"
      using assms(2) by (intro replicate_eqI) auto
    then show ?thesis by (simp add: sum_list_replicate)
  qed
  obtain ks where i: "[0..<length lines] = 0 # ks" using assms(1) upt_conv_Cons by auto
  have "allocate_discount collate (Some c) sub [0..<length lines] lines = Inl RangeError" for sub
    unfolding allocate_discount_def Let_def z by (simp add: i assms(4,5))
  then show ?thesis using assms(1,3) by (simp add: price_store_coupon_def e f)
qed

lemma free_lines_divide_by_zero_witness:
  "price_store_coupon (\<lambda>s. s) [] None (Some half_off) [sample_line ''a'' 0] = Inl RangeError"
  by (rule free_lines_divide_by_zero) (simp_all add: half_off_def sample_line_def)

end
