(* ===== verification/Access_Control.thy ===== *)
theory Access_Control
  imports Shop_Prelude "HOL-Library.Word" "HOL-Library.AList"
begin

text \<open>
  Role based access control: action masks (\<^verbatim>\<open>src/features/access/rbac-bitmask.ts\<close>),
  merging the permissions of several roles and the rule that an operator grants only what he
  holds (\<^verbatim>\<open>src/features/access/permissions.ts\<close>), and the two built-in storefront
  roles (\<^verbatim>\<open>src/features/access/storefront-access.ts\<close>).

  JavaScript's \<open>&\<close> and \<open>|\<close> convert both Numbers to 32-bit words and read the result as
  a signed number; masks are integral Numbers here.
\<close>

unbundle bit_operations_syntax

definition to_int32 :: "int \<Rightarrow> 32 word" where
  "to_int32 n = word_of_int n"

definition js_and :: "int \<Rightarrow> int \<Rightarrow> int" where
  "js_and a b = sint (to_int32 a AND to_int32 b)"

definition js_or :: "int \<Rightarrow> int \<Rightarrow> int" where
  "js_or a b = sint (to_int32 a OR to_int32 b)"

datatype rbac_action = Read | Create | Update | Delete | Test

fun action_bit :: "rbac_action \<Rightarrow> int" where
  "action_bit Read = 1"
| "action_bit Create = 2"
| "action_bit Update = 4"
| "action_bit Delete = 8"
| "action_bit Test = 16"

definition rbac_actions :: "rbac_action list" where
  "rbac_actions = [Read, Create, Update, Delete, Test]"

definition registered_action_mask :: int where
  "registered_action_mask = foldl (\<lambda>m a. js_or m (action_bit a)) 0 rbac_actions"

definition action_of_name :: "string \<Rightarrow> rbac_action option" where
  "action_of_name s = map_of [(''read'', Read), (''create'', Create), (''update'', Update),
     (''delete'', Delete), (''test'', Test)] s"

definition actions_to_mask :: "string list \<Rightarrow> int" where
  "actions_to_mask names = foldl (\<lambda>m s. js_or m
     (case action_of_name s of None \<Rightarrow> 0 | Some a \<Rightarrow> action_bit a)) 0 names"

definition has_rbac_action :: "int \<Rightarrow> rbac_action \<Rightarrow> bool" where
  "has_rbac_action m a \<longleftrightarrow> js_and m (action_bit a) \<noteq> 0"

definition mask_to_actions :: "int \<Rightarrow> rbac_action list" where
  "mask_to_actions m = filter (\<lambda>a. js_and m (action_bit a) \<noteq> 0) rbac_actions"

definition safe_integer :: "int \<Rightarrow> bool" where
  "safe_integer n \<longleftrightarrow> \<bar>n\<bar> \<le> 9007199254740991"

definition normalize_permission_mask :: "int \<Rightarrow> int" where
  "normalize_permission_mask m =
     (if safe_integer m \<and> 0 \<le> m then js_and m registered_action_mask else 0)"

section \<open>Permissions\<close>

type_synonym permission_row = "string \<times> int"

text \<open>A JavaScript Map keeps the position of a key it overwrites, as \<open>AList.update\<close> does.\<close>

definition mask_of :: "permission_row list \<Rightarrow> string \<Rightarrow> int" where
  "mask_of permissions module = (case map_of permissions module of Some m \<Rightarrow> m | None \<Rightarrow> 0)"

definition merge_role_permissions :: "permission_row list \<Rightarrow> permission_row list" where
  "merge_role_permissions rows =
     foldl (\<lambda>permissions (module, m).
        AList.update module (js_or (mask_of permissions module) (normalize_permission_mask m))
          permissions) [] rows"

definition has_granted_permission :: "bool \<Rightarrow> permission_row list \<Rightarrow> permission_row \<Rightarrow> bool" where
  "has_granted_permission root permissions requirement =
     (if root then True
      else (let m = mask_of permissions (fst requirement)
            in js_and m (snd requirement) = snd requirement))"

record actor =
  actor_root :: bool
  actor_permissions :: "permission_row list"

definition assert_grants_within_actor :: "actor \<Rightarrow> permission_row list \<Rightarrow> unit result" where
  "assert_grants_within_actor actor requested =
     (if actor_root actor then Inr ()
      else
        (let held = merge_role_permissions (actor_permissions actor)
         in if list_ex (\<lambda>(module, m). js_and m (mask_of held module) \<noteq> m)
                 (merge_role_permissions requested)
            then Inl (DomainError ''permission_escalation'' 403) else Inr ()))"

section \<open>Storefront roles\<close>

datatype storefront_role = Customer | Guest

datatype storefront_permission =
  CatalogRead | CheckoutCreate | OrderLookup | PaymentRetry
  | AccountRead | AccountUpdate | CartManage | LibraryRead

definition guest_permissions :: "storefront_permission list" where
  "guest_permissions = [CatalogRead, CheckoutCreate, OrderLookup, PaymentRetry]"

definition customer_permissions :: "storefront_permission list" where
  "customer_permissions = guest_permissions @ [AccountRead, AccountUpdate, CartManage, LibraryRead]"

definition has_storefront_permission :: "storefront_role \<Rightarrow> storefront_permission \<Rightarrow> bool" where
  "has_storefront_permission role p =
     (p \<in> set (if role = Customer then customer_permissions else guest_permissions))"

definition require_storefront_permission :: "storefront_role \<Rightarrow> storefront_permission \<Rightarrow> unit result" where
  "require_storefront_permission role p =
     (if \<not> has_storefront_permission role p
      then Inl (DomainError ''storefront_access_denied'' 403) else Inr ())"

section \<open>Masks as sets of actions\<close>

lemma to_int32_sint [simp]: "to_int32 (sint w) = w"
  by (simp add: to_int32_def)

lemma to_int32_js_and [simp]: "to_int32 (js_and a b) = to_int32 a AND to_int32 b"
  by (simp add: js_and_def)

lemma to_int32_js_or [simp]: "to_int32 (js_or a b) = to_int32 a OR to_int32 b"
  by (simp add: js_or_def)

fun action_index :: "rbac_action \<Rightarrow> nat" where
  "action_index Read = 0"
| "action_index Create = 1"
| "action_index Update = 2"
| "action_index Delete = 3"
| "action_index Test = 4"

lemma action_bit_word: "to_int32 (action_bit a) = push_bit (action_index a) 1"
  by (cases a) (simp_all add: to_int32_def push_bit_eq_mult)

lemma to_int32_zero [simp]: "to_int32 0 = 0"
  by (simp add: to_int32_def)

lemma sint_zero: "sint (w :: 32 word) = 0 \<longleftrightarrow> w = 0"
  by (metis sint_0 to_int32_sint)

lemma action_index_less: "action_index a < 5"
  by (cases a) simp_all

lemma bit_action_bit: "bit (to_int32 (action_bit a)) n \<longleftrightarrow> n = action_index a"
  using action_index_less [of a]
  by (auto simp: action_bit_word push_bit_eq_mult bit_exp_iff possible_bit_word)

lemma and_action_bit:
  "to_int32 m AND to_int32 (action_bit a)
     = (if bit (to_int32 m) (action_index a) then to_int32 (action_bit a) else 0)"
  by (rule bit_word_eqI) (auto simp: bit_and_iff bit_action_bit)

lemma action_bit_nonzero: "to_int32 (action_bit a) \<noteq> 0"
  by (metis bit_0_eq bit_action_bit bot_apply bot_bool_def)

lemma has_rbac_action_bit: "has_rbac_action m a \<longleftrightarrow> bit (to_int32 m) (action_index a)"
  by (simp add: has_rbac_action_def js_and_def sint_zero and_action_bit action_bit_nonzero)

lemma registered_mask_value: "registered_action_mask = 31"
  by (simp add: registered_action_mask_def rbac_actions_def js_or_def to_int32_def)

lemma bit_registered: "bit (to_int32 registered_action_mask) n \<longleftrightarrow> n < 5"
proof -
  have "to_int32 registered_action_mask = mask 5"
    by (simp add: registered_mask_value to_int32_def mask_eq_exp_minus_1)
  then show ?thesis by (auto simp: bit_mask_iff)
qed

lemma has_action_js_or: "has_rbac_action (js_or x y) a \<longleftrightarrow> has_rbac_action x a \<or> has_rbac_action y a"
  by (simp add: has_rbac_action_bit bit_or_iff)

lemma has_action_zero: "\<not> has_rbac_action 0 a"
  by (simp add: has_rbac_action_bit)

lemma has_action_action_bit: "has_rbac_action (action_bit b) a \<longleftrightarrow> a = b"
  unfolding has_rbac_action_bit bit_action_bit by (cases a; cases b) auto

lemma has_action_normalized:
  "has_rbac_action (normalize_permission_mask m) a
     \<longleftrightarrow> safe_integer m \<and> 0 \<le> m \<and> has_rbac_action m a"
  by (auto simp: normalize_permission_mask_def has_rbac_action_bit bit_and_iff bit_registered
      action_index_less)

lemma js_and_action_bit: "js_and m (action_bit a) = action_bit a \<longleftrightarrow> has_rbac_action m a"
proof -
  have s: "sint (to_int32 (action_bit a)) = action_bit a" by (cases a) (simp_all add: to_int32_def)
  have "js_and m (action_bit a) = action_bit a
      \<longleftrightarrow> to_int32 m AND to_int32 (action_bit a) = to_int32 (action_bit a)"
    by (metis js_and_def s to_int32_sint)
  also have "\<dots> \<longleftrightarrow> bit (to_int32 m) (action_index a)"
    using action_bit_nonzero [of a] by (simp add: and_action_bit)
  finally show ?thesis by (simp add: has_rbac_action_bit)
qed

section \<open>Merging roles\<close>

lemma mask_of_update:
  "mask_of (AList.update k v ps) q = (if q = k then v else mask_of ps q)"
  by (simp add: mask_of_def update_conv)

lemma merge_from_action:
  "has_rbac_action (mask_of (foldl (\<lambda>ps (module, m).
        AList.update module (js_or (mask_of ps module) (normalize_permission_mask m)) ps) ps0 rows) q) a
     \<longleftrightarrow> has_rbac_action (mask_of ps0 q) a
       \<or> (\<exists>m. (q, m) \<in> set rows \<and> has_rbac_action (normalize_permission_mask m) a)"
proof (induction rows arbitrary: ps0)
  case Nil
  then show ?case by simp
next
  case (Cons row rows)
  obtain k m where "row = (k, m)" by (cases row)
  with Cons.IH show ?case by (auto simp: mask_of_update has_action_js_or)
qed

lemma merge_has_action:
  "has_rbac_action (mask_of (merge_role_permissions rows) q) a
     \<longleftrightarrow> (\<exists>m. (q, m) \<in> set rows \<and> safe_integer m \<and> 0 \<le> m \<and> has_rbac_action m a)"
  unfolding merge_role_permissions_def merge_from_action
  by (simp add: mask_of_def has_action_zero has_action_normalized)

lemma merge_distinct: "distinct (map fst (merge_role_permissions rows))"
proof -
  have "distinct (map fst ps0) \<Longrightarrow> distinct (map fst (foldl (\<lambda>ps (module, m).
      AList.update module (js_or (mask_of ps module) (normalize_permission_mask m)) ps) ps0 rows))" for ps0
    by (induction rows arbitrary: ps0) (auto intro!: distinct_update split: prod.split)
  then show ?thesis by (simp add: merge_role_permissions_def)
qed

lemma mask_of_entry: "distinct (map fst ps) \<Longrightarrow> (q, m) \<in> set ps \<Longrightarrow> mask_of ps q = m"
  by (simp add: mask_of_def)

lemma mask_of_absent: "q \<notin> fst ` set ps \<Longrightarrow> mask_of ps q = 0"
  by (simp add: mask_of_def map_of_eq_None_iff [THEN iffD2])

text \<open>A grant that passes the check covers, module by module, what the operator holds.\<close>

lemma grants_within_actor:
  assumes "assert_grants_within_actor actor requested = Inr ()" and "\<not> actor_root actor"
  shows "js_and (mask_of (merge_role_permissions requested) q)
             (mask_of (merge_role_permissions (actor_permissions actor)) q)
       = mask_of (merge_role_permissions requested) q"
proof (cases "q \<in> fst ` set (merge_role_permissions requested)")
  case True
  then obtain m where m: "(q, m) \<in> set (merge_role_permissions requested)" by auto
  with assms have "js_and m (mask_of (merge_role_permissions (actor_permissions actor)) q) = m"
    by (auto simp: assert_grants_within_actor_def Let_def list_ex_iff split: if_splits)
  with mask_of_entry [OF merge_distinct m] show ?thesis by simp
next
  case False
  then show ?thesis by (simp add: mask_of_absent js_and_def to_int32_def)
qed

lemma granted_trans:
  assumes "js_and requested held = requested" and "js_and requested need = need"
  shows "js_and held need = need"
proof -
  from assms(1) have r: "to_int32 requested AND to_int32 held = to_int32 requested" by (metis to_int32_js_and)
  from assms(2) have n: "to_int32 requested AND to_int32 need = to_int32 need" by (metis to_int32_js_and)
  have "to_int32 held AND to_int32 need = to_int32 requested AND to_int32 need"
    by (metis n r and.assoc and.commute)
  then show ?thesis using assms(2) by (simp add: js_and_def)
qed

section \<open>Masks and names\<close>

lemma actions_to_mask_has:
  "has_rbac_action (actions_to_mask names) a \<longleftrightarrow> (\<exists>s\<in>set names. action_of_name s = Some a)"
proof -
  have "has_rbac_action (foldl (\<lambda>m s. js_or m
      (case action_of_name s of None \<Rightarrow> 0 | Some a \<Rightarrow> action_bit a)) m0 names) a
    \<longleftrightarrow> has_rbac_action m0 a \<or> (\<exists>s\<in>set names. action_of_name s = Some a)" for m0
  proof (induction names arbitrary: m0)
    case Nil
    then show ?case by simp
  next
    case (Cons s names)
    then show ?case
      by (cases "action_of_name s") (auto simp: has_action_js_or has_action_zero has_action_action_bit)
  qed
  then show ?thesis by (simp add: actions_to_mask_def has_action_zero)
qed

section \<open>Properties\<close>

text \<open>
  C13. A grant that passes the check gives out only permissions its grantor has.
\<close>

lemma grants_never_escalate:
  assumes "assert_grants_within_actor actor requested = Inr ()"
    and "has_granted_permission False (merge_role_permissions requested) (q, need)"
  shows "has_granted_permission (actor_root actor) (merge_role_permissions (actor_permissions actor)) (q, need)"
proof (cases "actor_root actor")
  case True
  then show ?thesis by (simp add: has_granted_permission_def)
next
  case False
  from granted_trans [OF grants_within_actor [OF assms(1) False, of q]] assms(2) False show ?thesis
    by (simp add: has_granted_permission_def)
qed

lemma grants_never_escalate_witness:
  "assert_grants_within_actor \<lparr> actor_root = False, actor_permissions = [(''orders'', 3), (''orders'', 4)] \<rparr>
      [(''orders'', 5)] = Inr ()
   \<and> has_granted_permission False (merge_role_permissions [(''orders'', 3), (''orders'', 4)]) (''orders'', 5)"
proof -
  have a: "assert_grants_within_actor \<lparr> actor_root = False, actor_permissions = [(''orders'', 3), (''orders'', 4)] \<rparr>
      [(''orders'', 5)] = Inr ()" by code_simp
  have h: "has_granted_permission False (merge_role_permissions [(''orders'', 5)]) (''orders'', 5)" by code_simp
  from grants_never_escalate [OF a h] a show ?thesis by simp
qed

text \<open>
  C14. Merging the rows of several roles grants an action on a module exactly when one row with
  a valid mask does.
\<close>

lemma merged_permission_iff:
  "has_granted_permission False (merge_role_permissions rows) (q, action_bit a)
     \<longleftrightarrow> (\<exists>m. (q, m) \<in> set rows \<and> safe_integer m \<and> 0 \<le> m \<and> has_rbac_action m a)"
  by (simp add: has_granted_permission_def js_and_action_bit merge_has_action)

end
