(* ===== verification/Rate_Limits.thy ===== *)
theory Rate_Limits
  imports Shop_Prelude
begin

text \<open>
  Fixed-window rate limits (\<^verbatim>\<open>src/server/rate-limit.ts\<close>) and the budgets built on
  them: authentication writes (\<^verbatim>\<open>src/features/auth/server/durable-rate-limit.ts\<close>) and
  supplier traffic (\<^verbatim>\<open>src/features/suppliers/server/rate-limit.ts\<close>). The counter
  table is unique in (bucket, window); the upsert of a claim is one statement, so claims are a
  sequence.
\<close>

section \<open>The counter\<close>

record counter_row =
  rc_bucket :: string
  rc_window :: int
  rc_count :: int
  rc_expires_at :: int

type_synonym counters = "counter_row list"

record claim =
  cl_bucket :: string
  cl_limit :: int
  cl_window_ms :: int

record claim_result =
  cl_allowed :: bool
  cl_count :: int
  cl_window_start :: int

definition window_start :: "int \<Rightarrow> int \<Rightarrow> int" where
  "window_start now window_ms = now div window_ms * window_ms"

definition in_bucket :: "string \<Rightarrow> int \<Rightarrow> counter_row \<Rightarrow> bool" where
  "in_bucket b w r \<longleftrightarrow> rc_bucket r = b \<and> rc_window r = w"

definition claim_fixed_window :: "int \<Rightarrow> claim \<Rightarrow> counters \<Rightarrow> claim_result \<times> counters" where
  "claim_fixed_window now c t =
     (let w = window_start now (cl_window_ms c)
      in case sql_first (in_bucket (cl_bucket c) w) t of
           None \<Rightarrow>
             (\<lparr> cl_allowed = True, cl_count = 1, cl_window_start = w \<rparr>,
              t @ [\<lparr> rc_bucket = cl_bucket c, rc_window = w, rc_count = 1,
                     rc_expires_at = w + cl_window_ms c * 2 \<rparr>])
         | Some r \<Rightarrow>
             (if rc_count r < cl_limit c
              then (\<lparr> cl_allowed = True, cl_count = rc_count r + 1, cl_window_start = w \<rparr>,
                    sql_update (in_bucket (cl_bucket c) w) (\<lambda>r. r \<lparr> rc_count := rc_count r + 1 \<rparr>) t)
              else (\<lparr> cl_allowed = False, cl_count = cl_limit c, cl_window_start = w \<rparr>, t)))"

section \<open>Budgets of suppliers and checkouts\<close>

definition supplier_claim :: "string \<Rightarrow> int \<Rightarrow> claim" where
  "supplier_claim bucket limit = \<lparr> cl_bucket = bucket, cl_limit = limit, cl_window_ms = 60000 \<rparr>"

text \<open>Both budgets are always charged, also when the first is exhausted.\<close>

definition claim_supplier_api_budget :: "int \<Rightarrow> string \<Rightarrow> string \<Rightarrow> counters \<Rightarrow> unit result \<times> counters" where
  "claim_supplier_api_budget now digest account t =
     (let (source, t) = claim_fixed_window now (supplier_claim (''supplier:source:'' @ digest) 300) t;
          (acc, t) = claim_fixed_window now (supplier_claim (''supplier:account:'' @ account) 120) t
      in (if \<not> cl_allowed source \<or> \<not> cl_allowed acc
          then Inl (DomainError ''supplier_rate_limited'' 429) else Inr (), t))"

definition claim_supplier_callback_budget :: "int \<Rightarrow> string \<Rightarrow> counters \<Rightarrow> bool \<times> counters" where
  "claim_supplier_callback_budget now account t =
     (let (r, t) = claim_fixed_window now (supplier_claim (''supplier:callback:'' @ account) 120) t
      in (cl_allowed r, t))"

definition claim_supplier_callback_failure_budget :: "int \<Rightarrow> string \<Rightarrow> counters \<Rightarrow> bool \<times> counters" where
  "claim_supplier_callback_failure_budget now ip t =
     (let (r, t) = claim_fixed_window now (supplier_claim (''supplier:callback-failure:ip:'' @ ip) 30) t
      in (cl_allowed r, t))"

section \<open>Authentication writes\<close>

definition starts_with :: "string \<Rightarrow> string \<Rightarrow> bool" where
  "starts_with p s = (take (length p) s = p)"

text \<open>The pattern of one path segment: the prefix ends there or is followed by a slash.\<close>

definition path_under :: "string \<Rightarrow> string \<Rightarrow> bool" where
  "path_under p s \<longleftrightarrow> starts_with p s \<and> (length s = length p \<or> s ! length p = CHR ''/'')"

definition is_infix :: "string \<Rightarrow> string \<Rightarrow> bool" where
  "is_infix p s = list_ex (\<lambda>i. starts_with p (drop i s)) [0..<Suc (length s)]"

definition auth_write_path :: "string \<Rightarrow> bool" where
  "auth_write_path path \<longleftrightarrow>
     path_under ''/sign-in'' path \<or> path_under ''/sign-up'' path \<or> path_under ''/email-otp'' path
     \<or> path_under ''/sign-in-telegram'' path
     \<or> path \<in> set [''/telegram/miniapp/signin'', ''/telegram/signin'', ''/forget-password'',
         ''/request-password-reset'', ''/reset-password'', ''/send-verification-email'', ''/change-email'']"

definition mail_path :: "string \<Rightarrow> bool" where
  "mail_path path \<longleftrightarrow> path \<in> set [''/sign-up/email'', ''/send-verification-email'',
     ''/email-otp/send-verification-otp'', ''/email-otp/request-password-reset'', ''/forget-password'',
     ''/request-password-reset'']"

text \<open>
  The claims of one request, in order. \<open>digest\<close> is the SHA-256 of the normalised address in
  the body, \<open>None\<close> without one.
\<close>

definition auth_claims :: "string \<Rightarrow> string \<Rightarrow> string option \<Rightarrow> claim list" where
  "auth_claims path ip digest =
     [\<lparr> cl_bucket = ''auth:write:ip:'' @ ip, cl_limit = 20, cl_window_ms = 60000 \<rparr>]
     @ (if path = ''/sign-up/email''
        then [\<lparr> cl_bucket = ''auth:signup:ip:'' @ ip, cl_limit = 5, cl_window_ms = 3600000 \<rparr>] else [])
     @ (if path_under ''/sign-in'' path \<or> path = ''/telegram/signin'' \<or> path = ''/telegram/miniapp/signin''
        then [\<lparr> cl_bucket = ''auth:login:ip:'' @ ip, cl_limit = 5, cl_window_ms = 60000 \<rparr>] else [])
     @ (if list_ex (\<lambda>w. is_infix w path) [''otp'', ''verification'', ''password-reset'', ''forget-password'']
        then [\<lparr> cl_bucket = ''auth:verify:ip:'' @ ip, cl_limit = 3, cl_window_ms = 60000 \<rparr>] else [])
     @ (case digest of None \<Rightarrow> [] | Some d \<Rightarrow>
          (if mail_path path
           then [\<lparr> cl_bucket = ''auth:mail:identity:'' @ d, cl_limit = 3, cl_window_ms = 600000 \<rparr>,
                 \<lparr> cl_bucket = ''auth:mail:daily:'' @ d, cl_limit = 10, cl_window_ms = 86400000 \<rparr>] else [])
          @ [\<lparr> cl_bucket = ''auth:identity:'' @ d, cl_limit = 10, cl_window_ms = 60000 \<rparr>])"

text \<open>The audit rows are identified by the exhausted bucket and window.\<close>

fun claim_all :: "int \<Rightarrow> claim list \<Rightarrow> counters \<times> (string \<times> int) list
   \<Rightarrow> unit result \<times> counters \<times> (string \<times> int) list" where
  "claim_all now [] (t, audit) = (Inr (), t, audit)"
| "claim_all now (c # cs) (t, audit) =
     (let (r, t) = claim_fixed_window now c t
      in if cl_allowed r then claim_all now cs (t, audit)
         else (Inl (DomainError ''TOO_MANY_REQUESTS'' 429), t,
               List.insert (cl_bucket c, cl_window_start r) audit))"

definition enforce_auth_rate_limit ::
  "int \<Rightarrow> string \<Rightarrow> string \<Rightarrow> string option \<Rightarrow> counters \<times> (string \<times> int) list
   \<Rightarrow> unit result \<times> counters \<times> (string \<times> int) list" where
  "enforce_auth_rate_limit now path ip digest st =
     (if auth_write_path path then claim_all now (auth_claims path ip digest) st
      else (Inr (), fst st, snd st))"

section \<open>Laws\<close>

definition counted :: "string \<Rightarrow> int \<Rightarrow> counters \<Rightarrow> int" where
  "counted b w t = (case sql_first (in_bucket b w) t of None \<Rightarrow> 0 | Some r \<Rightarrow> rc_count r)"

lemma window_start_covers:
  "0 < ms \<Longrightarrow> window_start now ms \<le> now \<and> now < window_start now ms + ms"
  using pos_mod_bound [of ms now] pos_mod_sign [of ms now] minus_mod_eq_div_mult [of now ms]
  unfolding window_start_def by linarith

lemma find_bump:
  "sql_first (in_bucket b w) (sql_update (in_bucket b' w') (\<lambda>r. r \<lparr> rc_count := rc_count r + 1 \<rparr>) t)
     = map_option (\<lambda>r. if b = b' \<and> w = w' then r \<lparr> rc_count := rc_count r + 1 \<rparr> else r)
         (sql_first (in_bucket b w) t)"
  by (induction t) (auto simp: in_bucket_def)

lemma claim_counts:
  assumes "claim_fixed_window now c t = (r, t')"
  shows "counted b w t' = counted b w t
      + (if cl_allowed r \<and> b = cl_bucket c \<and> w = window_start now (cl_window_ms c) then 1 else 0)"
  using assms
  by (auto simp: claim_fixed_window_def counted_def Let_def find_bump sql_first_append in_bucket_def
      split: option.splits if_splits)

lemma claim_allowed_iff:
  assumes "claim_fixed_window now c t = (r, t')" and "0 < cl_limit c"
    and "\<forall>x\<in>set t. 0 < rc_count x"
  shows "cl_allowed r \<longleftrightarrow> counted (cl_bucket c) (window_start now (cl_window_ms c)) t < cl_limit c"
  using assms by (auto simp: claim_fixed_window_def counted_def Let_def split: option.splits if_splits)

text \<open>A run of claims at given times; the number allowed for one bucket in one window.\<close>

fun run_claims :: "(int \<times> claim) list \<Rightarrow> counters \<Rightarrow> bool list \<times> counters" where
  "run_claims [] t = ([], t)"
| "run_claims ((now, c) # cs) t =
     (let (r, t) = claim_fixed_window now c t; (rs, t) = run_claims cs t
      in (cl_allowed r # rs, t))"

definition admitted :: "string \<Rightarrow> int \<Rightarrow> (int \<times> claim) list \<Rightarrow> bool list \<Rightarrow> nat" where
  "admitted b w cs rs = length (filter (\<lambda>((now, c), ok). ok \<and> cl_bucket c = b
     \<and> window_start now (cl_window_ms c) = w) (zip cs rs))"

locale window_counter =
  fixes admit :: "'q \<Rightarrow> 's \<Rightarrow> bool \<times> 's" and used :: "'b \<Rightarrow> 's \<Rightarrow> int"
    and bucket :: "'q \<Rightarrow> 'b" and cap :: "'q \<Rightarrow> int"
  assumes admit_counts: "admit q s = (ok, s') \<Longrightarrow>
      used b s' = used b s + (if ok \<and> b = bucket q then 1 else 0)"
    and admit_below: "admit q s = (True, s') \<Longrightarrow> used (bucket q) s < cap q"
begin

fun serve :: "'q list \<Rightarrow> 's \<Rightarrow> bool list \<times> 's" where
  "serve [] s = ([], s)"
| "serve (q # qs) s = (let (ok, s) = admit q s; (oks, s) = serve qs s in (ok # oks, s))"

definition served :: "'b \<Rightarrow> 'q list \<Rightarrow> bool list \<Rightarrow> nat" where
  "served b qs oks = length (filter (\<lambda>(q, ok). ok \<and> bucket q = b) (zip qs oks))"

lemma serve_used: "serve qs s = (oks, s') \<Longrightarrow> used b s' = used b s + int (served b qs oks)"
proof (induction qs arbitrary: s oks)
  case Nil
  then show ?case by (simp add: served_def)
next
  case (Cons q qs)
  obtain ok d where a: "admit q s = (ok, d)" by fastforce
  obtain os e where b: "serve qs d = (os, e)" by fastforce
  from Cons.prems a b have "oks = ok # os" "e = s'" by auto
  with Cons.IH b admit_counts [OF a, of b] show ?case by (auto simp: served_def)
qed

lemma serve_within_cap:
  assumes "serve qs s = (oks, s')" and "\<forall>q\<in>set qs. bucket q = b \<longrightarrow> cap q \<le> n"
    and "used b s \<le> n"
  shows "used b s' \<le> n"
  using assms
proof (induction qs arbitrary: s oks)
  case Nil
  then show ?case by simp
next
  case (Cons q qs)
  obtain ok d where a: "admit q s = (ok, d)" by fastforce
  obtain os e where r: "serve qs d = (os, e)" by fastforce
  have "used b d \<le> n"
  proof (cases "ok \<and> bucket q = b")
    case True
    then have "used b s < n" using admit_below [of q s d] a Cons.prems(2) by force
    with admit_counts [OF a, of b] True show ?thesis by simp
  next
    case False
    with admit_counts [OF a, of b] Cons.prems(3) show ?thesis by auto
  qed
  with Cons r a show ?case by (auto simp: Let_def)
qed

end

definition admit_claim :: "int \<times> claim \<Rightarrow> counters \<Rightarrow> bool \<times> counters" where
  "admit_claim q t = (let (r, t') = claim_fixed_window (fst q) (snd q) t in (cl_allowed r, t'))"

interpretation windows: window_counter admit_claim "\<lambda>(b, w). counted b w"
    "\<lambda>(now, c). (cl_bucket c, window_start now (cl_window_ms c))" "\<lambda>(now, c). max 1 (cl_limit c)"
proof
  fix q s ok s' and b :: "string \<times> int"
  assume "admit_claim q s = (ok, s')"
  then obtain r where "claim_fixed_window (fst q) (snd q) s = (r, s')" "ok = cl_allowed r"
    by (auto simp: admit_claim_def split: prod.splits)
  then show "(case b of (b, w) \<Rightarrow> counted b w) s' = (case b of (b, w) \<Rightarrow> counted b w) s
      + (if ok \<and> b = (case q of (now, c) \<Rightarrow> (cl_bucket c, window_start now (cl_window_ms c))) then 1 else 0)"
    using claim_counts by (auto split: prod.splits)
next
  fix q s s'
  assume "admit_claim q s = (True, s')"
  then obtain r where "claim_fixed_window (fst q) (snd q) s = (r, s')" "cl_allowed r"
    by (auto simp: admit_claim_def split: prod.splits)
  then show "(case case q of (now, c) \<Rightarrow> (cl_bucket c, window_start now (cl_window_ms c)) of
      (b, w) \<Rightarrow> counted b w) s < (case q of (now, c) \<Rightarrow> max 1 (cl_limit c))"
    by (auto simp: claim_fixed_window_def counted_def Let_def split: prod.splits option.splits if_splits)
qed

lemma run_claims_serve: "run_claims cs t = windows.serve cs t"
  by (induction cs arbitrary: t) (auto simp: admit_claim_def split: prod.splits)

lemma admitted_served: "admitted b w cs rs = windows.served (b, w) cs rs"
  unfolding admitted_def windows.served_def
  by (rule arg_cong [of _ _ length], rule filter_cong [OF refl]) (auto split: prod.splits)

lemma run_claims_within:
  assumes "run_claims cs t = (rs, t')"
    and "\<forall>(now, c)\<in>set cs. cl_bucket c = b \<and> window_start now (cl_window_ms c) = w \<longrightarrow> cl_limit c \<le> n"
    and "1 \<le> n" and "counted b w t \<le> n"
  shows "counted b w t + int (admitted b w cs rs) \<le> n"
proof -
  have s: "windows.serve cs t = (rs, t')" using assms(1) by (simp only: run_claims_serve)
  have cap: "\<forall>q\<in>set cs. (case q of (now, c) \<Rightarrow> (cl_bucket c, window_start now (cl_window_ms c))) = (b, w)
      \<longrightarrow> (case q of (now, c) \<Rightarrow> max 1 (cl_limit c)) \<le> n"
  proof
    fix q assume q: "q \<in> set cs"
    obtain now c where "q = (now, c)" by (cases q)
    with q assms(2,3) show "(case q of (now, c) \<Rightarrow> (cl_bucket c, window_start now (cl_window_ms c))) = (b, w)
      \<longrightarrow> (case q of (now, c) \<Rightarrow> max 1 (cl_limit c)) \<le> n" by fastforce
  qed
  have "counted b w t' \<le> n" using windows.serve_within_cap [OF s cap] assms(4) by simp
  moreover have "counted b w t' = counted b w t + int (windows.served (b, w) cs rs)"
    using windows.serve_used [OF s, of "(b, w)"] by simp
  ultimately show ?thesis by (simp only: admitted_served)
qed

lemma run_claims_length: "run_claims cs t = (rs, t') \<Longrightarrow> length rs = length cs"
  by (induction cs arbitrary: t rs) (auto simp: Let_def split: prod.splits)

section \<open>Properties\<close>

text \<open>
  C12. Any sequence of claims on one bucket and window is admitted at most as often as its limit
  allows, counted from what the window had already admitted.
\<close>

lemma window_admits_at_most_limit:
  assumes "run_claims cs t = (rs, t')"
    and "\<forall>(now, c)\<in>set cs. cl_bucket c = b \<and> window_start now (cl_window_ms c) = w \<longrightarrow> cl_limit c \<le> n"
    and "1 \<le> n" and "counted b w t \<le> n"
  shows "counted b w t + int (admitted b w cs rs) \<le> n \<and> length rs = length cs"
  using run_claims_within [OF assms] run_claims_length [OF assms(1)] by simp

lemma window_admits_at_most_limit_witness:
  "admitted ''b'' 60000
     [(60000, supplier_claim ''b'' 2), (60001, supplier_claim ''b'' 2), (119999, supplier_claim ''b'' 2),
      (120000, supplier_claim ''b'' 2)] [True, True, False, True] \<le> 2"
proof -
  let ?cs = "[(60000, supplier_claim ''b'' 2), (60001, supplier_claim ''b'' 2),
      (119999, supplier_claim ''b'' 2), (120000, supplier_claim ''b'' 2)]"
  have r: "fst (run_claims ?cs []) = [True, True, False, True]" by code_simp
  then obtain t where t: "run_claims ?cs [] = ([True, True, False, True], t)" by (metis prod.collapse)
  have z: "counted ''b'' 60000 [] = 0" by code_simp
  from window_admits_at_most_limit [OF t, of "''b''" 60000 2] z show ?thesis
    by (simp add: supplier_claim_def)
qed

end
