(* ===== verification/Leases.thy ===== *)
theory Leases
  imports Shop_Prelude
begin

text \<open>
  Work that several processes may pick up is leased: a taker marks the row with his token and a
  time until which nobody else may take it, and finishes it only while the row still carries
  that token. The durable queue (\<^theory_text>\<open>Durable_Queue\<close>) and the refund attempts
  (\<^theory_text>\<open>Refunds\<close>) are instances.
\<close>

locale lease =
  fixes free :: "int \<Rightarrow> 'r \<Rightarrow> bool" and grab :: "'t \<Rightarrow> int \<Rightarrow> int \<Rightarrow> 'r \<Rightarrow> 'r"
    and held_by :: "'t \<Rightarrow> 'r \<Rightarrow> bool"
  assumes grab_holds: "held_by t (grab t now until r)"
    and held_once: "held_by t r \<Longrightarrow> held_by t' r \<Longrightarrow> t = t'"
    and grab_blocks: "now' < until \<Longrightarrow> \<not> free now' (grab t now until r)"
begin

text \<open>A later taker evicts the earlier one.\<close>

lemma evicted: "t \<noteq> t' \<Longrightarrow> \<not> held_by t (grab t' now until r)"
  using grab_holds held_once by blast

text \<open>Takers contend for a row at given times, each for a lease of \<open>d\<close>; the winners.\<close>

fun contend :: "int \<Rightarrow> ('t \<times> int) list \<Rightarrow> 'r \<Rightarrow> ('t \<times> int) list" where
  "contend d [] r = []"
| "contend d ((t, now) # cs) r =
     (if free now r then (t, now) # contend d cs (grab t now (now + d) r) else contend d cs r)"

lemma winners_after:
  assumes "\<forall>n < l. \<not> free n r" and "0 \<le> d" and "w \<in> set (contend d cs r)"
    and "sorted (map snd cs)"
  shows "l \<le> snd w"
  using assms
proof (induction cs arbitrary: r l)
  case Nil
  then show ?case by simp
next
  case (Cons c cs)
  obtain t now where c: "c = (t, now)" by (cases c)
  show ?case
  proof (cases "free now r")
    case True
    with Cons.prems(1) have l: "l \<le> now" by (meson not_le)
    from Cons.prems(3) True c consider "w = (t, now)" | "w \<in> set (contend d cs (grab t now (now + d) r))" by auto
    then show ?thesis
    proof cases
      case 1
      with l show ?thesis by simp
    next
      case 2
      have "\<forall>n < now + d. \<not> free n (grab t now (now + d) r)" using grab_blocks by blast
      from Cons.IH [OF this Cons.prems(2) 2] Cons.prems(4) have "now + d \<le> snd w" by simp
      with l Cons.prems(2) show ?thesis by simp
    qed
  next
    case False
    with Cons.prems c show ?thesis using Cons.IH by simp
  qed
qed

lemma winners_apart:
  assumes "0 \<le> d" and "sorted (map snd cs)"
  shows "sorted_wrt (\<lambda>v w. snd v + d \<le> snd w) (contend d cs r)"
  using assms(2)
proof (induction cs arbitrary: r)
  case Nil
  then show ?case by simp
next
  case (Cons c cs)
  obtain t now where c: "c = (t, now)" by (cases c)
  have "\<forall>n < now + d. \<not> free n (grab t now (now + d) r)" using grab_blocks by blast
  with winners_after [OF this assms(1), of _ cs] Cons c show ?case by auto
qed

end

end
