(* ===== verification/Durable_Queue.thy ===== *)
theory Durable_Queue
  imports Leases
begin

text \<open>
  The durable message queue of the Node runtime
  (\<^verbatim>\<open>src/server/runtime/node/queue.ts\<close>) and the routing of commerce messages
  (\<^verbatim>\<open>src/server/queue/routing.ts\<close>). Messages are rows of
  \<^verbatim>\<open>node_queue_messages\<close>; random ids and lease tokens are arguments.
\<close>

section \<open>Messages\<close>

datatype message_status = Ready | Leased | Dead

record 'a message =
  q_id :: string
  q_queue :: string
  q_body :: 'a
  q_status :: message_status
  q_attempts :: nat
  q_available_at :: int
  q_token :: "string option"
  q_lease_expires_at :: "int option"
  q_created_at :: int

definition enqueue :: "string \<Rightarrow> string \<Rightarrow> 'a \<Rightarrow> int \<Rightarrow> int \<Rightarrow> 'a message list \<Rightarrow> 'a message list" where
  "enqueue mid name body delay_seconds now t =
     t @ [\<lparr> q_id = mid, q_queue = name, q_body = body, q_status = Ready, q_attempts = 0,
            q_available_at = now + max 0 delay_seconds * 1000, q_token = None,
            q_lease_expires_at = None, q_created_at = now \<rparr>]"

fun send_batch ::
  "string \<Rightarrow> int \<Rightarrow> int \<Rightarrow> (string \<times> 'a \<times> int option) list \<Rightarrow> 'a message list \<Rightarrow> 'a message list" where
  "send_batch name default_delay now [] t = t"
| "send_batch name default_delay now ((mid, body, delay) # ms) t =
     send_batch name default_delay now ms
       (enqueue mid name body (case delay of Some d \<Rightarrow> d | None \<Rightarrow> default_delay) now t)"

section \<open>Claiming\<close>

definition lease_open :: "int \<Rightarrow> 'a message \<Rightarrow> bool" where
  "lease_open now m \<longleftrightarrow> q_status m = Ready
     \<or> (q_status m = Leased \<and> (case q_lease_expires_at m of None \<Rightarrow> False | Some x \<Rightarrow> x \<le> now))"

definition claimable :: "string \<Rightarrow> int \<Rightarrow> 'a message \<Rightarrow> bool" where
  "claimable name now m \<longleftrightarrow> q_queue m = name \<and> q_available_at m \<le> now \<and> lease_open now m"

definition candidates :: "string \<Rightarrow> int \<Rightarrow> nat \<Rightarrow> 'a message list \<Rightarrow> string list" where
  "candidates name now limit t =
     map q_id (take limit (sql_ordered (\<lambda>m. (q_available_at m, q_created_at m, q_id m)) (claimable name now) t))"

definition take_lease :: "string \<Rightarrow> int \<Rightarrow> 'a message \<Rightarrow> 'a message" where
  "take_lease token expires m =
     m \<lparr> q_status := Leased, q_token := Some token, q_lease_expires_at := Some expires,
         q_attempts := q_attempts m + 1 \<rparr>"

definition claim_one ::
  "string \<Rightarrow> int \<Rightarrow> int \<Rightarrow> string \<Rightarrow> string \<Rightarrow> 'a message list \<Rightarrow> 'a message option \<times> 'a message list" where
  "claim_one name lease_ms now mid token t =
     (let hit = (\<lambda>m. q_id m = mid \<and> q_queue m = name \<and> lease_open now m)
      in (map_option (take_lease token (now + lease_ms)) (sql_first hit t),
          sql_update hit (take_lease token (now + lease_ms)) t))"

fun claim_each ::
  "string \<Rightarrow> int \<Rightarrow> int \<Rightarrow> (string \<times> string) list \<Rightarrow> 'a message list \<Rightarrow> 'a message list \<times> 'a message list" where
  "claim_each name lease_ms now [] t = ([], t)"
| "claim_each name lease_ms now ((mid, token) # cs) t =
     (let (row, t) = claim_one name lease_ms now mid token t;
          (rows, t) = claim_each name lease_ms now cs t
      in ((case row of Some m \<Rightarrow> m # rows | None \<Rightarrow> rows), t))"

text \<open>\<open>tokens i\<close> is the random token drawn for the i-th candidate.\<close>

definition claim_messages ::
  "string \<Rightarrow> nat \<Rightarrow> int \<Rightarrow> int \<Rightarrow> (nat \<Rightarrow> string) \<Rightarrow> 'a message list \<Rightarrow> 'a message list \<times> 'a message list" where
  "claim_messages name limit lease_ms now tokens t =
     (let ids = candidates name now limit t
      in claim_each name lease_ms now (zip ids (map tokens [0..<length ids])) t)"

definition lease_held :: "string \<Rightarrow> string \<Rightarrow> string \<Rightarrow> 'a message \<Rightarrow> bool" where
  "lease_held name mid token m \<longleftrightarrow> q_id m = mid \<and> q_queue m = name \<and> q_status m = Leased \<and> q_token m = Some token"

definition ack :: "string \<Rightarrow> string \<Rightarrow> string \<Rightarrow> 'a message list \<Rightarrow> 'a message list" where
  "ack name mid token t = filter (\<lambda>m. \<not> lease_held name mid token m) t"

definition release_lease :: "bool \<Rightarrow> int \<Rightarrow> 'a message \<Rightarrow> 'a message" where
  "release_lease dead available_at m =
     m \<lparr> q_status := (if dead then Dead else Ready), q_available_at := available_at,
         q_token := None, q_lease_expires_at := None \<rparr>"

definition retry ::
  "string \<Rightarrow> nat \<Rightarrow> int \<Rightarrow> int \<Rightarrow> 'a message \<Rightarrow> 'a message list \<Rightarrow> 'a message list" where
  "retry name max_attempts delay_ms now m t =
     (case q_token m of
        None \<Rightarrow> t
      | Some token \<Rightarrow>
          sql_update (lease_held name (q_id m) token)
            (release_lease (max_attempts \<le> q_attempts m) (now + delay_ms)) t)"

section \<open>Processing a claimed message\<close>

datatype disposition = Undecided | Acked | Retried "int option"

record consumer_options =
  co_concurrency :: nat
  co_max_attempts :: nat
  co_lease_ms :: "int option"
  co_base_retry_ms :: "int option"
  co_max_retry_ms :: "int option"
  co_poll_ms :: "int option"
  co_max_idle_ms :: "int option"

definition or_default :: "'a option \<Rightarrow> 'a \<Rightarrow> 'a" where
  "or_default x d = (case x of Some v \<Rightarrow> v | None \<Rightarrow> d)"

definition exponential_ms :: "consumer_options \<Rightarrow> nat \<Rightarrow> int" where
  "exponential_ms opts attempts =
     min (or_default (co_max_retry_ms opts) 3600000)
       (or_default (co_base_retry_ms opts) 15000 * 2 ^ nat (max 0 (int attempts - 1)))"

text \<open>
  The handler leaves a disposition; one that throws leaves a retry, keeping a delay it may have
  asked for before.
\<close>

definition after_throw :: "disposition \<Rightarrow> disposition" where
  "after_throw d = (case d of Retried x \<Rightarrow> Retried x | _ \<Rightarrow> Retried None)"

definition settle ::
  "string \<Rightarrow> consumer_options \<Rightarrow> int \<Rightarrow> 'a message \<Rightarrow> disposition \<Rightarrow> 'a message list \<Rightarrow> 'a message list" where
  "settle name opts now m d t =
     (case d of
        Acked \<Rightarrow> (case q_token m of None \<Rightarrow> t | Some token \<Rightarrow> ack name (q_id m) token t)
      | Retried (Some s) \<Rightarrow> retry name (co_max_attempts opts) (max 0 s * 1000) now m t
      | _ \<Rightarrow> retry name (co_max_attempts opts) (exponential_ms opts (q_attempts m)) now m t)"

text \<open>
  The consumer's timer: \<^verbatim>\<open>poll\<close> claims what concurrency allows and doubles the idle
  interval when it found nothing. The result is the claimed messages and the next interval, or
  \<open>None\<close> when it waits for a task to complete.
\<close>

definition min_poll :: "consumer_options \<Rightarrow> int" where
  "min_poll opts = max 1 (or_default (co_poll_ms opts) 250)"

definition max_idle :: "consumer_options \<Rightarrow> int" where
  "max_idle opts = max (min_poll opts) (or_default (co_max_idle_ms opts) 5000)"

definition poll ::
  "string \<Rightarrow> consumer_options \<Rightarrow> int \<Rightarrow> (nat \<Rightarrow> string) \<Rightarrow> nat \<Rightarrow> int \<Rightarrow> 'a message list
   \<Rightarrow> 'a message list \<times> int option \<times> 'a message list" where
  "poll name opts now tokens in_flight idle_ms t =
     (let available = co_concurrency opts - in_flight;
          (claimed, t) = (if available > 0
             then claim_messages name available (or_default (co_lease_ms opts) 60000) now tokens t
             else ([], t))
      in (claimed,
          (if in_flight + length claimed \<ge> co_concurrency opts then None
           else if claimed \<noteq> [] then Some (min_poll opts)
           else Some (min (max_idle opts) (max (min_poll opts) (idle_ms * 2)))), t))"

section \<open>Routing\<close>

text \<open>A JSON value that arrives in a message, as far as the check of its shape looks at it.\<close>

datatype json = J_String string | J_Number int | J_Object "(string \<times> json) list" | J_Array "json list" | J_Null

definition json_field :: "(string \<times> json) list \<Rightarrow> string \<Rightarrow> json option" where
  "json_field members key = map_of members key"

definition valid_reference :: "(string \<times> json) list \<Rightarrow> string \<Rightarrow> bool" where
  "valid_reference members key \<longleftrightarrow> length members = 3 \<and>
     (case json_field members key of
        Some (J_String s) \<Rightarrow> length s > 0 \<and> length s \<le> 128
      | _ \<Rightarrow> False)"

definition reference_key :: "string \<Rightarrow> string option" where
  "reference_key kind = map_of
     [(''commerce.delivery'', ''deliveryId''), (''commerce.automation'', ''automationJobId''),
      (''commerce.notification'', ''notificationDeliveryId''), (''commerce.refund'', ''refundId''),
      (''commerce.supplier'', ''supplierOrderId''), (''commerce.inventory-event'', ''outboxId'')] kind"

definition is_commerce_message :: "json \<Rightarrow> bool" where
  "is_commerce_message value =
     (case value of
        J_Object members \<Rightarrow>
          json_field members ''version'' = Some (J_Number 1) \<and>
          (case json_field members ''kind'' of
             Some (J_String kind) \<Rightarrow>
               (case reference_key kind of Some key \<Rightarrow> valid_reference members key | None \<Rightarrow> False)
           | _ \<Rightarrow> False)
      | _ \<Rightarrow> False)"

definition retry_delay_seconds :: "nat \<Rightarrow> int" where
  "retry_delay_seconds attempts = min 300 (15 * 2 ^ nat (max 0 (int attempts - 1)))"

datatype outcome = Was_Completed | Was_Rejected | Was_Retried

text \<open>\<open>work\<close> tells whether the handler of a well-formed body returns.\<close>

definition process_message :: "(json \<Rightarrow> bool) \<Rightarrow> json message \<Rightarrow> outcome \<times> disposition" where
  "process_message work m =
     (if \<not> is_commerce_message (q_body m) then (Was_Rejected, Acked)
      else if work (q_body m) then (Was_Completed, Acked)
      else (Was_Retried, Retried (Some (retry_delay_seconds (q_attempts m)))))"

section \<open>Laws\<close>

interpretation message_lease: lease "\<lambda>now m. q_available_at m \<le> now \<and> lease_open now m"
    "\<lambda>token now until m. take_lease token until m" "\<lambda>token m. q_status m = Leased \<and> q_token m = Some token"
  by unfold_locales (auto simp: take_lease_def lease_open_def)

text \<open>What holds of every queue reached by the operations.\<close>

definition queue_ok :: "'a message list \<Rightarrow> bool" where
  "queue_ok t \<longleftrightarrow> distinct (map q_id t) \<and>
     (\<forall>m\<in>set t. (q_status m = Leased \<longleftrightarrow> q_token m \<noteq> None) \<and> (q_token m = None \<longleftrightarrow> q_lease_expires_at m = None))"

lemma take_lease_id [simp]: "q_id (take_lease token x m) = q_id m"
  by (simp add: take_lease_def)

lemma release_lease_id [simp]: "q_id (release_lease dead x m) = q_id m"
  by (simp add: release_lease_def)

lemma sql_update_queue_ok:
  assumes "queue_ok t" and "\<And>m. q_id (f m) = q_id m"
    and "\<And>m. P m \<Longrightarrow> (q_status (f m) = Leased \<longleftrightarrow> q_token (f m) \<noteq> None)
           \<and> (q_token (f m) = None \<longleftrightarrow> q_lease_expires_at (f m) = None)"
  shows "queue_ok (sql_update P f t)"
proof -
  have "map q_id (sql_update P f t) = map q_id t" by (rule sql_update_cong_key) (rule assms(2))
  then have "distinct (map q_id (sql_update P f t))" using assms(1) by (simp add: queue_ok_def)
  moreover have "\<forall>m\<in>set (sql_update P f t). (q_status m = Leased \<longleftrightarrow> q_token m \<noteq> None)
      \<and> (q_token m = None \<longleftrightarrow> q_lease_expires_at m = None)"
    using assms(1,3) by (auto simp: sql_update_def queue_ok_def)
  ultimately show ?thesis unfolding queue_ok_def by blast
qed

lemma enqueue_ok: "queue_ok t \<Longrightarrow> mid \<notin> q_id ` set t \<Longrightarrow> queue_ok (enqueue mid name body d now t)"
  by (auto simp: queue_ok_def enqueue_def)

lemma claim_one_ok: "queue_ok t \<Longrightarrow> queue_ok (snd (claim_one name l now mid token t))"
  unfolding claim_one_def Let_def snd_conv
  by (rule sql_update_queue_ok) (auto simp: take_lease_def)

lemma ack_ok: "queue_ok t \<Longrightarrow> queue_ok (ack name mid token t)"
  by (auto simp: queue_ok_def ack_def distinct_map_filter)

lemma retry_ok: "queue_ok t \<Longrightarrow> queue_ok (retry name k d now m t)"
  unfolding retry_def
  by (cases "q_token m") (auto intro!: sql_update_queue_ok simp: release_lease_def split: if_splits)

lemma claim_each_ok:
  "queue_ok t \<Longrightarrow> queue_ok (snd (claim_each name l now cs t))"
proof (induction cs arbitrary: t)
  case Nil
  then show ?case by simp
next
  case (Cons c cs)
  obtain mid token where c: "c = (mid, token)" by (cases c)
  from Cons.IH [OF claim_one_ok [OF Cons.prems, of name l now mid token]] show ?case
    by (auto simp: c split: prod.splits)
qed

lemma settle_ok: "queue_ok t \<Longrightarrow> queue_ok (settle name opts now m d t)"
  by (auto simp: settle_def ack_ok retry_ok split: disposition.splits option.splits)

text \<open>Only an acknowledgement removes a message; every other operation keeps the ids.\<close>

lemma claim_one_ids: "map q_id (snd (claim_one name l now mid token t)) = map q_id t"
  by (simp add: claim_one_def Let_def sql_update_cong_key)

lemma claim_each_ids: "map q_id (snd (claim_each name l now cs t)) = map q_id t"
proof (induction cs arbitrary: t)
  case Nil
  then show ?case by simp
next
  case (Cons c cs)
  obtain mid token where c: "c = (mid, token)" by (cases c)
  from Cons.IH [of "snd (claim_one name l now mid token t)"] claim_one_ids [of name l now mid token t]
  show ?case by (auto simp: c split: prod.splits)
qed

lemma retry_ids: "map q_id (retry name k d now m t) = map q_id t"
  by (simp add: retry_def sql_update_cong_key split: option.split)

lemma ack_ids: "q_id ` set (ack name mid token t) \<subseteq> q_id ` set t"
  "q_id ` set t \<subseteq> insert mid (q_id ` set (ack name mid token t))"
  by (auto simp: ack_def lease_held_def)

lemma same_ids: "map q_id s = map q_id t \<Longrightarrow> q_id ` set s = q_id ` set t"
  by (metis list.set_map)

lemma settle_ids:
  "q_id ` set (settle name opts now m d t) \<subseteq> q_id ` set t
   \<and> q_id ` set t \<subseteq> (if d = Acked then {q_id m} else {}) \<union> q_id ` set (settle name opts now m d t)"
proof (cases d)
  case Acked
  then show ?thesis
    using ack_ids(1) [of name "q_id m" "the (q_token m)" t] ack_ids(2) [of t "q_id m" name "the (q_token m)"]
    by (cases "q_token m") (auto simp: settle_def)
next
  case Undecided
  then show ?thesis by (simp add: settle_def same_ids [OF retry_ids])
next
  case (Retried x)
  then show ?thesis by (cases x) (simp_all add: settle_def same_ids [OF retry_ids])
qed

text \<open>An acknowledgement or retry with a token the row no longer carries changes nothing.\<close>

lemma stale_ack: "\<forall>m\<in>set t. \<not> lease_held name mid token m \<Longrightarrow> ack name mid token t = t"
  by (simp add: ack_def)

lemma stale_retry:
  "\<forall>r\<in>set t. \<not> lease_held name (q_id m) (the (q_token m)) r \<Longrightarrow> retry name k d now m t = t"
  by (cases "q_token m") (simp_all add: retry_def sql_update_none)

text \<open>What a claim hands out.\<close>

definition claim_from :: "int \<Rightarrow> 'a message \<Rightarrow> 'a message \<Rightarrow> bool" where
  "claim_from now r m \<longleftrightarrow> q_id r = q_id m \<and> q_queue r = q_queue m \<and> q_body r = q_body m
     \<and> q_attempts r = q_attempts m + 1 \<and> lease_open now m"

lemma claim_one_row:
  assumes "claim_one name l now mid token t = (Some r, t')"
  shows "\<exists>m\<in>set t. claim_from now r m \<and> q_id r = mid \<and> q_queue m = name"
  using assms
  by (auto simp: claim_one_def Let_def claim_from_def take_lease_def dest!: sql_first_Some)

lemma claim_each_rows:
  assumes "distinct (map fst cs)" and "distinct (map q_id t)"
    and "claim_each name l now cs t = (rows, t')" and "r \<in> set rows"
  shows "\<exists>m\<in>set t. claim_from now r m \<and> q_queue m = name \<and> q_id r \<in> set (map fst cs)"
  using assms
proof (induction cs arbitrary: t rows t')
  case Nil
  then show ?case by simp
next
  case (Cons c cs)
  obtain mid token where c: "c = (mid, token)" by (cases c)
  obtain row u where one: "claim_one name l now mid token t = (row, u)" by fastforce
  obtain rs v where each: "claim_each name l now cs u = (rs, v)" by fastforce
  have rows: "rows = (case row of Some m \<Rightarrow> m # rs | None \<Rightarrow> rs)" using Cons.prems(3) by (simp add: c one each)
  have du: "distinct (map q_id u)" using claim_one_ids [of name l now mid token t] Cons.prems(2) by (simp add: one)
  from Cons.prems(4) rows consider "row = Some r" | "r \<in> set rs" by (auto split: option.splits)
  then show ?case
  proof cases
    case 1
    with claim_one_row [of name l now mid token t r u] one show ?thesis by (auto simp: c)
  next
    case 2
    with Cons.IH [OF _ du each] Cons.prems(1) obtain m where
      m: "m \<in> set u" "claim_from now r m" "q_queue m = name" "q_id r \<in> set (map fst cs)" by auto
    then have "q_id m \<noteq> mid" using Cons.prems(1) by (auto simp: c claim_from_def)
    then have "m \<in> set t" using m(1) one
      by (auto simp: claim_one_def Let_def sql_update_def split: if_splits)
    with m show ?thesis by auto
  qed
qed

lemma claim_each_length: "length (fst (claim_each name l now cs t)) \<le> length cs"
proof (induction cs arbitrary: t)
  case Nil
  then show ?case by simp
next
  case (Cons c cs)
  obtain mid token where c: "c = (mid, token)" by (cases c)
  from Cons.IH [of "snd (claim_one name l now mid token t)"] show ?case
    by (auto simp: c split: prod.splits option.splits)
qed

lemma candidates_distinct: "distinct (map q_id t) \<Longrightarrow> distinct (candidates name now limit t)"
proof -
  let ?o = "sql_ordered (\<lambda>m. (q_available_at m, q_created_at m, q_id m)) (claimable name now) t"
  assume d: "distinct (map q_id t)"
  then have "distinct (map q_id ?o)" by (auto simp: sql_ordered_def distinct_map inj_on_def)
  then show ?thesis unfolding candidates_def by (simp add: take_map [symmetric])
qed

section \<open>The queue as a state machine\<close>

text \<open>
  The table, the messages handed to handlers and not yet settled, the ids ever sent and the ids
  a handler acknowledged. Any handler may settle late, after its lease was taken over.
\<close>

record 'a queue_state =
  qs_table :: "'a message list"
  qs_out :: "'a message list"
  qs_sent :: "string set"
  qs_acked :: "string set"

inductive queue_step :: "string \<Rightarrow> consumer_options \<Rightarrow> 'a queue_state \<Rightarrow> 'a queue_state \<Rightarrow> bool"
  for name :: string and opts :: consumer_options where
  send: "mid \<notin> qs_sent s \<Longrightarrow>
    queue_step name opts s (s \<lparr> qs_table := enqueue mid name body delay now (qs_table s),
                              qs_sent := insert mid (qs_sent s) \<rparr>)"
| claim: "claim_messages name limit lease_ms now tokens (qs_table s) = (rows, t) \<Longrightarrow>
    queue_step name opts s (s \<lparr> qs_table := t, qs_out := rows @ qs_out s \<rparr>)"
| settled: "m \<in> set (qs_out s) \<Longrightarrow>
    queue_step name opts s (s \<lparr> qs_table := settle name opts now m d (qs_table s),
                              qs_out := remove1 m (qs_out s),
                              qs_acked := (if d = Acked then insert (q_id m) (qs_acked s) else qs_acked s) \<rparr>)"
| crash: "queue_step name opts s (s \<lparr> qs_out := [] \<rparr>)"

inductive_cases queue_step_cases: "queue_step name opts s s'"

inductive queue_reachable :: "string \<Rightarrow> consumer_options \<Rightarrow> 'a queue_state \<Rightarrow> bool"
  for name :: string and opts :: consumer_options where
  start: "queue_reachable name opts \<lparr> qs_table = [], qs_out = [], qs_sent = {}, qs_acked = {} \<rparr>"
| step: "queue_reachable name opts s \<Longrightarrow> queue_step name opts s s' \<Longrightarrow> queue_reachable name opts s'"

definition nothing_lost :: "'a queue_state \<Rightarrow> bool" where
  "nothing_lost s \<longleftrightarrow> queue_ok (qs_table s) \<and> q_id ` set (qs_table s) \<subseteq> qs_sent s
     \<and> qs_sent s \<subseteq> q_id ` set (qs_table s) \<union> qs_acked s"

lemma claim_messages_table:
  assumes "claim_messages name limit l now tokens t = (rows, t')"
  shows "q_id ` set t' = q_id ` set t" and "queue_ok t \<Longrightarrow> queue_ok t'"
proof -
  obtain cs where "claim_each name l now cs t = (rows, t')"
    using assms by (auto simp: claim_messages_def Let_def)
  then have t': "t' = snd (claim_each name l now cs t)" by simp
  show "q_id ` set t' = q_id ` set t" unfolding t' by (rule same_ids [OF claim_each_ids])
  show "queue_ok t \<Longrightarrow> queue_ok t'" unfolding t' by (rule claim_each_ok)
qed

lemma queue_step_keeps:
  assumes "queue_step name opts s s'" and "nothing_lost s"
  shows "nothing_lost s'"
  using assms
proof (cases rule: queue_step.cases)
  case (send mid body delay now)
  then have "mid \<notin> q_id ` set (qs_table s)" using assms(2) by (auto simp: nothing_lost_def)
  then have "queue_ok (enqueue mid name body delay now (qs_table s))"
    using assms(2) enqueue_ok by (auto simp: nothing_lost_def)
  moreover have "q_id ` set (enqueue mid name body delay now (qs_table s)) = insert mid (q_id ` set (qs_table s))"
    by (simp add: enqueue_def)
  ultimately show ?thesis using send assms(2) by (auto simp: nothing_lost_def)
next
  case (claim limit lease_ms now tokens rows t)
  with claim_messages_table [OF claim(2)] assms(2) show ?thesis by (auto simp: nothing_lost_def)
next
  case (settled m d now)
  let ?t = "settle name opts now m d (qs_table s)"
  let ?n = "q_id ` set ?t" and ?o = "q_id ` set (qs_table s)"
  have n: "?n \<subseteq> ?o" "?o \<subseteq> (if d = Acked then {q_id m} else {}) \<union> ?n"
    using settle_ids [of name opts now m d "qs_table s"] by simp_all
  have o: "?o \<subseteq> qs_sent s" "qs_sent s \<subseteq> ?o \<union> qs_acked s" using assms(2) by (simp_all only: nothing_lost_def)
  have "?n \<subseteq> qs_sent s" using n(1) o(1) by (rule subset_trans)
  moreover have "qs_sent s \<subseteq> ?n \<union> (if d = Acked then insert (q_id m) (qs_acked s) else qs_acked s)"
  proof
    fix x assume "x \<in> qs_sent s"
    with o(2) consider "x \<in> qs_acked s" | "x \<in> ?o" by blast
    then show "x \<in> ?n \<union> (if d = Acked then insert (q_id m) (qs_acked s) else qs_acked s)"
      by cases (use n(2) in \<open>auto split: if_splits\<close>)
  qed
  moreover have "queue_ok ?t" using assms(2) settle_ok by (auto simp: nothing_lost_def)
  ultimately show ?thesis using settled by (simp add: nothing_lost_def)
next
  case crash
  with assms(2) show ?thesis by (simp add: nothing_lost_def)
qed

lemma reachable_nothing_lost: "queue_reachable name opts s \<Longrightarrow> nothing_lost s"
proof (induction rule: queue_reachable.induct)
  case start
  then show ?case by (simp add: nothing_lost_def queue_ok_def)
next
  case (step s s')
  then show ?case using queue_step_keeps by blast
qed

section \<open>Properties\<close>

text \<open>
  C11. In every reachable state of the queue each message that was sent is still in the table or
  has been acknowledged; no crash, throw or expired lease loses one.
\<close>

lemma messages_survive:
  assumes "queue_reachable name opts s"
  shows "qs_sent s \<subseteq> q_id ` set (qs_table s) \<union> qs_acked s \<and> queue_ok (qs_table s)"
  using reachable_nothing_lost [OF assms] by (simp add: nothing_lost_def)

definition sample_options :: consumer_options where
  "sample_options = \<lparr> co_concurrency = 2, co_max_attempts = 3, co_lease_ms = None, co_base_retry_ms = None,
     co_max_retry_ms = None, co_poll_ms = None, co_max_idle_ms = None \<rparr>"

lemma messages_survive_witness:
  "\<exists>s :: nat queue_state. queue_reachable ''q'' sample_options s \<and> qs_sent s = {''m''}
     \<and> qs_sent s \<subseteq> q_id ` set (qs_table s) \<union> qs_acked s"
proof -
  let ?s0 = "\<lparr> qs_table = [], qs_out = [], qs_sent = {}, qs_acked = {} \<rparr> :: nat queue_state"
  let ?s1 = "?s0 \<lparr> qs_table := enqueue ''m'' ''q'' 7 0 0 (qs_table ?s0), qs_sent := insert ''m'' (qs_sent ?s0) \<rparr>"
  have "queue_step ''q'' sample_options ?s0 ?s1" by (rule queue_step.send) simp
  then have r: "queue_reachable ''q'' sample_options ?s1" by (rule queue_reachable.step [OF queue_reachable.start])
  from messages_survive [OF r] r show ?thesis by (intro exI [of _ ?s1]) simp
qed

lemma stale_holder_is_harmless:
  assumes "queue_ok t" and "claim_one name lease_ms now mid token t = (Some r, t')" and "old \<noteq> token"
  shows "ack name mid old t' = t'
    \<and> (\<forall>m. q_id m = mid \<and> q_token m = Some old \<longrightarrow> retry name k delay now' m t' = t')"
proof -
  let ?hit = "\<lambda>m. q_id m = mid \<and> q_queue m = name \<and> lease_open now m"
  let ?grab = "take_lease token (now + lease_ms)"
  from assms(2) obtain m where m: "sql_first ?hit t = Some m" and t': "t' = sql_update ?hit ?grab t"
    by (auto simp: claim_one_def Let_def)
  from sql_first_Some [OF m] have mt: "m \<in> set t" "?hit m" by auto
  have dist: "distinct (map q_id t)" using assms(1) by (simp add: queue_ok_def)
  have no: "\<forall>x\<in>set t'. \<not> lease_held name mid old x"
  proof
    fix x assume x: "x \<in> set t'"
    then obtain y where y: "y \<in> set t" "x = (if ?hit y then ?grab y else y)" by (auto simp: t' sql_update_def)
    show "\<not> lease_held name mid old x"
    proof (cases "q_id y = mid")
      case True
      then have "y = m" using keyed_first [OF dist y(1)] keyed_first [OF dist mt(1)] mt(2) by simp
      with y(2) mt(2) have "x = ?grab y" by simp
      with message_lease.evicted [OF assms(3), of "now + lease_ms" y] show ?thesis
        by (auto simp: lease_held_def)
    next
      case False
      with y(2) show ?thesis by (simp add: lease_held_def)
    qed
  qed
  have "\<forall>m. q_id m = mid \<and> q_token m = Some old \<longrightarrow> retry name k delay now' m t' = t'"
    using stale_retry no by (metis option.sel)
  with stale_ack [OF no] show ?thesis by simp
qed

definition sample_queue :: "nat message list" where
  "sample_queue = [\<lparr> q_id = ''m'', q_queue = ''q'', q_body = 7, q_status = Leased, q_attempts = 1,
     q_available_at = 0, q_token = Some ''t1'', q_lease_expires_at = Some 60000, q_created_at = 0 \<rparr>]"

lemma stale_holder_is_harmless_witness:
  "ack ''q'' ''m'' ''t1'' (snd (claim_one ''q'' 60000 60001 ''m'' ''t2'' sample_queue))
     = snd (claim_one ''q'' 60000 60001 ''m'' ''t2'' sample_queue)"
proof -
  have ok: "queue_ok sample_queue" by (simp add: queue_ok_def sample_queue_def)
  obtain r t' where c: "claim_one ''q'' 60000 60001 ''m'' ''t2'' sample_queue = (Some r, t')"
    by (auto simp: claim_one_def sample_queue_def lease_open_def Let_def)
  from stale_holder_is_harmless [OF ok c, of "''t1''"] show ?thesis by (simp add: c)
qed

lemma claimed_messages_were_free:
  assumes "queue_ok t" and "claim_messages name limit lease_ms now tokens t = (rows, t')"
  shows "length rows \<le> limit
    \<and> (\<forall>r\<in>set rows. \<exists>m\<in>set t. q_id r = q_id m \<and> q_body r = q_body m \<and> q_queue m = name
         \<and> q_attempts r = q_attempts m + 1 \<and> q_status m \<noteq> Dead \<and> lease_open now m)"
proof -
  let ?ids = "candidates name now limit t"
  let ?cs = "zip ?ids (map tokens [0..<length ?ids])"
  have c: "claim_each name lease_ms now ?cs t = (rows, t')" using assms(2) by (simp add: claim_messages_def Let_def)
  have d: "distinct (map q_id t)" using assms(1) by (simp add: queue_ok_def)
  have "length ?ids \<le> limit" by (simp add: candidates_def)
  then have "length rows \<le> limit" using claim_each_length [of name lease_ms now ?cs t] c by simp
  moreover have "distinct (map fst ?cs)" using candidates_distinct [OF d] by simp
  ultimately show ?thesis using claim_each_rows [OF _ d c] by (fastforce simp: claim_from_def lease_open_def)
qed

lemma claimed_messages_were_free_witness:
  "length (fst (claim_messages ''q'' 5 60000 60001 (\<lambda>_. ''t2'') sample_queue)) \<le> 5"
proof -
  have ok: "queue_ok sample_queue" by (simp add: queue_ok_def sample_queue_def)
  obtain rows t' where "claim_messages ''q'' 5 60000 60001 (\<lambda>_. ''t2'') sample_queue = (rows, t')" by fastforce
  from claimed_messages_were_free [OF ok this] this show ?thesis by simp
qed

end
