(* ===== verification/Shop_Database.thy ===== *)
theory Shop_Database
  imports Pricing Rates
begin

text \<open>
  The tables the order, wallet, payment, refund and entitlement handlers read and write, as
  declared in \<^verbatim>\<open>src/db/schema\<close>, and the triggers the migrations
  \<^verbatim>\<open>drizzle/0028\<close> to \<^verbatim>\<open>0036\<close> attach to them. A row keeps the columns
  the handlers use; amounts in minor units are integers (the columns hold their decimal
  print), times are milliseconds. Columns that hold only text for people (names, notes) are
  left out. A row that a trigger inserts has a random key in the database; here it is
  \<open>Random_Blob n\<close>, n being the number of rows before it.
\<close>

section \<open>Rows\<close>

datatype row_id = Given string | Random_Blob nat

record user_row =
  u_id :: string
  u_enabled :: bool
  u_balance :: int
  u_reward :: int
  u_version :: nat
  u_email :: string
  u_verified :: bool
  u_updated_at :: int

datatype direction_of = Credit | Debit

datatype wallet_source = Src_Topup | Src_Adjustment | Src_Shop_Order | Src_Supplier_Order | Src_Refund

record wallet_entry =
  we_id :: row_id
  we_user :: string
  we_direction :: direction_of
  we_amount :: int
  we_before :: int
  we_after :: int
  we_currency :: string
  we_source :: wallet_source
  we_source_id :: string
  we_key :: string
  we_created_at :: int

datatype reward_kind = Earned | Hold | Release | Refund_Return | Reversal

record reward_entry =
  re_user :: string
  re_delta :: int
  re_after :: int
  re_kind :: reward_kind
  re_source_id :: string
  re_key :: string

datatype order_status =
    Pending_Payment | Paid | Fulfilling | Completed | Cancelled | Expired | Refunding | Refunded
  | Order_Failed

record order_row =
  o_id :: string
  o_number :: string
  o_key :: "string option"
  o_user :: "string option"
  o_email :: "string option"
  o_status :: order_status
  o_version :: nat
  o_subtotal :: int
  o_discount :: int
  o_total :: int
  o_paid :: int
  o_currency :: string
  o_decimals :: nat
  o_coupon :: "string option"
  o_promotion :: "promotion_purpose option"
  o_referrer :: "string option"
  o_referral_reward :: int
  o_pricing_channel :: "string option"
  o_expires_at :: int
  o_paid_at :: "int option"
  o_completed_at :: "int option"
  o_cancelled_at :: "int option"
  o_refunded_at :: "int option"
  o_created_at :: int
  o_updated_at :: int

datatype component_type = Stock_Component | Download_Component | Automation_Component

record item_row =
  oi_id :: string
  oi_order :: string
  oi_product :: string
  oi_sellable :: string
  oi_component :: string
  oi_component_type :: component_type
  oi_quantity :: int
  oi_unit_price :: int
  oi_source :: price_source
  oi_discount :: int
  oi_subtotal :: int
  oi_reward :: int
  oi_definition_version :: "string option"
  oi_renewed_from :: "string option"
  oi_duration :: "int option"
  oi_usage_limit :: "int option"
  oi_access_limit :: "int option"

datatype hold_state = Held | Consumed | Released

record hold_row =
  h_order :: string
  h_user :: string
  h_cash :: int
  h_reward :: int
  h_external :: int
  h_state :: hold_state
  h_updated_at :: int

datatype reward_state = Reward_Pending | Reward_Available | Reward_Reversed

record reward_row =
  pr_order :: string
  pr_user :: string
  pr_amount :: int
  pr_remaining :: int
  pr_state :: reward_state
  pr_available_at :: "int option"
  pr_updated_at :: int

datatype attempt_status =
    Attempt_Created | Attempt_Pending | Attempt_Succeeded | Attempt_Failed | Attempt_Cancelled
  | Attempt_Expired

record attempt_row =
  pa_id :: string
  pa_order :: "string option"
  pa_topup :: "string option"
  pa_order_amount :: "int option"
  pa_channel :: string
  pa_provider_payment :: "string option"
  pa_key :: string
  pa_status :: attempt_status
  pa_amount :: int
  pa_currency :: string
  pa_decimals :: nat
  pa_rate :: string
  pa_direction :: quote_direction
  pa_failure :: "string option"
  pa_succeeded_at :: "int option"
  pa_updated_at :: int

datatype topup_status = Topup_Pending | Topup_Paid | Topup_Failed | Topup_Expired | Topup_Refunded

record topup_row =
  tp_id :: string
  tp_user :: string
  tp_amount :: int
  tp_currency :: string
  tp_status :: topup_status
  tp_key :: string
  tp_paid_at :: "int option"
  tp_updated_at :: int

datatype receipt_status = Receipt_Processed | Receipt_Rejected

datatype event_type = Payment_Pending | Payment_Succeeded | Payment_Failed | Payment_Expired

record receipt_row =
  rr_scope :: string
  rr_attempt :: string
  rr_external :: string
  rr_event_type :: event_type
  rr_digest :: string
  rr_status :: receipt_status

datatype refund_status =
    Refund_Pending | Refund_Processing | Refund_Succeeded | Refund_Failed | Refund_Cancelled

record refund_row =
  r_id :: string
  r_order :: string
  r_attempt :: "string option"
  r_provider_refund :: "string option"
  r_key :: string
  r_amount :: int
  r_payment_amount :: int
  r_status_before :: order_status
  r_status :: refund_status
  r_cash :: int
  r_reward :: int
  r_reversal :: int
  r_failure :: "string option"
  r_attempts :: nat
  r_next_attempt_at :: "int option"
  r_completed_at :: "int option"
  r_updated_at :: int

datatype entitlement_status = Ent_Pending | Ent_Active | Ent_Expired | Ent_Exhausted | Ent_Revoked

record entitlement_row =
  en_id :: string
  en_user :: "string option"
  en_order_item :: string
  en_sellable :: string
  en_status :: entitlement_status
  en_usage_limit :: "int option"
  en_usage_count :: int
  en_access_limit :: "int option"
  en_access_count :: int
  en_activated_at :: "int option"
  en_expires_at :: "int option"
  en_revoked_at :: "int option"

datatype grant_status = Grant_Pending | Grant_Active | Grant_Refunded | Grant_Revoked

record grant_row =
  g_id :: string
  g_entitlement :: string
  g_order_item :: string
  g_renewed_from :: "string option"
  g_status :: grant_status
  g_duration :: "int option"
  g_usage :: "int option"
  g_access :: "int option"
  g_activated_at :: "int option"
  g_applied_at :: "int option"
  g_revoked_at :: "int option"
  g_created_at :: int

record access_event_row =
  ae_entitlement :: string
  ae_key :: "string option"

text \<open>The scope of a coupon is \<open>None\<close> when its JSON is not of the shape the code expects.\<close>

record coupon_use_row =
  cu_id :: string
  cu_code :: string
  cu_purpose :: coupon_purpose
  cu_referrer :: "string option"
  cu_recipient :: "string option"
  cu_recipient_email :: "string option"
  cu_type :: coupon_type
  cu_currency :: "string option"
  cu_decimals :: "nat option"
  cu_value_minor :: "int option"
  cu_value_bps :: "int option"
  cu_minimum_order :: "int option"
  cu_maximum_discount :: "int option"
  cu_scope :: "coupon_scope option"
  cu_starts_at :: "int option"
  cu_ends_at :: "int option"
  cu_enabled :: bool
  cu_usage_limit :: "nat option"
  cu_customer_limit :: "nat option"
  cu_used :: nat

datatype redemption_status = Redemption_Reserved | Redemption_Consumed | Redemption_Released

record redemption_row =
  cr_id :: string
  cr_coupon :: string
  cr_order :: string
  cr_user :: "string option"
  cr_email :: string
  cr_status :: redemption_status

datatype stock_status = Stock_Available | Stock_Reserved | Stock_Delivered | Stock_Disabled

record stock_row =
  st_id :: string
  st_sellable :: string
  st_status :: stock_status
  st_order_item :: "string option"
  st_content :: string
  st_fingerprint :: string
  st_redeem_sku :: "string option"
  st_created_at :: int

datatype delivery_status =
    Delivery_Awaiting_Supply | Delivery_Pending | Delivery_Processing | Delivery_Delivered
  | Delivery_Failed

record delivery_row =
  d_id :: string
  d_order_item :: string
  d_type :: component_type
  d_request_key :: string
  d_status :: delivery_status
  d_error :: "string option"
  d_content :: "string option"
  d_redeem_sku :: "string option"
  d_attempts :: nat
  d_next_attempt_at :: "int option"
  d_delivered_at :: "int option"

datatype supply_state =
    Supply_Pending | Supply_Selecting | Supply_Submitting | Supply_Uncertain | Supply_Supplied
  | Supply_Failed | Supply_Refunded

text \<open>The binding of a plan to a supplier; an order at a supplier keeps it as it was sold.\<close>

record binding_row =
  bd_id :: string
  bd_provider :: string
  bd_origin :: string
  bd_protocol :: string
  bd_product :: string
  bd_sku :: string
  bd_reference_cost :: "int option"
  bd_max_cost :: "int option"
  bd_currency :: "string option"

record supply_row =
  so_id :: string
  so_order :: string
  so_order_item :: string
  so_delivery :: string
  so_quantity :: int
  so_binding :: "binding_row option"
  so_unit_cost :: "int option"
  so_total_cost :: "int option"
  so_state :: supply_state
  so_account :: "string option"
  so_revision :: "nat option"
  so_request :: "string option"
  so_upstream :: "string option"
  so_attempts :: nat
  so_selections :: nat
  so_locked_at :: "int option"
  so_next_retry_at :: "int option"
  so_error :: "string option"
  so_supplied_at :: "int option"

text \<open>An account at a supplier.\<close>

datatype account_health = Health_Unknown | Health_Healthy | Health_Degraded | Health_Unavailable

record account_row =
  ac_id :: string
  ac_provider :: string
  ac_origin :: string
  ac_protocol :: string
  ac_revision :: nat
  ac_balance :: "int option"
  ac_reserve :: int
  ac_max_order :: "int option"
  ac_health :: account_health
  ac_failures :: nat
  ac_cooldown :: "int option"
  ac_last_selected :: "int option"
  ac_error :: "string option"
  ac_enabled :: bool

text \<open>A run of a task that is tracked.\<close>

datatype task_status = Task_Running | Task_Succeeded | Task_Failed

record task_row =
  tk_id :: string
  tk_task :: string
  tk_status :: task_status
  tk_started_at :: int
  tk_error :: "string option"

datatype outbox_status = Outbox_Pending | Outbox_Processing | Outbox_Published | Outbox_Failed

record outbox_row =
  ob_type :: string
  ob_aggregate :: string
  ob_key :: string
  ob_status :: outbox_status
  ob_next_attempt_at :: "int option"

record order_event_row =
  oe_order :: string
  oe_type :: string
  oe_from :: "order_status option"
  oe_to :: "order_status option"
  oe_version :: "nat option"

record capacity_row =
  cap_component :: string
  cap_generation :: nat

text \<open>An audit log row keeps its action and target.\<close>

record audit_row =
  al_action :: string
  al_target :: string

datatype agent_state = Agent_Pending | Agent_Active | Agent_Revoked | Agent_Cancelled

record agent_row =
  ag_order_item :: string
  ag_active_key :: "string option"
  ag_state :: agent_state
  ag_password :: "string option"
  ag_remote_user :: "int option"
  ag_domain :: "string option"
  ag_attempts :: nat
  ag_next_attempt_at :: int
  ag_error :: "string option"

datatype upgrade_state = Upgrade_Pending | Upgrade_Delivered | Upgrade_Review | Upgrade_Cancelled

record upgrade_row =
  up_order_item :: string
  up_active_key :: "string option"
  up_price :: int
  up_state :: upgrade_state
  up_status_url :: "string option"
  up_attempts :: nat
  up_next_attempt_at :: int
  up_error :: "string option"

text \<open>The snapshot of a download asset an order item was sold with.\<close>

record snapshot_row =
  sn_order_item :: string
  sn_asset :: "string option"

datatype case_type = Refund_Case | Redelivery_Case | Rebuild_Case | Dispute_Case

datatype case_status = Case_Open | Case_Processing | Case_Resolved | Case_Rejected | Case_Closed

record after_sale_row =
  as_id :: string
  as_order :: string
  as_type :: case_type
  as_status :: case_status
  as_resolved_at :: "int option"
  as_updated_at :: int

record channel_row =
  pc_id :: string
  pc_provider :: string
  pc_currency :: string
  pc_credential :: "string option"
  pc_fee_bps :: int
  pc_fixed_fee :: int
  pc_enabled :: bool

text \<open>The visits and purchases the shop counts.\<close>

record commerce_event_row =
  ce_id :: string
  ce_type :: string
  ce_session :: string
  ce_order :: "string option"
  ce_amount :: "int option"
  ce_created_at :: int

record db =
  users :: "user_row list"
  wallet_entries :: "wallet_entry list"
  reward_entries :: "reward_entry list"
  shop_orders :: "order_row list"
  order_items :: "item_row list"
  holds :: "hold_row list"
  promotion_rewards :: "reward_row list"
  attempts :: "attempt_row list"
  topups :: "topup_row list"
  receipts :: "receipt_row list"
  refunds :: "refund_row list"
  entitlements :: "entitlement_row list"
  grants :: "grant_row list"
  access_events :: "access_event_row list"
  coupon_uses :: "coupon_use_row list"
  redemptions :: "redemption_row list"
  stock :: "stock_row list"
  deliveries :: "delivery_row list"
  supplies :: "supply_row list"
  outbox :: "outbox_row list"
  order_events :: "order_event_row list"
  capacity :: "capacity_row list"
  audit_logs :: "audit_row list"
  agents :: "agent_row list"
  upgrades :: "upgrade_row list"
  snapshots :: "snapshot_row list"
  after_sales :: "after_sale_row list"
  channels :: "channel_row list"
  commerce_events :: "commerce_event_row list"
  supplier_accounts :: "account_row list"
  task_runs :: "task_row list"

definition empty_db :: db where
  "empty_db = \<lparr> users = [], wallet_entries = [], reward_entries = [], shop_orders = [],
     order_items = [], holds = [], promotion_rewards = [], attempts = [], topups = [],
     receipts = [], refunds = [], entitlements = [], grants = [], access_events = [],
     coupon_uses = [], redemptions = [], stock = [], deliveries = [], supplies = [],
     outbox = [], order_events = [], capacity = [], audit_logs = [],
     agents = [], upgrades = [], snapshots = [], after_sales = [], channels = [], commerce_events = [],
     supplier_accounts = [], task_runs = [] \<rparr>"

definition find_user :: "db \<Rightarrow> string \<Rightarrow> user_row option" where
  "find_user db i = sql_first (\<lambda>u. u_id u = i) (users db)"

definition find_order :: "db \<Rightarrow> string \<Rightarrow> order_row option" where
  "find_order db i = sql_first (\<lambda>x. o_id x = i) (shop_orders db)"

definition find_hold :: "db \<Rightarrow> string \<Rightarrow> hold_row option" where
  "find_hold db i = sql_first (\<lambda>h. h_order h = i) (holds db)"

end
