(* ===== verification/Shop_Triggers.thy ===== *)
theory Shop_Triggers
  imports Shop_Database
begin

text \<open>
  Statements on the ledger tables with the triggers they fire
  (\<^verbatim>\<open>drizzle/0028_invitation_promotions.sql\<close>,
  \<^verbatim>\<open>0029_promotion_wallet.sql\<close>, \<^verbatim>\<open>0030_promotion_next_beijing_day.sql\<close>),
  and the books: every change of a user's cash or reward balance made by a trigger is matched by
  an entry of the same amount.
\<close>

section \<open>Entries and balances\<close>

text \<open>
  The CHECK constraints of \<^verbatim>\<open>wallet_entries\<close> and \<^verbatim>\<open>users\<close> admit
  digit strings only, so a negative amount or balance aborts the statement.
\<close>

definition insert_wallet_entry :: "wallet_entry \<Rightarrow> db \<Rightarrow> db result" where
  "insert_wallet_entry e db =
     (if we_amount e < 0 \<or> we_before e < 0 \<or> we_after e < 0 then Inl (DbAbort ''wallet_entries_check'')
      else if sql_exists (\<lambda>x. we_key x = we_key e) (wallet_entries db)
      then Inl (DbAbort ''wallet_entries_idempotency_uidx'')
      else Inr (db \<lparr> wallet_entries := wallet_entries db @ [e] \<rparr>))"

definition insert_reward_entry :: "reward_entry \<Rightarrow> db \<Rightarrow> db result" where
  "insert_reward_entry e db =
     (if sql_exists (\<lambda>x. re_key x = re_key e) (reward_entries db)
      then Inl (DbAbort ''reward_entries_idempotency_key'')
      else Inr (db \<lparr> reward_entries := reward_entries db @ [e] \<rparr>))"

definition shift_user :: "string \<Rightarrow> int \<Rightarrow> int \<Rightarrow> nat \<Rightarrow> int \<Rightarrow> db \<Rightarrow> db result" where
  "shift_user uid cash reward inc now db =
     (if sql_exists (\<lambda>u. u_id u = uid \<and> u_balance u + cash < 0) (users db)
      then Inl (DbAbort ''users_balance_check'')
      else Inr (db \<lparr> users := sql_update (\<lambda>u. u_id u = uid)
             (\<lambda>u. u \<lparr> u_balance := u_balance u + cash, u_reward := u_reward u + reward,
                      u_version := u_version u + inc, u_updated_at := now \<rparr>) (users db) \<rparr>))"

definition signed :: "direction_of \<Rightarrow> int \<Rightarrow> int" where
  "signed d a = (case d of Credit \<Rightarrow> a | Debit \<Rightarrow> - a)"

text \<open>\<^verbatim>\<open>INSERT INTO wallet_entries ... SELECT ... FROM users WHERE id = ? AND amount > 0\<close>.\<close>

definition post_cash ::
  "direction_of \<Rightarrow> string \<Rightarrow> int \<Rightarrow> wallet_source \<Rightarrow> string \<Rightarrow> string \<Rightarrow> int \<Rightarrow> db \<Rightarrow> db result" where
  "post_cash d uid amount source source_id key now db =
     (case find_user db uid of
        None \<Rightarrow> Inr db
      | Some u \<Rightarrow>
          (if amount > 0
           then insert_wallet_entry
                  \<lparr> we_id = Random_Blob (length (wallet_entries db)), we_user = uid, we_direction = d,
                    we_amount = amount, we_before = u_balance u, we_after = u_balance u + signed d amount,
                    we_currency = ''CNY'', we_source = source, we_source_id = source_id, we_key = key,
                    we_created_at = now \<rparr> db
           else Inr db))"

definition post_reward :: "string \<Rightarrow> int \<Rightarrow> reward_kind \<Rightarrow> string \<Rightarrow> string \<Rightarrow> db \<Rightarrow> db result" where
  "post_reward uid delta kind source_id key db =
     (case find_user db uid of
        None \<Rightarrow> Inr db
      | Some u \<Rightarrow> insert_reward_entry \<lparr> re_user = uid, re_delta = delta, re_after = u_reward u,
                   re_kind = kind, re_source_id = source_id, re_key = key \<rparr> db)"

section \<open>Holds on a balance\<close>

definition hold_debit :: "hold_row \<Rightarrow> db \<Rightarrow> db result" where
  "hold_debit h db =
     and_then (post_cash Debit (h_user h) (h_cash h) Src_Shop_Order (h_order h)
                 (''balance-hold:'' @ h_order h) (h_updated_at h) db) (\<lambda>db.
     and_then (shift_user (h_user h) (- h_cash h) (- h_reward h) 1 (h_updated_at h) db) (\<lambda>db.
       if h_reward h > 0
       then post_reward (h_user h) (- h_reward h) Hold (h_order h) (''hold:'' @ h_order h) db
       else Inr db))"

definition hold_release :: "hold_row \<Rightarrow> db \<Rightarrow> db result" where
  "hold_release h db =
     and_then (post_cash Credit (h_user h) (h_cash h) Src_Adjustment (h_order h)
                 (''balance-release:'' @ h_order h) (h_updated_at h) db) (\<lambda>db.
     and_then (shift_user (h_user h) (h_cash h) (h_reward h) 1 (h_updated_at h) db) (\<lambda>db.
       if h_reward h > 0
       then post_reward (h_user h) (h_reward h) Release (h_order h) (''release:'' @ h_order h) db
       else Inr db))"

text \<open>The conditions of \<^verbatim>\<open>order_balance_hold_validate\<close>; \<open>now\<close> is the row's creation time.\<close>

definition hold_valid :: "hold_row \<Rightarrow> int \<Rightarrow> db \<Rightarrow> bool" where
  "hold_valid h now db \<longleftrightarrow> h_state h = Held \<and>
     (case (find_order db (h_order h), find_user db (h_user h)) of
        (Some x, Some u) \<Rightarrow>
          o_user x = Some (h_user h) \<and> u_enabled u \<and> o_status x = Pending_Payment
          \<and> o_currency x = ''CNY'' \<and> o_decimals x = 2 \<and> o_expires_at x > now
          \<and> u_balance u \<ge> h_cash h \<and> max 0 (u_reward u) \<ge> h_reward h
          \<and> h_cash h + h_reward h + h_external h = o_total x
          \<and> \<not> sql_exists (\<lambda>a. pa_order a = Some (o_id x)) (attempts db)
      | _ \<Rightarrow> False)"

definition insert_hold :: "hold_row \<Rightarrow> db stmt" where
  "insert_hold h n db =
     (if h_cash h < 0 \<or> h_reward h < 0 \<or> h_external h < 0 then Inl (DbAbort ''order_balance_holds_check'')
      else if \<not> hold_valid h (h_updated_at h) db then Inl (DbAbort ''wallet_hold_conflict'')
      else if find_hold db (h_order h) \<noteq> None then Inl (DbAbort ''order_balance_holds_pk'')
      else and_then (hold_debit h (db \<lparr> holds := holds db @ [h] \<rparr>)) (\<lambda>db. Inr (db, 1)))"

text \<open>
  \<^verbatim>\<open>UPDATE order_balance_holds SET state = ... WHERE order_id = ? AND state = 'held'\<close>
  with the release trigger; the key makes it one row at most.
\<close>

definition settle_hold :: "string \<Rightarrow> hold_state \<Rightarrow> int \<Rightarrow> db \<Rightarrow> db result" where
  "settle_hold order_id st now db =
     (case sql_first (\<lambda>h. h_order h = order_id \<and> h_state h = Held) (holds db) of
        None \<Rightarrow> Inr db
      | Some h \<Rightarrow>
          (let h' = h \<lparr> h_state := st, h_updated_at := now \<rparr>;
               db' = db \<lparr> holds := sql_update (\<lambda>r. r = h) (\<lambda>_. h') (holds db) \<rparr>
           in if st = Released then hold_release h' db' else Inr db'))"

section \<open>Updating an order\<close>

definition order_before :: "order_row \<Rightarrow> order_row \<Rightarrow> db \<Rightarrow> unit result" where
  "order_before old new db =
     (if o_status new = Paid \<and> o_status old \<noteq> Paid then
        and_then (demand (\<not> sql_exists (\<lambda>c. cr_order c = o_id new \<and> cr_status c = Redemption_Released
              \<and> sql_exists (\<lambda>u. cu_id u = cr_coupon c \<and> cu_purpose u = Promotion Recall) (coupon_uses db))
              (redemptions db)) (DbAbort ''payment_reconciliation_required'')) (\<lambda>_.
        and_then (demand (\<not> sql_exists (\<lambda>h. h_order h = o_id new \<and> h_state h = Released) (holds db))
              (DbAbort ''payment_reconciliation_required'')) (\<lambda>_.
        demand (\<not> (sql_exists (\<lambda>h. h_order h = o_id new \<and> h_state h = Held \<and> h_external h > 0) (holds db)
              \<and> \<not> sql_exists (\<lambda>a. pa_order a = Some (o_id new) \<and> pa_status a = Attempt_Succeeded) (attempts db)))
              (DbAbort ''external_payment_required'')))
      else Inr ())"

text \<open>The reward of a completed order becomes available at the next midnight in Beijing.\<close>

definition next_beijing_midnight :: "int \<Rightarrow> int" where
  "next_beijing_midnight now = (big_quot (now + 28800000) 86400000 + 1) * 86400000 - 28800000"

definition lifecycle_hold :: "order_row \<Rightarrow> db \<Rightarrow> db result" where
  "lifecycle_hold new db =
     (if o_status new \<in> {Paid, Cancelled, Expired}
      then settle_hold (o_id new) (if o_status new = Paid then Consumed else Released) (o_updated_at new) db
      else Inr db)"

definition lifecycle_reward :: "order_row \<Rightarrow> db \<Rightarrow> db result" where
  "lifecycle_reward new db =
     (if o_status new = Paid \<and> o_promotion new = Some Referral \<and> o_referral_reward new > 0
         \<and> \<not> sql_exists (\<lambda>p. pr_order p = o_id new) (promotion_rewards db)
      then (case o_referrer new of
              None \<Rightarrow> Inl (DbAbort ''promotion_rewards_user_id'')
            | Some uid \<Rightarrow> Inr (db \<lparr> promotion_rewards := promotion_rewards db @
                [\<lparr> pr_order = o_id new, pr_user = uid, pr_amount = o_referral_reward new,
                   pr_remaining = o_referral_reward new, pr_state = Reward_Pending,
                   pr_available_at = None, pr_updated_at = o_updated_at new \<rparr>] \<rparr>))
      else Inr db)"

definition lifecycle_schedule :: "order_row \<Rightarrow> db \<Rightarrow> db" where
  "lifecycle_schedule new db =
     (if o_status new = Completed
      then db \<lparr> promotion_rewards := sql_update (\<lambda>p. pr_order p = o_id new)
             (\<lambda>p. p \<lparr> pr_available_at := (case pr_available_at p of Some t \<Rightarrow> Some t
                       | None \<Rightarrow> Some (next_beijing_midnight (o_updated_at new))),
                      pr_updated_at := o_updated_at new \<rparr>) (promotion_rewards db) \<rparr>
      else db)"

definition order_lifecycle :: "order_row \<Rightarrow> db \<Rightarrow> db result" where
  "order_lifecycle new db =
     and_then (lifecycle_hold new db) (\<lambda>db.
     and_then (lifecycle_reward new db) (\<lambda>db. Inr (lifecycle_schedule new db)))"

definition coupon_release :: "order_row \<Rightarrow> order_row \<Rightarrow> db \<Rightarrow> db" where
  "coupon_release old new db =
     (if o_status old = Pending_Payment \<and> o_status new \<in> {Cancelled, Expired} then
        (let promo = (\<lambda>i. sql_exists (\<lambda>u. cu_id u = i \<and> cu_purpose u \<noteq> Standard) (coupon_uses db));
             mine = (\<lambda>c. cr_order c = o_id new \<and> cr_status c = Redemption_Reserved)
         in db \<lparr> coupon_uses := sql_update (\<lambda>u. cu_purpose u \<noteq> Standard
                     \<and> sql_exists (\<lambda>c. mine c \<and> cr_coupon c = cu_id u) (redemptions db))
                     (\<lambda>u. u \<lparr> cu_used := cu_used u - 1 \<rparr>) (coupon_uses db),
                 redemptions := sql_update (\<lambda>c. mine c \<and> promo (cr_coupon c))
                     (\<lambda>c. c \<lparr> cr_status := Redemption_Released \<rparr>) (redemptions db) \<rparr>)
      else db)"

text \<open>\<^verbatim>\<open>UPDATE shop_orders SET status = ... WHERE id = ? AND P\<close>; the key makes it one row at most.\<close>

definition update_order ::
  "string \<Rightarrow> (db \<Rightarrow> order_row \<Rightarrow> bool) \<Rightarrow> (order_row \<Rightarrow> order_row) \<Rightarrow> db stmt" where
  "update_order order_id P f n db =
     (case sql_first (\<lambda>x. o_id x = order_id \<and> P db x) (shop_orders db) of
        None \<Rightarrow> Inr (db, 0)
      | Some old \<Rightarrow>
          (let new = f old;
               db' = db \<lparr> shop_orders := sql_update (\<lambda>x. o_id x = order_id \<and> P db x) f (shop_orders db) \<rparr>
           in and_then (order_before old new db) (\<lambda>_.
              and_then (order_lifecycle new db') (\<lambda>db.
              Inr (coupon_release old new db, 1)))))"

section \<open>Payment attempts, rewards and refunds\<close>

text \<open>The guards of a new attempt and the release of a hold by a failed one.\<close>

definition insert_attempt :: "attempt_row \<Rightarrow> db \<Rightarrow> db result" where
  "insert_attempt a db =
     (if pa_amount a < 0 \<or> ((pa_order a = None) = (pa_topup a = None)) then Inl (DbAbort ''payment_attempts_check'')
      else if pa_order a \<noteq> None \<and> sql_exists (\<lambda>h. Some (h_order h) = pa_order a
               \<and> (h_state h \<noteq> Held \<or> pa_order_amount a \<noteq> Some (h_external h))) (holds db)
      then Inl (DbAbort ''payment_funding_changed'')
      else if sql_exists (\<lambda>h. Some (h_order h) = pa_order a) (holds db)
          \<and> sql_exists (\<lambda>b. pa_order b = pa_order a \<and> pa_key b \<noteq> pa_key a
               \<and> pa_status b \<in> {Attempt_Created, Attempt_Pending, Attempt_Succeeded}) (attempts db)
      then Inl (DbAbort ''payment_attempt_already_active'')
      else Inr (db \<lparr> attempts := attempts db @ [a] \<rparr>))"

definition attempt_failed_release :: "attempt_row \<Rightarrow> attempt_row \<Rightarrow> db \<Rightarrow> db result" where
  "attempt_failed_release old new db =
     (if pa_status new \<in> {Attempt_Failed, Attempt_Expired} \<and> pa_status old \<in> {Attempt_Created, Attempt_Pending}
      then (case pa_order new of
              None \<Rightarrow> Inr db
            | Some i \<Rightarrow>
                and_then (settle_hold i Released (pa_updated_at new) db) (\<lambda>db.
                and_then (update_order i
                    (\<lambda>db x. o_status x = Pending_Payment
                       \<and> sql_exists (\<lambda>h. h_order h = i \<and> h_state h = Released) (holds db))
                    (\<lambda>x. x \<lparr> o_status := Cancelled, o_cancelled_at := Some (pa_updated_at new),
                             o_updated_at := pa_updated_at new, o_version := o_version x + 1 \<rparr>) 0 db)
                  (\<lambda>(db, _). Inr db)))
      else Inr db)"

definition update_attempt ::
  "string \<Rightarrow> (attempt_row \<Rightarrow> bool) \<Rightarrow> (attempt_row \<Rightarrow> attempt_row) \<Rightarrow> db stmt" where
  "update_attempt attempt_id P f n db =
     (case sql_first (\<lambda>a. pa_id a = attempt_id \<and> P a) (attempts db) of
        None \<Rightarrow> Inr (db, 0)
      | Some old \<Rightarrow>
          and_then (attempt_failed_release old (f old)
              (db \<lparr> attempts := sql_update (\<lambda>a. pa_id a = attempt_id \<and> P a) f (attempts db) \<rparr>))
            (\<lambda>db. Inr (db, 1)))"

definition reward_credit :: "reward_row \<Rightarrow> db \<Rightarrow> db result" where
  "reward_credit p db =
     and_then (shift_user (pr_user p) 0 (pr_remaining p) 0 (pr_updated_at p) db)
       (post_reward (pr_user p) (pr_remaining p) Earned (pr_order p) (''earned:'' @ pr_order p))"

text \<open>The trigger of a refund that becomes (or is inserted as) succeeded.\<close>

definition refund_return :: "refund_row \<Rightarrow> string \<Rightarrow> db \<Rightarrow> db result" where
  "refund_return r uid db =
     and_then (post_cash Credit uid (r_cash r) Src_Refund (r_id r) (''balance-refund:'' @ r_id r)
                 (r_updated_at r) db) (\<lambda>db.
     and_then (if r_cash r > 0 \<or> r_reward r > 0
               then shift_user uid (r_cash r) (r_reward r) 1 (r_updated_at r) db else Inr db) (\<lambda>db.
       if r_reward r > 0
       then post_reward uid (r_reward r) Refund_Return (r_id r) (''refund:'' @ r_id r) db
       else Inr db))"

definition refund_reversal :: "refund_row \<Rightarrow> string \<Rightarrow> db \<Rightarrow> db result" where
  "refund_reversal r uid db =
     and_then (if r_reversal r > 0 then shift_user uid 0 (- r_reversal r) 0 (r_updated_at r) db else Inr db) (\<lambda>db.
       if r_reversal r > 0
       then post_reward uid (- r_reversal r) Reversal (r_id r) (''reversal:'' @ r_id r) db
       else Inr db)"

definition refund_reward_row :: "refund_row \<Rightarrow> db \<Rightarrow> db" where
  "refund_reward_row r db =
     (if r_reversal r > 0
      then db \<lparr> promotion_rewards := sql_update (\<lambda>p. pr_order p = r_order r)
            (\<lambda>p. p \<lparr> pr_remaining := max 0 (pr_remaining p - r_reversal r),
                     pr_state := (if pr_remaining p \<le> r_reversal r then Reward_Reversed else pr_state p),
                     pr_updated_at := r_updated_at r \<rparr>) (promotion_rewards db) \<rparr>
      else db)"

definition refund_posting :: "refund_row \<Rightarrow> db \<Rightarrow> db result" where
  "refund_posting r db =
     (let owner = (case find_order db (r_order r) of None \<Rightarrow> None | Some x \<Rightarrow> o_user x);
          earner = map_option pr_user (sql_first (\<lambda>p. pr_order p = r_order r \<and> pr_state p = Reward_Available)
                     (promotion_rewards db))
      in and_then (case owner of None \<Rightarrow> Inr db | Some uid \<Rightarrow> refund_return r uid db) (\<lambda>db.
         and_then (case earner of None \<Rightarrow> Inr db | Some uid \<Rightarrow> refund_reversal r uid db) (\<lambda>db.
         Inr (refund_reward_row r db))))"

definition insert_refund :: "refund_row \<Rightarrow> db \<Rightarrow> db result" where
  "insert_refund r db =
     (if r_amount r \<le> 0 \<or> r_payment_amount r \<le> 0 then Inl (DbAbort ''refunds_amount_check'')
      else if sql_exists (\<lambda>x. r_key x = r_key r) (refunds db) then Inl (DbAbort ''refunds_idempotency_uidx'')
      else if sql_exists (\<lambda>x. r_id x = r_id r) (refunds db) then Inl (DbAbort ''refunds_pk'')
      else (let db' = db \<lparr> refunds := refunds db @ [r] \<rparr>
            in if r_status r = Refund_Succeeded then refund_posting r db' else Inr db'))"

definition update_refund ::
  "string \<Rightarrow> (refund_row \<Rightarrow> bool) \<Rightarrow> (refund_row \<Rightarrow> refund_row) \<Rightarrow> db stmt" where
  "update_refund refund_id P f n db =
     (case sql_first (\<lambda>r. r_id r = refund_id \<and> P r) (refunds db) of
        None \<Rightarrow> Inr (db, 0)
      | Some old \<Rightarrow>
          (let db' = db \<lparr> refunds := sql_update (\<lambda>r. r_id r = refund_id \<and> P r) f (refunds db) \<rparr>
           in and_then (if r_status (f old) = Refund_Succeeded \<and> r_status old \<noteq> Refund_Succeeded
                        then refund_posting (f old) db' else Inr db') (\<lambda>db. Inr (db, 1))))"

section \<open>Other statements\<close>

definition insert_outbox :: "bool \<Rightarrow> outbox_row \<Rightarrow> db \<Rightarrow> (db \<times> nat) result" where
  "insert_outbox ignore e db =
     (if sql_exists (\<lambda>x. ob_key x = ob_key e) (outbox db)
      then (if ignore then Inr (db, 0) else Inl (DbAbort ''outbox_events_idempotency_uidx''))
      else Inr (db \<lparr> outbox := outbox db @ [e] \<rparr>, 1))"

text \<open>
  The constraints of \<^verbatim>\<open>shop_order_events\<close>: an event names both statuses of a change or none, a
  change is one, and there is one event per version of an order.
\<close>

definition insert_order_event :: "order_event_row \<Rightarrow> db \<Rightarrow> db result" where
  "insert_order_event e db =
     (if (oe_from e = None) \<noteq> (oe_to e = None) \<or> (oe_from e \<noteq> None \<and> oe_from e = oe_to e) \<or> oe_version e = Some 0
      then Inl (DbAbort ''shop_order_events_check'')
      else if oe_version e \<noteq> None
        \<and> sql_exists (\<lambda>x. oe_order x = oe_order e \<and> oe_version x = oe_version e) (order_events db)
      then Inl (DbAbort ''shop_order_events_order_version_uidx'')
      else Inr (db \<lparr> order_events := order_events db @ [e] \<rparr>))"

definition audit :: "string \<Rightarrow> string \<Rightarrow> db stmt" where
  "audit action target n db =
     Inr (db \<lparr> audit_logs := audit_logs db @ [\<lparr> al_action = action, al_target = target \<rparr>] \<rparr>, 1)"

text \<open>\<^verbatim>\<open>INSERT INTO ... SELECT ... FROM shop_orders WHERE id AND status AND version\<close>.\<close>

definition order_is :: "string \<Rightarrow> order_status \<Rightarrow> nat \<Rightarrow> db \<Rightarrow> bool" where
  "order_is order_id st version db =
     sql_exists (\<lambda>x. o_id x = order_id \<and> o_status x = st \<and> o_version x = version) (shop_orders db)"

definition event_when :: "(db \<Rightarrow> bool) \<Rightarrow> order_event_row \<Rightarrow> db stmt" where
  "event_when c e n db = (if c db then and_then (insert_order_event e db) (\<lambda>db. Inr (db, 1)) else Inr (db, 0))"

definition outbox_when :: "(db \<Rightarrow> bool) \<Rightarrow> bool \<Rightarrow> outbox_row \<Rightarrow> db stmt" where
  "outbox_when c ignore e n db = (if c db then insert_outbox ignore e db else Inr (db, 0))"

definition audit_when :: "(db \<Rightarrow> bool) \<Rightarrow> string \<Rightarrow> string \<Rightarrow> db stmt" where
  "audit_when c action target n db = (if c db then audit action target n db else Inr (db, 0))"

end
