(* ===== verification/Books.thy ===== *)
theory Books
  imports Shop_Triggers
begin

text \<open>
  The books of the shop: for every user, the difference between his cash balance and the sum
  of his wallet entries, and the same for rewards, are kept by every trigger and every ledger
  statement. A handler that keeps both differences neither creates nor loses money.
\<close>

section \<open>Balances against entries\<close>

definition balance_of :: "db \<Rightarrow> string \<Rightarrow> int" where
  "balance_of db v = (case find_user db v of None \<Rightarrow> 0 | Some u \<Rightarrow> u_balance u)"

definition reward_of :: "db \<Rightarrow> string \<Rightarrow> int" where
  "reward_of db v = (case find_user db v of None \<Rightarrow> 0 | Some u \<Rightarrow> u_reward u)"

definition wallet_total :: "db \<Rightarrow> string \<Rightarrow> int" where
  "wallet_total db v =
     sum_list (map (\<lambda>e. signed (we_direction e) (we_amount e)) (filter (\<lambda>e. we_user e = v) (wallet_entries db)))"

definition reward_total :: "db \<Rightarrow> string \<Rightarrow> int" where
  "reward_total db v = sum_list (map re_delta (filter (\<lambda>e. re_user e = v) (reward_entries db)))"

definition cash_gap :: "db \<Rightarrow> string \<Rightarrow> int" where
  "cash_gap db v = balance_of db v - wallet_total db v"

definition reward_gap :: "db \<Rightarrow> string \<Rightarrow> int" where
  "reward_gap db v = reward_of db v - reward_total db v"

definition has_user :: "db \<Rightarrow> string \<Rightarrow> bool" where
  "has_user db v \<longleftrightarrow> find_user db v \<noteq> None"

text \<open>
  A change of a user's cash raises the version of his row. Handlers that read a balance and
  write it back under the version they read depend on every other writer doing this.
\<close>

definition cash_versioned :: "db \<Rightarrow> db \<Rightarrow> bool" where
  "cash_versioned db db' \<longleftrightarrow>
     (\<forall>v u. find_user db v = Some u \<longrightarrow>
        (\<exists>u'. find_user db' v = Some u' \<and> u_version u \<le> u_version u'
           \<and> (u_version u' = u_version u \<longrightarrow> u_balance u' = u_balance u)))"

text \<open>Two databases have the same books.\<close>

definition same_gaps :: "db \<Rightarrow> db \<Rightarrow> bool" where
  "same_gaps db db' \<longleftrightarrow> (\<forall>v. cash_gap db' v = cash_gap db v \<and> reward_gap db' v = reward_gap db v)"

definition same_books :: "db \<Rightarrow> db \<Rightarrow> bool" where
  "same_books db db' \<longleftrightarrow> same_gaps db db' \<and> cash_versioned db db'"

lemma cash_versioned_refl [simp]: "cash_versioned db db"
  by (simp add: cash_versioned_def)

lemma cash_versioned_trans:
  assumes "cash_versioned a b" and "cash_versioned b c"
  shows "cash_versioned a c"
  unfolding cash_versioned_def
proof (intro allI impI)
  fix v u assume "find_user a v = Some u"
  with assms(1) obtain w where w: "find_user b v = Some w" "u_version u \<le> u_version w"
    "u_version w = u_version u \<longrightarrow> u_balance w = u_balance u" by (auto simp: cash_versioned_def)
  with assms(2) obtain x where "find_user c v = Some x" "u_version w \<le> u_version x"
    "u_version x = u_version w \<longrightarrow> u_balance x = u_balance w" by (auto simp: cash_versioned_def)
  with w show "\<exists>x. find_user c v = Some x \<and> u_version u \<le> u_version x
      \<and> (u_version x = u_version u \<longrightarrow> u_balance x = u_balance u)"
    by (metis le_antisym le_trans)
qed

lemma same_books_refl [simp]: "same_books db db"
  by (simp add: same_books_def same_gaps_def)

lemma same_books_trans: "same_books a b \<Longrightarrow> same_books b c \<Longrightarrow> same_books a c"
  using cash_versioned_trans by (auto simp: same_books_def same_gaps_def)

text \<open>Only three tables matter to the books.\<close>

lemma same_books_tables:
  "users db' = users db \<Longrightarrow> wallet_entries db' = wallet_entries db \<Longrightarrow> reward_entries db' = reward_entries db
   \<Longrightarrow> same_books db db'"
  by (simp add: same_books_def same_gaps_def cash_versioned_def cash_gap_def reward_gap_def
      balance_of_def reward_of_def wallet_total_def reward_total_def find_user_def)

lemma gaps_tables:
  assumes "users db' = users db" "wallet_entries db' = wallet_entries db" "reward_entries db' = reward_entries db"
  shows "cash_gap db' v = cash_gap db v" "reward_gap db' v = reward_gap db v" "has_user db' v = has_user db v"
  using same_books_tables [OF assms] assms(1)
  by (simp_all add: same_books_def same_gaps_def has_user_def find_user_def)

lemma post_cash_books:
  assumes "post_cash d uid a src sid key now db = Inr db'"
  shows "cash_gap db' v = cash_gap db v - (if v = uid \<and> has_user db uid \<and> 0 < a then signed d a else 0)"
    and "reward_gap db' v = reward_gap db v" and "has_user db' v = has_user db v"
  using assms
  by (auto simp: post_cash_def insert_wallet_entry_def cash_gap_def reward_gap_def balance_of_def
      reward_of_def wallet_total_def reward_total_def has_user_def find_user_def
      split: option.splits if_splits)

lemma find_user_shift:
  "shift_user uid c r k now db = Inr db' \<Longrightarrow>
   find_user db' v = map_option (\<lambda>u. if u_id u = uid then u \<lparr> u_balance := u_balance u + c,
     u_reward := u_reward u + r, u_version := u_version u + k, u_updated_at := now \<rparr> else u) (find_user db v)"
  unfolding shift_user_def find_user_def
  by (auto split: if_splits intro!: sql_first_update_key)

lemma find_user_id: "find_user db v = Some u \<Longrightarrow> u_id u = v"
  unfolding find_user_def by (drule sql_first_Some) simp

lemma shift_user_books:
  assumes "shift_user uid c r k now db = Inr db'"
  shows "cash_gap db' v = cash_gap db v + (if v = uid \<and> has_user db uid then c else 0)"
    and "reward_gap db' v = reward_gap db v + (if v = uid \<and> has_user db uid then r else 0)"
    and "has_user db' v = has_user db v"
proof -
  have e: "wallet_entries db' = wallet_entries db" "reward_entries db' = reward_entries db"
    using assms by (auto simp: shift_user_def split: if_splits)
  show "cash_gap db' v = cash_gap db v + (if v = uid \<and> has_user db uid then c else 0)"
    and "reward_gap db' v = reward_gap db v + (if v = uid \<and> has_user db uid then r else 0)"
    and "has_user db' v = has_user db v"
    using find_user_id [of db v]
    by (auto simp: cash_gap_def reward_gap_def balance_of_def reward_of_def wallet_total_def
        reward_total_def has_user_def find_user_shift [OF assms] e split: option.splits)
qed

lemma shift_user_versioned:
  assumes "shift_user uid c r k now db = Inr db'" and "0 < k \<or> c = 0"
  shows "cash_versioned db db'"
  using assms(2) by (auto simp: cash_versioned_def find_user_shift [OF assms(1)])

lemma shift_user_if_versioned:
  assumes "(if p then shift_user uid c r k now db else Inr db) = Inr db'" and "0 < k \<or> c = 0"
  shows "cash_versioned db db'"
  using assms shift_user_versioned by (auto split: if_splits)

lemma users_versioned: "users db' = users db \<Longrightarrow> cash_versioned db db'"
  by (simp add: cash_versioned_def find_user_def)

lemma post_users:
  "post_cash d uid a src sid key now db = Inr db' \<Longrightarrow> users db' = users db"
  "post_reward uid delta kind sid key db = Inr db' \<Longrightarrow> users db' = users db"
  by (auto simp: post_cash_def insert_wallet_entry_def post_reward_def insert_reward_entry_def
      split: option.splits if_splits)

lemma post_reward_if_users:
  "(if c then post_reward uid delta kind sid key db else Inr db) = Inr db' \<Longrightarrow> users db' = users db"
  using post_users(2) by (auto split: if_splits)

lemma three_steps_versioned:
  "users d1 = users db \<Longrightarrow> cash_versioned d1 d2 \<Longrightarrow> users db' = users d2 \<Longrightarrow> cash_versioned db db'"
  using cash_versioned_trans users_versioned by blast

lemma post_reward_books:
  assumes "post_reward uid delta kind sid key db = Inr db'"
  shows "cash_gap db' v = cash_gap db v" and "has_user db' v = has_user db v"
    and "reward_gap db' v = reward_gap db v - (if v = uid \<and> has_user db uid then delta else 0)"
  using assms
  by (auto simp: post_reward_def insert_reward_entry_def cash_gap_def reward_gap_def balance_of_def
      reward_of_def wallet_total_def reward_total_def has_user_def find_user_def
      split: option.splits if_splits)

lemma post_reward_if_books:
  assumes "(if c then post_reward uid delta kind sid key db else Inr db) = Inr db'"
  shows "cash_gap db' v = cash_gap db v" and "has_user db' v = has_user db v"
    and "reward_gap db' v = reward_gap db v - (if c \<and> v = uid \<and> has_user db uid then delta else 0)"
  using assms post_reward_books [of uid delta kind sid key db db' v] by (auto split: if_splits)

lemma shift_user_if_books:
  assumes "(if p then shift_user uid c r k now db else Inr db) = Inr db'"
  shows "cash_gap db' v = cash_gap db v + (if p \<and> v = uid \<and> has_user db uid then c else 0)"
    and "reward_gap db' v = reward_gap db v + (if p \<and> v = uid \<and> has_user db uid then r else 0)"
    and "has_user db' v = has_user db v"
  using assms shift_user_books [of uid c r k now db db' v] by (auto split: if_splits)

lemmas ledger_books = post_cash_books shift_user_if_books post_reward_if_books

section \<open>Triggers keep the books\<close>

lemma hold_debit_books:
  assumes "hold_debit h db = Inr db'" and "0 \<le> h_cash h" "0 \<le> h_reward h"
  shows "same_books db db'"
proof -
  from assms(1) obtain d1 d2 where
    s: "post_cash Debit (h_user h) (h_cash h) Src_Shop_Order (h_order h) (''balance-hold:'' @ h_order h)
          (h_updated_at h) db = Inr d1"
       "shift_user (h_user h) (- h_cash h) (- h_reward h) 1 (h_updated_at h) d1 = Inr d2"
       "(if h_reward h > 0
         then post_reward (h_user h) (- h_reward h) Hold (h_order h) (''hold:'' @ h_order h) d2
         else Inr d2) = Inr db'"
    unfolding hold_debit_def and_then_Inr by auto
  have "same_gaps db db'"
    using assms(2,3)
    by (auto simp: same_gaps_def post_cash_books [OF s(1)] shift_user_books [OF s(2)] signed_def
        post_reward_if_books [OF s(3)])
  moreover have "cash_versioned db db'"
    by (rule three_steps_versioned [OF post_users(1) [OF s(1)] shift_user_versioned [OF s(2)]
          post_reward_if_users [OF s(3)]]) simp
  ultimately show ?thesis by (simp add: same_books_def)
qed

lemma hold_release_books:
  assumes "hold_release h db = Inr db'" and "0 \<le> h_cash h" "0 \<le> h_reward h"
  shows "same_books db db'"
proof -
  from assms(1) obtain d1 d2 where
    s: "post_cash Credit (h_user h) (h_cash h) Src_Adjustment (h_order h) (''balance-release:'' @ h_order h)
          (h_updated_at h) db = Inr d1"
       "shift_user (h_user h) (h_cash h) (h_reward h) 1 (h_updated_at h) d1 = Inr d2"
       "(if h_reward h > 0
         then post_reward (h_user h) (h_reward h) Release (h_order h) (''release:'' @ h_order h) d2
         else Inr d2) = Inr db'"
    unfolding hold_release_def and_then_Inr by auto
  have "same_gaps db db'"
    using assms(2,3)
    by (auto simp: same_gaps_def post_cash_books [OF s(1)] shift_user_books [OF s(2)] signed_def
        post_reward_if_books [OF s(3)])
  moreover have "cash_versioned db db'"
    by (rule three_steps_versioned [OF post_users(1) [OF s(1)] shift_user_versioned [OF s(2)]
          post_reward_if_users [OF s(3)]]) simp
  ultimately show ?thesis by (simp add: same_books_def)
qed

text \<open>
  What is kept: the books, the primary key of the users, and the sign of the amounts on holds (a
  CHECK constraint) and of the balance parts of refunds.
\<close>

definition rows_valid :: "db \<Rightarrow> bool" where
  "rows_valid db \<longleftrightarrow> distinct (map u_id (users db)) \<and> (\<forall>h\<in>set (holds db). 0 \<le> h_cash h \<and> 0 \<le> h_reward h)
     \<and> (\<forall>r\<in>set (refunds db). 0 \<le> r_cash r \<and> 0 \<le> r_reward r)"

definition books_kept :: "db \<Rightarrow> db \<Rightarrow> bool" where
  "books_kept start db \<longleftrightarrow> same_books start db \<and> rows_valid db"

lemma books_keptI: "books_kept start db \<Longrightarrow> same_books db db' \<Longrightarrow> rows_valid db' \<Longrightarrow> books_kept start db'"
  using same_books_trans by (auto simp: books_kept_def)

lemma books_kept_tables:
  assumes "books_kept start db" "users db' = users db" "wallet_entries db' = wallet_entries db"
    "reward_entries db' = reward_entries db" "holds db' = holds db" "refunds db' = refunds db"
  shows "books_kept start db'"
  using assms(1) same_books_tables [OF assms(2-4)] assms(5,6)
  using same_books_trans assms(2) by (auto simp: books_kept_def rows_valid_def)

lemma ledger_frame:
  "post_cash d uid a src sid key now db = Inr db' \<Longrightarrow> holds db' = holds db \<and> refunds db' = refunds db
     \<and> map u_id (users db') = map u_id (users db)"
  "shift_user uid c r k now db = Inr db' \<Longrightarrow> holds db' = holds db \<and> refunds db' = refunds db
     \<and> map u_id (users db') = map u_id (users db)"
  "post_reward uid delta kind sid key db = Inr db' \<Longrightarrow> holds db' = holds db \<and> refunds db' = refunds db
     \<and> map u_id (users db') = map u_id (users db)"
  by (auto simp: post_cash_def insert_wallet_entry_def shift_user_def post_reward_def
      insert_reward_entry_def intro!: sql_update_cong_key split: option.splits if_splits)

lemma hold_release_frame:
  "hold_release h db = Inr db' \<Longrightarrow> holds db' = holds db \<and> refunds db' = refunds db
     \<and> map u_id (users db') = map u_id (users db)"
  unfolding hold_release_def and_then_Inr by (auto dest!: ledger_frame split: if_splits)

lemma hold_debit_frame:
  "hold_debit h db = Inr db' \<Longrightarrow> holds db' = holds db \<and> refunds db' = refunds db
     \<and> map u_id (users db') = map u_id (users db)"
  unfolding hold_debit_def and_then_Inr by (auto dest!: ledger_frame split: if_splits)

lemma settle_hold_kept:
  assumes "settle_hold i st now db = Inr db'" and "books_kept start db"
  shows "books_kept start db'"
proof (cases "sql_first (\<lambda>h. h_order h = i \<and> h_state h = Held) (holds db)")
  case None
  with assms show ?thesis by (simp add: settle_hold_def)
next
  case (Some h)
  let ?h = "h \<lparr> h_state := st, h_updated_at := now \<rparr>"
  let ?d = "db \<lparr> holds := sql_update (\<lambda>r. r = h) (\<lambda>_. ?h) (holds db) \<rparr>"
  from sql_first_Some [OF Some] have h: "h \<in> set (holds db)" by simp
  have nn: "0 \<le> h_cash ?h" "0 \<le> h_reward ?h"
    using assms(2) h by (auto simp: books_kept_def rows_valid_def)
  have v: "rows_valid ?d" using assms(2) nn by (auto simp: books_kept_def rows_valid_def sql_update_def)
  have d: "books_kept start ?d"
    by (rule books_keptI [OF assms(2) same_books_tables v]) simp_all
  show ?thesis
  proof (cases "st = Released")
    case True
    then have r: "hold_release ?h ?d = Inr db'" using assms(1) Some by (simp add: settle_hold_def Let_def)
    show ?thesis
      by (rule books_keptI [OF d hold_release_books [OF r nn]])
        (use hold_release_frame [OF r] v in \<open>simp add: rows_valid_def\<close>)
  next
    case False
    then show ?thesis using assms(1) Some d by (simp add: settle_hold_def Let_def)
  qed
qed

lemma lifecycle_reward_frame:
  "lifecycle_reward new db = Inr db' \<Longrightarrow> users db' = users db \<and> wallet_entries db' = wallet_entries db
     \<and> reward_entries db' = reward_entries db \<and> holds db' = holds db \<and> refunds db' = refunds db"
  by (auto simp: lifecycle_reward_def split: if_splits option.splits)

lemma lifecycle_schedule_frame:
  "users (lifecycle_schedule new db) = users db" "wallet_entries (lifecycle_schedule new db) = wallet_entries db"
  "reward_entries (lifecycle_schedule new db) = reward_entries db"
  "holds (lifecycle_schedule new db) = holds db" "refunds (lifecycle_schedule new db) = refunds db"
  by (simp_all add: lifecycle_schedule_def)

lemma order_lifecycle_kept:
  assumes "order_lifecycle new db = Inr db'" and "books_kept start db"
  shows "books_kept start db'"
proof -
  from assms(1) obtain d1 d2 where s: "lifecycle_hold new db = Inr d1" "lifecycle_reward new d1 = Inr d2"
    "db' = lifecycle_schedule new d2"
    unfolding order_lifecycle_def and_then_Inr by auto
  have "books_kept start d1"
    using s(1) settle_hold_kept assms(2) by (auto simp: lifecycle_hold_def split: if_splits)
  then have "books_kept start d2" by (rule books_kept_tables) (use lifecycle_reward_frame [OF s(2)] in auto)
  then show ?thesis unfolding s(3) by (rule books_kept_tables) (simp_all add: lifecycle_schedule_frame)
qed

lemma coupon_release_frame:
  "users (coupon_release old new db) = users db" "wallet_entries (coupon_release old new db) = wallet_entries db"
  "reward_entries (coupon_release old new db) = reward_entries db" "holds (coupon_release old new db) = holds db"
  "refunds (coupon_release old new db) = refunds db"
  by (simp_all add: coupon_release_def Let_def)

lemma update_order_kept [keeps]: "stmt_keeps (books_kept start) (update_order i P f)"
proof (rule stmt_keepsI)
  fix n db db' c
  assume k: "books_kept start db" and r: "update_order i P f n db = Inr (db', c)"
  show "books_kept start db'"
  proof (cases "sql_first (\<lambda>x. o_id x = i \<and> P db x) (shop_orders db)")
    case None
    with r k show ?thesis by (simp add: update_order_def)
  next
    case (Some old)
    let ?d = "db \<lparr> shop_orders := sql_update (\<lambda>x. o_id x = i \<and> P db x) f (shop_orders db) \<rparr>"
    from r Some obtain d2 where l: "order_lifecycle (f old) ?d = Inr d2" "db' = coupon_release old (f old) d2"
      by (auto simp: update_order_def Let_def and_then_Inr)
    have "books_kept start ?d" by (rule books_kept_tables [OF k]) simp_all
    from order_lifecycle_kept [OF l(1) this] show ?thesis
      by (rule books_kept_tables) (simp_all add: l(2) coupon_release_frame)
  qed
qed

lemma attempt_failed_release_kept:
  assumes "attempt_failed_release old new db = Inr db'" and "books_kept start db"
  shows "books_kept start db'"
proof -
  from assms(1) consider "db' = db"
    | d1 i P f c where "settle_hold i Released (pa_updated_at new) db = Inr d1"
        "update_order i P f 0 d1 = Inr (db', c)"
    unfolding attempt_failed_release_def by (auto simp: and_then_Inr split: if_splits option.splits)
  then show ?thesis
  proof cases
    case 1
    with assms(2) show ?thesis by simp
  next
    case (2 d1 i P f c)
    from settle_hold_kept [OF 2(1) assms(2)] 2(2) update_order_kept show ?thesis
      unfolding stmt_keeps_def by blast
  qed
qed

lemma update_attempt_kept [keeps]: "stmt_keeps (books_kept start) (update_attempt i P f)"
proof (rule stmt_keepsI)
  fix n db db' c
  assume k: "books_kept start db" and r: "update_attempt i P f n db = Inr (db', c)"
  show "books_kept start db'"
  proof (cases "sql_first (\<lambda>a. pa_id a = i \<and> P a) (attempts db)")
    case None
    with r k show ?thesis by (simp add: update_attempt_def)
  next
    case (Some old)
    let ?d = "db \<lparr> attempts := sql_update (\<lambda>a. pa_id a = i \<and> P a) f (attempts db) \<rparr>"
    from r Some have a: "attempt_failed_release old (f old) ?d = Inr db'"
      by (auto simp: update_attempt_def and_then_Inr)
    have "books_kept start ?d" by (rule books_kept_tables [OF k]) simp_all
    with attempt_failed_release_kept [OF a] show ?thesis .
  qed
qed

lemma insert_hold_kept [keeps]: "stmt_keeps (books_kept start) (insert_hold h)"
proof (rule stmt_keepsI)
  fix n db db' c
  assume k: "books_kept start db" and r: "insert_hold h n db = Inr (db', c)"
  let ?d = "db \<lparr> holds := holds db @ [h] \<rparr>"
  from r have h: "0 \<le> h_cash h" "0 \<le> h_reward h" and s: "hold_debit h ?d = Inr db'"
    by (auto simp: insert_hold_def and_then_Inr split: if_splits)
  have v: "rows_valid ?d" using k h by (auto simp: books_kept_def rows_valid_def)
  have d: "books_kept start ?d" by (rule books_keptI [OF k same_books_tables v]) simp_all
  show "books_kept start db'"
    by (rule books_keptI [OF d hold_debit_books [OF s h]])
      (use hold_debit_frame [OF s] v in \<open>simp add: rows_valid_def\<close>)
qed

lemma reward_credit_kept:
  assumes "reward_credit p db = Inr db'" and "books_kept start db"
  shows "books_kept start db'"
proof -
  from assms(1) obtain d1 where
    s: "shift_user (pr_user p) 0 (pr_remaining p) 0 (pr_updated_at p) db = Inr d1"
       "post_reward (pr_user p) (pr_remaining p) Earned (pr_order p) (''earned:'' @ pr_order p) d1 = Inr db'"
    unfolding reward_credit_def and_then_Inr by auto
  have "same_gaps db db'"
    by (simp add: same_gaps_def post_reward_books [OF s(2)] shift_user_books [OF s(1)])
  moreover have "cash_versioned db db'"
    by (rule three_steps_versioned [OF refl shift_user_versioned [OF s(1)] post_users(2) [OF s(2)]]) simp
  ultimately have "same_books db db'" by (simp add: same_books_def)
  then show ?thesis
    by (rule books_keptI [OF assms(2)])
      (use assms(2) ledger_frame(2) [OF s(1)] ledger_frame(3) [OF s(2)] in
        \<open>simp add: books_kept_def rows_valid_def\<close>)
qed

lemma refund_return_books:
  assumes "refund_return r uid db = Inr db'" and "0 \<le> r_cash r" "0 \<le> r_reward r"
  shows "same_books db db'" and "holds db' = holds db" and "refunds db' = refunds db"
    and "map u_id (users db') = map u_id (users db)"
proof -
  from assms(1) obtain d1 d2 where
    s: "post_cash Credit uid (r_cash r) Src_Refund (r_id r) (''balance-refund:'' @ r_id r) (r_updated_at r) db = Inr d1"
       "(if r_cash r > 0 \<or> r_reward r > 0
         then shift_user uid (r_cash r) (r_reward r) 1 (r_updated_at r) d1 else Inr d1) = Inr d2"
       "(if r_reward r > 0 then post_reward uid (r_reward r) Refund_Return (r_id r) (''refund:'' @ r_id r) d2
         else Inr d2) = Inr db'"
    unfolding refund_return_def and_then_Inr by auto
  have "same_gaps db db'"
    using assms(2,3)
    by (auto simp: same_gaps_def post_cash_books [OF s(1)] shift_user_if_books [OF s(2)] signed_def
        post_reward_if_books [OF s(3)])
  moreover have "cash_versioned db db'"
    by (rule three_steps_versioned [OF post_users(1) [OF s(1)] shift_user_if_versioned [OF s(2)]
          post_reward_if_users [OF s(3)]]) simp
  ultimately show "same_books db db'" by (simp add: same_books_def)
  show "holds db' = holds db" and "refunds db' = refunds db" and "map u_id (users db') = map u_id (users db)"
    using s by (auto dest!: ledger_frame split: if_splits)
qed

lemma refund_reversal_books:
  assumes "refund_reversal r uid db = Inr db'"
  shows "same_books db db'" and "holds db' = holds db" and "refunds db' = refunds db"
    and "map u_id (users db') = map u_id (users db)"
proof -
  from assms obtain d1 where
    s: "(if r_reversal r > 0 then shift_user uid 0 (- r_reversal r) 0 (r_updated_at r) db else Inr db) = Inr d1"
       "(if r_reversal r > 0 then post_reward uid (- r_reversal r) Reversal (r_id r) (''reversal:'' @ r_id r) d1
         else Inr d1) = Inr db'"
    unfolding refund_reversal_def and_then_Inr by auto
  have "same_gaps db db'"
    by (auto simp: same_gaps_def shift_user_if_books [OF s(1)] post_reward_if_books [OF s(2)])
  moreover have "cash_versioned db db'"
    by (rule three_steps_versioned [OF refl shift_user_if_versioned [OF s(1)] post_reward_if_users [OF s(2)]]) simp
  ultimately show "same_books db db'" by (simp add: same_books_def)
  show "holds db' = holds db" and "refunds db' = refunds db" and "map u_id (users db') = map u_id (users db)"
    using s by (auto dest!: ledger_frame split: if_splits)
qed

lemma refund_posting_kept:
  assumes "refund_posting r db = Inr db'" and "0 \<le> r_cash r" "0 \<le> r_reward r" and "books_kept start db"
  shows "books_kept start db'"
proof -
  from assms(1) obtain owner earner d1 d2 where
    s: "(case owner of None \<Rightarrow> Inr db | Some uid \<Rightarrow> refund_return r uid db) = Inr d1"
       "(case earner of None \<Rightarrow> Inr d1 | Some uid \<Rightarrow> refund_reversal r uid d1) = Inr d2"
       "db' = refund_reward_row r d2"
    unfolding refund_posting_def Let_def and_then_Inr by blast
  have a: "same_books db d1 \<and> holds d1 = holds db \<and> refunds d1 = refunds db
      \<and> map u_id (users d1) = map u_id (users db)"
    using s(1) refund_return_books assms(2,3) by (cases owner) auto
  have b: "same_books d1 d2 \<and> holds d2 = holds d1 \<and> refunds d2 = refunds d1
      \<and> map u_id (users d2) = map u_id (users d1)"
    using s(2) refund_reversal_books by (cases earner) auto
  have c: "same_books d2 db'" "holds db' = holds d2" "refunds db' = refunds d2" "users db' = users d2"
    unfolding s(3) refund_reward_row_def by (auto intro!: same_books_tables)
  have "same_books db db'" using a b c(1) by (meson same_books_trans)
  then show ?thesis
    by (rule books_keptI [OF assms(4)]) (use a b c assms(4) in \<open>simp add: books_kept_def rows_valid_def\<close>)
qed

lemma insert_refund_kept:
  assumes "insert_refund r db = Inr db'" and "0 \<le> r_cash r" "0 \<le> r_reward r" and "books_kept start db"
  shows "books_kept start db'"
proof -
  let ?d = "db \<lparr> refunds := refunds db @ [r] \<rparr>"
  have v: "rows_valid ?d" using assms(2-4) by (auto simp: books_kept_def rows_valid_def)
  have d: "books_kept start ?d" by (rule books_keptI [OF assms(4) same_books_tables v]) simp_all
  from assms(1) have "(if r_status r = Refund_Succeeded then refund_posting r ?d else Inr ?d) = Inr db'"
    by (simp add: insert_refund_def Let_def split: if_splits)
  then show ?thesis using refund_posting_kept [OF _ assms(2,3) d] d by (auto split: if_splits)
qed

lemma update_refund_kept:
  assumes "\<And>r. 0 \<le> r_cash r \<Longrightarrow> 0 \<le> r_reward r \<Longrightarrow> 0 \<le> r_cash (f r) \<and> 0 \<le> r_reward (f r)"
  shows "stmt_keeps (books_kept start) (update_refund i P f)"
proof (rule stmt_keepsI)
  fix n db db' c
  assume k: "books_kept start db" and r: "update_refund i P f n db = Inr (db', c)"
  show "books_kept start db'"
  proof (cases "sql_first (\<lambda>r. r_id r = i \<and> P r) (refunds db)")
    case None
    with r k show ?thesis by (simp add: update_refund_def)
  next
    case (Some old)
    let ?d = "db \<lparr> refunds := sql_update (\<lambda>r. r_id r = i \<and> P r) f (refunds db) \<rparr>"
    have "old \<in> set (refunds db)" using sql_first_Some [OF Some] by simp
    then have o: "0 \<le> r_cash (f old)" "0 \<le> r_reward (f old)"
      using k assms by (auto simp: books_kept_def rows_valid_def)
    have v: "rows_valid ?d" using k assms by (auto simp: books_kept_def rows_valid_def sql_update_def)
    have d: "books_kept start ?d" by (rule books_keptI [OF k same_books_tables v]) simp_all
    from r Some have "(if r_status (f old) = Refund_Succeeded \<and> r_status old \<noteq> Refund_Succeeded
        then refund_posting (f old) ?d else Inr ?d) = Inr db'"
      by (auto simp: update_refund_def Let_def and_then_Inr)
    then show ?thesis using refund_posting_kept [OF _ o d] d by (auto split: if_splits)
  qed
qed

lemma run_batch_books:
  "run_batch ss db = Inr (db', cs) \<Longrightarrow> books_kept start db \<Longrightarrow> \<forall>s\<in>set ss. stmt_keeps (books_kept start) s
   \<Longrightarrow> books_kept start db'"
  by (rule run_batch_keeps [where I = "books_kept start"])

text \<open>Statements that leave the three tables of the books alone.\<close>

lemma event_when_kept [keeps]: "stmt_keeps (books_kept start) (event_when c e)"
  by (rule stmt_keepsI)
    (auto simp: event_when_def insert_order_event_def and_then_Inr split: if_splits elim!: books_kept_tables)

lemma outbox_when_kept [keeps]: "stmt_keeps (books_kept start) (outbox_when c ignore e)"
  by (rule stmt_keepsI)
    (auto simp: outbox_when_def insert_outbox_def split: if_splits elim!: books_kept_tables)

lemma audit_kept [keeps]: "stmt_keeps (books_kept start) (audit action target)"
  by (rule stmt_keepsI) (auto simp: audit_def elim!: books_kept_tables)

lemma audit_when_kept [keeps]: "stmt_keeps (books_kept start) (audit_when c action target)"
  by (rule stmt_keepsI) (auto simp: audit_when_def audit_def split: if_splits elim!: books_kept_tables)

section \<open>What the triggers leave alone\<close>

text \<open>
  The triggers touch users, entries, holds, rewards, coupons and (for a failed payment attempt)
  one order; every other table stays as it is.
\<close>

definition same_rest :: "db \<Rightarrow> db \<Rightarrow> bool" where
  "same_rest db db' \<longleftrightarrow> shop_orders db' = shop_orders db \<and> order_items db' = order_items db
     \<and> attempts db' = attempts db \<and> topups db' = topups db \<and> receipts db' = receipts db
     \<and> refunds db' = refunds db \<and> entitlements db' = entitlements db \<and> grants db' = grants db
     \<and> access_events db' = access_events db \<and> stock db' = stock db \<and> deliveries db' = deliveries db
     \<and> supplies db' = supplies db \<and> outbox db' = outbox db \<and> order_events db' = order_events db
     \<and> capacity db' = capacity db \<and> audit_logs db' = audit_logs db \<and> agents db' = agents db
     \<and> upgrades db' = upgrades db \<and> snapshots db' = snapshots db \<and> after_sales db' = after_sales db
     \<and> channels db' = channels db \<and> commerce_events db' = commerce_events db
     \<and> supplier_accounts db' = supplier_accounts db \<and> task_runs db' = task_runs db"

lemma same_rest_refl [simp]: "same_rest db db"
  by (simp add: same_rest_def)

lemma same_rest_trans: "same_rest a b \<Longrightarrow> same_rest b c \<Longrightarrow> same_rest a c"
  by (simp add: same_rest_def)

lemma ledger_rest:
  "post_cash d uid a src sid key now db = Inr db' \<Longrightarrow> same_rest db db'"
  "shift_user uid c r k now db = Inr db' \<Longrightarrow> same_rest db db'"
  "post_reward uid delta kind sid key db = Inr db' \<Longrightarrow> same_rest db db'"
  by (auto simp: post_cash_def insert_wallet_entry_def shift_user_def post_reward_def
      insert_reward_entry_def same_rest_def split: option.splits if_splits)

lemma ledger_if_rest:
  "(if p then shift_user uid c r k now db else Inr db) = Inr db' \<Longrightarrow> same_rest db db'"
  "(if p then post_reward uid delta kind sid key db else Inr db) = Inr db' \<Longrightarrow> same_rest db db'"
  using ledger_rest(2,3) by (auto split: if_splits)

lemma hold_release_rest: "hold_release h db = Inr db' \<Longrightarrow> same_rest db db'"
  unfolding hold_release_def and_then_Inr
  using ledger_rest(1,2) ledger_if_rest(2) same_rest_trans by meson

lemma hold_debit_rest: "hold_debit h db = Inr db' \<Longrightarrow> same_rest db db'"
  unfolding hold_debit_def and_then_Inr
  using ledger_rest(1,2) ledger_if_rest(2) same_rest_trans by meson

lemma refund_return_rest: "refund_return r uid db = Inr db' \<Longrightarrow> same_rest db db'"
  unfolding refund_return_def and_then_Inr
  using ledger_rest(1) ledger_if_rest same_rest_trans by meson

lemma refund_reversal_rest: "refund_reversal r uid db = Inr db' \<Longrightarrow> same_rest db db'"
  unfolding refund_reversal_def and_then_Inr
  using ledger_if_rest same_rest_trans by meson

lemma settle_hold_rest:
  assumes "settle_hold i st now db = Inr db'"
  shows "same_rest db db'"
proof -
  have r: "hold_release h d = Inr db' \<Longrightarrow> shop_orders d = shop_orders db \<Longrightarrow> order_items d = order_items db
      \<Longrightarrow> same_rest db d \<Longrightarrow> same_rest db db'" for h d
    using hold_release_rest same_rest_trans by blast
  show ?thesis
    using assms
    by (auto simp: settle_hold_def Let_def split: option.splits if_splits intro!: r) (simp_all add: same_rest_def)
qed

lemma lifecycle_rest:
  assumes "order_lifecycle new db = Inr db'"
  shows "same_rest db db'"
proof -
  from assms obtain d1 d2 where s: "lifecycle_hold new db = Inr d1" "lifecycle_reward new d1 = Inr d2"
    "db' = lifecycle_schedule new d2"
    unfolding order_lifecycle_def and_then_Inr by auto
  have "same_rest db d1" using s(1) settle_hold_rest by (auto simp: lifecycle_hold_def split: if_splits)
  moreover have "same_rest d1 d2"
    using s(2) by (auto simp: lifecycle_reward_def same_rest_def split: if_splits option.splits)
  moreover have "same_rest d2 db'" by (simp add: s(3) lifecycle_schedule_def same_rest_def)
  ultimately show ?thesis using same_rest_trans by blast
qed

text \<open>So an update of an order does to the orders what it says, and the rest keeps its rows.\<close>

lemma update_order_Inr:
  assumes "update_order i P f n db = Inr (db', c)"
  shows "shop_orders db' = sql_update (\<lambda>x. o_id x = i \<and> P db x) f (shop_orders db)"
    and "same_rest (db \<lparr> shop_orders := shop_orders db' \<rparr>) db'"
    and "c = (if sql_exists (\<lambda>x. o_id x = i \<and> P db x) (shop_orders db) then 1 else 0)"
proof -
  let ?Q = "\<lambda>x. o_id x = i \<and> P db x"
  have e: "sql_exists ?Q (shop_orders db) \<longleftrightarrow> sql_first ?Q (shop_orders db) \<noteq> None"
    by (auto simp: sql_exists_def list_ex_iff sql_first_None)
  show "shop_orders db' = sql_update ?Q f (shop_orders db)"
    and "same_rest (db \<lparr> shop_orders := shop_orders db' \<rparr>) db'"
    and "c = (if sql_exists ?Q (shop_orders db) then 1 else 0)"
  proof (atomize (full), cases "sql_first ?Q (shop_orders db)")
    case None
    then have "sql_update ?Q f (shop_orders db) = shop_orders db" by (simp add: sql_first_None sql_update_none)
    with None assms e show "shop_orders db' = sql_update ?Q f (shop_orders db)
        \<and> same_rest (db \<lparr> shop_orders := shop_orders db' \<rparr>) db'
        \<and> c = (if sql_exists ?Q (shop_orders db) then 1 else 0)"
      by (simp add: update_order_def)
  next
    case (Some old)
    let ?d = "db \<lparr> shop_orders := sql_update ?Q f (shop_orders db) \<rparr>"
    from assms Some obtain d where d: "order_lifecycle (f old) ?d = Inr d" "db' = coupon_release old (f old) d" "c = 1"
      by (auto simp: update_order_def Let_def and_then_Inr)
    have "same_rest d db'" by (simp add: d(2) coupon_release_def same_rest_def Let_def)
    with lifecycle_rest [OF d(1)] have "same_rest ?d db'" using same_rest_trans by blast
    with d(3) e Some show "shop_orders db' = sql_update ?Q f (shop_orders db)
        \<and> same_rest (db \<lparr> shop_orders := shop_orders db' \<rparr>) db'
        \<and> c = (if sql_exists ?Q (shop_orders db) then 1 else 0)"
      by (simp add: same_rest_def)
  qed
qed

end
