(* ===== verification/Wallet.thy ===== *)
theory Wallet
  imports Books
begin

text \<open>
  The wallet ledger (\<^verbatim>\<open>src/features/wallet/server/ledger.ts\<close>) and balance
  payments of orders (\<^verbatim>\<open>src/features/promotions/server/balance.ts\<close>). Between the
  reads of a handler and its batch other requests may run: they are the parameter
  \<open>env\<close>, one database transformer per attempt of the handler.
\<close>

section \<open>Reading an amount\<close>

definition wallet_amount :: "string \<Rightarrow> int result" where
  "wallet_amount s =
     (let v = js_trim s
      in if canonical_whole v \<and> int (digits_value v) \<le> int64_max then Inr (int (digits_value v))
         else Inl ZodError)"

section \<open>Wallet mutations\<close>

record wallet_mutation =
  wm_user :: string
  wm_direction :: direction_of
  wm_amount :: string
  wm_currency :: string
  wm_source :: wallet_source
  wm_source_id :: string
  wm_key :: string

record wallet_outcome =
  wo_id :: row_id
  wo_balance :: int
  wo_duplicate :: bool

definition find_entry :: "db \<Rightarrow> string \<Rightarrow> wallet_entry option" where
  "find_entry db key = sql_first (\<lambda>e. we_key e = key) (wallet_entries db)"

definition replay_outcome :: "wallet_entry \<Rightarrow> wallet_outcome" where
  "replay_outcome e = \<lparr> wo_id = we_id e, wo_balance = we_after e, wo_duplicate = True \<rparr>"

definition store_balance :: "int \<times> int \<Rightarrow> user_row \<Rightarrow> user_row" where
  "store_balance b u = u \<lparr> u_balance := fst b, u_version := Suc (u_version u), u_updated_at := snd b \<rparr>"

text \<open>
  \<^verbatim>\<open>UPDATE users SET balance_minor, balance_version = version + 1 WHERE id AND P AND
  balance_version = version\<close>; the CHECK constraint refuses a negative balance.
\<close>

definition update_balance :: "(user_row \<Rightarrow> bool) \<Rightarrow> string \<Rightarrow> nat \<Rightarrow> int \<Rightarrow> int \<Rightarrow> db stmt" where
  "update_balance P uid version after now n db =
     (let hit = (\<lambda>u. u_id u = uid \<and> u_version u = version \<and> P u)
      in if after < 0 \<and> sql_exists hit (users db) then Inl (DbAbort ''users_balance_check'')
         else Inr (db \<lparr> users := sql_update hit (store_balance (after, now)) (users db) \<rparr>,
                   sql_changes hit (users db)))"

text \<open>\<^verbatim>\<open>INSERT INTO wallet_entries ... SELECT ... FROM users WHERE id AND balance_version AND changes() = 1\<close>.\<close>

definition record_entry :: "nat \<Rightarrow> wallet_entry \<Rightarrow> db stmt" where
  "record_entry next_version e n db =
     (if n = 1 \<and> sql_exists (\<lambda>u. u_id u = we_user e \<and> u_version u = next_version) (users db)
      then and_then (insert_wallet_entry e db) (\<lambda>db. Inr (db, 1))
      else Inr (db, 0))"

definition wallet_statements ::
  "wallet_mutation \<Rightarrow> int \<Rightarrow> user_row \<Rightarrow> int \<Rightarrow> string \<Rightarrow> int \<Rightarrow> db stmt list" where
  "wallet_statements m amount u after uuid now =
     [update_balance u_enabled (wm_user m) (u_version u) after now,
      record_entry (Suc (u_version u))
        \<lparr> we_id = Given uuid, we_user = wm_user m, we_direction = wm_direction m, we_amount = amount,
          we_before = u_balance u, we_after = after, we_currency = wm_currency m,
          we_source = wm_source m, we_source_id = wm_source_id m, we_key = wm_key m,
          we_created_at = now \<rparr>]"

text \<open>
  The loop of four attempts, counted down. Attempt \<open>k\<close> runs against what \<open>env k\<close> left;
  \<open>uuid\<close> and \<open>clock\<close> supply its random id and time.
\<close>

fun wallet_attempts ::
  "nat \<Rightarrow> (nat \<Rightarrow> db \<Rightarrow> db) \<Rightarrow> (nat \<Rightarrow> string) \<Rightarrow> (nat \<Rightarrow> int) \<Rightarrow> wallet_mutation \<Rightarrow> int \<Rightarrow> db
   \<Rightarrow> wallet_outcome result \<times> db" where
  "wallet_attempts 0 env uuid clock m amount db = (Inl (DomainError ''wallet_conflict'' 409), db)"
| "wallet_attempts (Suc k) env uuid clock m amount db =
     (case sql_first (\<lambda>u. u_id u = wm_user m \<and> u_enabled u) (users db) of
        None \<Rightarrow> (Inl (DomainError ''wallet_user_not_found'' 404), db)
      | Some u \<Rightarrow>
          (let before = u_balance u
           in if wm_direction m = Debit \<and> before < amount
              then (Inl (DomainError ''wallet_insufficient_balance'' 409), db)
              else
                (let after = (if wm_direction m = Credit then before + amount else before - amount)
                 in if after > int64_max then (Inl (DomainError ''wallet_balance_limit'' 409), db)
                    else
                      (let db = env k db
                       in case run_batch (wallet_statements m amount u after (uuid k) (clock k)) db of
                            Inl e \<Rightarrow> (case find_entry db (wm_key m) of
                                        Some x \<Rightarrow> (Inr (replay_outcome x), db)
                                      | None \<Rightarrow> (Inl e, db))
                          | Inr (db', changes) \<Rightarrow>
                              (if changes ! 0 = 1
                               then (Inr \<lparr> wo_id = Given (uuid k), wo_balance = after,
                                           wo_duplicate = False \<rparr>, db')
                               else wallet_attempts k env uuid clock m amount db')))))"

definition mutate_wallet ::
  "(nat \<Rightarrow> db \<Rightarrow> db) \<Rightarrow> (nat \<Rightarrow> string) \<Rightarrow> (nat \<Rightarrow> int) \<Rightarrow> wallet_mutation \<Rightarrow> db
   \<Rightarrow> wallet_outcome result \<times> db" where
  "mutate_wallet env uuid clock m db =
     (case wallet_amount (wm_amount m) of
        Inl e \<Rightarrow> (Inl e, db)
      | Inr amount \<Rightarrow>
          (if amount = 0 then (Inl (DomainError ''wallet_amount_invalid'' 400), db)
           else
             (case find_entry db (wm_key m) of
                Some e \<Rightarrow> (Inr (replay_outcome e), db)
              | None \<Rightarrow> wallet_attempts 4 env uuid clock m amount db)))"

section \<open>Paying an order from the balance\<close>

text \<open>
  \<^verbatim>\<open>reserveOrderBalance\<close>; \<open>env\<close> runs between its reads and the insert.
\<close>

definition reserve_order_balance ::
  "(db \<Rightarrow> db) \<Rightarrow> int \<Rightarrow> string \<Rightarrow> string \<Rightarrow> db \<Rightarrow> hold_row option result \<times> db" where
  "reserve_order_balance env now order_id user_id db =
     (case find_hold db order_id of
        Some h \<Rightarrow>
          (if h_user h \<noteq> user_id \<or> h_state h = Released
           then (Inl (DomainError ''wallet_hold_conflict'' 409), db) else (Inr (Some h), db))
      | None \<Rightarrow>
          (case (sql_first (\<lambda>x. o_id x = order_id \<and> o_user x = Some user_id \<and> o_status x = Pending_Payment)
                   (shop_orders db),
                 sql_first (\<lambda>u. u_id u = user_id \<and> u_enabled u) (users db)) of
             (Some x, Some u) \<Rightarrow>
               (let tot = o_total x;
                    reward_available = (if u_reward u > 0 then u_reward u else 0);
                    reward = (if reward_available < tot then reward_available else tot);
                    cash = (if u_balance u < tot - reward then u_balance u else tot - reward)
                in if cash + reward = 0 then (Inr None, db)
                   else
                     (let h = \<lparr> h_order = order_id, h_user = user_id, h_cash = cash, h_reward = reward,
                                h_external = tot - cash - reward, h_state = Held, h_updated_at = now \<rparr>;
                          db = env db
                      in case run_batch [insert_hold h] db of
                           Inr (db', _) \<Rightarrow> (Inr (Some h), db')
                         | Inl _ \<Rightarrow>
                             (case sql_first (\<lambda>h. h_order h = order_id \<and> h_user h = user_id
                                       \<and> h_state h \<noteq> Released) (holds db) of
                                Some h \<Rightarrow> (Inr (Some h), db)
                              | None \<Rightarrow> (Inl (DomainError ''wallet_hold_conflict'' 409), db))))
           | _ \<Rightarrow> (Inl (DomainError ''order_not_payable'' 409), db)))"

text \<open>
  \<^verbatim>\<open>settlePromotionRewards\<close>: the due rows in order of date, at most a hundred, each
  settled by its own guarded UPDATE with the credit trigger.
\<close>

definition reward_due :: "int \<Rightarrow> db \<Rightarrow> reward_row \<Rightarrow> bool" where
  "reward_due now db p \<longleftrightarrow> pr_state p = Reward_Pending
     \<and> (case pr_available_at p of None \<Rightarrow> False | Some t \<Rightarrow> t \<le> now)
     \<and> sql_exists (\<lambda>x. o_id x = pr_order p \<and> o_status x = Completed) (shop_orders db)
     \<and> sql_exists (\<lambda>u. u_id u = pr_user p \<and> u_enabled u) (users db)"

definition settle_reward :: "int \<Rightarrow> string \<Rightarrow> db stmt" where
  "settle_reward now order_id n db =
     (case sql_first (\<lambda>p. pr_order p = order_id \<and> reward_due now db p) (promotion_rewards db) of
        None \<Rightarrow> Inr (db, 0)
      | Some p \<Rightarrow>
          (let settle = (\<lambda>p. p \<lparr> pr_state := Reward_Available, pr_updated_at := now \<rparr>)
           in and_then (reward_credit (settle p)
                (db \<lparr> promotion_rewards := sql_update (\<lambda>p. pr_order p = order_id \<and> reward_due now db p)
                       settle (promotion_rewards db) \<rparr>)) (\<lambda>db. Inr (db, 1))))"

fun settle_rewards :: "int \<Rightarrow> string list \<Rightarrow> nat \<Rightarrow> db \<Rightarrow> nat result \<times> db" where
  "settle_rewards now [] settled db = (Inr settled, db)"
| "settle_rewards now (i # is) settled db =
     (case run_batch [settle_reward now i] db of
        Inl e \<Rightarrow> (Inl e, db)
      | Inr (db', changes) \<Rightarrow>
          settle_rewards now is (settled + (if changes ! 0 > 0 then 1 else 0)) db')"

definition due_rewards :: "int \<Rightarrow> db \<Rightarrow> string list" where
  "due_rewards now db = map pr_order (take 100 (sql_ordered
     (\<lambda>p. (case pr_available_at p of Some t \<Rightarrow> t | None \<Rightarrow> 0, pr_order p)) (reward_due now db)
     (promotion_rewards db)))"

definition settle_promotion_rewards :: "int \<Rightarrow> db \<Rightarrow> nat result \<times> db" where
  "settle_promotion_rewards now db = settle_rewards now (due_rewards now db) 0 db"

definition cancel_unstarted_balance_payment :: "int \<Rightarrow> string \<Rightarrow> db \<Rightarrow> bool result \<times> db" where
  "cancel_unstarted_balance_payment now order_id db =
     (case run_batch [update_order order_id
          (\<lambda>db x. o_status x = Pending_Payment
             \<and> sql_exists (\<lambda>h. h_order h = order_id \<and> h_state h = Held) (holds db)
             \<and> \<not> sql_exists (\<lambda>a. pa_order a = Some order_id) (attempts db))
          (\<lambda>x. x \<lparr> o_status := Cancelled, o_cancelled_at := Some now, o_updated_at := now,
                   o_version := o_version x + 1 \<rparr>)] db of
        Inl e \<Rightarrow> (Inl e, db)
      | Inr (db', changes) \<Rightarrow> (Inr (changes ! 0 > 0), db'))"

section \<open>Balances under optimistic locking\<close>

interpretation balance: versioned u_id u_version store_balance
  by unfold_locales (simp_all add: store_balance_def)

lemma update_balance_cas:
  "update_balance P uid v after now n db = Inr (db', c) \<Longrightarrow>
     db' = db \<lparr> users := balance.cas P uid v (after, now) (users db) \<rparr> \<and> c = balance.cas_changes P uid v (users db)"
  by (auto simp: update_balance_def Let_def balance.cas_def balance.cas_changes_def split: if_splits)

lemma wallet_batch_Inr:
  assumes "run_batch (wallet_statements m amount u after uuid now) db = Inr (db', cs)"
  obtains d c where "update_balance u_enabled (wm_user m) (u_version u) after now 0 db = Inr (d, c)"
    and "cs ! 0 = c"
    and "(if c = 1 \<and> sql_exists (\<lambda>x. u_id x = wm_user m \<and> u_version x = Suc (u_version u)) (users d)
          then insert_wallet_entry
            \<lparr> we_id = Given uuid, we_user = wm_user m, we_direction = wm_direction m, we_amount = amount,
              we_before = u_balance u, we_after = after, we_currency = wm_currency m,
              we_source = wm_source m, we_source_id = wm_source_id m, we_key = wm_key m,
              we_created_at = now \<rparr> d
          else Inr d) = Inr db'"
  using assms unfolding run_batch_def wallet_statements_def record_entry_def
  by (auto split: sum.splits prod.splits if_splits simp: and_then_Inr)

lemma first_enabled:
  assumes "distinct (map u_id us)" and "sql_first (\<lambda>u. u_id u = i \<and> u_enabled u) us = Some u"
  shows "sql_first (\<lambda>u. u_id u = i) us = Some u" and "u_enabled u" and "u_id u = i"
proof -
  from sql_first_Some [OF assms(2)] have u: "u \<in> set us" "u_id u = i" "u_enabled u" by auto
  from keyed_first [OF assms(1) u(1)] u show "sql_first (\<lambda>u. u_id u = i) us = Some u"
    and "u_enabled u" and "u_id u = i" by simp_all
qed

lemma update_balance_effect:
  assumes ub: "update_balance P uid v after now n db = Inr (d, c)"
    and dist: "distinct (map u_id (users db))" and w: "find_user db uid = Some w"
  shows "c \<le> 1" and "c = 0 \<Longrightarrow> d = db" and "d = db \<lparr> users := users d \<rparr>"
    and "map u_id (users d) = map u_id (users db)"
    and "c = 1 \<Longrightarrow> u_version w = v \<and> P w \<and> find_user d uid = Some (store_balance (after, now) w)"
    and "x \<noteq> uid \<Longrightarrow> find_user d x = find_user db x"
proof -
  from update_balance_cas [OF ub] have d: "d = db \<lparr> users := balance.cas P uid v (after, now) (users db) \<rparr>"
    and c: "c = balance.cas_changes P uid v (users db)" by auto
  show "c \<le> 1" unfolding c balance.cas_changes_def
    by (rule keyed_changes_le_one [OF dist, where P = "\<lambda>r. u_version r = v \<and> P r"])
  show "d = db" if "c = 0" using that balance.loser_changes_nothing [of P uid v "users db"] by (simp add: c d)
  show "d = db \<lparr> users := users d \<rparr>" by (simp add: d)
  show "map u_id (users d) = map u_id (users db)" by (simp add: d balance.cas_keys)
  show "u_version w = v \<and> P w \<and> find_user d uid = Some (store_balance (after, now) w)" if c1: "c = 1"
  proof -
    from c1 have "0 < sql_changes (\<lambda>r. u_id r = uid \<and> u_version r = v \<and> P r) (users db)"
      by (simp add: c balance.cas_changes_def)
    then obtain r where r: "r \<in> set (users db)" "u_id r = uid" "u_version r = v" "P r"
      by (auto simp: sql_changes_pos)
    have "r = w" using keyed_first [OF dist r(1)] w r(2) by (simp add: find_user_def)
    with r balance.cas_winner_row [OF dist w [unfolded find_user_def], of v P "(after, now)"]
    show ?thesis by (simp add: d find_user_def)
  qed
  show "find_user d x = find_user db x" if "x \<noteq> uid"
    using that find_user_id [of db x]
      sql_first_update_key [of u_id "store_balance (after, now)" x
        "\<lambda>r. u_id r = uid \<and> u_version r = v \<and> P r" "users db"]
    by (cases "find_user db x") (auto simp: d find_user_def balance.cas_def store_balance_def)
qed

lemma stored_row:
  assumes "find_user d i = Some (store_balance b w)"
  shows "sql_exists (\<lambda>x. u_id x = i \<and> u_version x = Suc (u_version w)) (users d)"
  unfolding sql_exists_def list_ex_iff
  using sql_first_Some [OF assms [unfolded find_user_def]]
  by (intro bexI [of _ "store_balance b w"]) (auto simp: store_balance_def)

text \<open>A balance written under its version, with the entry for the difference, keeps the books.\<close>

lemma booked_pair:
  assumes w: "find_user db uid = Some w" and d: "d = db \<lparr> users := users d \<rparr>"
    and du: "find_user d uid = Some (store_balance (after, now) w)"
    and others: "\<And>x. x \<noteq> uid \<Longrightarrow> find_user d x = find_user db x"
    and ins: "insert_wallet_entry e d = Inr db'"
    and e: "we_user e = uid" "signed (we_direction e) (we_amount e) = after - u_balance w"
  shows "same_books db db'"
    and "balance_of db' x = balance_of db x + (if x = uid then signed (we_direction e) (we_amount e) else 0)"
    and "users db' = users d" and "holds db' = holds db" and "refunds db' = refunds db"
    and "find_entry db' (we_key e) = Some e"
proof -
  have t: "users db' = users d" "wallet_entries db' = wallet_entries d @ [e]"
    "reward_entries db' = reward_entries d" "holds db' = holds d" "refunds db' = refunds d"
    and fresh: "\<not> sql_exists (\<lambda>x. we_key x = we_key e) (wallet_entries d)"
    using ins by (auto simp: insert_wallet_entry_def split: if_splits)
  from d have tables: "wallet_entries d = wallet_entries db" "reward_entries d = reward_entries db"
    "holds d = holds db" "refunds d = refunds db" by (metis db.select_convs db.surjective db.update_convs)+
  have f: "find_user db' x = (if x = uid then Some (store_balance (after, now) w) else find_user db x)" for x
    using t(1) du others by (simp add: find_user_def)
  show bal: "balance_of db' x = balance_of db x + (if x = uid then signed (we_direction e) (we_amount e) else 0)" for x
    using w e by (simp add: balance_of_def f store_balance_def)
  have rew: "reward_of db' x = reward_of db x" for x
    using w by (simp add: reward_of_def f store_balance_def)
  have "wallet_total db' x = wallet_total db x + (if x = uid then signed (we_direction e) (we_amount e) else 0)" for x
    using t(2) tables e by (simp add: wallet_total_def)
  then have "same_gaps db db'"
    using bal rew t(3) tables by (simp add: same_gaps_def cash_gap_def reward_gap_def reward_total_def)
  moreover have "cash_versioned db db'"
    using w by (auto simp: cash_versioned_def f store_balance_def)
  ultimately show "same_books db db'" by (simp add: same_books_def)
  show "users db' = users d" by (rule t)
  show "holds db' = holds db" "refunds db' = refunds db" using t tables by simp_all
  show "find_entry db' (we_key e) = Some e"
    using t(2) fresh by (auto simp: find_entry_def sql_first_append sql_exists_def sql_first_None list_ex_iff
        split: option.splits dest: sql_first_Some)
qed

text \<open>
  The batch writes the balance computed from the row that was read, under its version. The row
  may have changed since; if its version has not, neither has its balance, so the entry states
  the change exactly.
\<close>

lemma wallet_batch_effect:
  assumes b: "run_batch (wallet_statements m amount u after uuid now) db = Inr (db', cs)"
    and valid: "rows_valid db"
    and read: "find_user db0 (wm_user m) = Some u" "cash_versioned db0 db"
    and after: "after = u_balance u + signed (wm_direction m) amount"
  shows "cs ! 0 \<noteq> 1 \<Longrightarrow> db' = db"
    and "cs ! 0 = 1 \<Longrightarrow> same_books db db' \<and> rows_valid db' \<and> balance_of db' (wm_user m) = after
      \<and> (\<forall>v. balance_of db' v = balance_of db v
             + (if v = wm_user m then signed (wm_direction m) amount else 0))
      \<and> (\<exists>e. find_entry db' (wm_key m) = Some e \<and> we_id e = Given uuid \<and> we_after e = after)"
proof -
  let ?i = "wm_user m"
  let ?e = "\<lparr> we_id = Given uuid, we_user = ?i, we_direction = wm_direction m, we_amount = amount,
      we_before = u_balance u, we_after = after, we_currency = wm_currency m,
      we_source = wm_source m, we_source_id = wm_source_id m, we_key = wm_key m, we_created_at = now \<rparr>"
  from b obtain d c where ub: "update_balance u_enabled ?i (u_version u) after now 0 db = Inr (d, c)"
    and c: "cs ! 0 = c"
    and ins: "(if c = 1 \<and> sql_exists (\<lambda>x. u_id x = ?i \<and> u_version x = Suc (u_version u)) (users d)
        then insert_wallet_entry ?e d else Inr d) = Inr db'"
    by (rule wallet_batch_Inr)
  from read obtain w where w: "find_user db ?i = Some w"
    "u_version w = u_version u \<longrightarrow> u_balance w = u_balance u" by (auto simp: cash_versioned_def)
  have dist: "distinct (map u_id (users db))" using valid by (simp add: rows_valid_def)
  note ue = update_balance_effect [OF ub dist w(1)]
  show "db' = db" if "cs ! 0 \<noteq> 1"
  proof -
    have "c = 0" using that c ue(1) by linarith
    with ue(2) ins show ?thesis by simp
  qed
  assume c1: "cs ! 0 = 1"
  with c have v: "u_version w = u_version u" and du: "find_user d ?i = Some (store_balance (after, now) w)"
    using ue(5) by auto
  have "insert_wallet_entry ?e d = Inr db'" using ins c c1 stored_row [OF du] v by simp
  note bp = booked_pair [OF w(1) ue(3) du ue(6) this]
  have s: "signed (we_direction ?e) (we_amount ?e) = after - u_balance w" using after v w(2) by simp
  have valid': "rows_valid db'"
    using valid ue(4) bp(3-5) s by (simp add: rows_valid_def)
  have "find_user db' ?i = Some (store_balance (after, now) w)" using bp(3) s du by (simp add: find_user_def)
  then have "balance_of db' ?i = after" by (simp add: balance_of_def store_balance_def)
  then show "same_books db db' \<and> rows_valid db' \<and> balance_of db' ?i = after
      \<and> (\<forall>v. balance_of db' v = balance_of db v + (if v = ?i then signed (wm_direction m) amount else 0))
      \<and> (\<exists>e. find_entry db' (wm_key m) = Some e \<and> we_id e = Given uuid \<and> we_after e = after)"
    using bp(1,2,6) s valid' by simp
qed

text \<open>
  Other requests: whatever they do between the read and the batch, their own books are kept and
  they raise the version of a balance they change. Every operation of this theory does.
\<close>

definition fair :: "(db \<Rightarrow> db) \<Rightarrow> bool" where
  "fair f \<longleftrightarrow> (\<forall>d. rows_valid d \<longrightarrow> same_books d (f d) \<and> rows_valid (f d))"

lemma fair_id [simp]: "fair (\<lambda>d. d)"
  by (simp add: fair_def)

lemma wallet_attempts_kept:
  assumes "\<forall>k. fair (env k)" and "books_kept start db"
    and "wallet_attempts k env uuid clock m amount db = (res, db')"
  shows "books_kept start db'"
  using assms(2,3)
proof (induction k arbitrary: db)
  case 0
  then show ?case by simp
next
  case (Suc k)
  show ?case
  proof (cases "sql_first (\<lambda>u. u_id u = wm_user m \<and> u_enabled u) (users db)")
    case None
    with Suc.prems show ?thesis by simp
  next
    case (Some u)
    let ?after = "if wm_direction m = Credit then u_balance u + amount else u_balance u - amount"
    have v: "rows_valid db" using Suc.prems(1) by (simp add: books_kept_def)
    then have f: "find_user db (wm_user m) = Some u"
      using first_enabled(1) [OF _ Some] by (simp add: rows_valid_def find_user_def)
    from assms(1) v have e: "same_books db (env k db)" "rows_valid (env k db)" by (auto simp: fair_def)
    have ek: "books_kept start (env k db)" by (rule books_keptI [OF Suc.prems(1) e])
    have af: "?after = u_balance u + signed (wm_direction m) amount"
      by (cases "wm_direction m") (simp_all add: signed_def)
    consider "db' = db" | "db' = env k db"
      | d cs where "run_batch (wallet_statements m amount u ?after (uuid k) (clock k)) (env k db) = Inr (d, cs)"
          "db' = d \<or> wallet_attempts k env uuid clock m amount d = (res, db')"
      using Suc.prems(2) Some
      by (auto simp: Let_def split: if_splits sum.splits option.splits prod.splits)
    then show ?thesis
    proof cases
      case 1
      with Suc.prems(1) show ?thesis by simp
    next
      case 2
      with ek show ?thesis by simp
    next
      case (3 d cs)
      have cv: "cash_versioned db (env k db)" using e(1) by (simp add: same_books_def)
      from wallet_batch_effect [OF 3(1) e(2) f cv af] ek have "books_kept start d"
        by (cases "cs ! 0 = 1") (auto intro: books_keptI)
      with 3(2) Suc.IH show ?thesis by auto
    qed
  qed
qed

lemma mutate_wallet_kept:
  assumes "\<forall>k. fair (env k)" and "books_kept start db" and "mutate_wallet env uuid clock m db = (res, db')"
  shows "books_kept start db'"
  using assms wallet_attempts_kept [OF assms(1,2)]
  by (auto simp: mutate_wallet_def split: sum.splits if_splits option.splits)

text \<open>Without interference one attempt decides: the entry is written, or nothing changes.\<close>

lemma wallet_first_attempt:
  assumes valid: "rows_valid db" and fresh: "find_entry db (wm_key m) = None"
    and u: "find_user db (wm_user m) = Some u" "u_enabled u"
    and amount: "0 < amount"
    and after: "after = u_balance u + signed (wm_direction m) amount" "0 \<le> after" "after \<le> int64_max"
    and before: "0 \<le> u_balance u"
  shows "\<exists>db'. wallet_attempts (Suc k) (\<lambda>_ d. d) uuid clock m amount db
      = (Inr \<lparr> wo_id = Given (uuid k), wo_balance = after, wo_duplicate = False \<rparr>, db')
    \<and> same_books db db' \<and> rows_valid db' \<and> balance_of db' (wm_user m) = after
    \<and> (\<forall>v. v \<noteq> wm_user m \<longrightarrow> balance_of db' v = balance_of db v)
    \<and> (\<exists>e. find_entry db' (wm_key m) = Some e \<and> we_id e = Given (uuid k) \<and> we_after e = after)"
proof -
  let ?i = "wm_user m"
  let ?ss = "wallet_statements m amount u after (uuid k) (clock k)"
  have dist: "distinct (map u_id (users db))" using valid by (simp add: rows_valid_def)
  have mem: "u \<in> set (users db)" "u_id u = ?i" using sql_first_Some [OF u(1) [unfolded find_user_def]] by simp_all
  have en: "sql_first (\<lambda>u. u_id u = ?i \<and> u_enabled u) (users db) = Some u"
  proof (cases "sql_first (\<lambda>u. u_id u = ?i \<and> u_enabled u) (users db)")
    case None
    then show ?thesis using mem u(2) by (auto simp: sql_first_None)
  next
    case (Some w)
    then show ?thesis using first_enabled(1) [OF dist Some] u(1) by (simp add: find_user_def)
  qed
  have n1: "sql_changes (\<lambda>x. u_id x = ?i \<and> u_version x = u_version u \<and> u_enabled x) (users db) = 1"
    using keyed_changes [OF dist, where P = "\<lambda>x. u_version x = u_version u \<and> u_enabled x"] u
    by (simp add: find_user_def)
  obtain d where ub: "update_balance u_enabled ?i (u_version u) after (clock k) 0 db = Inr (d, 1)"
    using after(2) n1 by (auto simp: update_balance_def Let_def)
  note ue = update_balance_effect [OF ub dist u(1)]
  have ex: "sql_exists (\<lambda>x. u_id x = ?i \<and> u_version x = Suc (u_version u)) (users d)"
    using stored_row [OF conjunct2 [OF conjunct2 [OF ue(5) [OF refl]]]] by simp
  have wd: "wallet_entries d = wallet_entries db" using ue(3) by (metis db.select_convs(2) db.surjective db.update_convs(1))
  have nx: "\<not> sql_exists (\<lambda>x. we_key x = wm_key m) (wallet_entries d)"
    using fresh by (auto simp: find_entry_def sql_exists_def list_ex_iff sql_first_None wd)
  obtain db' where r: "run_batch ?ss db = Inr (db', [1, 1])"
    using ub ex nx amount before after(2)
    by (simp add: run_batch_def wallet_statements_def record_entry_def insert_wallet_entry_def)
  note eff = wallet_batch_effect(2) [OF r valid u(1) cash_versioned_refl after(1)]
  have "wallet_attempts (Suc k) (\<lambda>_ d. d) uuid clock m amount db
      = (Inr \<lparr> wo_id = Given (uuid k), wo_balance = after, wo_duplicate = False \<rparr>, db')"
  proof -
    have "(if wm_direction m = Credit then u_balance u + amount else u_balance u - amount) = after"
      using after(1) by (cases "wm_direction m") (simp_all add: signed_def)
    moreover have "\<not> (wm_direction m = Debit \<and> u_balance u < amount)"
      using after(1,2) by (auto simp: signed_def)
    ultimately show ?thesis using en r after(3) by (simp add: Let_def)
  qed
  with eff show ?thesis by auto
qed

lemma mutate_wallet_replay:
  assumes "wallet_amount (wm_amount m) = Inr amount" "amount \<noteq> 0" and "find_entry db (wm_key m) = Some e"
  shows "mutate_wallet env uuid clock m db = (Inr (replay_outcome e), db)"
  using assms by (simp add: mutate_wallet_def)

section \<open>Reservations and rewards keep the books\<close>

lemma reserve_order_balance_kept:
  assumes "fair env" and "books_kept start db"
    and "reserve_order_balance env now order_id user_id db = (res, db')"
  shows "books_kept start db'"
proof -
  from assms(1,2) have e: "books_kept start (env db)"
    by (auto simp: fair_def books_kept_def intro: books_keptI same_books_trans)
  from assms(3) consider "db' = db" | "db' = env db"
    | h cs where "run_batch [insert_hold h] (env db) = Inr (db', cs)"
    by (auto simp: reserve_order_balance_def Let_def split: option.splits if_splits sum.splits prod.splits)
  then show ?thesis
  proof cases
    case (3 h cs)
    then show ?thesis using run_batch_books [OF 3 e] insert_hold_kept by simp
  qed (use assms(2) e in simp_all)
qed

lemma settle_reward_kept [keeps]: "stmt_keeps (books_kept start) (settle_reward now i)"
proof (rule stmt_keepsI)
  fix n db db' c
  assume k: "books_kept start db" and r: "settle_reward now i n db = Inr (db', c)"
  show "books_kept start db'"
  proof (cases "sql_first (\<lambda>p. pr_order p = i \<and> reward_due now db p) (promotion_rewards db)")
    case None
    with r k show ?thesis by (simp add: settle_reward_def)
  next
    case (Some p)
    let ?f = "\<lambda>p. p \<lparr> pr_state := Reward_Available, pr_updated_at := now \<rparr>"
    let ?d = "db \<lparr> promotion_rewards := sql_update (\<lambda>p. pr_order p = i \<and> reward_due now db p) ?f
        (promotion_rewards db) \<rparr>"
    from r Some have c: "reward_credit (?f p) ?d = Inr db'"
      by (auto simp: settle_reward_def Let_def and_then_Inr)
    have "books_kept start ?d" by (rule books_kept_tables [OF k]) simp_all
    with reward_credit_kept [OF c] show ?thesis .
  qed
qed

lemma settle_rewards_kept:
  "books_kept start db \<Longrightarrow> settle_rewards now is n db = (res, db') \<Longrightarrow> books_kept start db'"
proof (induction "is" arbitrary: n db)
  case Nil
  then show ?case by simp
next
  case (Cons i js)
  show ?case
  proof (cases "run_batch [settle_reward now i] db")
    case (Inl e)
    with Cons.prems show ?thesis by simp
  next
    case (Inr r)
    obtain d cs where "r = (d, cs)" by (cases r)
    with Inr have "run_batch [settle_reward now i] db = Inr (d, cs)" by simp
    moreover from this have "books_kept start d"
      using run_batch_books [OF _ Cons.prems(1)] settle_reward_kept by simp
    ultimately show ?thesis using Cons by simp
  qed
qed

section \<open>Properties\<close>

text \<open>A shop with one user who holds ten yuan and three of reward.\<close>

definition sample_user :: user_row where
  "sample_user = \<lparr> u_id = ''u'', u_enabled = True, u_balance = 1000, u_reward = 300, u_version = 1,
     u_email = ''m'', u_verified = True, u_updated_at = 0 \<rparr>"

definition sample_order :: order_row where
  "sample_order = \<lparr> o_id = ''o'', o_number = ''GM'', o_key = None, o_user = Some ''u'', o_email = Some ''m'',
     o_status = Pending_Payment, o_version = 1, o_subtotal = 500, o_discount = 0, o_total = 500, o_paid = 0, o_currency = ''CNY'', o_decimals = 2, o_coupon = None, o_promotion = None,
     o_referrer = None, o_referral_reward = 0, o_pricing_channel = None, o_expires_at = 100,
     o_paid_at = None, o_completed_at = None, o_cancelled_at = None, o_refunded_at = None,
     o_created_at = 0, o_updated_at = 0 \<rparr>"

text \<open>A coupon for one order, reserved.\<close>

definition sample_coupon :: "coupon_purpose \<Rightarrow> coupon_use_row" where
  "sample_coupon p = \<lparr> cu_id = ''cp'', cu_code = ''CODE'', cu_purpose = p, cu_referrer = None, cu_recipient = None,
     cu_recipient_email = None, cu_type = Fixed, cu_currency = Some ''CNY'', cu_decimals = Some 2, cu_value_minor = Some 100,
     cu_value_bps = None, cu_minimum_order = None, cu_maximum_discount = None,
     cu_scope = Some \<lparr> scope_products = [], scope_tags = [] \<rparr>, cu_starts_at = None, cu_ends_at = None,
     cu_enabled = True, cu_usage_limit = Some 1, cu_customer_limit = None, cu_used = 1 \<rparr>"

definition sample_db :: db where
  "sample_db = empty_db \<lparr> users := [sample_user], shop_orders := [sample_order] \<rparr>"

definition sample_debit :: wallet_mutation where
  "sample_debit = \<lparr> wm_user = ''u'', wm_direction = Debit, wm_amount = ''250'', wm_currency = ''CNY'',
     wm_source = Src_Adjustment, wm_source_id = ''x'', wm_key = ''k'' \<rparr>"

lemma sample_books: "books_kept sample_db sample_db" "rows_valid sample_db"
  by (simp_all add: books_kept_def rows_valid_def sample_db_def empty_db_def)

text \<open>
  C8. A wallet mutation with a fresh key on an enabled user changes that user's balance by the
  signed amount and no other balance; the same request again returns the first outcome as a
  duplicate and changes nothing.
\<close>

lemma wallet_applies_once:
  assumes "rows_valid db" and "find_entry db (wm_key m) = None"
    and "find_user db (wm_user m) = Some u" and "u_enabled u" and "0 \<le> u_balance u"
    and "wallet_amount (wm_amount m) = Inr amount" and "0 < amount"
    and "0 \<le> u_balance u + signed (wm_direction m) amount"
    and "u_balance u + signed (wm_direction m) amount \<le> int64_max"
  shows "\<exists>db'. mutate_wallet (\<lambda>_ d. d) uuid clock m db
        = (Inr \<lparr> wo_id = Given (uuid 3), wo_balance = u_balance u + signed (wm_direction m) amount,
                 wo_duplicate = False \<rparr>, db')
    \<and> balance_of db' (wm_user m) = u_balance u + signed (wm_direction m) amount
    \<and> (\<forall>v. v \<noteq> wm_user m \<longrightarrow> balance_of db' v = balance_of db v)
    \<and> mutate_wallet env uuid' clock' m db' = (Inr \<lparr> wo_id = Given (uuid 3),
          wo_balance = u_balance u + signed (wm_direction m) amount, wo_duplicate = True \<rparr>, db')"
proof -
  from wallet_first_attempt [OF assms(1-4,7) refl assms(8,9,5), of 3 uuid clock]
  obtain db' e where r: "wallet_attempts (Suc 3) (\<lambda>_ d. d) uuid clock m amount db
      = (Inr \<lparr> wo_id = Given (uuid 3), wo_balance = u_balance u + signed (wm_direction m) amount,
               wo_duplicate = False \<rparr>, db')"
    "balance_of db' (wm_user m) = u_balance u + signed (wm_direction m) amount"
    "\<forall>v. v \<noteq> wm_user m \<longrightarrow> balance_of db' v = balance_of db v"
    "find_entry db' (wm_key m) = Some e" "we_id e = Given (uuid 3)"
    "we_after e = u_balance u + signed (wm_direction m) amount"
    by blast
  have four: "Suc 3 = (4 :: nat)" by simp
  have "mutate_wallet (\<lambda>_ d. d) uuid clock m db = (Inr \<lparr> wo_id = Given (uuid 3),
      wo_balance = u_balance u + signed (wm_direction m) amount, wo_duplicate = False \<rparr>, db')"
    using assms(2,6,7) r(1) [unfolded four] by (simp add: mutate_wallet_def)
  moreover have "mutate_wallet env uuid' clock' m db' = (Inr \<lparr> wo_id = Given (uuid 3),
      wo_balance = u_balance u + signed (wm_direction m) amount, wo_duplicate = True \<rparr>, db')"
    using mutate_wallet_replay [OF assms(6) _ r(4)] assms(7) r(5,6) by (simp add: replay_outcome_def)
  ultimately show ?thesis using r(2,3) by blast
qed

lemma wallet_applies_once_witness:
  "\<exists>db'. mutate_wallet (\<lambda>_ d. d) (\<lambda>_. ''e'') (\<lambda>_. 7) sample_debit sample_db
        = (Inr \<lparr> wo_id = Given ''e'', wo_balance = 750, wo_duplicate = False \<rparr>, db')
    \<and> balance_of db' ''u'' = 750"
proof -
  have f: "find_user sample_db ''u'' = Some sample_user"
    by (simp add: find_user_def sample_db_def sample_user_def empty_db_def)
  have e: "find_entry sample_db (wm_key sample_debit) = None"
    by (simp add: find_entry_def sample_db_def empty_db_def)
  have a: "wallet_amount ''250'' = Inr 250" by code_simp
  from wallet_applies_once [OF sample_books(2) e, of sample_user 250 "\<lambda>_. ''e''" "\<lambda>_. 7" "\<lambda>_ d. d" "\<lambda>_. ''e''" "\<lambda>_. 7"]
  show ?thesis using f a by (auto simp: sample_debit_def sample_user_def signed_def int64_max_def)
qed

text \<open>A new hold splits the order's total, reward first, within what the user has.\<close>

lemma reserve_new_hold:
  assumes "reserve_order_balance env now order_id user_id db = (Inr (Some h), db')"
    and "find_hold db order_id = None" and "find_hold (env db) order_id = None"
  shows "\<exists>x u. o_id x = order_id \<and> u_id u = user_id \<and> x \<in> set (shop_orders db) \<and> u \<in> set (users db)
     \<and> h_cash h + h_reward h + h_external h = o_total x
     \<and> h_reward h = min (max 0 (u_reward u)) (o_total x) \<and> h_cash h = min (u_balance u) (o_total x - h_reward h)
     \<and> run_batch [insert_hold h] (env db) = Inr (db', [1])"
proof -
  from assms obtain x u where xu: "sql_first (\<lambda>x. o_id x = order_id \<and> o_user x = Some user_id
        \<and> o_status x = Pending_Payment) (shop_orders db) = Some x"
      "sql_first (\<lambda>u. u_id u = user_id \<and> u_enabled u) (users db) = Some u"
    by (auto simp: reserve_order_balance_def split: option.splits)
  let ?reward = "min (max 0 (u_reward u)) (o_total x)"
  let ?cash = "min (u_balance u) (o_total x - ?reward)"
  let ?h = "\<lparr> h_order = order_id, h_user = user_id, h_cash = ?cash, h_reward = ?reward,
      h_external = o_total x - ?cash - ?reward, h_state = Held, h_updated_at = now \<rparr>"
  have min: "(if (if u_reward u > 0 then u_reward u else 0) < o_total x
      then (if u_reward u > 0 then u_reward u else 0) else o_total x) = ?reward" by auto
  have none: "sql_first (\<lambda>h. h_order h = order_id \<and> h_user h = user_id \<and> h_state h \<noteq> Released) (holds (env db)) = None"
    using assms(3) by (auto simp: find_hold_def sql_first_None)
  from assms(1) have "case run_batch [insert_hold ?h] (env db) of Inl _ \<Rightarrow> False
      | Inr (d, _) \<Rightarrow> h = ?h \<and> db' = d"
    using assms(2) none
    by (simp add: reserve_order_balance_def xu Let_def min if_less_min split: if_splits sum.splits prod.splits)
  then obtain cs where h: "h = ?h" and b: "run_batch [insert_hold ?h] (env db) = Inr (db', cs)"
    by (auto split: sum.splits)
  have "cs = [1]" using b by (auto simp: run_batch_def insert_hold_def and_then_Inr split: sum.splits if_splits)
  with b have "run_batch [insert_hold h] (env db) = Inr (db', [1])" unfolding h by simp
  moreover have "o_id x = order_id" "x \<in> set (shop_orders db)" using sql_first_Some [OF xu(1)] by simp_all
  moreover have "u_id u = user_id" "u \<in> set (users db)" using sql_first_Some [OF xu(2)] by simp_all
  ultimately show ?thesis by (intro exI [of _ x] exI [of _ u]) (simp add: h)
qed

text \<open>
  C9. A new reservation of balance splits the order's total into cash, reward and an external
  rest, none of them negative, and the books stay balanced.
\<close>

lemma reservation_covers_order:
  assumes "fair env" and "rows_valid db" and "find_hold db order_id = None" and "find_hold (env db) order_id = None"
    and "reserve_order_balance env now order_id user_id db = (Inr (Some h), db')"
  shows "(\<exists>x\<in>set (shop_orders db). o_id x = order_id \<and> h_cash h + h_reward h + h_external h = o_total x)
    \<and> 0 \<le> h_cash h \<and> 0 \<le> h_reward h \<and> 0 \<le> h_external h
    \<and> (\<forall>v. cash_gap db' v = cash_gap db v \<and> reward_gap db' v = reward_gap db v)"
proof -
  from reserve_new_hold [OF assms(5,3,4)] obtain x where x: "o_id x = order_id" "x \<in> set (shop_orders db)"
    "h_cash h + h_reward h + h_external h = o_total x" "run_batch [insert_hold h] (env db) = Inr (db', [1])"
    by blast
  from x(4) have "0 \<le> h_cash h \<and> 0 \<le> h_reward h \<and> 0 \<le> h_external h"
    by (auto simp: run_batch_def insert_hold_def split: sum.splits if_splits)
  moreover have "books_kept db db'"
    by (rule reserve_order_balance_kept [OF assms(1) _ assms(5)]) (simp add: books_kept_def assms(2))
  ultimately show ?thesis using x by (auto simp: books_kept_def same_books_def same_gaps_def)
qed

lemma reservation_covers_order_witness:
  "\<exists>h db'. reserve_order_balance (\<lambda>d. d) 5 ''o'' ''u'' sample_db = (Inr (Some h), db')
     \<and> h_cash h = 200 \<and> h_reward h = 300 \<and> cash_gap db' ''u'' = cash_gap sample_db ''u''"
proof -
  have none: "find_hold sample_db ''o'' = None" by (simp add: find_hold_def sample_db_def empty_db_def)
  have "case reserve_order_balance (\<lambda>d. d) 5 ''o'' ''u'' sample_db of
      (Inr (Some h), _) \<Rightarrow> h_cash h = 200 \<and> h_reward h = 300 | _ \<Rightarrow> False" by code_simp
  then obtain h db' where r: "reserve_order_balance (\<lambda>d. d) 5 ''o'' ''u'' sample_db = (Inr (Some h), db')"
    "h_cash h = 200" "h_reward h = 300" by (auto split: sum.splits option.splits prod.splits)
  from reservation_covers_order [OF fair_id sample_books(2) none none r(1)] r show ?thesis by blast
qed

end
