(* ===== verification/Orders.thy ===== *)
theory Orders
  imports Wallet
begin

text \<open>
  The life of an order: the table of allowed transitions
  (\<^verbatim>\<open>src/features/shop-orders/status.ts\<close>), the optimistic transition
  (\<^verbatim>\<open>src/features/shop-orders/server/transition.ts\<close>) and the stock statements every
  order batch ends with (\<^verbatim>\<open>src/features/redeem-warehouse/server/sale-capacity.ts\<close>).
\<close>

section \<open>Allowed transitions\<close>

fun allowed_transitions :: "order_status \<Rightarrow> order_status list" where
  "allowed_transitions Pending_Payment = [Paid, Cancelled, Expired, Order_Failed]"
| "allowed_transitions Paid = [Fulfilling, Refunding, Order_Failed]"
| "allowed_transitions Fulfilling = [Completed, Refunding, Order_Failed]"
| "allowed_transitions Completed = [Refunding]"
| "allowed_transitions Cancelled = []"
| "allowed_transitions Expired = []"
| "allowed_transitions Refunding = [Refunded, Completed, Order_Failed]"
| "allowed_transitions Refunded = []"
| "allowed_transitions Order_Failed = [Fulfilling, Refunding]"

definition can_transition :: "order_status \<Rightarrow> order_status \<Rightarrow> bool" where
  "can_transition src dst \<longleftrightarrow> dst \<in> set (allowed_transitions src)"

definition assert_transition :: "order_status \<Rightarrow> order_status \<Rightarrow> unit result" where
  "assert_transition src dst =
     (if \<not> can_transition src dst then Inl (DomainError ''order_transition_invalid'' 409) else Inr ())"

section \<open>Stock statements\<close>

definition order_item_ids :: "db \<Rightarrow> string \<Rightarrow> string list" where
  "order_item_ids db order_id = map oi_id (filter (\<lambda>i. oi_order i = order_id) (order_items db))"

definition available_stock :: "db \<Rightarrow> string \<Rightarrow> nat" where
  "available_stock db component =
     sql_changes (\<lambda>s. st_sellable s = component \<and> st_status s = Stock_Available) (stock db)"

text \<open>\<open>owned\<close> are the components sold from owned codes, a setting.\<close>

definition prepare_sale :: "string list \<Rightarrow> string \<Rightarrow> int \<Rightarrow> db \<Rightarrow> bool result" where
  "prepare_sale owned component quantity db =
     (if component \<notin> set owned then Inr False
      else if int (available_stock db component) < quantity
      then Inl (DomainError ''inventory_unavailable'' 409)
      else Inr True)"

definition reserve_sale :: "string \<Rightarrow> string \<Rightarrow> int \<Rightarrow> db stmt" where
  "reserve_sale component item_id quantity n db =
     (let chosen = map st_id (take (nat quantity) (sql_ordered (\<lambda>s. (st_created_at s, st_id s))
                     (\<lambda>s. st_sellable s = component \<and> st_status s = Stock_Available) (stock db)));
          hit = (\<lambda>s. st_id s \<in> set chosen)
      in Inr (db \<lparr> stock := sql_update hit (\<lambda>s. s \<lparr> st_status := Stock_Reserved,
                 st_order_item := Some item_id \<rparr>) (stock db) \<rparr>, sql_changes hit (stock db)))"

definition release_sale :: "string \<Rightarrow> db stmt" where
  "release_sale order_id n db =
     (let gone = sql_exists (\<lambda>x. o_id x = order_id
                   \<and> o_status x \<in> {Cancelled, Expired, Order_Failed, Refunded}) (shop_orders db);
          hit = (\<lambda>s. gone \<and> st_status s = Stock_Reserved
                   \<and> (case st_order_item s of None \<Rightarrow> False | Some i \<Rightarrow> i \<in> set (order_item_ids db order_id)))
      in Inr (db \<lparr> stock := sql_update hit (\<lambda>s. s \<lparr> st_status := Stock_Available,
                 st_order_item := None \<rparr>) (stock db) \<rparr>, sql_changes hit (stock db)))"

definition unallocated_payment :: "string \<Rightarrow> db stmt" where
  "unallocated_payment order_id n db =
     (let owed = sql_exists (\<lambda>x. o_id x = order_id
                   \<and> (o_status x \<in> {Paid, Fulfilling, Completed, Refunding}
                      \<or> (o_status x = Order_Failed \<and> o_paid x \<noteq> 0))) (shop_orders db);
          short = (\<lambda>i. oi_order i = order_id
                   \<and> oi_quantity i > int (sql_changes (\<lambda>s. st_order_item s = Some (oi_id i)
                        \<and> st_status s \<in> {Stock_Reserved, Stock_Delivered}) (stock db))
                   \<and> \<not> sql_exists (\<lambda>d. d_order_item d = oi_id i \<and> d_status d = Delivery_Delivered) (deliveries db));
          hit = (\<lambda>c. owed \<and> sql_exists (\<lambda>i. short i \<and> oi_component i = cap_component c) (order_items db))
      in Inr (db \<lparr> capacity := sql_update hit (\<lambda>c. c \<lparr> cap_generation := cap_generation c + 1 \<rparr>) (capacity db) \<rparr>,
              sql_changes hit (capacity db)))"

section \<open>The transition\<close>

definition set_status :: "order_status \<times> int \<Rightarrow> order_row \<Rightarrow> order_row" where
  "set_status a x =
     (let (st, now) = a
      in x \<lparr> o_status := st, o_version := Suc (o_version x),
             o_paid := (if st = Paid then o_total x else o_paid x),
             o_paid_at := (if st = Paid then Some now else o_paid_at x),
             o_completed_at := (if st = Completed then Some now else o_completed_at x),
             o_cancelled_at := (if st \<in> {Cancelled, Expired} then Some now else o_cancelled_at x),
             o_refunded_at := (if st = Refunded then Some now else o_refunded_at x),
             o_updated_at := now \<rparr>)"

definition status_key :: "string \<Rightarrow> nat \<Rightarrow> string" where
  "status_key order_id version = ''shop-order-status:'' @ order_id @ '':'' @ nat_string version"

definition transition_statements ::
  "string \<Rightarrow> order_status \<Rightarrow> nat \<Rightarrow> order_status \<Rightarrow> int \<Rightarrow> db stmt list" where
  "transition_statements order_id src version dst now =
     (let done = order_is order_id dst (Suc version)
      in [update_order order_id (\<lambda>db x. o_status x = src \<and> o_version x = version) (set_status (dst, now)),
          event_when done \<lparr> oe_order = order_id, oe_type = ''status_changed'', oe_from = Some src,
            oe_to = Some dst, oe_version = Some (Suc version) \<rparr>,
          outbox_when done False \<lparr> ob_type = ''shop_order.status_changed'', ob_aggregate = order_id,
            ob_key = status_key order_id (Suc version), ob_status = Outbox_Pending, ob_next_attempt_at = None \<rparr>,
          audit_when done ''shop_order.status_changed'' order_id,
          release_sale order_id,
          unallocated_payment order_id])"

text \<open>\<open>env\<close> runs between the read of the order and the batch.\<close>

definition transition_order ::
  "(db \<Rightarrow> db) \<Rightarrow> int \<Rightarrow> string \<Rightarrow> nat \<Rightarrow> order_status \<Rightarrow> db \<Rightarrow> (order_status \<times> nat) result \<times> db" where
  "transition_order env now order_id version dst db =
     (case find_order db order_id of
        None \<Rightarrow> (Inl (DomainError ''order_not_found'' 404), db)
      | Some x \<Rightarrow>
          (if o_version x \<noteq> version then (Inl (DomainError ''order_version_conflict'' 409), db)
           else
             (case assert_transition (o_status x) dst of
                Inl e \<Rightarrow> (Inl e, db)
              | Inr _ \<Rightarrow>
                  (let db = env db
                   in case run_batch (transition_statements order_id (o_status x) version dst now) db of
                        Inl e \<Rightarrow> (Inl e, db)
                      | Inr (db', changes) \<Rightarrow>
                          (if changes ! 0 < 1
                           then (Inl (DomainError ''order_version_conflict'' 409), db')
                           else (Inr (o_status x, Suc version), db'))))))"

section \<open>What the statements touch\<close>

lemma release_sale_Inr:
  "release_sale i n db = Inr (db', c) \<Longrightarrow> \<exists>s. db' = db \<lparr> stock := s \<rparr>"
  by (auto simp: release_sale_def Let_def)

lemma unallocated_payment_Inr:
  "unallocated_payment i n db = Inr (db', c) \<Longrightarrow> \<exists>s. db' = db \<lparr> capacity := s \<rparr>"
  by (auto simp: unallocated_payment_def Let_def)

lemma reserve_sale_Inr:
  "reserve_sale component i q n db = Inr (db', c) \<Longrightarrow> \<exists>s. db' = db \<lparr> stock := s \<rparr>"
  by (auto simp: reserve_sale_def Let_def)

lemma event_when_Inr:
  "event_when p e n db = Inr (db', c) \<Longrightarrow>
     db' = db \<lparr> order_events := order_events db @ (if p db then [e] else []) \<rparr>"
  by (auto simp: event_when_def insert_order_event_def and_then_Inr split: if_splits)

lemma outbox_when_Inr:
  "outbox_when p ignore e n db = Inr (db', c) \<Longrightarrow> \<exists>es. db' = db \<lparr> outbox := outbox db @ es \<rparr>
     \<and> (p db \<longrightarrow> \<not> ignore \<longrightarrow> es = [e] \<and> \<not> sql_exists (\<lambda>x. ob_key x = ob_key e) (outbox db)) \<and> (\<not> p db \<longrightarrow> es = [])"
  by (auto simp: outbox_when_def insert_outbox_def split: if_splits intro: exI [of _ "[]"] exI [of _ "[e]"])

lemma audit_when_Inr:
  "audit_when p a t n db = Inr (db', c) \<Longrightarrow> \<exists>l. db' = db \<lparr> audit_logs := l \<rparr>"
  by (auto simp: audit_when_def audit_def split: if_splits intro: exI [of _ "audit_logs db"])

lemma stock_statements_kept [keeps]:
  "stmt_keeps (books_kept start) (release_sale i)"
  "stmt_keeps (books_kept start) (unallocated_payment i)"
  "stmt_keeps (books_kept start) (reserve_sale component i q)"
  by (auto intro!: stmt_keepsI elim!: books_kept_tables
      simp: release_sale_def unallocated_payment_def reserve_sale_def Let_def)

text \<open>An order is written with its version: the transition is one instance of optimistic locking.\<close>

interpretation order_version: versioned o_id o_version set_status
  by unfold_locales (auto simp: set_status_def split: prod.splits)

lemma set_status_sel [simp]:
  "o_status (set_status (st, now) x) = st" "o_version (set_status (st, now) x) = Suc (o_version x)"
  "o_id (set_status a x) = o_id x" "o_total (set_status a x) = o_total x"
  by (simp_all add: set_status_def split: prod.splits)

section \<open>The batch of a transition\<close>

definition transition_event :: "string \<Rightarrow> order_status \<Rightarrow> nat \<Rightarrow> order_status \<Rightarrow> order_event_row" where
  "transition_event i src v dst = \<lparr> oe_order = i, oe_type = ''status_changed'', oe_from = Some src,
     oe_to = Some dst, oe_version = Some (Suc v) \<rparr>"

text \<open>The statements of a committed batch, one by one: only the first runs a trigger.\<close>

lemma transition_steps:
  assumes "run_batch (transition_statements i src v dst now) db = Inr (db', cs)"
  obtains d1 c1 es l st cp n c where
    "update_order i (\<lambda>db x. o_status x = src \<and> o_version x = v) (set_status (dst, now)) 0 db = Inr (d1, c1)"
    "cs ! 0 = c1"
    "db' = d1 \<lparr> order_events := order_events d1 @ (if order_is i dst (Suc v) d1 then [transition_event i src v dst] else []),
       outbox := outbox d1 @ es, audit_logs := l, stock := st, capacity := cp \<rparr>"
    "order_is i dst (Suc v) d1 \<longrightarrow> sql_exists (\<lambda>e. ob_key e = status_key i (Suc v)) es
       \<and> \<not> sql_exists (\<lambda>e. ob_key e = status_key i (Suc v)) (outbox d1)"
    "release_sale i n (d1 \<lparr> order_events := order_events db', outbox := outbox db', audit_logs := l \<rparr>)
       = Inr (d1 \<lparr> order_events := order_events db', outbox := outbox db', audit_logs := l, stock := st \<rparr>, c)"
proof -
  let ?ev = "transition_event i src v dst"
  from assms obtain d1 c1 d2 c2 d3 c3 d4 c4 d5 c5 c6 where
    s1: "update_order i (\<lambda>db x. o_status x = src \<and> o_version x = v) (set_status (dst, now)) 0 db = Inr (d1, c1)"
    and s2: "event_when (order_is i dst (Suc v)) ?ev c1 d1 = Inr (d2, c2)"
    and s3: "outbox_when (order_is i dst (Suc v)) False \<lparr> ob_type = ''shop_order.status_changed'', ob_aggregate = i,
            ob_key = status_key i (Suc v), ob_status = Outbox_Pending, ob_next_attempt_at = None \<rparr> c2 d2 = Inr (d3, c3)"
    and s4: "audit_when (order_is i dst (Suc v)) ''shop_order.status_changed'' i c3 d3 = Inr (d4, c4)"
    and s5: "release_sale i c4 d4 = Inr (d5, c5)"
    and s6: "unallocated_payment i c5 d5 = Inr (db', c6)"
    and cs: "cs = [c1, c2, c3, c4, c5, c6]"
    by (auto simp: run_batch_def transition_statements_def transition_event_def Let_def split: sum.splits prod.splits)
  note e2 = event_when_Inr [OF s2]
  obtain es where e3: "d3 = d2 \<lparr> outbox := outbox d2 @ es \<rparr>"
    and x3: "order_is i dst (Suc v) d2 \<Longrightarrow> sql_exists (\<lambda>e. ob_key e = status_key i (Suc v)) es
       \<and> \<not> sql_exists (\<lambda>e. ob_key e = status_key i (Suc v)) (outbox d2)"
    using outbox_when_Inr [OF s3] by (fastforce simp: sql_exists_def)
  obtain l where e4: "d4 = d3 \<lparr> audit_logs := l \<rparr>" using audit_when_Inr [OF s4] by blast
  obtain st where e5: "d5 = d4 \<lparr> stock := st \<rparr>" using release_sale_Inr [OF s5] by blast
  obtain cp where e6: "db' = d5 \<lparr> capacity := cp \<rparr>" using unallocated_payment_Inr [OF s6] by blast
  show thesis
    by (rule that [OF s1, where es = es and l = l and st = st and cp = cp and n = c4 and c = c5])
      (use s5 x3 in \<open>simp_all add: cs e6 e5 e4 e3 e2 order_is_def\<close>)
qed

lemma transition_orders:
  assumes "run_batch (transition_statements i src v dst now) db = Inr (db', cs)"
  shows "shop_orders db' = order_version.cas (\<lambda>x. o_status x = src) i v (dst, now) (shop_orders db)"
    and "cs ! 0 = (if sql_exists (\<lambda>x. o_id x = i \<and> o_version x = v \<and> o_status x = src) (shop_orders db) then 1 else 0)"
proof -
  obtain d1 c1 es l st cp n c where
    s: "update_order i (\<lambda>db x. o_status x = src \<and> o_version x = v) (set_status (dst, now)) 0 db = Inr (d1, c1)"
    and c: "cs ! 0 = c1"
    and e: "db' = d1 \<lparr> order_events := order_events d1 @ (if order_is i dst (Suc v) d1 then [transition_event i src v dst] else []),
       outbox := outbox d1 @ es, audit_logs := l, stock := st, capacity := cp \<rparr>"
    by (rule transition_steps [OF assms]) (rule that)
  show "shop_orders db' = order_version.cas (\<lambda>x. o_status x = src) i v (dst, now) (shop_orders db)"
    using update_order_Inr(1) [OF s] by (simp add: e order_version.cas_def conj_ac)
  show "cs ! 0 = (if sql_exists (\<lambda>x. o_id x = i \<and> o_version x = v \<and> o_status x = src) (shop_orders db) then 1 else 0)"
    using update_order_Inr(3) [OF s] by (simp add: c conj_ac)
qed

lemma transition_log:
  assumes "run_batch (transition_statements i src v dst now) db = Inr (db', cs)"
  shows "order_items db' = order_items db"
    and "order_events db' = order_events db @
           (if order_is i dst (Suc v) db' then [transition_event i src v dst] else [])"
    and "order_is i dst (Suc v) db' \<Longrightarrow> \<not> sql_exists (\<lambda>e. ob_key e = status_key i (Suc v)) (outbox db)
           \<and> sql_exists (\<lambda>e. ob_key e = status_key i (Suc v)) (outbox db')"
proof -
  obtain d1 c1 es l st cp n c where
    s: "update_order i (\<lambda>db x. o_status x = src \<and> o_version x = v) (set_status (dst, now)) 0 db = Inr (d1, c1)"
    and e: "db' = d1 \<lparr> order_events := order_events d1 @ (if order_is i dst (Suc v) d1 then [transition_event i src v dst] else []),
       outbox := outbox d1 @ es, audit_logs := l, stock := st, capacity := cp \<rparr>"
    and x: "order_is i dst (Suc v) d1 \<longrightarrow> sql_exists (\<lambda>e. ob_key e = status_key i (Suc v)) es
       \<and> \<not> sql_exists (\<lambda>e. ob_key e = status_key i (Suc v)) (outbox d1)"
    by (rule transition_steps [OF assms]) (rule that)
  have r: "order_items d1 = order_items db" "order_events d1 = order_events db" "outbox d1 = outbox db"
    using update_order_Inr(2) [OF s] by (simp_all add: same_rest_def)
  have is_eq: "order_is i dst (Suc v) db' = order_is i dst (Suc v) d1" by (simp add: e order_is_def)
  show "order_items db' = order_items db" by (simp add: e r)
  show "order_events db' = order_events db @
           (if order_is i dst (Suc v) db' then [transition_event i src v dst] else [])"
    by (simp add: is_eq) (simp add: e r)
  show "order_is i dst (Suc v) db' \<Longrightarrow> \<not> sql_exists (\<lambda>e. ob_key e = status_key i (Suc v)) (outbox db)
           \<and> sql_exists (\<lambda>e. ob_key e = status_key i (Suc v)) (outbox db')"
    using x by (simp add: is_eq) (simp add: e r sql_exists_def)
qed

text \<open>Stock of a dead order is free again.\<close>

lemma release_sale_frees:
  assumes "release_sale i n db = Inr (db', c)" and "s \<in> set (stock db')"
    and "st_order_item s = Some k" and "k \<in> set (order_item_ids db i)"
    and "sql_exists (\<lambda>x. o_id x = i \<and> o_status x \<in> {Cancelled, Expired, Order_Failed, Refunded}) (shop_orders db)"
  shows "st_status s \<noteq> Stock_Reserved"
proof -
  from assms(1,2,5) obtain q where "q \<in> set (stock db)" and s: "s = (if st_status q = Stock_Reserved
       \<and> (case st_order_item q of None \<Rightarrow> False | Some i' \<Rightarrow> i' \<in> set (order_item_ids db i))
       then q \<lparr> st_status := Stock_Available, st_order_item := None \<rparr> else q)"
    by (auto simp: release_sale_def Let_def sql_update_def)
  with assms(3,4) show ?thesis by (auto split: if_splits)
qed

lemma transition_stock:
  assumes "run_batch (transition_statements i src v dst now) db = Inr (db', cs)"
    and "dst \<in> {Cancelled, Expired, Order_Failed, Refunded}"
    and "order_is i dst (Suc v) db'" and "s \<in> set (stock db')"
    and "st_order_item s = Some k" and "k \<in> set (order_item_ids db i)"
  shows "st_status s \<noteq> Stock_Reserved"
proof -
  obtain d1 c1 es l st cp n c where
    e: "db' = d1 \<lparr> order_events := order_events d1 @ (if order_is i dst (Suc v) d1 then [transition_event i src v dst] else []),
       outbox := outbox d1 @ es, audit_logs := l, stock := st, capacity := cp \<rparr>"
    and r: "release_sale i n (d1 \<lparr> order_events := order_events db', outbox := outbox db', audit_logs := l \<rparr>)
       = Inr (d1 \<lparr> order_events := order_events db', outbox := outbox db', audit_logs := l, stock := st \<rparr>, c)"
    by (rule transition_steps [OF assms(1)]) (rule that)
  have "order_items db' = order_items d1" "shop_orders db' = shop_orders d1" "stock db' = st" by (simp_all add: e)
  then show ?thesis
    using release_sale_frees [OF r, of s k] assms transition_log(1) [OF assms(1)]
    by (auto simp: order_item_ids_def order_is_def sql_exists_def list_ex_iff)
qed

section \<open>Balances after a cancellation\<close>

lemma balance_users:
  "users db' = users db \<Longrightarrow> balance_of db' v = balance_of db v \<and> reward_of db' v = reward_of db v"
  by (simp add: balance_of_def reward_of_def find_user_def)

lemma shift_user_balance:
  assumes "shift_user uid c r k now db = Inr db'" and "has_user db uid"
  shows "balance_of db' v = balance_of db v + (if v = uid then c else 0)"
    and "reward_of db' v = reward_of db v + (if v = uid then r else 0)"
  using assms(2) find_user_id [of db v]
  by (auto simp: balance_of_def reward_of_def has_user_def find_user_shift [OF assms(1)] split: option.splits)

lemma hold_release_balance:
  assumes "hold_release h db = Inr db'" and "has_user db (h_user h)"
  shows "balance_of db' v = balance_of db v + (if v = h_user h then h_cash h else 0)"
    and "reward_of db' v = reward_of db v + (if v = h_user h then h_reward h else 0)"
proof -
  from assms(1) obtain d1 d2 where
    s: "post_cash Credit (h_user h) (h_cash h) Src_Adjustment (h_order h) (''balance-release:'' @ h_order h)
          (h_updated_at h) db = Inr d1"
       "shift_user (h_user h) (h_cash h) (h_reward h) 1 (h_updated_at h) d1 = Inr d2"
       "(if h_reward h > 0
         then post_reward (h_user h) (h_reward h) Release (h_order h) (''release:'' @ h_order h) d2
         else Inr d2) = Inr db'"
    unfolding hold_release_def and_then_Inr by auto
  have u: "users d1 = users db" "users db' = users d2" using post_users(1) [OF s(1)] post_reward_if_users [OF s(3)] by auto
  with assms(2) have "has_user d1 (h_user h)" by (simp add: has_user_def find_user_def)
  with shift_user_balance [OF s(2)] balance_users [OF u(1)] balance_users [OF u(2)]
  show "balance_of db' v = balance_of db v + (if v = h_user h then h_cash h else 0)"
    and "reward_of db' v = reward_of db v + (if v = h_user h then h_reward h else 0)" by auto
qed

lemma settle_hold_released:
  assumes "settle_hold i Released now db = Inr db'"
    and "sql_first (\<lambda>h. h_order h = i \<and> h_state h = Held) (holds db) = Some h"
    and "has_user db (h_user h)" and "distinct (map h_order (holds db))"
  shows "balance_of db' v = balance_of db v + (if v = h_user h then h_cash h else 0)"
    and "reward_of db' v = reward_of db v + (if v = h_user h then h_reward h else 0)"
    and "\<not> sql_exists (\<lambda>h. h_order h = i \<and> h_state h = Held) (holds db')"
proof -
  let ?h = "h \<lparr> h_state := Released, h_updated_at := now \<rparr>"
  let ?d = "db \<lparr> holds := sql_update (\<lambda>r. r = h) (\<lambda>_. ?h) (holds db) \<rparr>"
  have r: "hold_release ?h ?d = Inr db'" using assms(1,2) by (simp add: settle_hold_def Let_def)
  have u: "has_user ?d (h_user ?h)" "balance_of ?d v = balance_of db v" "reward_of ?d v = reward_of db v"
    using assms(3) by (simp_all add: has_user_def find_user_def balance_of_def reward_of_def)
  from hold_release_balance [OF r u(1), of v] u(2,3)
  show "balance_of db' v = balance_of db v + (if v = h_user h then h_cash h else 0)"
    and "reward_of db' v = reward_of db v + (if v = h_user h then h_reward h else 0)" by simp_all
  have h: "h \<in> set (holds db)" "h_order h = i" using sql_first_Some [OF assms(2)] by auto
  have "g = h" if "g \<in> set (holds db)" "h_order g = i" for g
    using assms(4) h that by (metis keyed_first option.inject)
  then have "\<not> sql_exists (\<lambda>h. h_order h = i \<and> h_state h = Held) (holds ?d)"
    by (auto simp: sql_exists_def list_ex_iff sql_update_def)
  with hold_release_frame [OF r] show "\<not> sql_exists (\<lambda>h. h_order h = i \<and> h_state h = Held) (holds db')" by simp
qed

lemma held_first:
  assumes "sql_first (\<lambda>h. h_order h = i) hs = Some h" and "h_state h = Held"
  shows "sql_first (\<lambda>h. h_order h = i \<and> h_state h = Held) hs = Some h"
  using assms by (induction hs) (auto split: if_splits)

text \<open>An order that dies gives its buyer back what the order held.\<close>

lemma update_order_releases:
  assumes "update_order i P f n db = Inr (db', Suc k)"
    and "\<And>x. o_id x = i \<Longrightarrow> o_id (f x) = i \<and> o_status (f x) \<in> {Cancelled, Expired}"
    and "sql_first (\<lambda>h. h_order h = i \<and> h_state h = Held) (holds db) = Some h"
    and "has_user db (h_user h)" and "distinct (map h_order (holds db))"
  shows "balance_of db' v = balance_of db v + (if v = h_user h then h_cash h else 0)"
    and "reward_of db' v = reward_of db v + (if v = h_user h then h_reward h else 0)"
    and "\<not> sql_exists (\<lambda>h. h_order h = i \<and> h_state h = Held) (holds db')"
proof -
  from assms(1) obtain old where old: "sql_first (\<lambda>x. o_id x = i \<and> P db x) (shop_orders db) = Some old"
    by (auto simp: update_order_def split: option.splits)
  let ?d = "db \<lparr> shop_orders := sql_update (\<lambda>x. o_id x = i \<and> P db x) f (shop_orders db) \<rparr>"
  from assms(1) old obtain d where d: "order_lifecycle (f old) ?d = Inr d" "db' = coupon_release old (f old) d"
    by (auto simp: update_order_def Let_def and_then_Inr)
  from assms(2) sql_first_Some [OF old] have f: "o_id (f old) = i" "o_status (f old) \<in> {Cancelled, Expired}" by auto
  with d(1) obtain e where e: "settle_hold i Released (o_updated_at (f old)) ?d = Inr e"
    "lifecycle_reward (f old) e = Inr d"
    unfolding order_lifecycle_def and_then_Inr lifecycle_hold_def by (auto simp: lifecycle_schedule_def)
  have s: "users db' = users e" "holds db' = holds e" using lifecycle_reward_frame [OF e(2)]
    by (simp_all add: d(2) coupon_release_def Let_def)
  have p: "balance_of ?d v = balance_of db v" "reward_of ?d v = reward_of db v" "has_user ?d (h_user h)"
    using assms(4) by (simp_all add: balance_of_def reward_of_def has_user_def find_user_def)
  have q: "sql_first (\<lambda>h. h_order h = i \<and> h_state h = Held) (holds ?d) = Some h" "distinct (map h_order (holds ?d))"
    using assms(3,5) by simp_all
  note r = settle_hold_released [OF e(1) q(1) p(3) q(2)]
  show "balance_of db' v = balance_of db v + (if v = h_user h then h_cash h else 0)"
    and "reward_of db' v = reward_of db v + (if v = h_user h then h_reward h else 0)"
    and "\<not> sql_exists (\<lambda>h. h_order h = i \<and> h_state h = Held) (holds db')"
    using r(1,2) [of v] r(3) p balance_users [OF s(1), of v] by (simp_all add: s)
qed

section \<open>The handler\<close>

lemma transition_order_Inr:
  assumes "transition_order env now i v dst db = (Inr (src, w), db')"
  obtains x cs where "find_order db i = Some x" "o_version x = v" "o_status x = src" "w = Suc v"
    "can_transition src dst" "run_batch (transition_statements i src v dst now) (env db) = Inr (db', cs)" "0 < cs ! 0"
  using assms
  by (auto simp: transition_order_def assert_transition_def Let_def
      split: option.splits if_splits sum.splits prod.splits)

lemma transition_order_done:
  assumes "transition_order env now i v dst db = (Inr (src, w), db')"
  shows "sql_exists (\<lambda>x. o_id x = i \<and> o_version x = v \<and> o_status x = src) (shop_orders (env db))"
    and "shop_orders db' = order_version.cas (\<lambda>x. o_status x = src) i v (dst, now) (shop_orders (env db))"
    and "order_is i dst (Suc v) db'"
proof -
  from assms obtain cs where b: "run_batch (transition_statements i src v dst now) (env db) = Inr (db', cs)" "0 < cs ! 0"
    by (rule transition_order_Inr)
  note o = transition_orders [OF b(1)]
  from b(2) o(2) show e: "sql_exists (\<lambda>x. o_id x = i \<and> o_version x = v \<and> o_status x = src) (shop_orders (env db))"
    by (auto split: if_splits)
  show c: "shop_orders db' = order_version.cas (\<lambda>x. o_status x = src) i v (dst, now) (shop_orders (env db))"
    using o(1) .
  from e obtain x where x: "x \<in> set (shop_orders (env db))" "o_id x = i" "o_version x = v" "o_status x = src"
    by (auto simp: sql_exists_def list_ex_iff)
  then have "set_status (dst, now) x \<in> set (shop_orders db')"
    by (auto simp: c order_version.cas_def sql_update_def intro!: image_eqI [of _ _ x])
  with x show "order_is i dst (Suc v) db'"
    by (auto simp: order_is_def sql_exists_def list_ex_iff intro!: bexI [of _ "set_status (dst, now) x"])
qed

lemma fair_kept: "fair env \<Longrightarrow> books_kept start db \<Longrightarrow> books_kept start (env db)"
  using same_books_trans by (auto simp: fair_def books_kept_def)

lemma transition_order_kept:
  assumes "transition_order env now i v dst db = (res, db')" and "fair env" and "books_kept start db"
  shows "books_kept start db'"
proof -
  have k: "books_kept start d" if "run_batch (transition_statements i src v dst now) (env db) = Inr (d, cs)" for src d cs
  proof -
    have "\<forall>s\<in>set (transition_statements i src v dst now). stmt_keeps (books_kept start) s"
      by (simp add: transition_statements_def Let_def keeps)
    then show ?thesis using fair_kept [OF assms(2,3)] that by (rule run_batch_keeps)
  qed
  from assms(2,3) have "books_kept start (env db)" by (rule fair_kept)
  with assms(3) have c: "db' = db \<or> db' = env db \<Longrightarrow> ?thesis" by auto
  from assms(1) consider "db' = db \<or> db' = env db"
    | src cs where "run_batch (transition_statements i src v dst now) (env db) = Inr (db', cs)"
    unfolding transition_order_def Let_def
    by (simp split: option.splits if_splits sum.splits prod.splits)
  then show ?thesis using c k by cases
qed

section \<open>Properties\<close>

text \<open>The order of the sample shop holds its buyer's balance and two codes.\<close>

definition sample_sale :: db where
  "sample_sale = sample_db \<lparr>
     order_items := [\<lparr> oi_id = ''i'', oi_order = ''o'', oi_product = ''p'', oi_sellable = ''s'', oi_component = ''c'',
       oi_component_type = Stock_Component, oi_quantity = 2, oi_unit_price = 250, oi_source = ListPrice, oi_discount = 0,
     oi_subtotal = 500, oi_reward = 0, oi_definition_version = None, oi_renewed_from = None,
       oi_duration = None, oi_usage_limit = None, oi_access_limit = None \<rparr>],
     stock := [\<lparr> st_id = ''x'', st_sellable = ''c'', st_status = Stock_Reserved, st_order_item = Some ''i'',
         st_content = ''x'', st_fingerprint = ''x'', st_redeem_sku = None, st_created_at = 1 \<rparr>,
       \<lparr> st_id = ''y'', st_sellable = ''c'', st_status = Stock_Delivered, st_order_item = Some ''j'',
         st_content = ''y'', st_fingerprint = ''y'', st_redeem_sku = None, st_created_at = 1 \<rparr>],
     holds := [\<lparr> h_order = ''o'', h_user = ''u'', h_cash = 200, h_reward = 30, h_external = 270, h_state = Held,
       h_updated_at = 1 \<rparr>] \<rparr>"

definition sample_cancel :: "((order_status \<times> nat) result \<times> db)" where
  "sample_cancel = transition_order (\<lambda>d. d) 9 ''o'' 1 Cancelled sample_sale"

lemma sample_cancel_Inr:
  obtains db' where "transition_order (\<lambda>d. d) 9 ''o'' 1 Cancelled sample_sale = (Inr (Pending_Payment, 2), db')"
proof -
  have "fst sample_cancel = Inr (Pending_Payment, 2)" by code_simp
  then show thesis using that by (cases sample_cancel) (simp add: sample_cancel_def)
qed

text \<open>
  C1. A transition that succeeds moved exactly one row: the order that had the version and
  status the request was decided on, along an edge of the table of allowed transitions; the
  version grows by one, no other order changes and one event is logged.
\<close>

lemma transition_follows_table:
  assumes "transition_order env now i v dst db = (Inr (src, w), db')"
  shows "can_transition src dst \<and> w = Suc v
    \<and> (\<exists>x\<in>set (shop_orders (env db)). o_id x = i \<and> o_version x = v \<and> o_status x = src)
    \<and> shop_orders db' = sql_update (\<lambda>x. o_id x = i \<and> o_version x = v \<and> o_status x = src)
         (set_status (dst, now)) (shop_orders (env db))
    \<and> order_events db' = order_events (env db) @ [transition_event i src v dst]"
proof -
  from assms obtain x cs where t: "w = Suc v" "can_transition src dst"
    "run_batch (transition_statements i src v dst now) (env db) = Inr (db', cs)"
    by (rule transition_order_Inr)
  note d = transition_order_done [OF assms]
  from d(1) have "\<exists>x\<in>set (shop_orders (env db)). o_id x = i \<and> o_version x = v \<and> o_status x = src"
    by (auto simp: sql_exists_def list_ex_iff)
  then show ?thesis using t(1,2) d(2,3) transition_log(2) [OF t(3)] by (simp add: order_version.cas_def)
qed

lemma transition_follows_table_witness:
  "\<exists>db'. transition_order (\<lambda>d. d) 9 ''o'' 1 Cancelled sample_sale = (Inr (Pending_Payment, 2), db')
     \<and> map o_status (shop_orders db') = [Cancelled] \<and> length (order_events db') = 1"
proof -
  obtain db' where t: "transition_order (\<lambda>d. d) 9 ''o'' 1 Cancelled sample_sale = (Inr (Pending_Payment, 2), db')"
    by (rule sample_cancel_Inr)
  from transition_follows_table [OF t] t show ?thesis
    by (simp add: sample_sale_def sample_db_def sample_order_def empty_db_def sql_update_def)
qed

text \<open>
  C2. Of two requests decided on the same version of an order, only the first to commit has an
  effect: the second fails, changes no order and logs no event, also when both ask for the same
  status.
\<close>

lemma one_transition_per_version:
  assumes "distinct (map o_id (shop_orders (env db)))"
    and "transition_order env now i v dst db = (Inr (src, w), db1)"
    and "can_transition src dst'"
    and "transition_order (\<lambda>_. db1) now' i v dst' db = (res, db2)"
  shows "(\<exists>e. res = Inl e) \<and> shop_orders db2 = shop_orders db1 \<and> order_events db2 = order_events db1"
proof -
  from assms(2) obtain x where x: "find_order db i = Some x" "o_version x = v" "o_status x = src"
    by (rule transition_order_Inr)
  note d = transition_order_done [OF assms(2)]
  let ?won = "\<lambda>P. order_version.cas_changes P i v (shop_orders (env db))"
  have "0 < ?won (\<lambda>x. o_status x = src)"
    using d(1) by (auto simp: order_version.cas_changes_def sql_changes_pos sql_exists_def list_ex_iff)
  with assms(1) have lost: "order_version.cas_changes (\<lambda>x. o_status x = src) i v (shop_orders db1) = 0"
    unfolding d(2) by (rule order_version.one_winner)
  then have none: "\<not> sql_exists (\<lambda>x. o_id x = i \<and> o_version x = v \<and> o_status x = src) (shop_orders db1)"
    by (auto simp: order_version.cas_changes_def sql_changes_zero sql_exists_def list_ex_iff)
  have r: "(case run_batch (transition_statements i src v dst' now') db1 of
      Inl e \<Rightarrow> (Inl e, db1)
    | Inr (db', changes) \<Rightarrow> if changes ! 0 < 1 then (Inl (DomainError ''order_version_conflict'' 409), db')
        else (Inr (src, Suc v), db')) = (res, db2)"
    using assms(3,4) x(1,2) unfolding x(3) [symmetric] by (simp add: transition_order_def assert_transition_def)
  show ?thesis
  proof (cases "run_batch (transition_statements i src v dst' now') db1")
    case (Inl e)
    with r show ?thesis by auto
  next
    case (Inr p)
    obtain d3 cs where p: "p = (d3, cs)" by fastforce
    with Inr have b: "run_batch (transition_statements i src v dst' now') db1 = Inr (d3, cs)" by simp
    note o = transition_orders [OF b] transition_log(2,3) [OF b]
    from o(1) lost have same: "shop_orders d3 = shop_orders db1" by (simp add: order_version.loser_changes_nothing)
    have "\<not> order_is i dst' (Suc v) d3"
    proof
      assume y: "order_is i dst' (Suc v) d3"
      then have "order_is i dst' (Suc v) db1" by (simp add: order_is_def same)
      moreover have "y = z" if "y \<in> set (shop_orders db1)" "z \<in> set (shop_orders db1)" "o_id y = i" "o_id z = i" for y z
        using assms(1) that order_version.cas_keys unfolding d(2) by (metis keyed_first option.inject)
      ultimately have "dst' = dst" using d(3) by (auto simp: order_is_def sql_exists_def list_ex_iff)
      with o(4) [OF y] transition_order_Inr [OF assms(2)] transition_log(3) d(3) show False by metis
    qed
    with o(2,3) none same r b show ?thesis by auto
  qed
qed

lemma one_transition_per_version_witness:
  "\<exists>db1 e db2. transition_order (\<lambda>d. d) 9 ''o'' 1 Cancelled sample_sale = (Inr (Pending_Payment, 2), db1)
     \<and> transition_order (\<lambda>_. db1) 10 ''o'' 1 Paid sample_sale = (Inl e, db2)
     \<and> shop_orders db2 = shop_orders db1 \<and> map o_status (shop_orders db2) = [Cancelled]"
proof -
  obtain db1 where t: "transition_order (\<lambda>d. d) 9 ''o'' 1 Cancelled sample_sale = (Inr (Pending_Payment, 2), db1)"
    by (rule sample_cancel_Inr)
  have d: "distinct (map o_id (shop_orders sample_sale))"
    by (simp add: sample_sale_def sample_db_def sample_order_def)
  have c: "can_transition Pending_Payment Paid" by (simp add: can_transition_def)
  obtain res db2 where u: "transition_order (\<lambda>_. db1) 10 ''o'' 1 Paid sample_sale = (res, db2)" by fastforce
  have "map o_status (shop_orders db1) = [Cancelled]"
    unfolding transition_order_done(2) [OF t]
    by (simp add: order_version.cas_def sample_sale_def sample_db_def sample_order_def sql_update_def)
  with one_transition_per_version [of "\<lambda>d. d", OF d t c u] t u show ?thesis by auto
qed

lemma dead_order_frees_stock:
  assumes "transition_order env now i v dst db = (Inr r, db')"
    and "dst \<in> {Cancelled, Expired, Order_Failed, Refunded}"
  shows "\<forall>s\<in>set (stock db'). \<forall>k\<in>set (order_item_ids db' i).
    st_order_item s = Some k \<longrightarrow> st_status s \<noteq> Stock_Reserved"
proof -
  obtain src w where r: "r = (src, w)" by fastforce
  note a = assms(1) [unfolded r]
  from a obtain cs where b: "run_batch (transition_statements i src v dst now) (env db) = Inr (db', cs)"
    by (rule transition_order_Inr)
  have "order_item_ids db' i = order_item_ids (env db) i"
    using transition_log(1) [OF b] by (simp add: order_item_ids_def)
  with transition_stock [OF b assms(2) transition_order_done(3) [OF a]] show ?thesis by auto
qed

lemma dead_order_frees_stock_witness:
  "\<exists>r db'. transition_order (\<lambda>d. d) 9 ''o'' 1 Cancelled sample_sale = (Inr r, db')
     \<and> (\<forall>s\<in>set (stock db'). st_order_item s = Some ''i'' \<longrightarrow> st_status s \<noteq> Stock_Reserved)"
proof -
  obtain db' where t: "transition_order (\<lambda>d. d) 9 ''o'' 1 Cancelled sample_sale = (Inr (Pending_Payment, 2), db')"
    by (rule sample_cancel_Inr)
  from t obtain cs where b: "run_batch (transition_statements ''o'' Pending_Payment 1 Cancelled 9) sample_sale = Inr (db', cs)"
    by (rule transition_order_Inr)
  have "''i'' \<in> set (order_item_ids db' ''o'')"
    using transition_log(1) [OF b] by (simp add: order_item_ids_def sample_sale_def)
  with dead_order_frees_stock [OF t] t show ?thesis by auto
qed

text \<open>
  C3. Cancelling or expiring an order that holds balance gives its buyer back the cash and the
  reward it held, exactly once, and touches no other balance.
\<close>

lemma cancelled_order_returns_balance:
  assumes "transition_order env now i v dst db = (Inr r, db')" and "dst \<in> {Cancelled, Expired}"
    and "find_hold (env db) i = Some h" and "h_state h = Held"
    and "has_user (env db) (h_user h)" and "distinct (map h_order (holds (env db)))"
  shows "balance_of db' (h_user h) = balance_of (env db) (h_user h) + h_cash h
    \<and> reward_of db' (h_user h) = reward_of (env db) (h_user h) + h_reward h
    \<and> (\<forall>u. u \<noteq> h_user h \<longrightarrow> balance_of db' u = balance_of (env db) u \<and> reward_of db' u = reward_of (env db) u)
    \<and> (\<forall>g\<in>set (holds db'). h_order g = i \<longrightarrow> h_state g \<noteq> Held)"
proof -
  obtain src w where r: "r = (src, w)" by fastforce
  from assms(1) [unfolded r] obtain cs where
    b: "run_batch (transition_statements i src v dst now) (env db) = Inr (db', cs)" "0 < cs ! 0"
    by (rule transition_order_Inr)
  obtain d1 c1 es l st cp n c where
    s: "update_order i (\<lambda>db x. o_status x = src \<and> o_version x = v) (set_status (dst, now)) 0 (env db) = Inr (d1, c1)"
    and c: "cs ! 0 = c1"
    and e: "db' = d1 \<lparr> order_events := order_events d1 @ (if order_is i dst (Suc v) d1 then [transition_event i src v dst] else []),
       outbox := outbox d1 @ es, audit_logs := l, stock := st, capacity := cp \<rparr>"
    by (rule transition_steps [OF b(1)]) (rule that)
  obtain k where k: "c1 = Suc k" using b(2) c by (cases c1) auto
  have f: "sql_first (\<lambda>h. h_order h = i \<and> h_state h = Held) (holds (env db)) = Some h"
    using held_first assms(3,4) by (simp add: find_hold_def)
  have g: "o_id (set_status (dst, now) x) = i \<and> o_status (set_status (dst, now) x) \<in> {Cancelled, Expired}"
    if "o_id x = i" for x using that assms(2) by auto
  note q = update_order_releases [OF s [unfolded k] g f assms(5,6)]
  have "balance_of db' u = balance_of d1 u" "reward_of db' u = reward_of d1 u" for u
    using balance_users [of db' d1] by (simp_all add: e)
  moreover have "holds db' = holds d1" by (simp add: e)
  ultimately show ?thesis using q by (simp add: sql_exists_def list_ex_iff)
qed

lemma cancelled_order_returns_balance_witness:
  "\<exists>r db'. transition_order (\<lambda>d. d) 9 ''o'' 1 Cancelled sample_sale = (Inr r, db')
     \<and> balance_of db' ''u'' = 1200 \<and> reward_of db' ''u'' = 330"
proof -
  obtain db' where t: "transition_order (\<lambda>d. d) 9 ''o'' 1 Cancelled sample_sale = (Inr (Pending_Payment, 2), db')"
    by (rule sample_cancel_Inr)
  let ?h = "\<lparr> h_order = ''o'', h_user = ''u'', h_cash = 200, h_reward = 30, h_external = 270, h_state = Held,
       h_updated_at = 1 \<rparr>"
  have "find_hold sample_sale ''o'' = Some ?h" "has_user sample_sale ''u''" "distinct (map h_order (holds sample_sale))"
    "balance_of sample_sale ''u'' = 1000" "reward_of sample_sale ''u'' = 300"
    by (simp_all add: find_hold_def sample_sale_def has_user_def find_user_def balance_of_def reward_of_def
        sample_db_def sample_user_def)
  with cancelled_order_returns_balance [OF t, of ?h] t show ?thesis by auto
qed

end
