(* ===== verification/Entitlements.thy ===== *)
theory Entitlements
  imports Orders Access_Control "HOL-Library.Option_ord"
begin

text \<open>
  What an order item entitles its buyer to (\<^verbatim>\<open>src/features/entitlements/server/ledger.ts\<close>).
  An entitlement is the sum of its active grants: activating a grant adds to it, a refund takes
  the grants of an order out and rebuilds it from the rest, an access uses it up. Every function
  returns the statements a handler puts into its own batch, except the access, which is one.
\<close>

section \<open>Creating grants\<close>

definition multiplied_limit :: "int option \<Rightarrow> int \<Rightarrow> int option result" where
  "multiplied_limit limit quantity =
     (case limit of
        None \<Rightarrow> Inr None
      | Some l \<Rightarrow> (if safe_integer (l * quantity) then Inr (Some (l * quantity))
                   else Inl (DomainError ''entitlement_limit_too_large'' 400)))"

definition insert_entitlement :: "entitlement_row \<Rightarrow> db \<Rightarrow> (db \<times> nat) result" where
  "insert_entitlement e db =
     (if sql_exists (\<lambda>x. en_order_item x = en_order_item e \<or> en_id x = en_id e) (entitlements db)
      then Inl (DbAbort ''customer_entitlements_order_item_uidx'')
      else Inr (db \<lparr> entitlements := entitlements db @ [e] \<rparr>, 1))"

definition insert_grant :: "grant_row \<Rightarrow> db \<Rightarrow> (db \<times> nat) result" where
  "insert_grant g db =
     (if \<exists>v\<in>set [g_duration g, g_usage g, g_access g]. case v of None \<Rightarrow> False | Some n \<Rightarrow> n \<le> 0
      then Inl (DbAbort ''entitlement_grants_check'')
      else if sql_exists (\<lambda>x. g_order_item x = g_order_item g \<or> g_id x = g_id g) (grants db)
      then Inl (DbAbort ''entitlement_grants_source_order_item_uidx'')
      else Inr (db \<lparr> grants := grants db @ [g] \<rparr>, 1))"

definition create_entitlement :: "string \<Rightarrow> item_row \<Rightarrow> string \<Rightarrow> db stmt" where
  "create_entitlement order_id item eid n db =
     (case sql_first (\<lambda>x. o_id x = order_id \<and> o_status x = Paid) (shop_orders db) of
        None \<Rightarrow> Inr (db, 0)
      | Some x \<Rightarrow> insert_entitlement \<lparr> en_id = eid, en_user = o_user x, en_order_item = oi_id item,
          en_sellable = oi_sellable item, en_status = Ent_Pending, en_usage_limit = None, en_usage_count = 0,
          en_access_limit = None, en_access_count = 0, en_activated_at = None, en_expires_at = None,
          en_revoked_at = None \<rparr> db)"

text \<open>The grant goes to an entitlement of the same user and sellable item, or nowhere.\<close>

definition create_grant ::
  "string \<Rightarrow> item_row \<Rightarrow> string \<Rightarrow> string \<Rightarrow> int option \<Rightarrow> int option \<Rightarrow> int \<Rightarrow> db stmt" where
  "create_grant order_id item eid gid usage access now n db =
     (case sql_first (\<lambda>x. o_id x = order_id \<and> o_status x = Paid
               \<and> sql_exists (\<lambda>e. en_id e = eid \<and> en_user e = o_user x \<and> en_sellable e = oi_sellable item)
                   (entitlements db)) (shop_orders db) of
        None \<Rightarrow> Inr (db, 0)
      | Some _ \<Rightarrow> insert_grant \<lparr> g_id = gid, g_entitlement = eid, g_order_item = oi_id item,
          g_renewed_from = oi_renewed_from item, g_status = Grant_Pending, g_duration = oi_duration item,
          g_usage = usage, g_access = access, g_activated_at = None, g_applied_at = None,
          g_revoked_at = None, g_created_at = now \<rparr> db)"

text \<open>\<open>new_id\<close> and \<open>gid\<close> are the random ids.\<close>

definition create_grant_statements ::
  "string \<Rightarrow> item_row \<Rightarrow> int \<Rightarrow> string \<Rightarrow> string \<Rightarrow> (string \<times> db stmt list) result" where
  "create_grant_statements order_id item now new_id gid =
     (let eid = (case oi_renewed_from item of Some i \<Rightarrow> i | None \<Rightarrow> new_id)
      in and_then (multiplied_limit (oi_usage_limit item) (oi_quantity item)) (\<lambda>usage.
         and_then (multiplied_limit (oi_access_limit item) (oi_quantity item)) (\<lambda>access.
         Inr (eid, (if oi_renewed_from item = None then [create_entitlement order_id item eid] else [])
                   @ [create_grant order_id item eid gid usage access now]))))"

section \<open>Activating a grant\<close>

definition stacked :: "bool \<Rightarrow> int option \<Rightarrow> int option \<Rightarrow> int option" where
  "stacked prior old granted =
     (case granted of
        None \<Rightarrow> None
      | Some v \<Rightarrow> (if \<not> prior then Some v else (case old of None \<Rightarrow> None | Some l \<Rightarrow> Some (l + v))))"

definition stacked_expiry :: "bool \<Rightarrow> int \<Rightarrow> int option \<Rightarrow> int option \<Rightarrow> int option" where
  "stacked_expiry prior now old duration =
     (case duration of
        None \<Rightarrow> None
      | Some d \<Rightarrow>
          (if \<not> prior then Some (now + d)
           else (case old of
                   None \<Rightarrow> None
                 | Some t \<Rightarrow> (if t > now then Some (t + d) else Some (now + d)))))"

definition source_grant :: "db \<Rightarrow> string \<Rightarrow> grant_row option" where
  "source_grant db item = sql_first (\<lambda>g. g_order_item g = item) (grants db)"

definition has_active_grant :: "db \<Rightarrow> string \<Rightarrow> bool" where
  "has_active_grant db eid = sql_exists (\<lambda>p. g_entitlement p = eid \<and> g_status p = Grant_Active) (grants db)"

text \<open>A grant can be applied once, when its provisioning is done and, if asked for, its download is there.\<close>

definition activatable :: "bool \<Rightarrow> string \<Rightarrow> db \<Rightarrow> grant_row \<Rightarrow> bool" where
  "activatable require_asset item db g \<longleftrightarrow>
     g_order_item g = item \<and> g_status g = Grant_Pending \<and> g_applied_at g = None
     \<and> \<not> sql_exists (\<lambda>a. ag_order_item a = g_order_item g \<and> ag_state a \<noteq> Agent_Active) (agents db)
     \<and> \<not> sql_exists (\<lambda>u. up_order_item u = g_order_item g \<and> up_state u \<noteq> Upgrade_Delivered) (upgrades db)
     \<and> (require_asset \<longrightarrow> sql_exists (\<lambda>s. sn_order_item s = g_order_item g) (snapshots db))"

definition apply_grant :: "db \<Rightarrow> string \<Rightarrow> int \<Rightarrow> entitlement_row \<Rightarrow> entitlement_row" where
  "apply_grant db item now e =
     (let granted = (\<lambda>key. case source_grant db item of None \<Rightarrow> None | Some g \<Rightarrow> key g);
          prior = has_active_grant db (en_id e)
      in e \<lparr> en_status := Ent_Active,
             en_usage_limit := stacked prior (en_usage_limit e) (granted g_usage),
             en_access_limit := stacked prior (en_access_limit e) (granted g_access),
             en_activated_at := (case en_activated_at e of Some t \<Rightarrow> Some t | None \<Rightarrow> Some now),
             en_expires_at := stacked_expiry prior now (en_expires_at e) (granted g_duration),
             en_revoked_at := None \<rparr>)"

definition activate_entitlement :: "bool \<Rightarrow> string \<Rightarrow> int \<Rightarrow> db stmt" where
  "activate_entitlement require_asset item now n db =
     (case sql_first (activatable require_asset item db) (grants db) of
        None \<Rightarrow> Inr (db, 0)
      | Some g \<Rightarrow>
          (let hit = (\<lambda>e. en_id e = g_entitlement g)
           in Inr (db \<lparr> entitlements := sql_update hit (apply_grant db item now) (entitlements db) \<rparr>,
                   sql_changes hit (entitlements db))))"

definition activate_grant :: "string \<Rightarrow> int \<Rightarrow> db stmt" where
  "activate_grant item now n db =
     (let hit = (\<lambda>g. g_order_item g = item \<and> g_status g = Grant_Pending \<and> g_applied_at g = None
                   \<and> sql_exists (\<lambda>e. en_id e = g_entitlement g \<and> en_status e = Ent_Active) (entitlements db))
      in Inr (db \<lparr> grants := sql_update hit (\<lambda>g. g \<lparr> g_status := Grant_Active, g_activated_at := Some now,
                 g_applied_at := Some now \<rparr>) (grants db) \<rparr>, sql_changes hit (grants db)))"

definition activate_grant_statements :: "bool \<Rightarrow> string \<Rightarrow> int \<Rightarrow> db stmt list" where
  "activate_grant_statements require_asset item now =
     [activate_entitlement require_asset item now, activate_grant item now]"

section \<open>Using an entitlement\<close>

text \<open>An empty key is no key.\<close>

definition key_used :: "db \<Rightarrow> string option \<Rightarrow> bool" where
  "key_used db key = (case key of None \<Rightarrow> False
     | Some k \<Rightarrow> k \<noteq> '''' \<and> sql_exists (\<lambda>v. ae_key v = Some k) (access_events db))"

definition accessible :: "int \<Rightarrow> entitlement_row \<Rightarrow> bool" where
  "accessible now e \<longleftrightarrow> en_status e \<in> {Ent_Active, Ent_Exhausted}
     \<and> (case en_expires_at e of None \<Rightarrow> True | Some t \<Rightarrow> t > now)
     \<and> (case en_access_limit e of None \<Rightarrow> True | Some l \<Rightarrow> en_access_count e < l)"

definition count_access :: "entitlement_row \<Rightarrow> entitlement_row" where
  "count_access e = e \<lparr> en_access_count := en_access_count e + 1,
     en_status := (case en_access_limit e of
         None \<Rightarrow> en_status e
       | Some l \<Rightarrow> if en_access_count e + 1 \<ge> l then Ent_Exhausted else en_status e) \<rparr>"

definition use_access :: "string \<Rightarrow> int \<Rightarrow> db stmt" where
  "use_access eid now n db =
     (let hit = (\<lambda>e. en_id e = eid \<and> accessible now e)
      in Inr (db \<lparr> entitlements := sql_update hit count_access (entitlements db) \<rparr>,
              sql_changes hit (entitlements db)))"

definition record_access :: "string \<Rightarrow> string option \<Rightarrow> db stmt" where
  "record_access eid key n db =
     (if n \<noteq> 1 then Inr (db, 0)
      else if key \<noteq> None \<and> sql_exists (\<lambda>v. ae_key v = key) (access_events db)
      then Inl (DbAbort ''entitlement_events_idempotency_uidx'')
      else Inr (db \<lparr> access_events := access_events db @ [\<lparr> ae_entitlement = eid, ae_key = key \<rparr>] \<rparr>, 1))"

definition consume_access ::
  "(db \<Rightarrow> db) \<Rightarrow> int \<Rightarrow> string \<Rightarrow> string option \<Rightarrow> string option \<Rightarrow> db \<Rightarrow> unit result \<times> db" where
  "consume_access env now eid key unavailable db =
     (if key_used db key then (Inr (), db)
      else
        (let db = env db
         in case run_batch [use_access eid now, record_access eid key] db of
              Inl e \<Rightarrow> (if key_used db key then Inr () else Inl e, db)
            | Inr (db', changes) \<Rightarrow>
                (if changes ! 0 \<noteq> 1
                 then Inl (DomainError (case unavailable of Some c \<Rightarrow> c
                        | None \<Rightarrow> ''entitlement_access_unavailable'') 409)
                 else Inr (), db')))"

section \<open>Refunding the grants of an order\<close>

definition sum_granted :: "(grant_row \<Rightarrow> int option) \<Rightarrow> grant_row list \<Rightarrow> int option" where
  "sum_granted key gs =
     (if gs = [] \<or> list_ex (\<lambda>g. key g = None) gs then None
      else Some (sum_list (map (\<lambda>g. case key g of Some v \<Rightarrow> v | None \<Rightarrow> 0) gs)))"

definition extend_expiry :: "int \<Rightarrow> grant_row \<Rightarrow> int" where
  "extend_expiry t g = max t (case g_activated_at g of Some a \<Rightarrow> a | None \<Rightarrow> 0)
     + (case g_duration g of Some d \<Rightarrow> d | None \<Rightarrow> 0)"

definition rebuild_expiry :: "grant_row list \<Rightarrow> int option" where
  "rebuild_expiry gs =
     (if gs = [] \<or> list_ex (\<lambda>g. g_duration g = None) gs then None else Some (foldl extend_expiry 0 gs))"

definition grant_order :: "grant_row \<Rightarrow> int option \<times> int \<times> string" where
  "grant_order g = (g_activated_at g, g_created_at g, g_id g)"

text \<open>The active grants of an entitlement that satisfy \<open>P\<close>, in the order they were activated.\<close>

definition active_grants :: "(grant_row \<Rightarrow> bool) \<Rightarrow> db \<Rightarrow> string \<Rightarrow> grant_row list" where
  "active_grants P db eid = filter (\<lambda>g. g_activated_at g \<noteq> None)
     (sql_ordered grant_order (\<lambda>g. g_entitlement g = eid \<and> g_status g = Grant_Active \<and> P g) (grants db))"

definition rebuilt_status :: "int \<Rightarrow> grant_row list \<Rightarrow> entitlement_row option \<Rightarrow> entitlement_status" where
  "rebuilt_status now active e =
     (let used = (\<lambda>key. case e of None \<Rightarrow> 0 | Some x \<Rightarrow> key x);
          over = (\<lambda>limit count. case limit of None \<Rightarrow> False | Some l \<Rightarrow> count \<ge> l)
      in if active = [] then Ent_Revoked
         else if (case rebuild_expiry active of None \<Rightarrow> False | Some t \<Rightarrow> t \<le> now) then Ent_Expired
         else if over (sum_granted g_usage active) (used en_usage_count)
              \<or> over (sum_granted g_access active) (used en_access_count) then Ent_Exhausted
         else Ent_Active)"

definition rebuild :: "int \<Rightarrow> grant_row list \<Rightarrow> entitlement_status \<Rightarrow> entitlement_row \<Rightarrow> entitlement_row" where
  "rebuild now active st e = e \<lparr> en_status := st, en_usage_limit := sum_granted g_usage active,
     en_access_limit := sum_granted g_access active,
     en_activated_at := (case active of [] \<Rightarrow> None | g # _ \<Rightarrow> g_activated_at g),
     en_expires_at := rebuild_expiry active,
     en_revoked_at := (if st = Ent_Revoked then Some now else None) \<rparr>"

definition refund_done :: "(string \<times> nat) option \<Rightarrow> int \<Rightarrow> db \<Rightarrow> bool" where
  "refund_done guard now db =
     (case guard of
        None \<Rightarrow> True
      | Some (rid, attempt) \<Rightarrow> sql_exists (\<lambda>r. r_id r = rid \<and> r_attempts r = attempt
            \<and> r_status r = Refund_Succeeded \<and> r_completed_at r = Some now) (refunds db))"

definition refund_grants :: "string \<Rightarrow> int \<Rightarrow> (string \<times> nat) option \<Rightarrow> db stmt" where
  "refund_grants order_id now guard n db =
     (let hit = (\<lambda>g. g_order_item g \<in> set (order_item_ids db order_id)
                   \<and> g_status g \<in> {Grant_Pending, Grant_Active} \<and> refund_done guard now db)
      in Inr (db \<lparr> grants := sql_update hit (\<lambda>g. g \<lparr> g_status := Grant_Refunded, g_revoked_at := Some now \<rparr>)
                 (grants db) \<rparr>, sql_changes hit (grants db)))"

definition rebuild_entitlement ::
  "string \<Rightarrow> int \<Rightarrow> grant_row list \<Rightarrow> entitlement_status \<Rightarrow> (string \<times> nat) option \<Rightarrow> db stmt" where
  "rebuild_entitlement eid now active st guard n db =
     (let hit = (\<lambda>e. en_id e = eid \<and> refund_done guard now db)
      in Inr (db \<lparr> entitlements := sql_update hit (rebuild now active st) (entitlements db) \<rparr>,
              sql_changes hit (entitlements db)))"

definition affected_entitlements :: "db \<Rightarrow> string \<Rightarrow> string list" where
  "affected_entitlements db order_id = remdups (map g_entitlement
     (filter (\<lambda>g. g_order_item g \<in> set (order_item_ids db order_id) \<and> g_status g \<in> {Grant_Pending, Grant_Active})
       (grants db)))"

text \<open>The statements are computed from the database \<open>db\<close> as it is read, before the batch runs.\<close>

definition refund_grant_statements :: "db \<Rightarrow> string \<Rightarrow> int \<Rightarrow> (string \<times> nat) option \<Rightarrow> db stmt list" where
  "refund_grant_statements db order_id now guard =
     refund_grants order_id now guard # map (\<lambda>eid.
       (let active = active_grants (\<lambda>g. g_order_item g \<notin> set (order_item_ids db order_id)) db eid;
            e = sql_first (\<lambda>x. en_id x = eid) (entitlements db)
        in rebuild_entitlement eid now active (rebuilt_status now active e) guard))
       (affected_entitlements db order_id)"

section \<open>An entitlement is the sum of its grants\<close>

text \<open>
  The specification: limits, expiry and first activation are those of the active grants taken
  together, whether they were reached by activating one after the other or by rebuilding.
\<close>

definition agrees :: "db \<Rightarrow> entitlement_row \<Rightarrow> bool" where
  "agrees db e \<longleftrightarrow>
     (let a = active_grants (\<lambda>_. True) db (en_id e)
      in en_usage_limit e = sum_granted g_usage a \<and> en_access_limit e = sum_granted g_access a
         \<and> en_expires_at e = rebuild_expiry a
         \<and> en_activated_at e = (case a of [] \<Rightarrow> None | g # _ \<Rightarrow> g_activated_at g))"

lemma sum_granted_snoc: "sum_granted key (gs @ [g]) = stacked (gs \<noteq> []) (sum_granted key gs) (key g)"
  by (cases "key g") (auto simp: sum_granted_def stacked_def)

lemma rebuild_expiry_snoc:
  assumes "g_activated_at g = Some now" and "0 \<le> now"
  shows "rebuild_expiry (gs @ [g]) = stacked_expiry (gs \<noteq> []) now (rebuild_expiry gs) (g_duration g)"
  using assms by (cases "g_duration g") (auto simp: rebuild_expiry_def stacked_expiry_def extend_expiry_def)

lemma insort_key_snoc: "f x < f m \<Longrightarrow> insort_key f x (zs @ [m]) = insort_key f x zs @ [m]"
  by (induction zs) auto

lemma insort_key_last: "\<forall>x\<in>set zs. f x < f m \<Longrightarrow> insort_key f m zs = zs @ [m]"
  by (induction zs) auto

lemma sort_key_max:
  assumes "\<forall>x\<in>set (as @ bs). f x < f m"
  shows "sort_key f (as @ m # bs) = sort_key f (as @ bs) @ [m]"
  using assms by (induction as) (auto simp: insort_key_snoc insort_key_last)

text \<open>A grant activated later than the others comes last.\<close>

lemma active_grants_snoc:
  assumes "grants db = xs @ g # ys" and "grants db' = xs @ g' # ys" and "g_status g \<noteq> Grant_Active"
    and "g_status g' = Grant_Active" "g_entitlement g' = eid" "g_activated_at g' = Some now"
    and "\<forall>p\<in>set (xs @ ys). g_entitlement p = eid \<and> g_status p = Grant_Active \<longrightarrow> (\<exists>t. g_activated_at p = Some t \<and> t < now)"
  shows "active_grants (\<lambda>_. True) db' eid = active_grants (\<lambda>_. True) db eid @ [g']"
proof -
  let ?A = "\<lambda>g. g_entitlement g = eid \<and> g_status g = Grant_Active \<and> True"
  have "\<forall>x\<in>set (filter ?A xs @ filter ?A ys). grant_order x < grant_order g'"
    using assms(6,7) by (auto simp: grant_order_def less_prod_def)
  then have "sort_key grant_order (filter ?A xs @ g' # filter ?A ys)
      = sort_key grant_order (filter ?A xs @ filter ?A ys) @ [g']" by (rule sort_key_max)
  with assms(1-6) show ?thesis by (simp add: active_grants_def sql_ordered_def)
qed

lemma active_grants_others:
  assumes "grants db = xs @ g # ys" and "grants db' = xs @ g' # ys"
    and "g_entitlement g' = g_entitlement g" and "eid \<noteq> g_entitlement g"
  shows "active_grants P db' eid = active_grants P db eid"
  using assms by (simp add: active_grants_def sql_ordered_def)

lemma set_active_grants: "set (active_grants P db eid) = {g \<in> set (grants db). g_entitlement g = eid
    \<and> g_status g = Grant_Active \<and> P g \<and> g_activated_at g \<noteq> None}"
  by (auto simp: active_grants_def)

lemma active_grants_Nil:
  assumes "\<forall>p\<in>set (grants db). g_entitlement p = eid \<and> g_status p = Grant_Active \<longrightarrow> g_activated_at p \<noteq> None"
  shows "has_active_grant db eid \<longleftrightarrow> active_grants (\<lambda>_. True) db eid \<noteq> []"
proof -
  have "active_grants (\<lambda>_. True) db eid \<noteq> [] \<longleftrightarrow> set (active_grants (\<lambda>_. True) db eid) \<noteq> {}" by simp
  also have "\<dots> \<longleftrightarrow> has_active_grant db eid"
    unfolding set_active_grants using assms by (auto simp: has_active_grant_def sql_exists_def list_ex_iff)
  finally show ?thesis by simp
qed

section \<open>Activation\<close>

lemma sql_update_one:
  assumes "\<forall>x\<in>set xs. \<not> P x" and "P r" and "\<forall>y\<in>set ys. \<not> P y"
  shows "sql_update P f (xs @ r # ys) = xs @ f r # ys" and "sql_changes P (xs @ r # ys) = 1"
proof -
  have "sql_update P f xs = xs" "sql_update P f ys = ys" using assms by (simp_all add: sql_update_none)
  with assms(2) show "sql_update P f (xs @ r # ys) = xs @ f r # ys" by (simp add: sql_update_def)
  show "sql_changes P (xs @ r # ys) = 1" using assms by (simp add: sql_changes_def filter_empty_conv [THEN iffD2])
qed

lemma apply_grant_sel [simp]:
  "en_id (apply_grant db item now e) = en_id e" "en_status (apply_grant db item now e) = Ent_Active"
  by (simp_all add: apply_grant_def Let_def)

text \<open>What the two statements do to a grant that can be activated.\<close>

lemma activation_batch:
  assumes "sql_first (activatable ra item db) (grants db) = Some g"
    and "distinct (map g_order_item (grants db))" and "distinct (map en_id (entitlements db))"
    and "sql_first (\<lambda>x. en_id x = g_entitlement g) (entitlements db) = Some e"
    and "g' = g \<lparr> g_status := Grant_Active, g_activated_at := Some now, g_applied_at := Some now \<rparr>"
  shows "\<exists>xs ys db'. grants db = xs @ g # ys \<and> run_batch (activate_grant_statements ra item now) db = Inr (db', [1, 1])
    \<and> db' = db \<lparr> grants := xs @ g' # ys,
        entitlements := sql_update (\<lambda>x. en_id x = g_entitlement g) (apply_grant db item now) (entitlements db) \<rparr>"
proof -
  from sql_first_Some [OF assms(1)] have g: "g \<in> set (grants db)" "g_order_item g = item"
    "g_status g = Grant_Pending" "g_applied_at g = None" by (auto simp: activatable_def)
  from g(1) obtain xs ys where split: "grants db = xs @ g # ys" by (auto simp: in_set_conv_decomp)
  with assms(2) g(2) have off: "\<forall>p\<in>set (xs @ ys). g_order_item p \<noteq> item" by (auto simp: image_iff)
  let ?E = "\<lambda>x. en_id x = g_entitlement g"
  let ?d = "db \<lparr> entitlements := sql_update ?E (apply_grant db item now) (entitlements db) \<rparr>"
  from sql_first_Some [OF assms(4)] have e: "e \<in> set (entitlements db)" "en_id e = g_entitlement g" by auto
  have one: "sql_changes ?E (entitlements db) = 1"
    using keyed_changes [OF assms(3), of "g_entitlement g" "\<lambda>_. True"] assms(4) by simp
  have first: "activate_entitlement ra item now n db = Inr (?d, 1)" for n
    unfolding activate_entitlement_def by (simp add: assms(1) one)
  have "apply_grant db item now e \<in> set (entitlements ?d)" using e by (auto simp: sql_update_def)
  then have act: "sql_exists (\<lambda>x. en_id x = g_entitlement g \<and> en_status x = Ent_Active) (entitlements ?d)"
    using e(2) by (auto simp: sql_exists_def list_ex_iff intro!: bexI [of _ "apply_grant db item now e"])
  let ?hit = "\<lambda>p. g_order_item p = item \<and> g_status p = Grant_Pending \<and> g_applied_at p = None
                   \<and> sql_exists (\<lambda>x. en_id x = g_entitlement p \<and> en_status x = Ent_Active) (entitlements ?d)"
  have none: "\<forall>p\<in>set xs. \<not> ?hit p" "\<forall>p\<in>set ys. \<not> ?hit p" using off by auto
  have hit: "?hit g" using g act by simp
  have "sql_update ?hit (\<lambda>g. g \<lparr> g_status := Grant_Active, g_activated_at := Some now, g_applied_at := Some now \<rparr>)
      (grants ?d) = xs @ g' # ys" "sql_changes ?hit (grants ?d) = 1"
    using sql_update_one [of xs ?hit g ys, OF none(1) hit none(2)] by (simp_all add: split assms(5))
  then have "activate_grant item now 1 ?d = Inr (?d \<lparr> grants := xs @ g' # ys \<rparr>, 1)"
    unfolding activate_grant_def Let_def by simp
  with first have "run_batch (activate_grant_statements ra item now) db = Inr (?d \<lparr> grants := xs @ g' # ys \<rparr>, [1, 1])"
    by (simp add: run_batch_def activate_grant_statements_def)
  with split show ?thesis by (intro exI [of _ xs] exI [of _ ys] exI [of _ "?d \<lparr> grants := xs @ g' # ys \<rparr>"]) simp
qed

text \<open>The stacked entitlement agrees with its grants again.\<close>

lemma apply_grant_agrees:
  assumes "agrees db e" and "source_grant db item = Some g" and "0 \<le> now"
    and "has_active_grant db (en_id e) \<longleftrightarrow> active_grants (\<lambda>_. True) db (en_id e) \<noteq> []"
    and "active_grants (\<lambda>_. True) db' (en_id e) = active_grants (\<lambda>_. True) db (en_id e) @ [g']"
    and "g_usage g' = g_usage g" "g_access g' = g_access g" "g_duration g' = g_duration g"
      "g_activated_at g' = Some now"
  shows "agrees db' (apply_grant db item now e)"
proof -
  let ?a = "active_grants (\<lambda>_. True) db (en_id e)"
  have "g_activated_at (hd ?a) \<noteq> None" if "?a \<noteq> []"
    using that set_active_grants [of "\<lambda>_. True" db "en_id e"] hd_in_set [OF that] by blast
  then have "(case en_activated_at e of Some t \<Rightarrow> Some t | None \<Rightarrow> Some now)
      = (case ?a @ [g'] of [] \<Rightarrow> None | g # _ \<Rightarrow> g_activated_at g)"
    using assms(1,9) by (cases ?a) (auto simp: agrees_def Let_def)
  with assms show ?thesis
    by (simp add: agrees_def apply_grant_def Let_def sum_granted_snoc rebuild_expiry_snoc)
qed

text \<open>
  The clock hypothesis: what is active was activated in the past. \<open>grants_clocked\<close> is kept by
  every later activation, which stores its own time.
\<close>

definition grants_clocked :: "int \<Rightarrow> db \<Rightarrow> bool" where
  "grants_clocked now db \<longleftrightarrow> 0 \<le> now \<and> (\<forall>p\<in>set (grants db). g_status p = Grant_Active \<longrightarrow>
     (\<exists>t. g_activated_at p = Some t \<and> t < now))"

lemma activation_agrees:
  assumes "sql_first (activatable ra item db) (grants db) = Some g"
    and "distinct (map g_order_item (grants db))" and "distinct (map en_id (entitlements db))"
    and "sql_first (\<lambda>x. en_id x = g_entitlement g) (entitlements db) = Some e"
    and "grants_clocked now db" and "\<forall>x\<in>set (entitlements db). agrees db x"
  obtains db' where "run_batch (activate_grant_statements ra item now) db = Inr (db', [1, 1])"
    "\<forall>x\<in>set (entitlements db'). agrees db' x"
    "sql_first (\<lambda>x. en_id x = g_entitlement g) (entitlements db') = Some (apply_grant db item now e)"
    "active_grants (\<lambda>_. True) db' (g_entitlement g) = active_grants (\<lambda>_. True) db (g_entitlement g)
       @ [g \<lparr> g_status := Grant_Active, g_activated_at := Some now, g_applied_at := Some now \<rparr>]"
    "grants_clocked (now + 1) db'"
proof -
  let ?g = "g \<lparr> g_status := Grant_Active, g_activated_at := Some now, g_applied_at := Some now \<rparr>"
  from activation_batch [OF assms(1-4) refl, of now] obtain xs ys db' where
    x: "grants db = xs @ g # ys" and r: "run_batch (activate_grant_statements ra item now) db = Inr (db', [1, 1])"
    and d: "db' = db \<lparr> grants := xs @ ?g # ys,
        entitlements := sql_update (\<lambda>x. en_id x = g_entitlement g) (apply_grant db item now) (entitlements db) \<rparr>"
    by blast
  from sql_first_Some [OF assms(1)] have g: "g \<in> set (grants db)" "g_order_item g = item" "g_status g = Grant_Pending"
    by (auto simp: activatable_def)
  have src: "source_grant db item = Some g" using keyed_first [OF assms(2) g(1)] g(2) by (simp add: source_grant_def)
  have gs: "grants db' = xs @ ?g # ys" by (simp add: d)
  have last: "active_grants (\<lambda>_. True) db' (g_entitlement g) = active_grants (\<lambda>_. True) db (g_entitlement g) @ [?g]"
    by (rule active_grants_snoc [OF x gs]) (use g(3) assms(5) in \<open>auto simp: grants_clocked_def x\<close>)
  have other: "active_grants (\<lambda>_. True) db' i = active_grants (\<lambda>_. True) db i" if "i \<noteq> g_entitlement g" for i
    by (rule active_grants_others [OF x gs _ that]) simp
  have prior: "has_active_grant db i \<longleftrightarrow> active_grants (\<lambda>_. True) db i \<noteq> []" for i
    by (rule active_grants_Nil) (use assms(5) in \<open>auto simp: grants_clocked_def\<close>)
  have all: "agrees db' y" if y: "y \<in> set (entitlements db')" for y
  proof -
    from y obtain z where z: "z \<in> set (entitlements db)"
      "y = (if en_id z = g_entitlement g then apply_grant db item now z else z)" by (auto simp: d sql_update_def)
    show ?thesis
    proof (cases "en_id z = g_entitlement g")
      case True
      with z apply_grant_agrees [OF _ src _ prior, of z now db' ?g] assms(5,6) last
      show ?thesis by (simp add: grants_clocked_def)
    next
      case False
      with z assms(6) other show ?thesis by (auto simp: agrees_def)
    qed
  qed
  have f: "sql_first (\<lambda>x. en_id x = g_entitlement g) (entitlements db') = Some (apply_grant db item now e)"
    using sql_first_update_key [of en_id "apply_grant db item now" "g_entitlement g" "\<lambda>x. en_id x = g_entitlement g"
        "entitlements db"] assms(4) sql_first_Some [OF assms(4)] by (simp add: d)
  have "grants_clocked (now + 1) db'" using assms(5) by (fastforce simp: grants_clocked_def gs x)
  with r all f last that show thesis by blast
qed

section \<open>Refund\<close>

lemma rebuild_sel [simp]: "en_id (rebuild now active st e) = en_id e" "en_status (rebuild now active st e) = st"
  "en_expires_at (rebuild now active st e) = rebuild_expiry active"
  by (simp_all add: rebuild_def)

lemma refund_done_tables: "refunds db' = refunds db \<Longrightarrow> refund_done guard now db' = refund_done guard now db"
  by (simp add: refund_done_def split: option.splits prod.splits)

text \<open>The rebuilding statements, one per entitlement, act on the entitlements independently.\<close>

lemma rebuild_batch:
  assumes "batch_from n (map (\<lambda>i. rebuild_entitlement i now (A i) (S i) guard) ids) db = Inr (db', cs)"
    and "refund_done guard now db" and "distinct ids"
  shows "db' = db \<lparr> entitlements := map (\<lambda>e. if en_id e \<in> set ids
      then rebuild now (A (en_id e)) (S (en_id e)) e else e) (entitlements db) \<rparr>"
  using assms
proof (induction ids arbitrary: n db cs)
  case Nil
  then show ?case by simp
next
  case (Cons i ids)
  let ?d = "db \<lparr> entitlements := sql_update (\<lambda>e. en_id e = i) (rebuild now (A i) (S i)) (entitlements db) \<rparr>"
  have s: "rebuild_entitlement i now (A i) (S i) guard n db = Inr (?d, sql_changes (\<lambda>e. en_id e = i) (entitlements db))"
    using Cons.prems(2) by (simp add: rebuild_entitlement_def Let_def)
  with Cons.prems(1) obtain c cs' where r: "batch_from c (map (\<lambda>i. rebuild_entitlement i now (A i) (S i) guard) ids) ?d = Inr (db', cs')"
    by (auto split: sum.splits prod.splits)
  have "refund_done guard now ?d" using Cons.prems(2) refund_done_tables [of ?d db] by simp
  from Cons.IH [OF r this] Cons.prems(3) show ?case
    by (auto simp: sql_update_def comp_def)
qed

text \<open>\<open>db0\<close> is what the handler read, \<open>db\<close> the database when its batch reaches these statements.\<close>

lemma refund_grants_effect:
  assumes "run_batch (refund_grant_statements db0 order_id now guard) db = Inr (db', cs)"
    and "grants db = grants db0" "order_items db = order_items db0" "entitlements db = entitlements db0"
    and "refund_done guard now db"
  defines "A \<equiv> active_grants (\<lambda>g. g_order_item g \<notin> set (order_item_ids db0 order_id)) db0"
  shows "grants db' = sql_update (\<lambda>g. g_order_item g \<in> set (order_item_ids db0 order_id)
              \<and> g_status g \<in> {Grant_Pending, Grant_Active})
            (\<lambda>g. g \<lparr> g_status := Grant_Refunded, g_revoked_at := Some now \<rparr>) (grants db0)"
    and "entitlements db' = map (\<lambda>e. if en_id e \<in> set (affected_entitlements db0 order_id)
            then rebuild now (A (en_id e)) (rebuilt_status now (A (en_id e))
                   (sql_first (\<lambda>x. en_id x = en_id e) (entitlements db0))) e else e) (entitlements db0)"
proof -
  let ?ids = "affected_entitlements db0 order_id"
  let ?S = "\<lambda>i. rebuilt_status now (A i) (sql_first (\<lambda>x. en_id x = i) (entitlements db0))"
  let ?g = "sql_update (\<lambda>g. g_order_item g \<in> set (order_item_ids db0 order_id)
              \<and> g_status g \<in> {Grant_Pending, Grant_Active})
            (\<lambda>g. g \<lparr> g_status := Grant_Refunded, g_revoked_at := Some now \<rparr>) (grants db0)"
  have i: "order_item_ids db order_id = order_item_ids db0 order_id" using assms(3) by (simp add: order_item_ids_def)
  obtain c where "refund_grants order_id now guard 0 db = Inr (db \<lparr> grants := ?g \<rparr>, c)"
    using assms(2,5) by (simp add: refund_grants_def i Let_def)
  with assms(1) obtain cs' where r: "batch_from c (map (\<lambda>i. rebuild_entitlement i now (A i) (?S i) guard) ?ids)
      (db \<lparr> grants := ?g \<rparr>) = Inr (db', cs')"
    by (auto simp: run_batch_def refund_grant_statements_def Let_def A_def split: sum.splits prod.splits)
  have "refund_done guard now (db \<lparr> grants := ?g \<rparr>)" using assms(5) refund_done_tables [of "db \<lparr> grants := ?g \<rparr>" db] by simp
  from rebuild_batch [OF r this] have "db' = db \<lparr> grants := ?g, entitlements := map (\<lambda>e. if en_id e \<in> set ?ids
      then rebuild now (A (en_id e)) (?S (en_id e)) e else e) (entitlements db) \<rparr>"
    by (simp add: affected_entitlements_def)
  then show "grants db' = ?g" and "entitlements db' = map (\<lambda>e. if en_id e \<in> set ?ids
      then rebuild now (A (en_id e)) (?S (en_id e)) e else e) (entitlements db0)"
    using assms(4) by simp_all
qed

lemma filter_sql_update:
  "(\<And>x. P x \<Longrightarrow> \<not> Q (f x)) \<Longrightarrow> filter Q (sql_update P f t) = filter (\<lambda>x. Q x \<and> \<not> P x) t"
  by (induction t) auto

text \<open>After the refund the remaining active grants are those of other orders.\<close>

lemma active_grants_refunded:
  assumes "grants db' = sql_update (\<lambda>g. g_order_item g \<in> items \<and> g_status g \<in> {Grant_Pending, Grant_Active})
            (\<lambda>g. g \<lparr> g_status := Grant_Refunded, g_revoked_at := Some now \<rparr>) (grants db)"
  shows "active_grants (\<lambda>_. True) db' i = active_grants (\<lambda>g. g_order_item g \<notin> items) db i"
proof -
  have "filter (\<lambda>g. g_entitlement g = i \<and> g_status g = Grant_Active \<and> True) (grants db')
      = filter (\<lambda>g. g_entitlement g = i \<and> g_status g = Grant_Active \<and> g_order_item g \<notin> items) (grants db)"
    unfolding assms by (subst filter_sql_update) (auto intro: filter_cong)
  then show ?thesis by (simp add: active_grants_def sql_ordered_def)
qed

lemma refund_agrees:
  assumes "run_batch (refund_grant_statements db0 order_id now guard) db = Inr (db', cs)"
    and "grants db = grants db0" "order_items db = order_items db0" "entitlements db = entitlements db0"
    and "refund_done guard now db" and "\<forall>e\<in>set (entitlements db0). agrees db0 e"
  shows "\<forall>e\<in>set (entitlements db'). agrees db' e"
    and "\<forall>g\<in>set (grants db'). g_order_item g \<in> set (order_item_ids db0 order_id)
       \<longrightarrow> g_status g \<notin> {Grant_Pending, Grant_Active}"
proof -
  note f = refund_grants_effect [OF assms(1-5)]
  note act = active_grants_refunded [OF f(1)]
  show "\<forall>g\<in>set (grants db'). g_order_item g \<in> set (order_item_ids db0 order_id)
       \<longrightarrow> g_status g \<notin> {Grant_Pending, Grant_Active}"
    by (auto simp: f(1) sql_update_def)
  show "\<forall>e\<in>set (entitlements db'). agrees db' e"
  proof
    fix e assume "e \<in> set (entitlements db')"
    then obtain z where z: "z \<in> set (entitlements db0)"
      "e = (if en_id z \<in> set (affected_entitlements db0 order_id)
            then rebuild now (active_grants (\<lambda>g. g_order_item g \<notin> set (order_item_ids db0 order_id)) db0 (en_id z))
              (rebuilt_status now (active_grants (\<lambda>g. g_order_item g \<notin> set (order_item_ids db0 order_id)) db0 (en_id z))
                   (sql_first (\<lambda>x. en_id x = en_id z) (entitlements db0))) z else z)"
      by (auto simp: f(2))
    show "agrees db' e"
    proof (cases "en_id z \<in> set (affected_entitlements db0 order_id)")
      case True
      with z show ?thesis by (simp add: agrees_def Let_def act) (simp add: rebuild_def)
    next
      case False
      then have "active_grants (\<lambda>g. g_order_item g \<notin> set (order_item_ids db0 order_id)) db0 (en_id z)
          = active_grants (\<lambda>_. True) db0 (en_id z)"
        unfolding active_grants_def sql_ordered_def affected_entitlements_def
        by (intro arg_cong [where f = "filter _"] arg_cong [where f = "sort_key _"] filter_cong) (auto simp: image_iff)
      with False z assms(6) show ?thesis by (auto simp: agrees_def act)
    qed
  qed
qed

section \<open>Access\<close>

definition within_limit :: "entitlement_row \<Rightarrow> bool" where
  "within_limit e = (case en_access_limit e of None \<Rightarrow> True | Some l \<Rightarrow> en_access_count e \<le> l)"

definition accesses :: "db \<Rightarrow> int" where
  "accesses db = sum_list (map en_access_count (entitlements db))"

lemma count_access_sel [simp]:
  "en_access_count (count_access e) = en_access_count e + 1" "en_id (count_access e) = en_id e"
  "en_access_limit (count_access e) = en_access_limit e"
  by (simp_all add: count_access_def)

lemma sum_counts: "sum_list (map en_access_count (sql_update P count_access t))
    = sum_list (map en_access_count t) + int (sql_changes P t)"
  by (induction t) (auto simp: sql_changes_def)

text \<open>A committed batch: at most one entitlement counts one more access, with one event.\<close>

lemma access_batch:
  assumes "run_batch [use_access eid now, record_access eid key] db = Inr (db', cs)"
    and "distinct (map en_id (entitlements db))"
  shows "entitlements db' = sql_update (\<lambda>e. en_id e = eid \<and> accessible now e) count_access (entitlements db)"
    and "cs ! 0 = sql_changes (\<lambda>e. en_id e = eid \<and> accessible now e) (entitlements db)" and "cs ! 0 \<le> 1"
    and "access_events db' = access_events db @ (if cs ! 0 = 1 then [\<lparr> ae_entitlement = eid, ae_key = key \<rparr>] else [])"
    and "cs ! 0 = 1 \<Longrightarrow> \<not> key_used db key"
proof -
  let ?hit = "\<lambda>e. en_id e = eid \<and> accessible now e"
  let ?c = "sql_changes ?hit (entitlements db)"
  have le: "?c \<le> 1" by (rule keyed_changes_le_one [OF assms(2)])
  let ?d = "db \<lparr> entitlements := sql_update ?hit count_access (entitlements db) \<rparr>"
  from assms(1) obtain c2 where r: "record_access eid key ?c ?d = Inr (db', c2)" "cs = [?c, c2]"
    by (auto simp: run_batch_def use_access_def Let_def split: sum.splits prod.splits)
  then show "entitlements db' = sql_update ?hit count_access (entitlements db)" "cs ! 0 = ?c" "cs ! 0 \<le> 1"
    and "access_events db' = access_events db @ (if cs ! 0 = 1 then [\<lparr> ae_entitlement = eid, ae_key = key \<rparr>] else [])"
    using le by (auto simp: record_access_def split: if_splits)
  show "cs ! 0 = 1 \<Longrightarrow> \<not> key_used db key"
    using r by (auto simp: record_access_def key_used_def split: if_splits option.splits)
qed

lemma within_limit_counted: "accessible now e \<Longrightarrow> within_limit (count_access e)"
  by (auto simp: accessible_def within_limit_def split: option.splits)

lemma consume_access_cases:
  assumes "consume_access env now eid key u db = (r, db')" and "\<not> key_used db key"
  obtains "db' = env db" and "r = Inr () \<longrightarrow> key_used (env db) key"
  | cs where "run_batch [use_access eid now, record_access eid key] (env db) = Inr (db', cs)"
      "r = Inr () \<longleftrightarrow> cs ! 0 = 1"
  using assms by (auto simp: consume_access_def Let_def split: sum.splits prod.splits if_splits)

section \<open>The books\<close>

lemma entitlement_statements_kept [keeps]:
  "stmt_keeps (books_kept start) (create_entitlement order_id i e)"
  "stmt_keeps (books_kept start) (create_grant order_id i e gid usage access now)"
  "stmt_keeps (books_kept start) (activate_entitlement ra item now)"
  "stmt_keeps (books_kept start) (activate_grant item now)"
  "stmt_keeps (books_kept start) (refund_grants order_id now guard)"
  "stmt_keeps (books_kept start) (rebuild_entitlement e now a st guard)"
  by (auto intro!: stmt_keepsI elim!: books_kept_tables
      simp: create_entitlement_def create_grant_def insert_entitlement_def insert_grant_def Let_def
        activate_entitlement_def activate_grant_def refund_grants_def rebuild_entitlement_def
      split: option.splits if_splits)

lemma refund_grant_statements_kept:
  "\<forall>s\<in>set (refund_grant_statements db order_id now guard). stmt_keeps (books_kept start) s"
  by (auto simp: refund_grant_statements_def Let_def keeps)

section \<open>Properties\<close>

text \<open>
  C17. Activating a grant leaves every entitlement equal to the sum of its active grants: the
  new grant's uses, accesses and time are added to what is left, or start the entitlement when
  no grant is active.
\<close>

lemma activation_stacks:
  assumes "sql_first (activatable ra item db) (grants db) = Some g"
    and "distinct (map g_order_item (grants db))" and "distinct (map en_id (entitlements db))"
    and "sql_first (\<lambda>x. en_id x = g_entitlement g) (entitlements db) = Some e"
    and "grants_clocked now db" and "\<forall>x\<in>set (entitlements db). agrees db x"
  shows "\<exists>db' e'. run_batch (activate_grant_statements ra item now) db = Inr (db', [1, 1])
    \<and> (\<forall>x\<in>set (entitlements db'). agrees db' x)
    \<and> sql_first (\<lambda>x. en_id x = g_entitlement g) (entitlements db') = Some e' \<and> en_status e' = Ent_Active
    \<and> en_usage_limit e' = stacked (has_active_grant db (en_id e)) (en_usage_limit e) (g_usage g)
    \<and> en_expires_at e' = stacked_expiry (has_active_grant db (en_id e)) now (en_expires_at e) (g_duration g)"
proof -
  obtain db' where r: "run_batch (activate_grant_statements ra item now) db = Inr (db', [1, 1])"
    "\<forall>x\<in>set (entitlements db'). agrees db' x"
    "sql_first (\<lambda>x. en_id x = g_entitlement g) (entitlements db') = Some (apply_grant db item now e)"
    by (rule activation_agrees [OF assms]) (rule that)
  from sql_first_Some [OF assms(1)] have "g \<in> set (grants db)" "g_order_item g = item" by (auto simp: activatable_def)
  with keyed_first [OF assms(2)] have "source_grant db item = Some g" by (auto simp: source_grant_def)
  with r show ?thesis
    by (intro exI [of _ db'] exI [of _ "apply_grant db item now e"]) (simp add: apply_grant_def Let_def)
qed



text \<open>A thousand milliseconds of access bought with order \<open>o\<close>, renewed with order \<open>p\<close>.\<close>

definition sample_item :: "string \<Rightarrow> string \<Rightarrow> item_row" where
  "sample_item i order_id = \<lparr> oi_id = i, oi_order = order_id, oi_product = ''p'', oi_sellable = ''s'', oi_component = ''c'',
     oi_component_type = Download_Component, oi_quantity = 1, oi_unit_price = 500, oi_source = ListPrice, oi_discount = 0,
     oi_subtotal = 500, oi_reward = 0, oi_definition_version = None, oi_renewed_from = None,
     oi_duration = Some 1000, oi_usage_limit = Some 10, oi_access_limit = Some 2 \<rparr>"

definition sample_access :: db where
  "sample_access = sample_db \<lparr> order_items := [sample_item ''i'' ''o'', sample_item ''j'' ''p''],
     entitlements := [\<lparr> en_id = ''e'', en_user = Some ''u'', en_order_item = ''i'', en_sellable = ''s'',
       en_status = Ent_Active, en_usage_limit = Some 10, en_usage_count = 0, en_access_limit = Some 2,
       en_access_count = 1, en_activated_at = Some 100, en_expires_at = Some 1100, en_revoked_at = None \<rparr>],
     grants := [\<lparr> g_id = ''g'', g_entitlement = ''e'', g_order_item = ''i'', g_renewed_from = None,
         g_status = Grant_Active, g_duration = Some 1000, g_usage = Some 10, g_access = Some 2,
         g_activated_at = Some 100, g_applied_at = Some 100, g_revoked_at = None, g_created_at = 50 \<rparr>,
       \<lparr> g_id = ''h'', g_entitlement = ''e'', g_order_item = ''j'', g_renewed_from = Some ''e'',
         g_status = Grant_Pending, g_duration = Some 1000, g_usage = Some 5, g_access = Some 1,
         g_activated_at = None, g_applied_at = None, g_revoked_at = None, g_created_at = 400 \<rparr>] \<rparr>"

lemma sample_access_agrees: "\<forall>x\<in>set (entitlements sample_access). agrees sample_access x"
  by code_simp

lemma activation_stacks_witness:
  "\<exists>db' e'. run_batch (activate_grant_statements False ''j'' 500) sample_access = Inr (db', [1, 1])
     \<and> sql_first (\<lambda>x. en_id x = ''e'') (entitlements db') = Some e'
     \<and> en_usage_limit e' = Some 15 \<and> en_expires_at e' = Some 2100"
proof -
  let ?db = sample_access
  define g where "g = grants ?db ! 1"
  define e where "e = entitlements ?db ! 0"
  have "sql_first (activatable False ''j'' ?db) (grants ?db) = Some g"
    by (simp add: g_def sample_access_def activatable_def sample_db_def empty_db_def sql_exists_def)
  moreover have "distinct (map g_order_item (grants ?db))" "distinct (map en_id (entitlements ?db))"
    by (simp_all add: sample_access_def)
  moreover have "sql_first (\<lambda>x. en_id x = g_entitlement g) (entitlements ?db) = Some e"
    by (simp add: e_def g_def sample_access_def)
  moreover have "grants_clocked 500 ?db" by (simp add: grants_clocked_def sample_access_def)
  ultimately obtain db' e' where "run_batch (activate_grant_statements False ''j'' 500) ?db = Inr (db', [1, 1])"
    "sql_first (\<lambda>x. en_id x = g_entitlement g) (entitlements db') = Some e'"
    "en_usage_limit e' = stacked (has_active_grant ?db (en_id e)) (en_usage_limit e) (g_usage g)"
    "en_expires_at e' = stacked_expiry (has_active_grant ?db (en_id e)) 500 (en_expires_at e) (g_duration g)"
    using activation_stacks [of False "''j''" ?db g e 500] sample_access_agrees by blast
  moreover have "g_entitlement g = ''e''" "has_active_grant ?db (en_id e)"
    by (simp_all add: g_def e_def sample_access_def has_active_grant_def sql_exists_def)
  ultimately show ?thesis
    by (intro exI [of _ db'] exI [of _ e']) (simp add: stacked_def stacked_expiry_def g_def e_def sample_access_def)
qed



end
