(* ===== verification/Frames.thy ===== *)
theory Frames
  imports Entitlements Apportion
begin

text \<open>
  What a statement leaves alone. A batch is followed table by table: the statement that writes
  the table says what becomes of it, and the rules of the collection \<open>leaves\<close> discharge
  the others.
\<close>

definition leaves :: "('db \<Rightarrow> 't) \<Rightarrow> 'db stmt \<Rightarrow> bool" where
  "leaves T s \<longleftrightarrow> (\<forall>n db db' c. s n db = Inr (db', c) \<longrightarrow> T db' = T db)"

named_theorems leaves "statements that leave a table alone"

lemma leavesD: "s n db = Inr (db', c) \<Longrightarrow> leaves T s \<Longrightarrow> T db' = T db"
  unfolding leaves_def by blast

lemma leaves_batch: "batch_from n ss db = Inr (db', cs) \<Longrightarrow> \<forall>s\<in>set ss. leaves T s \<Longrightarrow> T db' = T db"
proof (induction ss arbitrary: n db cs)
  case Nil
  then show ?case by simp
next
  case (Cons s ss)
  from Cons.prems(1) obtain d c cs' where "s n db = Inr (d, c)" "batch_from c ss d = Inr (db', cs')"
    by (auto split: sum.splits prod.splits)
  with Cons.IH Cons.prems(2) show ?case by (auto dest: leavesD)
qed

text \<open>A batch is run statement by statement.\<close>

lemma batch_Cons: "batch_from n (s # ss) db = Inr (db', cs) \<longleftrightarrow>
    (\<exists>d c cs'. s n db = Inr (d, c) \<and> batch_from c ss d = Inr (db', cs') \<and> cs = c # cs')"
  by (auto split: sum.splits prod.splits)

lemma batch_ConsE:
  assumes "batch_from n (s # ss) db = Inr (db', cs)"
  obtains d c cs' where "s n db = Inr (d, c)" "batch_from c ss d = Inr (db', cs')" "cs = c # cs'"
  using assms unfolding batch_Cons by blast

lemma batch_Nil: "batch_from n [] db = Inr (db', cs) \<longleftrightarrow> db' = db \<and> cs = []"
  by auto

lemma batch_append: "batch_from n (ss @ ts) db = Inr (db', cs) \<longleftrightarrow>
    (\<exists>mid m c1 c2. batch_from n ss db = Inr (mid, c1) \<and> m = last (n # c1) \<and> batch_from m ts mid = Inr (db', c2) \<and> cs = c1 @ c2)"
  by (induction ss arbitrary: n db cs) (auto simp: batch_Cons simp del: batch_from.simps(2), fastforce+)

lemma sql_update_post: "(\<And>q. P q \<Longrightarrow> R (f q)) \<Longrightarrow> (\<And>q. \<not> P q \<Longrightarrow> R q) \<Longrightarrow> \<forall>r\<in>set (sql_update P f t). R r"
  by (auto simp: sql_update_def)

lemma sql_update_unhit: "r \<in> set (sql_update P f t) \<Longrightarrow> (\<And>q. P q \<Longrightarrow> r \<noteq> f q) \<Longrightarrow> r \<in> set t \<and> \<not> P r"
  by (auto simp: sql_update_def split: if_splits)

lemma sql_exists_hit: "r \<in> set t \<Longrightarrow> P r \<Longrightarrow> Q (f r) \<Longrightarrow> sql_exists Q (sql_update P f t)"
  by (auto simp: sql_update_def sql_exists_def list_ex_iff intro!: bexI [of _ "f r"])

section \<open>The statements so far\<close>

lemma log_leaves [leaves]:
  "(\<And>d x. T (d \<lparr> order_events := x \<rparr>) = T d) \<Longrightarrow> leaves T (event_when c e)"
  "(\<And>d x. T (d \<lparr> outbox := x \<rparr>) = T d) \<Longrightarrow> leaves T (outbox_when c ignore b)"
  "(\<And>d x. T (d \<lparr> audit_logs := x \<rparr>) = T d) \<Longrightarrow> leaves T (audit action target)"
  "(\<And>d x. T (d \<lparr> audit_logs := x \<rparr>) = T d) \<Longrightarrow> leaves T (audit_when c action target)"
  by (auto simp: leaves_def event_when_def insert_order_event_def and_then_Inr outbox_when_def insert_outbox_def audit_def
      audit_when_def split: if_splits)

lemma stock_leaves [leaves]:
  "(\<And>d x. T (d \<lparr> stock := x \<rparr>) = T d) \<Longrightarrow> leaves T (release_sale i)"
  "(\<And>d x. T (d \<lparr> stock := x \<rparr>) = T d) \<Longrightarrow> leaves T (reserve_sale component i q)"
  "(\<And>d x. T (d \<lparr> capacity := x \<rparr>) = T d) \<Longrightarrow> leaves T (unallocated_payment i)"
  by (auto simp: leaves_def dest!: release_sale_Inr reserve_sale_Inr unallocated_payment_Inr)

lemma grant_leaves [leaves]:
  "(\<And>d x. T (d \<lparr> grants := x \<rparr>) = T d) \<Longrightarrow> leaves T (refund_grants i now guard)"
  "(\<And>d x. T (d \<lparr> entitlements := x \<rparr>) = T d) \<Longrightarrow> leaves T (rebuild_entitlement e now a st guard)"
  by (auto simp: leaves_def refund_grants_def rebuild_entitlement_def Let_def)

lemma refund_grant_statements_leave [leaves]:
  "(\<And>d x. T (d \<lparr> grants := x \<rparr>) = T d) \<Longrightarrow> (\<And>d x. T (d \<lparr> entitlements := x \<rparr>) = T d)
   \<Longrightarrow> \<forall>s\<in>set (refund_grant_statements db i now guard). leaves T s"
  by (auto simp: refund_grant_statements_def Let_def intro!: leaves)

lemma update_order_leaves [leaves]:
  assumes "\<And>a s b. same_rest (a \<lparr> shop_orders := s \<rparr>) b \<Longrightarrow> T b = T a"
  shows "leaves T (update_order i P f)"
  using assms update_order_Inr(2) by (force simp: leaves_def)

section \<open>Refund rows\<close>

lemma refund_posting_rest:
  assumes "refund_posting r db = Inr db'"
  shows "same_rest db db'" and "holds db' = holds db"
proof -
  from assms obtain owner earner d1 d2 where
    s: "(case owner of None \<Rightarrow> Inr db | Some uid \<Rightarrow> refund_return r uid db) = Inr d1"
       "(case earner of None \<Rightarrow> Inr d1 | Some uid \<Rightarrow> refund_reversal r uid d1) = Inr d2"
       "db' = refund_reward_row r d2"
    unfolding refund_posting_def Let_def and_then_Inr by blast
  have "same_rest db d1" using s(1) refund_return_rest by (cases owner) auto
  moreover have "same_rest d1 d2" using s(2) refund_reversal_rest by (cases earner) auto
  moreover have "same_rest d2 db'" by (simp add: s(3) refund_reward_row_def same_rest_def)
  ultimately show "same_rest db db'" using same_rest_trans by blast
  have "holds d1 = holds db"
    using s(1) by (cases owner) (auto simp: refund_return_def and_then_Inr dest!: ledger_frame split: if_splits)
  moreover have "holds d2 = holds d1"
    using s(2) by (cases earner) (auto simp: refund_reversal_def and_then_Inr dest!: ledger_frame split: if_splits)
  ultimately show "holds db' = holds db" by (simp add: s(3) refund_reward_row_def)
qed

lemma insert_refund_Inr:
  assumes "insert_refund r db = Inr db'"
  shows "refunds db' = refunds db @ [r]" and "same_rest (db \<lparr> refunds := refunds db' \<rparr>) db'"
    and "holds db' = holds db" and "\<not> sql_exists (\<lambda>x. r_key x = r_key r) (refunds db)"
    and "\<not> sql_exists (\<lambda>x. r_id x = r_id r) (refunds db)" and "0 < r_amount r" and "0 < r_payment_amount r"
proof -
  let ?d = "db \<lparr> refunds := refunds db @ [r] \<rparr>"
  from assms have "(if r_status r = Refund_Succeeded then refund_posting r ?d else Inr ?d) = Inr db'"
    and x: "\<not> sql_exists (\<lambda>x. r_key x = r_key r) (refunds db)" "\<not> sql_exists (\<lambda>x. r_id x = r_id r) (refunds db)"
      "0 < r_amount r" "0 < r_payment_amount r"
    by (auto simp: insert_refund_def Let_def split: if_splits)
  then have "same_rest ?d db' \<and> holds db' = holds ?d"
    using refund_posting_rest [of r ?d db'] by (auto split: if_splits)
  then show "refunds db' = refunds db @ [r]" "same_rest (db \<lparr> refunds := refunds db' \<rparr>) db'" "holds db' = holds db"
    by (simp_all add: same_rest_def)
qed (use assms in \<open>auto simp: insert_refund_def Let_def split: if_splits\<close>)

lemma update_refund_Inr:
  assumes "update_refund i P f n db = Inr (db', c)"
  shows "refunds db' = sql_update (\<lambda>r. r_id r = i \<and> P r) f (refunds db)"
    and "same_rest (db \<lparr> refunds := refunds db' \<rparr>) db'" and "holds db' = holds db"
    and "c = (if sql_exists (\<lambda>r. r_id r = i \<and> P r) (refunds db) then 1 else 0)"
proof -
  let ?Q = "\<lambda>r. r_id r = i \<and> P r"
  let ?d = "db \<lparr> refunds := sql_update ?Q f (refunds db) \<rparr>"
  have "refunds db' = sql_update ?Q f (refunds db) \<and> same_rest ?d db' \<and> holds db' = holds db
      \<and> c = (if sql_exists ?Q (refunds db) then 1 else 0)"
  proof (cases "sql_first ?Q (refunds db)")
    case None
    then have e: "sql_update ?Q f (refunds db) = refunds db" "\<not> sql_exists ?Q (refunds db)"
      by (auto simp: sql_first_None sql_update_none sql_exists_def list_ex_iff)
    with None assms show ?thesis by (simp add: update_refund_def)
  next
    case (Some old)
    then have e: "sql_exists ?Q (refunds db)" using sql_first_Some [OF Some] by (auto simp: sql_exists_def list_ex_iff)
    from assms Some have r: "(if r_status (f old) = Refund_Succeeded \<and> r_status old \<noteq> Refund_Succeeded
        then refund_posting (f old) ?d else Inr ?d) = Inr db'" and c: "c = 1"
      by (auto simp: update_refund_def Let_def and_then_Inr)
    from r have "same_rest ?d db' \<and> holds db' = holds ?d"
      using refund_posting_rest [of "f old" ?d db'] by (auto split: if_splits)
    with c e show ?thesis by (simp add: same_rest_def)
  qed
  then show "refunds db' = sql_update ?Q f (refunds db)" "same_rest (db \<lparr> refunds := refunds db' \<rparr>) db'"
    "holds db' = holds db" "c = (if sql_exists ?Q (refunds db) then 1 else 0)" by simp_all
qed

lemma update_refund_leaves [leaves]:
  assumes "\<And>a s b. same_rest (a \<lparr> refunds := s \<rparr>) b \<Longrightarrow> T b = T a"
  shows "leaves T (update_refund i P f)"
  using assms update_refund_Inr(2) by (force simp: leaves_def)

text \<open>An order that is not on its way to be paid or given up keeps its hold.\<close>

lemma update_order_holds:
  assumes "update_order i P f n db = Inr (db', c)"
    and "\<And>x. o_id x = i \<Longrightarrow> P db x \<Longrightarrow> o_status (f x) \<in> {Paid, Cancelled, Expired} \<Longrightarrow>
      \<not> sql_exists (\<lambda>h. h_order h = o_id (f x) \<and> h_state h = Held) (holds db)"
  shows "holds db' = holds db"
proof (cases "sql_first (\<lambda>x. o_id x = i \<and> P db x) (shop_orders db)")
  case None
  with assms(1) show ?thesis by (simp add: update_order_def)
next
  case (Some old)
  let ?d = "db \<lparr> shop_orders := sql_update (\<lambda>x. o_id x = i \<and> P db x) f (shop_orders db) \<rparr>"
  from assms(1) Some obtain d where d: "order_lifecycle (f old) ?d = Inr d" "db' = coupon_release old (f old) d"
    by (auto simp: update_order_def Let_def and_then_Inr)
  from d(1) obtain d1 d2 where s: "lifecycle_hold (f old) ?d = Inr d1" "lifecycle_reward (f old) d1 = Inr d2"
    "d = lifecycle_schedule (f old) d2"
    unfolding order_lifecycle_def and_then_Inr by auto
  have "o_id old = i" "P db old" using sql_first_Some [OF Some] by simp_all
  with assms(2) have "sql_first (\<lambda>h. h_order h = o_id (f old) \<and> h_state h = Held) (holds db) = None"
    if "o_status (f old) \<in> {Paid, Cancelled, Expired}"
    using that by (fastforce simp: sql_first_None sql_exists_def list_ex_iff)
  then have "holds d1 = holds db"
    using s(1) by (auto simp: lifecycle_hold_def settle_hold_def split: if_splits)
  moreover have "holds d2 = holds d1" using s(2) by (auto simp: lifecycle_reward_def split: if_splits option.splits)
  ultimately show ?thesis by (simp add: d(2) s(3) lifecycle_schedule_def coupon_release_def Let_def)
qed

end
