(* ===== verification/Fulfillment_Requests.thy ===== *)
theory Fulfillment_Requests
  imports Frames
begin

text \<open>
  What a paid order asks for, item by item (\<^verbatim>\<open>fulfillmentStatements\<close> of
  \<^verbatim>\<open>src/features/shop-payments/server/service.ts\<close>): stock is reserved, a delivery and,
  where the shop has to buy, a supplier order are created, the buyer's grant is created and for
  downloads and automations activated, and the workers are told through the outbox. The three
  ways an order becomes paid put these statements into their own batch.
\<close>

section \<open>The catalogue\<close>

text \<open>
  The tables of the catalogue and the settings are only read here: how a sellable item is
  sourced, its enabled supplier binding with the currency of the account that would buy it, the
  assets of a download, the channels a price is set for, the exchange rates, and the plan of the
  redeem warehouse a delivery of stock is routed to when it is created (the trigger
  \<^verbatim>\<open>delivery_redeem_route_snapshot\<close> of \<^verbatim>\<open>drizzle/0013\<close>).
\<close>

datatype sourcing = Local_Source | Manual_Source | Supplier_Source

record catalogue =
  ct_sourcing :: "string \<Rightarrow> (sourcing \<times> bool \<times> binding_row option) option"
  ct_assets :: "string \<Rightarrow> string \<Rightarrow> string list"
  ct_alerts :: bool
  ct_currency :: string
  ct_decimals :: nat
  ct_priced :: "string \<Rightarrow> string \<Rightarrow> bool"
  ct_rates :: "exchange_rate list"
  ct_rate_decimals :: "string \<Rightarrow> nat"
  ct_route :: "string \<Rightarrow> string \<Rightarrow> string option"

text \<open>An order item joined with its sellable item and binding; the random ids of its new rows.\<close>

record line =
  ln_item :: item_row
  ln_source :: sourcing
  ln_fallback :: bool
  ln_binding :: "binding_row option"
  ln_route :: "string option"

record fresh_ids =
  fi_delivery :: string
  fi_supply :: string
  fi_entitlement :: string
  fi_grant :: string

definition line_of :: "catalogue \<Rightarrow> item_row \<Rightarrow> line option" where
  "line_of cat item =
     (case ct_sourcing cat (oi_sellable item) of
        None \<Rightarrow> None
      | Some (source, fallback, binding) \<Rightarrow>
          Some \<lparr> ln_item = item, ln_source = source, ln_fallback = fallback, ln_binding = binding,
            ln_route = (if oi_component_type item = Stock_Component then ct_route cat (oi_order item) (oi_component item) else None) \<rparr>)"

definition order_lines :: "catalogue \<Rightarrow> db \<Rightarrow> string \<Rightarrow> line list" where
  "order_lines cat db order_id =
     List.map_filter (line_of cat) (filter (\<lambda>i. oi_order i = order_id) (order_items db))"

definition supplier_binding_ready :: "line \<Rightarrow> bool" where
  "supplier_binding_ready l =
     (case ln_binding l of
        None \<Rightarrow> False
      | Some b \<Rightarrow> '''' \<notin> {bd_id b, bd_provider b, bd_origin b, bd_protocol b, bd_product b, bd_sku b}
          \<and> bd_reference_cost b \<noteq> None \<and> bd_max_cost b \<noteq> None \<and> bd_currency b \<notin> {None, Some ''''})"

definition is_stock :: "line \<Rightarrow> bool" where
  "is_stock l \<longleftrightarrow> oi_component_type (ln_item l) = Stock_Component"

definition supplier_stock :: "line \<Rightarrow> bool" where
  "supplier_stock l \<longleftrightarrow> is_stock l \<and> ln_source l = Supplier_Source"

definition supplier_fallback :: "line \<Rightarrow> bool" where
  "supplier_fallback l \<longleftrightarrow> is_stock l \<and> ln_source l = Local_Source \<and> ln_fallback l \<and> supplier_binding_ready l"

definition use_supplier :: "line \<Rightarrow> bool" where
  "use_supplier l \<longleftrightarrow> supplier_stock l \<or> supplier_fallback l"

definition manual_stock :: "line \<Rightarrow> bool" where
  "manual_stock l \<longleftrightarrow> is_stock l \<and> ln_source l = Manual_Source"

section \<open>Stock\<close>

definition order_paid :: "string \<Rightarrow> db \<Rightarrow> bool" where
  "order_paid order_id db = sql_exists (\<lambda>x. o_id x = order_id \<and> o_status x = Paid) (shop_orders db)"

definition reserved_count :: "db \<Rightarrow> string \<Rightarrow> int" where
  "reserved_count db item_id =
     int (sql_changes (\<lambda>s. st_order_item s = Some item_id \<and> st_status s = Stock_Reserved) (stock db))"

definition reserve_entry :: "string \<Rightarrow> stock_row \<Rightarrow> stock_row" where
  "reserve_entry item_id s = s \<lparr> st_status := Stock_Reserved, st_order_item := Some item_id \<rparr>"

text \<open>
  All that is missing or nothing, unless a supplier fills the rest. The order is not looked at.
\<close>

definition chosen_entries :: "item_row \<Rightarrow> db \<Rightarrow> string set" where
  "chosen_entries item db =
     set (map st_id (take (nat (oi_quantity item - reserved_count db (oi_id item)))
       (sql_ordered (\<lambda>s. (st_created_at s, st_id s))
          (\<lambda>s. st_sellable s = oi_component item \<and> st_status s = Stock_Available) (stock db))))"

definition reserve_stock :: "bool \<Rightarrow> item_row \<Rightarrow> db stmt" where
  "reserve_stock fallback item n db =
     (let enough = fallback \<or> int (available_stock db (oi_component item)) + reserved_count db (oi_id item) \<ge> oi_quantity item;
          chosen = chosen_entries item db;
          hit = (\<lambda>s. enough \<and> st_id s \<in> chosen)
      in Inr (db \<lparr> stock := sql_update hit (reserve_entry (oi_id item)) (stock db) \<rparr>, sql_changes hit (stock db)))"

section \<open>Deliveries and supplier orders\<close>

definition initial_key :: "string \<Rightarrow> string" where
  "initial_key item_id = ''initial:'' @ item_id"

definition insert_delivery :: "delivery_row \<Rightarrow> db \<Rightarrow> (db \<times> nat) result" where
  "insert_delivery d db =
     (if sql_exists (\<lambda>x. d_request_key x = d_request_key d) (deliveries db)
      then Inl (DbAbort ''delivery_records_request_key_uidx'')
      else Inr (db \<lparr> deliveries := deliveries db @ [d] \<rparr>, 1))"

definition initial_status :: "line \<Rightarrow> db \<Rightarrow> delivery_status \<times> string option" where
  "initial_status l db =
     (if \<not> is_stock l then (Delivery_Pending, None)
      else if manual_stock l then (Delivery_Awaiting_Supply, None)
      else if reserved_count db (oi_id (ln_item l)) = oi_quantity (ln_item l) then (Delivery_Pending, None)
      else if use_supplier l then (Delivery_Awaiting_Supply, None)
      else (Delivery_Failed, Some ''inventory_unavailable''))"

definition request_delivery :: "string \<Rightarrow> line \<Rightarrow> string \<Rightarrow> int \<Rightarrow> db stmt" where
  "request_delivery order_id l did now n db =
     (if order_paid order_id db
      then insert_delivery \<lparr> d_id = did, d_order_item = oi_id (ln_item l), d_type = oi_component_type (ln_item l),
             d_request_key = initial_key (oi_id (ln_item l)), d_status = fst (initial_status l db),
             d_error = snd (initial_status l db), d_content = None, d_redeem_sku = ln_route l, d_attempts = 0,
             d_next_attempt_at = Some now, d_delivered_at = None \<rparr> db
      else Inr (db, 0))"

text \<open>One supplier order per item, for what the stock could not give.\<close>

definition insert_supply :: "supply_row \<Rightarrow> db \<Rightarrow> (db \<times> nat) result" where
  "insert_supply s db =
     (if so_quantity s \<le> 0 \<or> (\<exists>c\<in>set_option (so_total_cost s). c < 0) then Inl (DbAbort ''supplier_orders_quantity_check'')
      else if sql_exists (\<lambda>x. so_order_item x = so_order_item s) (supplies db)
      then Inl (DbAbort ''supplier_orders_order_item_uidx'')
      else Inr (db \<lparr> supplies := supplies db @ [s] \<rparr>, 1))"

definition reference_cost :: "line \<Rightarrow> int" where
  "reference_cost l =
     (case ln_binding l of None \<Rightarrow> 0
      | Some b \<Rightarrow> (case bd_reference_cost b of None \<Rightarrow> 0 | Some c \<Rightarrow> c))"

definition request_supply :: "string \<Rightarrow> int \<Rightarrow> line \<Rightarrow> string \<Rightarrow> string \<Rightarrow> db stmt" where
  "request_supply order_id now l did sid n db =
     (let have = reserved_count db (oi_id (ln_item l)); left = oi_quantity (ln_item l) - have
      in if order_paid order_id db \<and> have < oi_quantity (ln_item l)
         then insert_supply \<lparr> so_id = sid, so_order = order_id, so_order_item = oi_id (ln_item l), so_delivery = did,
                so_quantity = left, so_binding = ln_binding l, so_unit_cost = Some (reference_cost l),
                so_total_cost = Some (reference_cost l * left), so_state = Supply_Pending, so_account = None, so_revision = None,
                so_request = None, so_upstream = None, so_attempts = 0, so_selections = 0, so_locked_at = None,
                so_next_retry_at = Some now, so_error = None, so_supplied_at = None \<rparr> db
         else Inr (db, 0))"

section \<open>Downloads\<close>

definition add_snapshot :: "string \<Rightarrow> string \<Rightarrow> snapshot_row list \<Rightarrow> snapshot_row list" where
  "add_snapshot item_id asset t =
     (if sql_exists (\<lambda>s. sn_order_item s = item_id \<and> sn_asset s = Some asset) t then t
      else t @ [\<lparr> sn_order_item = item_id, sn_asset = Some asset \<rparr>])"

definition snapshot_assets :: "catalogue \<Rightarrow> string \<Rightarrow> item_row \<Rightarrow> db stmt" where
  "snapshot_assets cat order_id item n db =
     (if order_paid order_id db
      then (let t = fold (add_snapshot (oi_id item)) (ct_assets cat (oi_component item) (oi_product item)) (snapshots db)
            in Inr (db \<lparr> snapshots := t \<rparr>, length t - length (snapshots db)))
      else Inr (db, 0))"

definition fail_missing_download :: "string \<Rightarrow> db stmt" where
  "fail_missing_download item_id n db =
     (let hit = (\<lambda>d. d_order_item d = item_id \<and> d_status d = Delivery_Pending
                   \<and> \<not> sql_exists (\<lambda>s. sn_order_item s = item_id) (snapshots db))
      in Inr (db \<lparr> deliveries := sql_update hit (\<lambda>d. d \<lparr> d_status := Delivery_Failed,
                 d_error := Some ''download_unavailable'', d_next_attempt_at := None \<rparr>) (deliveries db) \<rparr>,
              sql_changes hit (deliveries db)))"

section \<open>The statements of an item\<close>

definition request_event :: "string \<Rightarrow> string \<Rightarrow> string \<Rightarrow> outbox_row" where
  "request_event type aggregate key =
     \<lparr> ob_type = type, ob_aggregate = aggregate, ob_key = key, ob_status = Outbox_Pending, ob_next_attempt_at = None \<rparr>"

definition delivery_requested :: "string \<Rightarrow> outbox_row" where
  "delivery_requested did = request_event ''delivery.requested'' did (''delivery-requested:'' @ did)"

definition worker_events :: "string \<Rightarrow> line \<Rightarrow> fresh_ids \<Rightarrow> db stmt list" where
  "worker_events order_id l ids =
     (let did = fi_delivery ids; sid = fi_supply ids
      in if use_supplier l
         then [outbox_when (\<lambda>db. sql_exists (\<lambda>d. d_id d = did) (deliveries db)
                   \<and> \<not> sql_exists (\<lambda>s. so_delivery s = did) (supplies db)) False (delivery_requested did),
               outbox_when (\<lambda>db. sql_exists (\<lambda>s. so_id s = sid) (supplies db)) False
                 (request_event ''supplier.requested'' sid (''supplier-requested:'' @ sid))]
         else if manual_stock l then []
         else [outbox_when (order_paid order_id) False (delivery_requested did)])"

definition sale_alert :: "catalogue \<Rightarrow> string \<Rightarrow> db stmt" where
  "sale_alert cat order_id =
     outbox_when (\<lambda>db. order_paid order_id db \<and> ct_alerts cat) True
       (request_event ''owner.sale_alert'' order_id (''owner-sale-order:'' @ order_id))"

definition download_statements :: "catalogue \<Rightarrow> string \<Rightarrow> item_row \<Rightarrow> db stmt list" where
  "download_statements cat order_id item =
     (if oi_component_type item = Download_Component
      then [snapshot_assets cat order_id item, fail_missing_download (oi_id item)] else [])"

definition activation_statements :: "item_row \<Rightarrow> int \<Rightarrow> db stmt list" where
  "activation_statements item now =
     (if oi_component_type item \<in> {Download_Component, Automation_Component}
      then activate_grant_statements (oi_component_type item = Download_Component) (oi_id item) now else [])"

definition fulfillment_statements ::
  "catalogue \<Rightarrow> string \<Rightarrow> int \<Rightarrow> line \<Rightarrow> fresh_ids \<Rightarrow> db stmt list result" where
  "fulfillment_statements cat order_id now l ids =
     (let item = ln_item l
      in if supplier_stock l \<and> \<not> supplier_binding_ready l
         then Inl (DomainError ''supplier_binding_unavailable'' 409)
         else if use_supplier l \<and> reference_cost l * oi_quantity item > int64_max
         then Inl (DomainError ''supplier_cost_out_of_range'' 409)
         else and_then (create_grant_statements order_id item now (fi_entitlement ids) (fi_grant ids)) (\<lambda>(_, grant).
           Inr ((if is_stock l \<and> ln_source l = Local_Source then [reserve_stock (supplier_fallback l) item] else [])
             @ [request_delivery order_id l (fi_delivery ids) now]
             @ (if use_supplier l then [request_supply order_id now l (fi_delivery ids) (fi_supply ids)] else [])
             @ grant @ download_statements cat order_id item @ activation_statements item now
             @ worker_events order_id l ids @ [sale_alert cat order_id])))"

text \<open>The statements of all items, in order; the first item that cannot be requested stops the payment.\<close>

fun fulfill_all :: "catalogue \<Rightarrow> string \<Rightarrow> int \<Rightarrow> (item_row \<Rightarrow> fresh_ids) \<Rightarrow> line list \<Rightarrow> db stmt list result" where
  "fulfill_all cat order_id now fresh [] = Inr []"
| "fulfill_all cat order_id now fresh (l # ls) =
     and_then (fulfillment_statements cat order_id now l (fresh (ln_item l))) (\<lambda>ss.
     and_then (fulfill_all cat order_id now fresh ls) (\<lambda>rest. Inr (ss @ rest)))"

section \<open>What the statements touch\<close>

lemma request_leaves [leaves]:
  "(\<And>d x. T (d \<lparr> stock := x \<rparr>) = T d) \<Longrightarrow> leaves T (reserve_stock fallback item)"
  "(\<And>d x. T (d \<lparr> deliveries := x \<rparr>) = T d) \<Longrightarrow> leaves T (request_delivery i l did now)"
  "(\<And>d x. T (d \<lparr> supplies := x \<rparr>) = T d) \<Longrightarrow> leaves T (request_supply i now l did sid)"
  "(\<And>d x. T (d \<lparr> snapshots := x \<rparr>) = T d) \<Longrightarrow> leaves T (snapshot_assets cat i item)"
  "(\<And>d x. T (d \<lparr> deliveries := x \<rparr>) = T d) \<Longrightarrow> leaves T (fail_missing_download k)"
  by (auto simp: leaves_def reserve_stock_def request_delivery_def insert_delivery_def request_supply_def insert_supply_def
      snapshot_assets_def fail_missing_download_def Let_def split: if_splits)

lemma grant_creation_leaves [leaves]:
  "(\<And>d x. T (d \<lparr> entitlements := x \<rparr>) = T d) \<Longrightarrow> leaves T (create_entitlement i item e)"
  "(\<And>d x. T (d \<lparr> grants := x \<rparr>) = T d) \<Longrightarrow> leaves T (create_grant i item e gid usage access now)"
  "(\<And>d x. T (d \<lparr> entitlements := x \<rparr>) = T d) \<Longrightarrow> leaves T (activate_entitlement ra k now)"
  "(\<And>d x. T (d \<lparr> grants := x \<rparr>) = T d) \<Longrightarrow> leaves T (activate_grant k now)"
  by (auto simp: leaves_def create_entitlement_def create_grant_def insert_entitlement_def insert_grant_def
      activate_entitlement_def activate_grant_def Let_def split: option.splits if_splits)

text \<open>The statements of an item, taken apart.\<close>

lemma fulfillment_parts:
  assumes "fulfillment_statements cat i now l ids = Inr ss"
  obtains usage access where
    "ss = (if is_stock l \<and> ln_source l = Local_Source then [reserve_stock (supplier_fallback l) (ln_item l)] else [])
       @ [request_delivery i l (fi_delivery ids) now]
       @ (if use_supplier l then [request_supply i now l (fi_delivery ids) (fi_supply ids)] else [])
       @ (if oi_renewed_from (ln_item l) = None then [create_entitlement i (ln_item l) (fi_entitlement ids)] else [])
       @ [create_grant i (ln_item l) (case oi_renewed_from (ln_item l) of Some e \<Rightarrow> e | None \<Rightarrow> fi_entitlement ids)
            (fi_grant ids) usage access now]
       @ download_statements cat i (ln_item l) @ activation_statements (ln_item l) now
       @ worker_events i l ids @ [sale_alert cat i]"
  using assms by (auto simp: fulfillment_statements_def create_grant_statements_def and_then_Inr Let_def split: if_splits option.splits)

lemma request_statements_leave:
  assumes "fulfillment_statements cat i now l ids = Inr ss"
    and "\<And>d x. T (d \<lparr> stock := x \<rparr>) = T d" "\<And>d x. T (d \<lparr> deliveries := x \<rparr>) = T d" "\<And>d x. T (d \<lparr> supplies := x \<rparr>) = T d"
      "\<And>d x. T (d \<lparr> entitlements := x \<rparr>) = T d" "\<And>d x. T (d \<lparr> grants := x \<rparr>) = T d" "\<And>d x. T (d \<lparr> snapshots := x \<rparr>) = T d"
      "\<And>d x. T (d \<lparr> outbox := x \<rparr>) = T d"
  shows "\<forall>s\<in>set ss. leaves T s"
  using assms(1)
  by (rule fulfillment_parts)
    (auto simp: download_statements_def activation_statements_def activate_grant_statements_def worker_events_def sale_alert_def Let_def
      intro!: leaves assms(2-) split: if_splits)

lemma fulfill_all_leaves:
  assumes "fulfill_all cat i now fresh ls = Inr ss"
    and "\<And>d x. T (d \<lparr> stock := x \<rparr>) = T d" "\<And>d x. T (d \<lparr> deliveries := x \<rparr>) = T d" "\<And>d x. T (d \<lparr> supplies := x \<rparr>) = T d"
      "\<And>d x. T (d \<lparr> entitlements := x \<rparr>) = T d" "\<And>d x. T (d \<lparr> grants := x \<rparr>) = T d" "\<And>d x. T (d \<lparr> snapshots := x \<rparr>) = T d"
      "\<And>d x. T (d \<lparr> outbox := x \<rparr>) = T d"
  shows "\<forall>s\<in>set ss. leaves T s"
  using assms(1)
proof (induction ls arbitrary: ss)
  case Nil
  then show ?case by simp
next
  case (Cons l ls)
  from Cons.prems obtain as bs where "fulfillment_statements cat i now l (fresh (ln_item l)) = Inr as"
    "fulfill_all cat i now fresh ls = Inr bs" "ss = as @ bs" by (auto simp: and_then_Inr)
  with Cons.IH request_statements_leave [where T = T, OF _ assms(2-)] show ?case by auto
qed

lemma leaves_books:
  assumes "leaves (\<lambda>d. (users d, wallet_entries d, reward_entries d, holds d, refunds d)) s"
  shows "stmt_keeps (books_kept start) s"
proof (rule stmt_keepsI)
  fix n db db' c
  assume k: "books_kept start db" and r: "s n db = Inr (db', c)"
  from leavesD [of s n db db' c, OF r assms] show "books_kept start db'" by (intro books_kept_tables [OF k]) simp_all
qed

lemma fulfill_all_kept:
  assumes "fulfill_all cat i now fresh ls = Inr ss"
  shows "\<forall>s\<in>set ss. stmt_keeps (books_kept start) s"
  using fulfill_all_leaves [where T = "\<lambda>d. (users d, wallet_entries d, reward_entries d, holds d, refunds d)", OF assms]
  by (simp add: leaves_books)

section \<open>What a paid order gets\<close>

text \<open>
  Of an item: one initial delivery, which is pending on stock only when all of it is reserved;
  what the stock does not cover is ordered from the supplier; a new entitlement has its grant.
\<close>

definition key_count :: "string \<Rightarrow> db \<Rightarrow> nat" where
  "key_count key db = sql_changes (\<lambda>d. d_request_key d = key) (deliveries db)"

definition delivery_fits :: "line \<Rightarrow> db \<Rightarrow> delivery_row \<Rightarrow> bool" where
  "delivery_fits l db d \<longleftrightarrow> d_order_item d = oi_id (ln_item l) \<and> d_type d = oi_component_type (ln_item l)
     \<and> (is_stock l \<and> d_status d = Delivery_Pending \<longrightarrow> reserved_count db (oi_id (ln_item l)) = oi_quantity (ln_item l))"

definition delivery_asked :: "line \<Rightarrow> db \<Rightarrow> bool" where
  "delivery_asked l db \<longleftrightarrow>
     (let key = initial_key (oi_id (ln_item l))
      in distinct (map st_id (stock db)) \<and> key_count key db = 1
         \<and> (\<forall>d\<in>set (deliveries db). d_request_key d = key \<longrightarrow> delivery_fits l db d))"

definition supply_asked :: "line \<Rightarrow> db \<Rightarrow> bool" where
  "supply_asked l db \<longleftrightarrow> distinct (map st_id (stock db)) \<and>
     (use_supplier l \<and> reserved_count db (oi_id (ln_item l)) < oi_quantity (ln_item l) \<longrightarrow>
       sql_exists (\<lambda>s. so_order_item s = oi_id (ln_item l)
         \<and> so_quantity s = oi_quantity (ln_item l) - reserved_count db (oi_id (ln_item l))) (supplies db))"

definition grant_asked :: "line \<Rightarrow> db \<Rightarrow> bool" where
  "grant_asked l db \<longleftrightarrow> (oi_renewed_from (ln_item l) = None \<longrightarrow> sql_exists (\<lambda>g. g_order_item g = oi_id (ln_item l)) (grants db))"

definition asked :: "line \<Rightarrow> db \<Rightarrow> bool" where
  "asked l db \<longleftrightarrow> delivery_asked l db \<and> supply_asked l db \<and> grant_asked l db"

lemma leaves_delivery_asked [keeps]:
  assumes "leaves (\<lambda>d. (stock d, deliveries d)) s"
  shows "stmt_keeps (delivery_asked l) s"
proof (rule stmt_keepsI)
  fix n db d c assume i: "delivery_asked l db" and r: "s n db = Inr (d, c)"
  from leavesD [of s n db d c, OF r assms] i show "delivery_asked l d"
    by (simp add: delivery_asked_def key_count_def delivery_fits_def reserved_count_def)
qed

lemma leaves_supply_asked [keeps]:
  assumes "leaves (\<lambda>d. (stock d, supplies d)) s"
  shows "stmt_keeps (supply_asked l) s"
proof (rule stmt_keepsI)
  fix n db d c assume i: "supply_asked l db" and r: "s n db = Inr (d, c)"
  from leavesD [of s n db d c, OF r assms] i show "supply_asked l d" by (simp add: supply_asked_def reserved_count_def)
qed

lemma leaves_grant_asked [keeps]:
  assumes "leaves grants s"
  shows "stmt_keeps (grant_asked l) s"
proof (rule stmt_keepsI)
  fix n db d c assume i: "grant_asked l db" and r: "s n db = Inr (d, c)"
  from leavesD [of s n db d c, OF r assms] i show "grant_asked l d" by (simp add: grant_asked_def)
qed

lemma sql_exists_map: "(\<And>r. P (f r) = P r) \<Longrightarrow> sql_exists P (sql_update Q f t) = sql_exists P t"
  by (induction t) (auto simp: sql_exists_def)

text \<open>Stock reserved for one item is not taken for another.\<close>

lemma sql_changes_map: "(\<And>r. r \<in> set t \<Longrightarrow> P (if Q r then f r else r) = P r) \<Longrightarrow> sql_changes P (sql_update Q f t) = sql_changes P t"
  by (induction t) (auto simp: sql_changes_def)

lemma chosen_available:
  assumes "distinct (map st_id (stock db))" and "s \<in> set (stock db)" and "st_id s \<in> chosen_entries item db"
  shows "st_status s = Stock_Available \<and> st_sellable s = oi_component item"
proof -
  from assms(3) obtain q where q: "q \<in> set (stock db)" "st_sellable q = oi_component item" "st_status q = Stock_Available"
    "st_id q = st_id s" by (auto simp: chosen_entries_def dest!: in_set_takeD)
  with assms(1,2) have "q = s" by (metis keyed_first option.inject)
  with q show ?thesis by simp
qed

lemma reserve_stock_Inr:
  assumes "reserve_stock fallback item n db = Inr (db', c)"
  shows "\<exists>b. db' = db \<lparr> stock := sql_update (\<lambda>s. b \<and> st_id s \<in> chosen_entries item db) (reserve_entry (oi_id item)) (stock db) \<rparr>"
  using assms by (auto simp: reserve_stock_def Let_def)

lemma reserve_stock_ids:
  assumes "reserve_stock fallback item n db = Inr (db', c)"
  shows "map st_id (stock db') = map st_id (stock db)"
proof -
  from reserve_stock_Inr [OF assms] obtain b where
    "db' = db \<lparr> stock := sql_update (\<lambda>s. b \<and> st_id s \<in> chosen_entries item db) (reserve_entry (oi_id item)) (stock db) \<rparr>" ..
  then show ?thesis by (simp add: sql_update_cong_key reserve_entry_def)
qed

lemma reserve_stock_other:
  assumes "reserve_stock fallback item n db = Inr (db', c)" and "distinct (map st_id (stock db))" and "k \<noteq> oi_id item"
  shows "reserved_count db' k = reserved_count db k"
proof -
  from reserve_stock_Inr [OF assms(1)] obtain b where e:
    "db' = db \<lparr> stock := sql_update (\<lambda>s. b \<and> st_id s \<in> chosen_entries item db) (reserve_entry (oi_id item)) (stock db) \<rparr>" ..
  show ?thesis unfolding reserved_count_def e
    using assms(3) chosen_available [OF assms(2), of _ item]
    by (simp, subst sql_changes_map) (auto simp: reserve_entry_def)
qed

lemma reserve_stock_keeps:
  assumes "oi_id item \<noteq> oi_id (ln_item l)"
  shows "stmt_keeps (delivery_asked l) (reserve_stock fallback item)" "stmt_keeps (supply_asked l) (reserve_stock fallback item)"
proof -
  show "stmt_keeps (delivery_asked l) (reserve_stock fallback item)"
  proof (rule stmt_keepsI)
    fix n db db' c assume i: "delivery_asked l db" and r: "reserve_stock fallback item n db = Inr (db', c)"
    have d: "distinct (map st_id (stock db))" using i by (simp add: delivery_asked_def Let_def)
    have t: "deliveries db' = deliveries db" using r by (auto simp: reserve_stock_def Let_def)
    from i show "delivery_asked l db'"
      by (simp add: delivery_asked_def Let_def reserve_stock_ids [OF r] key_count_def delivery_fits_def t
          reserve_stock_other [OF r d assms [symmetric]])
  qed
  show "stmt_keeps (supply_asked l) (reserve_stock fallback item)"
  proof (rule stmt_keepsI)
    fix n db db' c assume i: "supply_asked l db" and r: "reserve_stock fallback item n db = Inr (db', c)"
    have d: "distinct (map st_id (stock db))" using i by (simp add: supply_asked_def)
    have t: "supplies db' = supplies db" using r by (auto simp: reserve_stock_def Let_def)
    from i show "supply_asked l db'"
      by (simp add: supply_asked_def reserve_stock_ids [OF r] t reserve_stock_other [OF r d assms [symmetric]])
  qed
qed

lemma request_delivery_keeps:
  assumes "oi_id (ln_item k) \<noteq> oi_id (ln_item l)"
  shows "stmt_keeps (delivery_asked l) (request_delivery i k did now)"
  using assms by (auto intro!: stmt_keepsI simp: delivery_asked_def Let_def request_delivery_def insert_delivery_def key_count_def
      sql_changes_def delivery_fits_def reserved_count_def initial_key_def split: if_splits)

lemma fail_missing_keeps: "stmt_keeps (delivery_asked l) (fail_missing_download k)"
proof (rule stmt_keepsI)
  fix n db db' c assume i: "delivery_asked l db" and r: "fail_missing_download k n db = Inr (db', c)"
  let ?f = "\<lambda>d. d \<lparr> d_status := Delivery_Failed, d_error := Some ''download_unavailable'', d_next_attempt_at := None \<rparr>"
  from r obtain P where e: "db' = db \<lparr> deliveries := sql_update P ?f (deliveries db) \<rparr>"
    by (auto simp: fail_missing_download_def Let_def)
  have "key_count key db' = key_count key db" for key
    unfolding key_count_def e by (simp, subst sql_changes_map) auto
  moreover have "\<exists>q\<in>set (deliveries db). d_request_key q = d_request_key d \<and> (delivery_fits l db q \<longrightarrow> delivery_fits l db' d)"
    if "d \<in> set (deliveries db')" for d
    using that by (auto simp: e sql_update_def delivery_fits_def reserved_count_def split: if_splits)
  moreover have "stock db' = stock db" by (simp add: e)
  ultimately show "delivery_asked l db'" using i unfolding delivery_asked_def Let_def by metis
qed

lemma request_supply_keeps: "stmt_keeps (supply_asked l) (request_supply i now k did sid)"
  by (auto intro!: stmt_keepsI simp: supply_asked_def request_supply_def insert_supply_def reserved_count_def sql_exists_def Let_def
      split: if_splits)

lemma create_grant_keeps: "stmt_keeps (grant_asked l) (create_grant i item e gid usage access now)"
  by (auto intro!: stmt_keepsI simp: grant_asked_def create_grant_def insert_grant_def sql_exists_def
      split: option.splits if_splits)

lemma activate_grant_keeps: "stmt_keeps (grant_asked l) (activate_grant k now)"
  by (rule stmt_keepsI) (auto simp: grant_asked_def activate_grant_def Let_def sql_exists_map)

text \<open>Once asked, an item stays asked: the statements after it keep what it got, and so do those of other items.\<close>

definition keeps_asked :: "line \<Rightarrow> db stmt \<Rightarrow> bool" where
  "keeps_asked l s \<longleftrightarrow> stmt_keeps (delivery_asked l) s \<and> stmt_keeps (supply_asked l) s \<and> stmt_keeps (grant_asked l) s"

definition late_statements :: "catalogue \<Rightarrow> string \<Rightarrow> line \<Rightarrow> int \<Rightarrow> fresh_ids \<Rightarrow> db stmt list" where
  "late_statements cat i l now ids = download_statements cat i (ln_item l) @ activation_statements (ln_item l) now
     @ worker_events i l ids @ [sale_alert cat i]"

lemma late_keeps: "\<forall>s\<in>set (late_statements cat i k now ids). keeps_asked l s"
  by (auto simp: late_statements_def download_statements_def activation_statements_def activate_grant_statements_def worker_events_def
      sale_alert_def Let_def keeps_asked_def intro!: keeps leaves fail_missing_keeps activate_grant_keeps split: if_splits)

lemma creation_keeps:
  "keeps_asked l (request_supply i now k did sid)" "keeps_asked l (create_entitlement i item e)"
  "keeps_asked l (create_grant i item e gid usage access now)"
  by (auto simp: keeps_asked_def intro!: keeps leaves request_supply_keeps create_grant_keeps)

lemma other_item_keeps:
  assumes "fulfillment_statements cat i now k ids = Inr ss" and "oi_id (ln_item k) \<noteq> oi_id (ln_item l)"
  shows "\<forall>s\<in>set ss. keeps_asked l s"
proof -
  have "keeps_asked l (reserve_stock (supplier_fallback k) (ln_item k))" "keeps_asked l (request_delivery i k (fi_delivery ids) now)"
    using assms(2) by (auto simp: keeps_asked_def intro!: keeps leaves reserve_stock_keeps request_delivery_keeps)
  with assms(1) creation_keeps late_keeps [of cat i k now ids l] show ?thesis
    unfolding late_statements_def by (elim fulfillment_parts) auto
qed

lemma batch_establish:
  assumes "batch_from n (as @ s # bs) db = Inr (db', cs)" and "I db" and "\<forall>a\<in>set as. stmt_keeps I a"
    and "\<And>n d d' c. I d \<Longrightarrow> s n d = Inr (d', c) \<Longrightarrow> P d'" and "\<forall>b\<in>set bs. stmt_keeps P b"
  shows "P db'"
proof -
  from assms(1) obtain mid m c1 c2 where m: "batch_from n as db = Inr (mid, c1)" "batch_from m (s # bs) mid = Inr (db', c2)"
    unfolding batch_append by blast
  from m(2) obtain d c cs' where s: "s m mid = Inr (d, c)" "batch_from c bs d = Inr (db', cs')" by (rule batch_ConsE)
  have "I mid" by (rule batch_from_keeps [where I = I, OF assms(3,2) m(1)])
  from assms(4) [OF this s(1)] show ?thesis by (rule batch_from_keeps [where I = P, OF assms(5) _ s(2)])
qed

definition ready :: "string \<Rightarrow> db \<Rightarrow> bool" where
  "ready i db \<longleftrightarrow> distinct (map st_id (stock db)) \<and> order_paid i db"

lemma leaves_ready [keeps]:
  assumes "leaves (\<lambda>d. (stock d, shop_orders d)) s"
  shows "stmt_keeps (ready i) s"
proof (rule stmt_keepsI)
  fix n db d c assume r: "ready i db" and s: "s n db = Inr (d, c)"
  from leavesD [of s n db d c, OF s assms] r show "ready i d" by (simp add: ready_def order_paid_def)
qed

lemma reserve_ready: "stmt_keeps (ready i) (reserve_stock fallback item)"
  by (rule stmt_keepsI) (auto simp: ready_def order_paid_def reserve_stock_ids dest: reserve_stock_Inr)

lemma late_ready: "\<forall>s\<in>set (late_statements cat i l now ids). stmt_keeps (ready j) s"
  by (auto simp: late_statements_def download_statements_def activation_statements_def activate_grant_statements_def
      worker_events_def sale_alert_def Let_def intro!: keeps leaves)

lemma early_ready:
  "stmt_keeps (ready j) (reserve_stock fallback item)" "stmt_keeps (ready j) (request_delivery i l did now)"
  "stmt_keeps (ready j) (request_supply i now l did sid)" "stmt_keeps (ready j) (create_entitlement i item e)"
  "stmt_keeps (ready j) (create_grant i item e gid usage access now)"
  by (auto intro!: reserve_ready keeps leaves)

lemma fulfillment_ready:
  assumes "fulfillment_statements cat i now l ids = Inr ss"
  shows "\<forall>s\<in>set ss. stmt_keeps (ready i) s"
  using assms early_ready late_ready [of cat i l now ids i]
  unfolding late_statements_def by (elim fulfillment_parts) auto

lemma delivery_established:
  assumes "ready i d" and "request_delivery i l did now n d = Inr (d', c)"
  shows "delivery_asked l d'"
proof -
  let ?q = "\<lparr> d_id = did, d_order_item = oi_id (ln_item l), d_type = oi_component_type (ln_item l),
     d_request_key = initial_key (oi_id (ln_item l)), d_status = fst (initial_status l d),
     d_error = snd (initial_status l d), d_content = None, d_redeem_sku = ln_route l, d_attempts = 0,
     d_next_attempt_at = Some now, d_delivered_at = None \<rparr>"
  from assms have "insert_delivery ?q d = Inr (d', c)" by (simp add: request_delivery_def ready_def)
  then have e: "d' = d \<lparr> deliveries := deliveries d @ [?q] \<rparr>"
    and n: "\<forall>x\<in>set (deliveries d). d_request_key x \<noteq> initial_key (oi_id (ln_item l))"
    by (auto simp: insert_delivery_def sql_exists_def list_ex_iff split: if_splits)
  have "key_count (initial_key (oi_id (ln_item l))) d' = 1"
    using n by (simp add: key_count_def e sql_changes_def)
  moreover have "delivery_fits l d' ?q"
    by (simp add: delivery_fits_def e reserved_count_def [of "d \<lparr> deliveries := _ \<rparr>"])
      (simp add: initial_status_def reserved_count_def split: if_splits)
  ultimately show ?thesis using assms(1) n by (auto simp: delivery_asked_def ready_def e)
qed

lemma supply_established:
  assumes "ready i d" and "request_supply i now l did sid n d = Inr (d', c)"
  shows "supply_asked l d'"
  using assms by (auto simp: ready_def supply_asked_def request_supply_def insert_supply_def reserved_count_def sql_exists_def Let_def
      split: if_splits)

text \<open>The entitlement a grant of item \<open>item\<close> can go to.\<close>

definition entitled :: "string \<Rightarrow> item_row \<Rightarrow> string \<Rightarrow> db \<Rightarrow> bool" where
  "entitled i item e db \<longleftrightarrow> sql_exists (\<lambda>x. o_id x = i \<and> o_status x = Paid
     \<and> sql_exists (\<lambda>q. en_id q = e \<and> en_user q = o_user x \<and> en_sellable q = oi_sellable item) (entitlements db)) (shop_orders db)"

lemma entitlement_established:
  assumes "ready i d" and "create_entitlement i item e n d = Inr (d', c)"
  shows "entitled i item e d'"
proof -
  from assms(1) obtain x where x: "sql_first (\<lambda>x. o_id x = i \<and> o_status x = Paid) (shop_orders d) = Some x"
    by (cases "sql_first (\<lambda>x. o_id x = i \<and> o_status x = Paid) (shop_orders d)")
      (auto simp: ready_def order_paid_def sql_exists_def list_ex_iff sql_first_None)
  from sql_first_Some [OF x] assms(2) show ?thesis
    by (auto simp: create_entitlement_def x insert_entitlement_def entitled_def sql_exists_def list_ex_iff split: if_splits)
qed

lemma grant_established:
  assumes "entitled i item e d" and "create_grant i item e gid usage access now n d = Inr (d', c)" and "ln_item l = item"
  shows "grant_asked l d'"
  using assms by (auto simp: entitled_def create_grant_def insert_grant_def grant_asked_def sql_first_None sql_exists_def list_ex_iff
      split: option.splits if_splits)

lemma item_asked:
  assumes "fulfillment_statements cat i now l ids = Inr ss" and "batch_from n ss db = Inr (db', cs)" and "ready i db"
  shows "asked l db'"
proof -
  from assms(1) obtain usage access where p: "ss =
      (if is_stock l \<and> ln_source l = Local_Source then [reserve_stock (supplier_fallback l) (ln_item l)] else [])
       @ [request_delivery i l (fi_delivery ids) now]
       @ (if use_supplier l then [request_supply i now l (fi_delivery ids) (fi_supply ids)] else [])
       @ (if oi_renewed_from (ln_item l) = None then [create_entitlement i (ln_item l) (fi_entitlement ids)] else [])
       @ [create_grant i (ln_item l) (case oi_renewed_from (ln_item l) of Some e \<Rightarrow> e | None \<Rightarrow> fi_entitlement ids)
            (fi_grant ids) usage access now]
       @ late_statements cat i l now ids"
    unfolding late_statements_def by (rule fulfillment_parts)
  define reserve where "reserve = (if is_stock l \<and> ln_source l = Local_Source then [reserve_stock (supplier_fallback l) (ln_item l)] else [])"
  define buy where "buy = (if use_supplier l then [request_supply i now l (fi_delivery ids) (fi_supply ids)] else [])"
  define entitlement where "entitlement = (if oi_renewed_from (ln_item l) = None then [create_entitlement i (ln_item l) (fi_entitlement ids)] else [])"
  define grant where "grant = create_grant i (ln_item l) (case oi_renewed_from (ln_item l) of Some e \<Rightarrow> e | None \<Rightarrow> fi_entitlement ids)
            (fi_grant ids) usage access now"
  define late where "late = late_statements cat i l now ids"
  let ?request = "request_delivery i l (fi_delivery ids) now"
  have ss: "ss = reserve @ [?request] @ buy @ entitlement @ [grant] @ late"
    using p by (simp add: reserve_def buy_def entitlement_def grant_def late_def)
  have r: "\<forall>s\<in>set (reserve @ [?request]). stmt_keeps (ready i) s"
    by (auto simp: reserve_def intro!: reserve_ready keeps leaves)
  have r': "\<forall>s\<in>set (buy @ entitlement @ [grant]). stmt_keeps (ready i) s"
    by (auto simp: buy_def entitlement_def grant_def intro!: keeps leaves)
  have k: "\<forall>s\<in>set (buy @ entitlement @ [grant] @ late). keeps_asked l s"
    using late_keeps [of cat i l now ids l] creation_keeps by (auto simp: buy_def entitlement_def grant_def late_def)
  have "delivery_asked l db'"
  proof (rule batch_establish [where I = "ready i" and as = reserve and s = ?request and bs = "buy @ entitlement @ [grant] @ late"])
    show "batch_from n (reserve @ ?request # buy @ entitlement @ [grant] @ late) db = Inr (db', cs)" using assms(2) by (simp add: ss)
  qed (use assms(3) r k delivery_established in \<open>auto simp: keeps_asked_def\<close>)
  moreover have "supply_asked l db'"
  proof (cases "use_supplier l")
    case False
    have "ready i db'" if "\<forall>s\<in>set late. stmt_keeps (ready i) s"
      by (rule batch_from_keeps [where I = "ready i", OF _ assms(3) assms(2)]) (use that r r' in \<open>auto simp: ss\<close>)
    moreover have "\<forall>s\<in>set late. stmt_keeps (ready i) s" unfolding late_def by (rule late_ready)
    ultimately show ?thesis using False by (simp add: supply_asked_def ready_def)
  next
    case True
    then have s: "buy = [request_supply i now l (fi_delivery ids) (fi_supply ids)]" by (simp add: buy_def)
    show ?thesis
    proof (rule batch_establish [where I = "ready i" and as = "reserve @ [?request]" and s = "hd buy" and bs = "entitlement @ [grant] @ late"])
      show "batch_from n ((reserve @ [?request]) @ hd buy # entitlement @ [grant] @ late) db = Inr (db', cs)"
        using assms(2) by (simp add: ss s)
    qed (use assms(3) r k s supply_established in \<open>auto simp: keeps_asked_def\<close>)
  qed
  moreover have "grant_asked l db'"
  proof (cases "oi_renewed_from (ln_item l)")
    case (Some e)
    then show ?thesis by (simp add: grant_asked_def)
  next
    case None
    then have s: "entitlement = [create_entitlement i (ln_item l) (fi_entitlement ids)]" by (simp add: entitlement_def)
    have "batch_from n ((reserve @ [?request] @ buy) @ (hd entitlement # grant # late)) db = Inr (db', cs)"
      using assms(2) by (simp add: ss s)
    then obtain mid m c1 c2 where m: "batch_from n (reserve @ [?request] @ buy) db = Inr (mid, c1)"
        "batch_from m (hd entitlement # grant # late) mid = Inr (db', c2)"
      unfolding batch_append [of n "reserve @ [?request] @ buy"] by blast
    from m(2) obtain d1 d2 c3 c4 c5 where e: "create_entitlement i (ln_item l) (fi_entitlement ids) m mid = Inr (d1, c3)"
        "grant c3 d1 = Inr (d2, c4)" "batch_from c4 late d2 = Inr (db', c5)"
      unfolding s list.sel by (elim batch_ConsE) (rule that, assumption+)
    have "ready i mid" by (rule batch_from_keeps [where I = "ready i", OF _ assms(3) m(1)]) (use r r' in auto)
    from entitlement_established [OF this e(1)] have "grant_asked l d2"
      using e(2) grant_established [where l = l] None by (auto simp: grant_def)
    then show ?thesis by (rule batch_from_keeps [where I = "grant_asked l", OF _ _ e(3), rotated]) (use k in \<open>auto simp: keeps_asked_def\<close>)
  qed
  ultimately show ?thesis by (simp add: asked_def)
qed

lemma keeps_asked_batch:
  assumes "\<forall>s\<in>set ss. keeps_asked l s" and "batch_from n ss db = Inr (db', cs)" and "asked l db"
  shows "asked l db'"
  using assms batch_from_keeps [of ss "delivery_asked l" db n db' cs] batch_from_keeps [of ss "supply_asked l" db n db' cs]
    batch_from_keeps [of ss "grant_asked l" db n db' cs] by (simp add: asked_def keeps_asked_def)

text \<open>After the statements of all items every item is asked.\<close>

lemma fulfill_all_asked:
  assumes "fulfill_all cat i now fresh ls = Inr ss" and "batch_from n ss db = Inr (db', cs)" and "ready i db"
    and "distinct (map (\<lambda>l. oi_id (ln_item l)) ls)"
  shows "\<forall>l\<in>set ls. asked l db'"
  using assms
proof (induction ls arbitrary: ss n db cs)
  case Nil
  then show ?case by simp
next
  case (Cons l ls)
  from Cons.prems(1) obtain as bs where f: "fulfillment_statements cat i now l (fresh (ln_item l)) = Inr as"
    "fulfill_all cat i now fresh ls = Inr bs" "ss = as @ bs" by (auto simp: and_then_Inr)
  from Cons.prems(2) obtain mid m c1 c2 where b: "batch_from n as db = Inr (mid, c1)" "batch_from m bs mid = Inr (db', c2)"
    unfolding f(3) batch_append by blast
  have "asked l mid" by (rule item_asked [OF f(1) b(1) Cons.prems(3)])
  moreover have "\<forall>s\<in>set bs. keeps_asked l s"
    using f(2) Cons.prems(4)
  proof (induction ls arbitrary: bs)
    case Nil
    then show ?case by simp
  next
    case (Cons k ks)
    from Cons.prems(1) obtain as bs' where g: "fulfillment_statements cat i now k (fresh (ln_item k)) = Inr as"
      "fulfill_all cat i now fresh ks = Inr bs'" "bs = as @ bs'" by (auto simp: and_then_Inr)
    with Cons.IH [OF g(2)] Cons.prems(2) other_item_keeps [OF g(1), of l] show ?case by auto
  qed
  ultimately have "asked l db'" using keeps_asked_batch b(2) by blast
  moreover have "ready i mid" by (rule batch_from_keeps [where I = "ready i", OF fulfillment_ready [OF f(1)] Cons.prems(3) b(1)])
  ultimately show ?case using Cons.IH [OF f(2) b(2)] Cons.prems(4) by simp
qed

end
