(* ===== verification/Payments.thy ===== *)
theory Payments
  imports Fulfillment_Requests
begin

text \<open>
  How an order is paid (\<^verbatim>\<open>src/features/shop-payments/server/service.ts\<close>): the events
  of payment providers, at most once each, free orders and orders covered by a balance hold,
  payment from the wallet, and the creation of payment attempts for orders and top-ups.
  \<open>env\<close> runs between the reads of a handler and its batch.
\<close>

section \<open>Receipts\<close>

record payment_event =
  ev_id :: string
  ev_payment :: string
  ev_type :: event_type
  ev_amount :: "string option"
  ev_decimal :: "string option"
  ev_currency :: "string option"
  ev_merchant :: "string option"
  ev_digest :: string

text \<open>The answer to the caller: whether the event was a duplicate, and a status.\<close>

type_synonym payment_reply = "bool \<times> string"

definition find_receipt :: "db \<Rightarrow> string \<Rightarrow> string \<Rightarrow> receipt_row option" where
  "find_receipt db channel event_id = sql_first (\<lambda>r. rr_scope r = channel \<and> rr_external r = event_id) (receipts db)"

definition receipt_name :: "receipt_status \<Rightarrow> string" where
  "receipt_name st = (case st of Receipt_Processed \<Rightarrow> ''processed'' | Receipt_Rejected \<Rightarrow> ''rejected'')"

definition present_receipt :: "receipt_row \<Rightarrow> payment_event \<Rightarrow> payment_reply result" where
  "present_receipt r e =
     (if rr_event_type r \<noteq> ev_type e \<or> rr_digest r \<noteq> ev_digest e
      then Inl (DomainError ''payment_replay_conflict'' 409)
      else Inr (True, receipt_name (rr_status r)))"

definition record_receipt :: "string \<Rightarrow> string \<Rightarrow> payment_event \<Rightarrow> receipt_status \<Rightarrow> db stmt" where
  "record_receipt channel attempt e st n db =
     (if find_receipt db channel (ev_id e) \<noteq> None
      then Inl (DbAbort ''replay_receipts_namespace_scope_external_uidx'')
      else Inr (db \<lparr> receipts := receipts db @ [\<lparr> rr_scope = channel, rr_attempt = attempt, rr_external = ev_id e,
                  rr_event_type = ev_type e, rr_digest = ev_digest e, rr_status = st \<rparr>] \<rparr>, 1))"

text \<open>A batch that fails after another request recorded the event is answered with its receipt.\<close>

definition run_event_batch ::
  "string \<Rightarrow> payment_event \<Rightarrow> db stmt list \<Rightarrow> db \<Rightarrow> (receipt_row + nat list) result \<times> db" where
  "run_event_batch channel e ss db =
     (case run_batch ss db of
        Inr (db', changes) \<Rightarrow> (Inr (Inr changes), db')
      | Inl f \<Rightarrow> (case find_receipt db channel (ev_id e) of
                    Some r \<Rightarrow> (Inr (Inl r), db)
                  | None \<Rightarrow> (Inl f, db)))"

definition answer_event ::
  "payment_event \<Rightarrow> (nat list \<Rightarrow> payment_reply result) \<Rightarrow> (receipt_row + nat list) result \<times> db \<Rightarrow> payment_reply result \<times> db" where
  "answer_event e reply r =
     (case r of
        (Inl f, db) \<Rightarrow> (Inl f, db)
      | (Inr (Inl receipt), db) \<Rightarrow> (present_receipt receipt e, db)
      | (Inr (Inr changes), db) \<Rightarrow> (reply changes, db))"

section \<open>What an event is about\<close>

text \<open>SQLite's \<^verbatim>\<open>LIKE\<close>: per cent and underscore are wildcards, ASCII letters match in either case.\<close>

fun sql_like :: "string \<Rightarrow> string \<Rightarrow> bool" where
  "sql_like [] t \<longleftrightarrow> t = []"
| "sql_like (p # ps) [] \<longleftrightarrow> p = CHR ''%'' \<and> sql_like ps []"
| "sql_like (p # ps) (c # cs) \<longleftrightarrow>
     (if p = CHR ''%'' then sql_like ps (c # cs) \<or> sql_like (p # ps) cs
      else (p = CHR ''_'' \<or> upper_char p = upper_char c) \<and> sql_like ps cs)"

definition payment_matches :: "string \<Rightarrow> string option \<Rightarrow> attempt_row \<Rightarrow> bool" where
  "payment_matches payment merchant a \<longleftrightarrow>
     (case pa_provider_payment a of
        None \<Rightarrow> False
      | Some p \<Rightarrow> p = payment \<or> (case merchant of None \<Rightarrow> False | Some m \<Rightarrow> sql_like (''%:'' @ m) p))"

text \<open>The attempt with its order and its top-up.\<close>

definition load_payment_context ::
  "db \<Rightarrow> string \<Rightarrow> string \<Rightarrow> string option \<Rightarrow> (attempt_row \<times> order_row option \<times> topup_row option) result" where
  "load_payment_context db channel payment merchant =
     (case sql_first (\<lambda>a. pa_channel a = channel \<and> payment_matches payment merchant a
             \<and> sql_exists (\<lambda>c. pc_id c = channel) (channels db)) (attempts db) of
        None \<Rightarrow> Inl (DomainError ''payment_attempt_not_found'' 404)
      | Some a \<Rightarrow> Inr (a, (case pa_order a of None \<Rightarrow> None | Some i \<Rightarrow> find_order db i),
                       (case pa_topup a of None \<Rightarrow> None | Some i \<Rightarrow> sql_first (\<lambda>t. tp_id t = i) (topups db))))"

definition epusdt_merchant_order_id :: "string \<Rightarrow> string" where
  "epusdt_merchant_order_id attempt_id = take 32 (filter (\<lambda>c. c \<noteq> CHR ''-'') attempt_id)"

text \<open>\<open>number\<close> is the order number, a text column.\<close>

definition validate_event_money :: "(string \<Rightarrow> string) \<Rightarrow> attempt_row \<Rightarrow> order_row option \<Rightarrow> payment_event \<Rightarrow> unit result" where
  "validate_event_money number a x e =
     (if ev_type e \<noteq> Payment_Succeeded then Inr ()
      else
        (let mismatch = Inl (DomainError ''payment_amount_mismatch'' 400);
             expected = [pa_id a, epusdt_merchant_order_id (pa_id a)] @ (case x of None \<Rightarrow> [] | Some x \<Rightarrow> [number (o_id x)])
         in case (case ev_decimal e of None \<Rightarrow> Inr None
                  | Some d \<Rightarrow> and_then (decimal_to_minor d (int (pa_decimals a))) (\<lambda>u. Inr (Some (big_string u)))) of
              Inl _ \<Rightarrow> mismatch
            | Inr decimal \<Rightarrow>
                (if (ev_amount e = None \<and> decimal = None)
                    \<or> ev_amount e \<notin> {None, Some (big_string (pa_amount a))}
                    \<or> decimal \<notin> {None, Some (big_string (pa_amount a))}
                    \<or> (case ev_currency e of None \<Rightarrow> False | Some c \<Rightarrow> to_upper c \<noteq> to_upper (pa_currency a))
                    \<or> (case ev_merchant e of None \<Rightarrow> False | Some m \<Rightarrow> m \<notin> set expected)
                 then mismatch else Inr ())))"

text \<open>The use of a coupon that an expired order gave back, and whether it can be claimed again.\<close>

definition load_released_coupon_use :: "db \<Rightarrow> string \<Rightarrow> (string \<times> bool) option" where
  "load_released_coupon_use db order_id =
     (case sql_first (\<lambda>r. cr_order r = order_id \<and> cr_status r = Redemption_Released
             \<and> sql_exists (\<lambda>c. cu_id c = cr_coupon r) (coupon_uses db)) (redemptions db) of
        None \<Rightarrow> None
      | Some r \<Rightarrow>
          (case sql_first (\<lambda>c. cu_id c = cr_coupon r) (coupon_uses db) of
             None \<Rightarrow> None
           | Some c \<Rightarrow>
               (let uses = sql_changes (\<lambda>q. cr_coupon q = cr_coupon r \<and> cr_id q \<noteq> cr_id r
                             \<and> cr_status q \<in> {Redemption_Reserved, Redemption_Consumed}
                             \<and> (if cr_user r \<noteq> None then cr_user q = cr_user r else cr_email q = cr_email r)) (redemptions db)
                in Some (cu_id c, (case cu_usage_limit c of None \<Rightarrow> True | Some l \<Rightarrow> cu_used c < l)
                     \<and> (case cu_customer_limit c of None \<Rightarrow> True | Some l \<Rightarrow> uses < l)))))"

definition payment_released :: "db \<Rightarrow> string \<Rightarrow> bool" where
  "payment_released db order_id \<longleftrightarrow>
     sql_exists (\<lambda>h. h_order h = order_id \<and> h_state h = Released) (holds db)
     \<or> sql_exists (\<lambda>r. cr_order r = order_id \<and> cr_status r = Redemption_Released
          \<and> sql_exists (\<lambda>c. cu_id c = cr_coupon r \<and> cu_purpose c = Promotion Recall) (coupon_uses db)) (redemptions db)"

section \<open>Settling an order\<close>

text \<open>A late payment clears the time the order expired.\<close>

definition pay_order :: "bool \<times> int \<Rightarrow> order_row \<Rightarrow> order_row" where
  "pay_order a x =
     (let (clear, now) = a
      in x \<lparr> o_status := Paid, o_paid := o_total x, o_paid_at := Some now,
             o_cancelled_at := (if clear then None else o_cancelled_at x),
             o_version := Suc (o_version x), o_updated_at := now \<rparr>)"

definition order_paid_at :: "string \<Rightarrow> nat \<Rightarrow> db \<Rightarrow> bool" where
  "order_paid_at order_id version = order_is order_id Paid version"

text \<open>
  The event of a provider's payment names its order by a subquery: when the order was not
  settled, the NOT NULL column aborts the batch.
\<close>

definition paid_event :: "string \<Rightarrow> nat \<Rightarrow> order_status \<Rightarrow> string \<Rightarrow> order_event_row" where
  "paid_event order_id version prev type =
     \<lparr> oe_order = order_id, oe_type = type, oe_from = Some prev, oe_to = Some Paid, oe_version = Some version \<rparr>"

definition require_paid_event :: "string \<Rightarrow> nat \<Rightarrow> order_status \<Rightarrow> db stmt" where
  "require_paid_event order_id version prev n db =
     (if order_paid_at order_id version db
      then and_then (insert_order_event (paid_event order_id version prev ''payment_succeeded'') db) (\<lambda>db. Inr (db, 1))
      else Inl (DbAbort ''shop_order_events_order_id''))"

definition succeed_attempt :: "attempt_status set \<Rightarrow> string \<Rightarrow> int \<Rightarrow> db stmt" where
  "succeed_attempt from attempt_id now =
     update_attempt attempt_id (\<lambda>a. pa_status a \<in> from)
       (\<lambda>a. a \<lparr> pa_status := Attempt_Succeeded, pa_succeeded_at := Some now, pa_failure := None, pa_updated_at := now \<rparr>)"

definition reclaim_coupon :: "string \<Rightarrow> string \<Rightarrow> nat \<Rightarrow> db stmt" where
  "reclaim_coupon coupon order_id version n db =
     (let hit = (\<lambda>c. cu_id c = coupon \<and> (case cu_usage_limit c of None \<Rightarrow> True | Some l \<Rightarrow> cu_used c < l)
                   \<and> order_paid_at order_id version db)
      in Inr (db \<lparr> coupon_uses := sql_update hit (\<lambda>c. c \<lparr> cu_used := cu_used c + 1 \<rparr>) (coupon_uses db) \<rparr>,
              sql_changes hit (coupon_uses db)))"

definition require_one_change :: "db stmt" where
  "require_one_change n db = (if n = 1 then Inr (db, n) else Inl (DbAbort ''coupon_reclaim_conflict''))"

definition consume_coupon :: "redemption_status set \<Rightarrow> string \<Rightarrow> db stmt" where
  "consume_coupon from order_id n db =
     (let hit = (\<lambda>r. cr_order r = order_id \<and> cr_status r \<in> from)
      in Inr (db \<lparr> redemptions := sql_update hit (\<lambda>r. r \<lparr> cr_status := Redemption_Consumed \<rparr>) (redemptions db) \<rparr>,
              sql_changes hit (redemptions db)))"

definition announce_paid :: "string \<Rightarrow> nat \<Rightarrow> db stmt" where
  "announce_paid order_id version =
     outbox_when (order_paid_at order_id version) False
       (request_event ''shop_order.paid'' order_id (''shop-order-paid:'' @ order_id @ '':'' @ nat_string version))"

text \<open>The visit that led to the order is credited with its payment.\<close>

definition log_paid_visit :: "string \<Rightarrow> string \<Rightarrow> int \<Rightarrow> db stmt" where
  "log_paid_visit visit order_id now n db =
     (case (sql_first_by (\<lambda>e. (ce_created_at e, ce_id e)) (\<lambda>e. ce_order e = Some order_id \<and> ce_type e = ''order_created'')
              (commerce_events db), find_order db order_id) of
        (Some e, Some x) \<Rightarrow>
          Inr (db \<lparr> commerce_events := commerce_events db @ [\<lparr> ce_id = visit, ce_type = ''payment_succeeded'', ce_session = ce_session e,
                 ce_order = Some order_id, ce_amount = Some (o_total x), ce_created_at = now \<rparr>] \<rparr>, 1)
      | _ \<Rightarrow> Inr (db, 0))"

section \<open>A run of a handler\<close>

text \<open>
  What a handler meets: the requests that run before its batch, the time, the random ids, and the
  attempts of the wallet mutation it may make.
\<close>

record moment =
  mo_env :: "db \<Rightarrow> db"
  mo_now :: int
  mo_fresh :: "item_row \<Rightarrow> fresh_ids"
  mo_visit :: string
  mo_entry :: string
  mo_wallet_env :: "nat \<Rightarrow> db \<Rightarrow> db"
  mo_uuid :: "nat \<Rightarrow> string"
  mo_clock :: "nat \<Rightarrow> int"

definition paid_tail :: "redemption_status set \<Rightarrow> string \<Rightarrow> nat \<Rightarrow> db stmt list \<Rightarrow> db stmt list" where
  "paid_tail from order_id version visit =
     [consume_coupon from order_id, announce_paid order_id version] @ visit @ [unallocated_payment order_id]"

definition settle_statements ::
  "string \<Rightarrow> attempt_row \<Rightarrow> payment_event \<Rightarrow> order_row \<Rightarrow> string option \<Rightarrow> db stmt list \<Rightarrow> string \<Rightarrow> int \<Rightarrow> db stmt list" where
  "settle_statements channel a e x reclaim ss visit now =
     (let i = o_id x; v = Suc (o_version x)
      in [record_receipt channel (pa_id a) e Receipt_Processed,
          succeed_attempt {Attempt_Created, Attempt_Pending, Attempt_Expired} (pa_id a) now,
          update_order i (\<lambda>_ y. o_status y = o_status x \<and> o_version y = o_version x) (pay_order (True, now)),
          require_paid_event i v (o_status x)]
         @ (case reclaim of None \<Rightarrow> [] | Some c \<Rightarrow> [reclaim_coupon c i v, require_one_change])
         @ ss @ paid_tail {Redemption_Reserved, Redemption_Released} i v [log_paid_visit visit i now])"

definition reject_statements :: "string \<Rightarrow> attempt_row \<Rightarrow> payment_event \<Rightarrow> string \<Rightarrow> int \<Rightarrow> db stmt list" where
  "reject_statements channel a e code now =
     [record_receipt channel (pa_id a) e Receipt_Rejected,
      update_attempt (pa_id a) (\<lambda>_. True) (\<lambda>a. a \<lparr> pa_failure := Some code, pa_updated_at := now \<rparr>)]"

definition settle_order_event ::
  "catalogue \<Rightarrow> moment \<Rightarrow> string \<Rightarrow> payment_event \<Rightarrow> attempt_row \<Rightarrow> order_row \<Rightarrow> db \<Rightarrow> payment_reply result \<times> db" where
  "settle_order_event cat m channel e a x db =
     (let now = mo_now m; reclaim = (if o_status x = Expired then load_released_coupon_use db (o_id x) else None)
      in if (case reclaim of None \<Rightarrow> False | Some (_, available) \<Rightarrow> \<not> available)
         then answer_event e (\<lambda>_. Inr (False, ''reconciliation_required''))
                (run_event_batch channel e (reject_statements channel a e ''coupon_reclaim_required'' now) (mo_env m db))
         else
           (case fulfill_all cat (o_id x) now (mo_fresh m) (order_lines cat db (o_id x)) of
              Inl f \<Rightarrow> (Inl f, db)
            | Inr ss \<Rightarrow>
                answer_event e (\<lambda>changes. if changes ! 2 < 1 then Inl (DomainError ''order_version_conflict'' 409)
                                         else Inr (False, ''succeeded''))
                  (run_event_batch channel e (settle_statements channel a e x (map_option fst reclaim) ss (mo_visit m) now)
                     (mo_env m db))))"

definition update_topup :: "string \<Rightarrow> (topup_row \<Rightarrow> topup_row) \<Rightarrow> db stmt" where
  "update_topup topup_id f n db =
     (let hit = (\<lambda>t. tp_id t = topup_id \<and> tp_status t = Topup_Pending)
      in Inr (db \<lparr> topups := sql_update hit f (topups db) \<rparr>, sql_changes hit (topups db)))"

definition topup_credit :: "topup_row \<Rightarrow> wallet_mutation" where
  "topup_credit t = \<lparr> wm_user = tp_user t, wm_direction = Credit, wm_amount = big_string (tp_amount t),
     wm_currency = tp_currency t, wm_source = Src_Topup, wm_source_id = tp_id t, wm_key = ''wallet-topup:'' @ tp_id t \<rparr>"

text \<open>The wallet is credited first, under a key of the top-up, then the event is recorded.\<close>

definition settle_topup_event ::
  "moment \<Rightarrow> string \<Rightarrow> payment_event \<Rightarrow> attempt_row \<Rightarrow> topup_row \<Rightarrow> db \<Rightarrow> payment_reply result \<times> db" where
  "settle_topup_event m channel e a t db =
     (let now = mo_now m
      in if tp_status t \<noteq> Topup_Pending then (Inl (DomainError ''topup_not_payable'' 409), db)
         else
           (case mutate_wallet (mo_wallet_env m) (mo_uuid m) (mo_clock m) (topup_credit t) db of
              (Inl f, db) \<Rightarrow> (Inl f, db)
            | (Inr _, db) \<Rightarrow>
                answer_event e (\<lambda>_. Inr (False, ''succeeded''))
                  (run_event_batch channel e
                     [record_receipt channel (pa_id a) e Receipt_Processed,
                      succeed_attempt {Attempt_Created, Attempt_Pending} (pa_id a) now,
                      update_topup (tp_id t) (\<lambda>t. t \<lparr> tp_status := Topup_Paid, tp_paid_at := Some now, tp_updated_at := now \<rparr>)]
                     (mo_env m db))))"

text \<open>A failed or expired payment closes its attempt and its top-up.\<close>

definition close_statements :: "string \<Rightarrow> attempt_row \<Rightarrow> payment_event \<Rightarrow> int \<Rightarrow> db stmt list" where
  "close_statements channel a e now =
     (let expired = (ev_type e = Payment_Expired)
      in [record_receipt channel (pa_id a) e Receipt_Processed,
          update_attempt (pa_id a) (\<lambda>a. pa_status a \<in> {Attempt_Created, Attempt_Pending})
            (\<lambda>a. a \<lparr> pa_status := (if expired then Attempt_Expired else Attempt_Failed),
                     pa_failure := Some (if expired then ''payment_expired'' else ''payment_failed''), pa_updated_at := now \<rparr>)]
         @ (case pa_topup a of None \<Rightarrow> []
            | Some i \<Rightarrow> [update_topup i (\<lambda>t. t \<lparr> tp_status := (if expired then Topup_Expired else Topup_Failed), tp_updated_at := now \<rparr>)]))"

definition process_payment_event ::
  "catalogue \<Rightarrow> (string \<Rightarrow> string) \<Rightarrow> moment \<Rightarrow> string \<Rightarrow> payment_event \<Rightarrow> db \<Rightarrow> payment_reply result \<times> db" where
  "process_payment_event cat number m channel e db =
     (case find_receipt db channel (ev_id e) of
        Some r \<Rightarrow> (present_receipt r e, db)
      | None \<Rightarrow>
          (case load_payment_context db channel (ev_payment e) (ev_merchant e) of
             Inl f \<Rightarrow> (Inl f, db)
           | Inr (a, x, t) \<Rightarrow>
               (case validate_event_money number a x e of
                  Inl f \<Rightarrow> (Inl f, db)
                | Inr _ \<Rightarrow>
                    (let record = [record_receipt channel (pa_id a) e Receipt_Processed]; now = mo_now m
                     in if ev_type e = Payment_Succeeded \<and> (case x of None \<Rightarrow> False | Some x \<Rightarrow> payment_released db (o_id x))
                        then (case run_event_batch channel e
                                     (reject_statements channel a e ''payment_reconciliation_required'' now) (mo_env m db) of
                                (Inl f, db) \<Rightarrow> (Inl f, db)
                              | (Inr _, db) \<Rightarrow> (Inr (False, ''reconciliation_required''), db))
                        else if pa_status a = Attempt_Succeeded
                        then answer_event e (\<lambda>_. Inr (True, ''processed'')) (run_event_batch channel e record (mo_env m db))
                        else if ev_type e = Payment_Pending
                        then answer_event e (\<lambda>_. Inr (False, ''pending'')) (run_event_batch channel e record (mo_env m db))
                        else if ev_type e \<noteq> Payment_Succeeded
                        then answer_event e (\<lambda>_. Inr (False, if ev_type e = Payment_Expired then ''expired'' else ''failed''))
                               (run_event_batch channel e (close_statements channel a e now) (mo_env m db))
                        else
                          (case (t, x) of
                             (Some t, _) \<Rightarrow>
                               (if tp_user t \<noteq> [] \<and> tp_currency t \<noteq> [] then settle_topup_event m channel e a t db
                                else (Inl (DomainError ''payment_subject_invalid'' 409), db))
                           | (None, Some x) \<Rightarrow>
                               (if o_status x \<notin> {Pending_Payment, Expired} then (Inl (DomainError ''order_not_payable'' 409), db)
                                else settle_order_event cat m channel e a x db)
                           | (None, None) \<Rightarrow> (Inl (DomainError ''payment_subject_invalid'' 409), db))))))"

section \<open>Orders without a provider\<close>

definition full_hold :: "db \<Rightarrow> string \<Rightarrow> string \<Rightarrow> bool" where
  "full_hold db order_id user_id =
     sql_exists (\<lambda>h. h_order h = order_id \<and> h_user h = user_id \<and> h_external h = 0 \<and> h_state h \<in> {Held, Consumed}) (holds db)"

definition free_statements :: "order_row \<Rightarrow> db stmt list \<Rightarrow> string \<Rightarrow> int \<Rightarrow> db stmt list" where
  "free_statements x ss visit now =
     (let i = o_id x; v = Suc (o_version x)
      in [update_order i (\<lambda>db y. o_status y = Pending_Payment \<and> o_version y = o_version x
            \<and> (o_total y = 0 \<or> sql_exists (\<lambda>h. h_order h = i \<and> h_external h = 0 \<and> h_state h = Held) (holds db)))
            (pay_order (False, now)),
          event_when (order_paid_at i v) (paid_event i v Pending_Payment ''payment_not_required'')]
         @ ss @ paid_tail {Redemption_Reserved} i v [log_paid_visit visit i now])"

definition paid_status_name :: "order_status \<Rightarrow> string" where
  "paid_status_name st = (if st = Paid then ''paid'' else if st = Fulfilling then ''fulfilling'' else ''completed'')"

definition complete_free_store_order ::
  "catalogue \<Rightarrow> moment \<Rightarrow> string \<Rightarrow> string option \<Rightarrow> db \<Rightarrow> payment_reply result \<times> db" where
  "complete_free_store_order cat m order_id balance_user db =
     (case find_order db order_id of
        None \<Rightarrow> (Inl (DomainError ''order_not_found'' 404), db)
      | Some x \<Rightarrow>
          (let held = (case balance_user of None \<Rightarrow> False | Some u \<Rightarrow> u \<noteq> [] \<and> full_hold db order_id u)
           in if o_total x \<noteq> 0 \<and> \<not> held then (Inl (DomainError ''order_payment_required'' 409), db)
              else if o_status x \<in> {Paid, Completed} then (Inr (True, paid_status_name (o_status x)), db)
              else if o_status x \<noteq> Pending_Payment then (Inl (DomainError ''order_not_payable'' 409), db)
              else
                (case fulfill_all cat (o_id x) (mo_now m) (mo_fresh m) (order_lines cat db (o_id x)) of
                   Inl f \<Rightarrow> (Inl f, db)
                 | Inr ss \<Rightarrow>
                     (let db = mo_env m db
                      in case run_batch (free_statements x ss (mo_visit m) (mo_now m)) db of
                           Inl f \<Rightarrow> (Inl f, db)
                         | Inr (db', changes) \<Rightarrow>
                             (if changes ! 0 < 1 then (Inl (DomainError ''order_version_conflict'' 409), db')
                              else (Inr (False, ''paid''), db'))))))"

section \<open>Payment from the wallet\<close>

definition order_wallet_key :: "string \<Rightarrow> string" where
  "order_wallet_key order_id = ''wallet-order:'' @ order_id"

text \<open>\<^verbatim>\<open>INSERT INTO wallet_entries ... FROM users WHERE id AND balance_version AND balance_minor AND changes() = 1\<close>.\<close>

definition record_debit :: "nat \<Rightarrow> wallet_entry \<Rightarrow> db stmt" where
  "record_debit version e n db =
     (if n = 1 \<and> sql_exists (\<lambda>u. u_id u = we_user e \<and> u_version u = version \<and> u_balance u = we_after e) (users db)
      then and_then (insert_wallet_entry e db) (\<lambda>db. Inr (db, 1)) else Inr (db, 0))"

definition order_debit :: "order_row \<Rightarrow> user_row \<Rightarrow> string \<Rightarrow> string \<Rightarrow> int \<Rightarrow> wallet_entry" where
  "order_debit x u currency entry now =
     \<lparr> we_id = Given entry, we_user = u_id u, we_direction = Debit, we_amount = o_total x, we_before = u_balance u,
       we_after = u_balance u - o_total x, we_currency = currency, we_source = Src_Shop_Order, we_source_id = o_id x,
       we_key = order_wallet_key (o_id x), we_created_at = now \<rparr>"

definition debit_for_order :: "order_row \<Rightarrow> user_row \<Rightarrow> int \<Rightarrow> db stmt" where
  "debit_for_order x u now n db =
     update_balance (\<lambda>w. u_enabled w \<and> order_is (o_id x) Pending_Payment (o_version x) db) (u_id u) (u_version u)
       (u_balance u - o_total x) now n db"

definition wallet_payment_statements :: "order_row \<Rightarrow> user_row \<Rightarrow> db stmt list \<Rightarrow> string \<Rightarrow> string \<Rightarrow> int \<Rightarrow> db stmt list" where
  "wallet_payment_statements x u ss currency entry now =
     (let i = o_id x; v = Suc (o_version x)
      in [debit_for_order x u now,
          record_debit (Suc (u_version u)) (order_debit x u currency entry now),
          update_order i (\<lambda>db y. o_status y = Pending_Payment \<and> o_version y = o_version x
            \<and> sql_exists (\<lambda>e. we_key e = order_wallet_key i) (wallet_entries db)) (pay_order (False, now)),
          event_when (order_paid_at i v) (paid_event i v Pending_Payment ''wallet_payment_succeeded'')]
         @ ss @ paid_tail {Redemption_Reserved} i v [])"

definition complete_wallet_store_order ::
  "catalogue \<Rightarrow> moment \<Rightarrow> string \<Rightarrow> string \<Rightarrow> db \<Rightarrow> payment_reply result \<times> db" where
  "complete_wallet_store_order cat m order_id user_id db =
     (case find_order db order_id of
        None \<Rightarrow> (Inl (DomainError ''order_not_found'' 404), db)
      | Some x \<Rightarrow>
          (if o_user x \<noteq> Some user_id then (Inl (DomainError ''order_not_found'' 404), db)
           else if o_status x \<in> {Paid, Fulfilling, Completed} then (Inr (True, paid_status_name (o_status x)), db)
           else if o_status x \<noteq> Pending_Payment then (Inl (DomainError ''order_not_payable'' 409), db)
           else if find_hold db order_id \<noteq> None then (Inl (DomainError ''wallet_hold_conflict'' 409), db)
           else if o_currency x \<noteq> ct_currency cat then (Inl (DomainError ''wallet_currency_mismatch'' 409), db)
           else
             (case find_user db user_id of
                None \<Rightarrow> (Inl (DomainError ''wallet_user_not_found'' 404), db)
              | Some u \<Rightarrow>
                  (if u_balance u < o_total x then (Inl (DomainError ''wallet_insufficient_balance'' 409), db)
                   else
                     (case fulfill_all cat order_id (mo_now m) (mo_fresh m) (order_lines cat db order_id) of
                        Inl f \<Rightarrow> (Inl f, db)
                      | Inr ss \<Rightarrow>
                          (let db = mo_env m db
                           in case run_batch (wallet_payment_statements x u ss (ct_currency cat) (mo_entry m) (mo_now m)) db of
                                Inl f \<Rightarrow> (Inl f, db)
                              | Inr (db', changes) \<Rightarrow>
                                  (if changes ! 0 < 1
                                   then (case find_order db' order_id of
                                           Some y \<Rightarrow> (if o_status y \<in> {Paid, Fulfilling, Completed}
                                                     then (Inr (True, paid_status_name (o_status y)), db')
                                                     else (Inl (DomainError ''order_version_conflict'' 409), db'))
                                         | None \<Rightarrow> (Inl (DomainError ''order_version_conflict'' 409), db'))
                                   else (Inr (False, ''paid''), db'))))))))"

section \<open>What the statements touch\<close>

lemma quiet_attempt_Inr:
  assumes "update_attempt i P f n db = Inr (db', c)"
    and "\<And>a. P a \<Longrightarrow> pa_status (f a) = Attempt_Succeeded \<or> pa_status (f a) = pa_status a"
  shows "db' = db \<lparr> attempts := sql_update (\<lambda>a. pa_id a = i \<and> P a) f (attempts db) \<rparr>"
proof (cases "sql_first (\<lambda>a. pa_id a = i \<and> P a) (attempts db)")
  case None
  with assms(1) show ?thesis by (auto simp: update_attempt_def sql_first_None sql_update_none)
next
  case (Some old)
  then have "P old" using sql_first_Some [OF Some] by simp
  from assms(2) [OF this] have "attempt_failed_release old (f old) d = Inr d" for d
    by (auto simp: attempt_failed_release_def)
  with assms(1) Some show ?thesis by (simp add: update_attempt_def)
qed

lemma quiet_attempt_leaves:
  assumes "\<And>a. P a \<Longrightarrow> pa_status (f a) = Attempt_Succeeded \<or> pa_status (f a) = pa_status a"
    and "\<And>d x. T (d \<lparr> attempts := x \<rparr>) = T d"
  shows "leaves T (update_attempt i P f)"
  unfolding leaves_def using quiet_attempt_Inr [of i P f, OF _ assms(1)] assms(2) by metis

lemma payment_leaves [leaves]:
  "(\<And>d x. T (d \<lparr> receipts := x \<rparr>) = T d) \<Longrightarrow> leaves T (record_receipt channel i e st)"
  "(\<And>d x. T (d \<lparr> attempts := x \<rparr>) = T d) \<Longrightarrow> leaves T (succeed_attempt from i now)"
  "(\<And>d x. T (d \<lparr> order_events := x \<rparr>) = T d) \<Longrightarrow> leaves T (require_paid_event k v prev)"
  "(\<And>d x. T (d \<lparr> coupon_uses := x \<rparr>) = T d) \<Longrightarrow> leaves T (reclaim_coupon coupon k v)"
  "leaves T require_one_change"
  "(\<And>d x. T (d \<lparr> redemptions := x \<rparr>) = T d) \<Longrightarrow> leaves T (consume_coupon from' k)"
  "(\<And>d x. T (d \<lparr> outbox := x \<rparr>) = T d) \<Longrightarrow> leaves T (announce_paid k v)"
  "(\<And>d x. T (d \<lparr> commerce_events := x \<rparr>) = T d) \<Longrightarrow> leaves T (log_paid_visit visit k now)"
  "(\<And>d x. T (d \<lparr> topups := x \<rparr>) = T d) \<Longrightarrow> leaves T (update_topup k g)"
  unfolding succeed_attempt_def announce_paid_def
  by (auto simp: leaves_def record_receipt_def require_paid_event_def and_then_Inr insert_order_event_def reclaim_coupon_def
      require_one_change_def consume_coupon_def log_paid_visit_def update_topup_def Let_def outbox_when_def insert_outbox_def
      split: if_splits option.splits dest!: quiet_attempt_Inr)

lemma paid_tail_leaves:
  assumes "\<And>d x. T (d \<lparr> redemptions := x \<rparr>) = T d" "\<And>d x. T (d \<lparr> outbox := x \<rparr>) = T d"
    "\<And>d x. T (d \<lparr> commerce_events := x \<rparr>) = T d" "\<And>d x. T (d \<lparr> capacity := x \<rparr>) = T d"
    and "visit \<in> {[], [log_paid_visit w i now]}"
  shows "\<forall>s\<in>set (paid_tail from i v visit). leaves T s"
  using assms(5) by (auto simp: paid_tail_def intro!: leaves assms(1-4))

section \<open>A settled event\<close>

lemma record_receipt_Inr:
  "record_receipt channel i e st n db = Inr (db', c) \<longleftrightarrow> find_receipt db channel (ev_id e) = None \<and> c = 1
     \<and> db' = db \<lparr> receipts := receipts db @ [\<lparr> rr_scope = channel, rr_attempt = i, rr_external = ev_id e,
                  rr_event_type = ev_type e, rr_digest = ev_digest e, rr_status = st \<rparr>] \<rparr>"
  by (auto simp: record_receipt_def)

lemma find_receipt_new:
  assumes "record_receipt channel i e st n db = Inr (db', c)"
  shows "\<exists>r. find_receipt db' channel (ev_id e) = Some r \<and> rr_event_type r = ev_type e \<and> rr_digest r = ev_digest e \<and> rr_status r = st"
  using assms unfolding record_receipt_Inr by (auto simp: find_receipt_def sql_first_append)

lemma settle_steps:
  assumes "run_batch (settle_statements channel a e x reclaim ss visit now) db = Inr (db', cs)"
    and "fulfill_all cat (o_id x) now fresh ls = Inr ss"
  obtains d1 c1 d2 c2 d3 c3 d4 c4 d5 c5 c6 c7 cs' cs'' where
    "record_receipt channel (pa_id a) e Receipt_Processed 0 db = Inr (d1, c1)"
    "succeed_attempt {Attempt_Created, Attempt_Pending, Attempt_Expired} (pa_id a) now c1 d1 = Inr (d2, c2)"
    "update_order (o_id x) (\<lambda>_ y. o_status y = o_status x \<and> o_version y = o_version x) (pay_order (True, now)) c2 d2 = Inr (d3, c3)"
    "require_paid_event (o_id x) (Suc (o_version x)) (o_status x) c3 d3 = Inr (d4, c4)"
    "batch_from c4 (case reclaim of None \<Rightarrow> [] | Some c \<Rightarrow> [reclaim_coupon c (o_id x) (Suc (o_version x)), require_one_change]) d4 = Inr (d5, cs'')"
    "batch_from c5 (ss @ paid_tail {Redemption_Reserved, Redemption_Released} (o_id x) (Suc (o_version x)) [log_paid_visit visit (o_id x) now]) d5
       = Inr (db', cs')"
    "cs ! 2 = c3"
proof -
  let ?reclaim = "case reclaim of None \<Rightarrow> [] | Some c \<Rightarrow> [reclaim_coupon c (o_id x) (Suc (o_version x)), require_one_change]"
  let ?rest = "ss @ paid_tail {Redemption_Reserved, Redemption_Released} (o_id x) (Suc (o_version x)) [log_paid_visit visit (o_id x) now]"
  from assms(1) obtain d1 c1 d2 c2 d3 c3 d4 c4 cs1 where
    s: "record_receipt channel (pa_id a) e Receipt_Processed 0 db = Inr (d1, c1)"
    "succeed_attempt {Attempt_Created, Attempt_Pending, Attempt_Expired} (pa_id a) now c1 d1 = Inr (d2, c2)"
    "update_order (o_id x) (\<lambda>_ y. o_status y = o_status x \<and> o_version y = o_version x) (pay_order (True, now)) c2 d2 = Inr (d3, c3)"
    "require_paid_event (o_id x) (Suc (o_version x)) (o_status x) c3 d3 = Inr (d4, c4)"
    "batch_from c4 (?reclaim @ ?rest) d4 = Inr (db', cs1)" "cs = c1 # c2 # c3 # c4 # cs1"
    unfolding run_batch_def settle_statements_def Let_def append_Cons append_Nil
    by (elim batch_ConsE) (rule that, assumption+, simp)
  from s(5) obtain d5 c5 cs2 cs3 where "batch_from c4 ?reclaim d4 = Inr (d5, cs2)" "batch_from c5 ?rest d5 = Inr (db', cs3)"
    unfolding batch_append [of c4 ?reclaim] by blast
  with s show thesis by (intro that) auto
qed

definition kept_paid :: "db \<Rightarrow> order_row list \<times> receipt_row list \<times> order_event_row list \<times> attempt_row list" where
  "kept_paid d = (shop_orders d, receipts d, order_events d, attempts d)"

lemma fulfilled_tail_leaves:
  assumes "fulfill_all cat i now fresh ls = Inr ss" and "visit \<in> {[], [log_paid_visit w i now']}"
  shows "\<forall>s\<in>set (ss @ paid_tail from i v visit). leaves kept_paid s"
  using fulfill_all_leaves [OF assms(1), where T = kept_paid] paid_tail_leaves [where T = kept_paid, OF _ _ _ _ assms(2)]
  by (auto simp: kept_paid_def)

lemma tail_asked:
  assumes "visit \<in> {[], [log_paid_visit w i now']}"
  shows "\<forall>s\<in>set (paid_tail from i v visit). keeps_asked l s"
  using assms by (auto simp: paid_tail_def keeps_asked_def intro!: keeps leaves)

lemma fulfilled_tail_asked:
  assumes "fulfill_all cat i now fresh ls = Inr ss" and "batch_from n (ss @ paid_tail from i v visit) db = Inr (db', cs)"
    and "ready i db" and "distinct (map (\<lambda>l. oi_id (ln_item l)) ls)" and "visit \<in> {[], [log_paid_visit w i now']}"
  shows "\<forall>l\<in>set ls. asked l db'"
proof
  fix l assume l: "l \<in> set ls"
  from assms(2) obtain mid m c1 c2 where b: "batch_from n ss db = Inr (mid, c1)"
      "batch_from m (paid_tail from i v visit) mid = Inr (db', c2)" unfolding batch_append by blast
  from fulfill_all_asked [OF assms(1) b(1) assms(3,4)] l have "asked l mid" by blast
  then show "asked l db'" by (rule keeps_asked_batch [OF tail_asked [OF assms(5)] b(2)])
qed

lemma lines_distinct:
  assumes "distinct (map oi_id (order_items db))"
  shows "distinct (map (\<lambda>l. oi_id (ln_item l)) (order_lines cat db i))"
proof -
  have "map (\<lambda>l. oi_id (ln_item l)) (List.map_filter (line_of cat) xs) = map oi_id (filter (\<lambda>i. line_of cat i \<noteq> None) xs)" for xs
    by (induction xs) (auto simp: map_filter_simps line_of_def split: option.splits)
  moreover have "distinct (map oi_id (filter P (filter Q (order_items db))))" for P Q
    using assms by (intro distinct_map_filter)
  ultimately show ?thesis by (simp add: order_lines_def)
qed

text \<open>A batch whose update found the order it was decided on.\<close>

lemma settle_effect:
  assumes "run_batch (settle_statements channel a e x reclaim ss visit now) db = Inr (db', cs)"
    and "fulfill_all cat (o_id x) now fresh ls = Inr ss" and "0 < cs ! 2"
  shows "order_is (o_id x) (o_status x) (o_version x) db"
    and "\<exists>y\<in>set (shop_orders db'). o_id y = o_id x \<and> o_status y = Paid \<and> o_version y = Suc (o_version x) \<and> o_paid y = o_total y"
    and "order_events db' = order_events db @ [paid_event (o_id x) (Suc (o_version x)) (o_status x) ''payment_succeeded'']"
    and "attempts db' = sql_update (\<lambda>b. pa_id b = pa_id a \<and> pa_status b \<in> {Attempt_Created, Attempt_Pending, Attempt_Expired})
       (\<lambda>b. b \<lparr> pa_status := Attempt_Succeeded, pa_succeeded_at := Some now, pa_failure := None, pa_updated_at := now \<rparr>) (attempts db)"
    and "distinct (map st_id (stock db)) \<Longrightarrow> distinct (map (\<lambda>l. oi_id (ln_item l)) ls) \<Longrightarrow> \<forall>l\<in>set ls. asked l db'"
proof -
  obtain d1 c1 d2 c2 d3 c3 d4 c4 d5 c5 cs' cs'' where
    s: "record_receipt channel (pa_id a) e Receipt_Processed 0 db = Inr (d1, c1)"
    "succeed_attempt {Attempt_Created, Attempt_Pending, Attempt_Expired} (pa_id a) now c1 d1 = Inr (d2, c2)"
    "update_order (o_id x) (\<lambda>_ y. o_status y = o_status x \<and> o_version y = o_version x) (pay_order (True, now)) c2 d2 = Inr (d3, c3)"
    "require_paid_event (o_id x) (Suc (o_version x)) (o_status x) c3 d3 = Inr (d4, c4)"
    "batch_from c4 (case reclaim of None \<Rightarrow> [] | Some c \<Rightarrow> [reclaim_coupon c (o_id x) (Suc (o_version x)), require_one_change]) d4 = Inr (d5, cs'')"
    "batch_from c5 (ss @ paid_tail {Redemption_Reserved, Redemption_Released} (o_id x) (Suc (o_version x)) [log_paid_visit visit (o_id x) now]) d5
       = Inr (db', cs')" and c: "cs ! 2 = c3"
    by (rule settle_steps [OF assms(1,2)]) (rule that)
  from s(1) have d1: "shop_orders d1 = shop_orders db" "attempts d1 = attempts db" "order_events d1 = order_events db" "stock d1 = stock db"
    by (auto simp: record_receipt_Inr)
  have d2: "d2 = d1 \<lparr> attempts := sql_update (\<lambda>b. pa_id b = pa_id a \<and> pa_status b \<in> {Attempt_Created, Attempt_Pending, Attempt_Expired})
       (\<lambda>b. b \<lparr> pa_status := Attempt_Succeeded, pa_succeeded_at := Some now, pa_failure := None, pa_updated_at := now \<rparr>) (attempts d1) \<rparr>"
    by (rule quiet_attempt_Inr [OF s(2) [unfolded succeed_attempt_def]]) simp
  note u = update_order_Inr [OF s(3)]
  from u(3) c assms(3) have "sql_exists (\<lambda>y. o_id y = o_id x \<and> o_status y = o_status x \<and> o_version y = o_version x) (shop_orders d2)"
    by (auto split: if_splits)
  then obtain y where y: "y \<in> set (shop_orders db)" "o_id y = o_id x" "o_status y = o_status x" "o_version y = o_version x"
    by (auto simp: sql_exists_def list_ex_iff d2 d1)
  then show "order_is (o_id x) (o_status x) (o_version x) db" by (auto simp: order_is_def sql_exists_def list_ex_iff)
  from s(4) have d4: "d4 = d3 \<lparr> order_events := order_events d3 @ [paid_event (o_id x) (Suc (o_version x)) (o_status x) ''payment_succeeded''] \<rparr>"
    by (auto simp: require_paid_event_def and_then_Inr insert_order_event_def split: if_splits)
  have "\<forall>s\<in>set (case reclaim of None \<Rightarrow> [] | Some c \<Rightarrow> [reclaim_coupon c (o_id x) (Suc (o_version x)), require_one_change]).
      leaves (\<lambda>d. (kept_paid d, stock d)) s"
    by (auto simp: kept_paid_def intro!: leaves split: option.splits)
  from leaves_batch [OF s(5) this] have d5: "shop_orders d5 = shop_orders d4" "order_events d5 = order_events d4" "attempts d5 = attempts d4"
      "stock d5 = stock d4" by (simp_all add: kept_paid_def)
  from leaves_batch [OF s(6) fulfilled_tail_leaves [OF assms(2)], of visit now]
  have d6: "shop_orders db' = shop_orders d5" "order_events db' = order_events d5" "attempts db' = attempts d5" by (simp_all add: kept_paid_def)
  have r: "order_events d3 = order_events db" "attempts d3 = attempts d2" "stock d3 = stock db"
    using u(2) by (simp_all add: same_rest_def d2 d1)
  have "pay_order (True, now) y \<in> set (shop_orders db')"
    using y by (auto simp: d6 d5 d4 u(1) sql_update_def d2 d1)
  then show "\<exists>y\<in>set (shop_orders db'). o_id y = o_id x \<and> o_status y = Paid \<and> o_version y = Suc (o_version x) \<and> o_paid y = o_total y"
    using y by (intro bexI [of _ "pay_order (True, now) y"]) (simp_all add: pay_order_def)
  then have "order_paid (o_id x) d5" by (auto simp: order_paid_def d6 sql_exists_def list_ex_iff)
  show "order_events db' = order_events db @ [paid_event (o_id x) (Suc (o_version x)) (o_status x) ''payment_succeeded'']"
    by (simp add: d6 d5 d4 r)
  show "attempts db' = sql_update (\<lambda>b. pa_id b = pa_id a \<and> pa_status b \<in> {Attempt_Created, Attempt_Pending, Attempt_Expired})
       (\<lambda>b. b \<lparr> pa_status := Attempt_Succeeded, pa_succeeded_at := Some now, pa_failure := None, pa_updated_at := now \<rparr>) (attempts db)"
    by (simp add: d6 d5 d4 r d2 d1)
  show "\<forall>l\<in>set ls. asked l db'" if st: "distinct (map st_id (stock db))" and di: "distinct (map (\<lambda>l. oi_id (ln_item l)) ls)"
  proof (rule fulfilled_tail_asked [OF assms(2) s(6) _ di])
    show "ready (o_id x) d5" using \<open>order_paid (o_id x) d5\<close> st by (simp add: ready_def d5 d4 r)
  qed simp
qed

lemma pay_order_sel [simp]:
  "o_id (pay_order k y) = o_id y" "o_status (pay_order k y) = Paid" "o_version (pay_order k y) = Suc (o_version y)"
  "o_paid (pay_order k y) = o_total y" "o_total (pay_order k y) = o_total y" "o_user (pay_order k y) = o_user y"
  by (simp_all add: pay_order_def split: prod.splits)

lemma paid_rest:
  assumes "update_order i P (pay_order k) n db = Inr (d, c)" and "0 < c"
  shows "\<exists>y\<in>set (shop_orders db). o_id y = i \<and> P db y \<and> pay_order k y \<in> set (shop_orders d)" and "stock d = stock db"
    and "order_paid i d"
proof -
  note u = update_order_Inr [OF assms(1)]
  from u(3) assms(2) obtain y where "y \<in> set (shop_orders db)" "o_id y = i" "P db y"
    by (auto simp: sql_exists_def list_ex_iff split: if_splits)
  then show "\<exists>y\<in>set (shop_orders db). o_id y = i \<and> P db y \<and> pay_order k y \<in> set (shop_orders d)"
    by (auto simp: u(1) sql_update_def)
  then obtain y where "o_id y = i" "pay_order k y \<in> set (shop_orders d)" by blast
  then show "order_paid i d"
    unfolding order_paid_def sql_exists_def list_ex_iff by (intro bexI [of _ "pay_order k y"]) simp_all
  show "stock d = stock db" using u(2) by (simp add: same_rest_def)
qed

lemma free_effect:
  assumes "run_batch (free_statements x ss visit now) db = Inr (db', cs)" and "fulfill_all cat (o_id x) now fresh ls = Inr ss"
    and "0 < cs ! 0" and "distinct (map st_id (stock db))" and "distinct (map (\<lambda>l. oi_id (ln_item l)) ls)"
  shows "\<forall>l\<in>set ls. asked l db'"
proof -
  let ?v = "Suc (o_version x)"
  let ?P = "\<lambda>db y. o_status y = Pending_Payment \<and> o_version y = o_version x
            \<and> (o_total y = 0 \<or> sql_exists (\<lambda>h. h_order h = o_id x \<and> h_external h = 0 \<and> h_state h = Held) (holds db))"
  from assms(1) obtain d1 c1 d2 c2 cs' where
    s: "update_order (o_id x) ?P (pay_order (False, now)) 0 db = Inr (d1, c1)"
       "event_when (order_paid_at (o_id x) ?v) (paid_event (o_id x) ?v Pending_Payment ''payment_not_required'') c1 d1 = Inr (d2, c2)"
       "batch_from c2 (ss @ paid_tail {Redemption_Reserved} (o_id x) ?v [log_paid_visit visit (o_id x) now]) d2 = Inr (db', cs')"
       "cs ! 0 = c1"
    unfolding run_batch_def free_statements_def Let_def append_Cons append_Nil
    by (elim batch_ConsE) (rule that, assumption+, simp)
  have "0 < c1" using assms(3) s(4) by simp
  note p = paid_rest [OF s(1) this]
  have d2: "shop_orders d2 = shop_orders d1" "stock d2 = stock d1" using event_when_Inr [OF s(2)] by simp_all
  from p(3) have "order_paid (o_id x) d2" by (simp add: order_paid_def d2)
  then have "ready (o_id x) d2" by (simp add: ready_def d2 p(2) assms(4))
  from fulfilled_tail_asked [OF assms(2) s(3) this assms(5)] show ?thesis by simp
qed

text \<open>The debit of an order that was hit leaves its entry, its user and its order as asked.\<close>

lemma debit_steps:
  assumes "run_batch (wallet_payment_statements x u ss currency entry now) db = Inr (db', cs)" and "0 < cs ! 0"
    and "distinct (map u_id (users db))"
  obtains d1 d2 d3 c3 d4 c4 cs' where
    "order_is (o_id x) Pending_Payment (o_version x) db"
    "\<exists>w\<in>set (users db). u_id w = u_id u \<and> u_version w = u_version u \<and> u_enabled w"
    "0 \<le> u_balance u - o_total x"
    "d1 = db \<lparr> users := sql_update (\<lambda>w. u_id w = u_id u \<and> u_version w = u_version u \<and> u_enabled w)
       (store_balance (u_balance u - o_total x, now)) (users db) \<rparr>"
    "insert_wallet_entry (order_debit x u currency entry now) d1 = Inr d2"
    "update_order (o_id x) (\<lambda>db y. o_status y = Pending_Payment \<and> o_version y = o_version x
       \<and> sql_exists (\<lambda>e. we_key e = order_wallet_key (o_id x)) (wallet_entries db)) (pay_order (False, now)) 1 d2 = Inr (d3, c3)"
    "0 < c3"
    "event_when (order_paid_at (o_id x) (Suc (o_version x))) (paid_event (o_id x) (Suc (o_version x)) Pending_Payment ''wallet_payment_succeeded'') c3 d3
       = Inr (d4, c4)"
    "batch_from c4 (ss @ paid_tail {Redemption_Reserved} (o_id x) (Suc (o_version x)) []) d4 = Inr (db', cs')"
proof -
  let ?v = "Suc (o_version x)" and ?e = "order_debit x u currency entry now"
  let ?P = "\<lambda>db y. o_status y = Pending_Payment \<and> o_version y = o_version x
       \<and> sql_exists (\<lambda>e. we_key e = order_wallet_key (o_id x)) (wallet_entries db)"
  from assms(1) obtain d1 c1 d2 c2 d3 c3 d4 c4 cs' where
    s: "debit_for_order x u now 0 db = Inr (d1, c1)" "record_debit (Suc (u_version u)) ?e c1 d1 = Inr (d2, c2)"
       "update_order (o_id x) ?P (pay_order (False, now)) c2 d2 = Inr (d3, c3)"
       "event_when (order_paid_at (o_id x) ?v) (paid_event (o_id x) ?v Pending_Payment ''wallet_payment_succeeded'') c3 d3 = Inr (d4, c4)"
       "batch_from c4 (ss @ paid_tail {Redemption_Reserved} (o_id x) ?v []) d4 = Inr (db', cs')" "cs ! 0 = c1"
    unfolding run_batch_def wallet_payment_statements_def Let_def append_Cons append_Nil
    by (elim batch_ConsE) (rule that, assumption+, simp)
  let ?o = "order_is (o_id x) Pending_Payment (o_version x) db"
  let ?hit = "\<lambda>w. u_id w = u_id u \<and> u_version w = u_version u \<and> u_enabled w"
  let ?f = "store_balance (u_balance u - o_total x, now)"
  from s(1) have c1: "c1 = sql_changes (\<lambda>w. ?hit w \<and> ?o) (users db)"
    and d1: "d1 = db \<lparr> users := sql_update (\<lambda>w. ?hit w \<and> ?o) ?f (users db) \<rparr>"
    and nn: "0 \<le> u_balance u - o_total x \<or> \<not> sql_exists (\<lambda>w. ?hit w \<and> ?o) (users db)"
    by (auto simp: debit_for_order_def update_balance_def Let_def conj_ac split: if_splits)
  from assms(2) s(6) have "0 < c1" by simp
  then obtain w where w: "w \<in> set (users db)" "?hit w" and o: ?o by (auto simp: c1 sql_simps)
  have "c1 \<le> 1" using keyed_changes_le_one [OF assms(3), of "u_id u" "\<lambda>w. u_version w = u_version u \<and> u_enabled w \<and> ?o"]
    by (simp add: c1 conj_ac)
  with \<open>0 < c1\<close> have one: "c1 = 1" by simp
  have d1': "d1 = db \<lparr> users := sql_update ?hit ?f (users db) \<rparr>" using o by (simp add: d1)
  have "sql_exists (\<lambda>y. u_id y = u_id u \<and> u_version y = Suc (u_version u) \<and> u_balance y = u_balance u - o_total x) (users d1)"
    unfolding d1' using w by (auto intro!: sql_exists_hit [of w] simp: store_balance_def)
  with s(2) one have i: "insert_wallet_entry ?e d1 = Inr d2" and c2: "c2 = 1"
    by (auto simp: record_debit_def and_then_Inr order_debit_def)
  then have d2: "d2 = d1 \<lparr> wallet_entries := wallet_entries d1 @ [?e] \<rparr>" by (auto simp: insert_wallet_entry_def split: if_splits)
  have "sql_exists (\<lambda>y. o_id y = o_id x \<and> ?P d2 y) (shop_orders d2)"
    using o by (auto simp: d2 d1 order_is_def sql_exists_def order_debit_def list_ex_iff)
  then have "0 < c3" using update_order_Inr(3) [OF s(3)] by simp
  with o w nn d1' i s(3,4,5) c2 show thesis by (intro that) (auto simp: sql_exists_def list_ex_iff)
qed

lemma wallet_effect:
  assumes "run_batch (wallet_payment_statements x u ss currency entry now) db = Inr (db', cs)" and "fulfill_all cat (o_id x) now fresh ls = Inr ss"
    and "0 < cs ! 0" and "distinct (map u_id (users db))" and "distinct (map st_id (stock db))" and "distinct (map (\<lambda>l. oi_id (ln_item l)) ls)"
  shows "\<forall>l\<in>set ls. asked l db'"
proof -
  let ?v = "Suc (o_version x)"
  obtain d1 d2 d3 c3 d4 c4 cs' where
    d1: "d1 = db \<lparr> users := sql_update (\<lambda>w. u_id w = u_id u \<and> u_version w = u_version u \<and> u_enabled w)
       (store_balance (u_balance u - o_total x, now)) (users db) \<rparr>"
    and s: "insert_wallet_entry (order_debit x u currency entry now) d1 = Inr d2"
    "update_order (o_id x) (\<lambda>db y. o_status y = Pending_Payment \<and> o_version y = o_version x
       \<and> sql_exists (\<lambda>e. we_key e = order_wallet_key (o_id x)) (wallet_entries db)) (pay_order (False, now)) 1 d2 = Inr (d3, c3)"
    "0 < c3"
    "event_when (order_paid_at (o_id x) ?v) (paid_event (o_id x) ?v Pending_Payment ''wallet_payment_succeeded'') c3 d3 = Inr (d4, c4)"
    "batch_from c4 (ss @ paid_tail {Redemption_Reserved} (o_id x) ?v []) d4 = Inr (db', cs')"
    by (rule debit_steps [OF assms(1,3,4)]) (rule that)
  note p = paid_rest [OF s(2,3)]
  have d2: "stock d2 = stock db" using s(1) by (auto simp: insert_wallet_entry_def d1 split: if_splits)
  have d4: "shop_orders d4 = shop_orders d3" "stock d4 = stock d3" using event_when_Inr [OF s(4)] by simp_all
  from p(3) have "order_paid (o_id x) d4" by (simp add: order_paid_def d4)
  then have "ready (o_id x) d4" by (simp add: ready_def d4 p(2) d2 assms(5))
  from fulfilled_tail_asked [OF assms(2) s(5) this assms(6)] show ?thesis by simp
qed

section \<open>Events through the handler\<close>

lemma answered_fresh:
  assumes "answer_event e reply (run_event_batch channel e ss d) = (Inr (False, s), db')"
  shows "\<exists>cs. run_batch ss d = Inr (db', cs) \<and> reply cs = Inr (False, s)"
  using assms by (auto simp: answer_event_def run_event_batch_def present_receipt_def split: sum.splits prod.splits option.splits if_splits)

lemma order_event_settled:
  assumes "process_payment_event cat number m channel e db = (Inr (False, ''succeeded''), db')"
    and "load_payment_context db channel (ev_payment e) (ev_merchant e) = Inr (a, Some x, None)"
  obtains reclaim ss cs where
    "fulfill_all cat (o_id x) (mo_now m) (mo_fresh m) (order_lines cat db (o_id x)) = Inr ss"
    "run_batch (settle_statements channel a e x reclaim ss (mo_visit m) (mo_now m)) (mo_env m db) = Inr (db', cs)"
    "0 < cs ! 2" "o_status x \<in> {Pending_Payment, Expired}" "validate_event_money number a (Some x) e = Inr ()"
    "ev_type e = Payment_Succeeded"
proof -
  let ?rec = "[record_receipt channel (pa_id a) e Receipt_Processed]"
  have n: "find_receipt db channel (ev_id e) = None"
    using assms(1) by (auto simp: process_payment_event_def present_receipt_def split: option.splits if_splits)
  have v: "validate_event_money number a (Some x) e = Inr ()"
    using assms(1) n by (auto simp: process_payment_event_def assms(2) split: sum.splits)
  have "settle_order_event cat m channel e a x db = (Inr (False, ''succeeded''), db') \<and> o_status x \<in> {Pending_Payment, Expired}
      \<and> ev_type e = Payment_Succeeded"
    using assms(1) answered_fresh [of e "\<lambda>_. Inr (True, ''processed'')" channel ?rec "mo_env m db" "''succeeded''" db']
      answered_fresh [of e "\<lambda>_. Inr (False, ''pending'')" channel ?rec "mo_env m db" "''succeeded''" db']
      answered_fresh [of e "\<lambda>_. Inr (False, ''expired'')" channel "close_statements channel a e (mo_now m)" "mo_env m db" "''succeeded''" db']
      answered_fresh [of e "\<lambda>_. Inr (False, ''failed'')" channel "close_statements channel a e (mo_now m)" "mo_env m db" "''succeeded''" db']
    by (auto simp: process_payment_event_def n assms(2) v Let_def split: if_splits sum.splits prod.splits)
  then have s: "settle_order_event cat m channel e a x db = (Inr (False, ''succeeded''), db')" "o_status x \<in> {Pending_Payment, Expired}"
      "ev_type e = Payment_Succeeded" by simp_all
  let ?reclaim = "if o_status x = Expired then load_released_coupon_use db (o_id x) else None"
  from s(1) answered_fresh [of e "\<lambda>_. Inr (False, ''reconciliation_required'')" channel
      "reject_statements channel a e ''coupon_reclaim_required'' (mo_now m)" "mo_env m db" "''succeeded''" db']
  obtain ss where ss: "fulfill_all cat (o_id x) (mo_now m) (mo_fresh m) (order_lines cat db (o_id x)) = Inr ss"
    and r: "answer_event e (\<lambda>changes. if changes ! 2 < 1 then Inl (DomainError ''order_version_conflict'' 409) else Inr (False, ''succeeded''))
        (run_event_batch channel e (settle_statements channel a e x (map_option fst ?reclaim) ss (mo_visit m) (mo_now m)) (mo_env m db))
       = (Inr (False, ''succeeded''), db')"
    unfolding settle_order_event_def Let_def by (auto split: if_splits sum.splits)
  from answered_fresh [OF r] ss s v show thesis by (auto intro: that split: if_splits)
qed

lemma free_order_settled:
  assumes "complete_free_store_order cat m i bu db = (Inr (False, ''paid''), db')"
  obtains x ss cs where "find_order db i = Some x" "o_id x = i"
    "fulfill_all cat (o_id x) (mo_now m) (mo_fresh m) (order_lines cat db (o_id x)) = Inr ss"
    "run_batch (free_statements x ss (mo_visit m) (mo_now m)) (mo_env m db) = Inr (db', cs)" "0 < cs ! 0"
proof -
  from assms obtain x where x: "find_order db i = Some x" by (auto simp: complete_free_store_order_def split: option.splits)
  have "o_id x = i" using sql_first_Some [OF x [unfolded find_order_def]] by simp
  with assms x show thesis
    by (auto simp: complete_free_store_order_def Let_def paid_status_name_def intro: that split: if_splits sum.splits prod.splits option.splits)
qed

lemma wallet_order_settled:
  assumes "complete_wallet_store_order cat m i uid db = (Inr (False, ''paid''), db')"
  obtains x u ss cs where "find_order db i = Some x" "o_id x = i" "find_user db uid = Some u" "u_id u = uid" "o_user x = Some uid"
    "o_total x \<le> u_balance u" "find_hold db i = None"
    "fulfill_all cat (o_id x) (mo_now m) (mo_fresh m) (order_lines cat db (o_id x)) = Inr ss"
    "run_batch (wallet_payment_statements x u ss (ct_currency cat) (mo_entry m) (mo_now m)) (mo_env m db) = Inr (db', cs)" "0 < cs ! 0"
proof -
  from assms obtain x u where x: "find_order db i = Some x" and u: "find_user db uid = Some u"
    by (auto simp: complete_wallet_store_order_def split: option.splits if_splits)
  have xi: "o_id x = i" using sql_first_Some [OF x [unfolded find_order_def]] by simp
  have ui: "u_id u = uid" using sql_first_Some [OF u [unfolded find_user_def]] by simp
  from assms x xi u obtain ss cs where "fulfill_all cat (o_id x) (mo_now m) (mo_fresh m) (order_lines cat db (o_id x)) = Inr ss"
    "run_batch (wallet_payment_statements x u ss (ct_currency cat) (mo_entry m) (mo_now m)) (mo_env m db) = Inr (db', cs)" "0 < cs ! 0"
    "o_user x = Some uid" "o_total x \<le> u_balance u" "find_hold db i = None"
    by (auto simp: complete_wallet_store_order_def Let_def split: if_splits sum.splits prod.splits option.splits)
  with x xi u ui show thesis by (intro that)
qed

text \<open>Each of the three ways an order becomes paid.\<close>

definition paid_through :: "catalogue \<Rightarrow> moment \<Rightarrow> string \<Rightarrow> db \<Rightarrow> db \<Rightarrow> bool" where
  "paid_through cat m i db db' \<longleftrightarrow>
     (\<exists>number channel e a x. load_payment_context db channel (ev_payment e) (ev_merchant e) = Inr (a, Some x, None) \<and> o_id x = i
        \<and> process_payment_event cat number m channel e db = (Inr (False, ''succeeded''), db'))
     \<or> (\<exists>bu. complete_free_store_order cat m i bu db = (Inr (False, ''paid''), db'))
     \<or> (\<exists>uid. complete_wallet_store_order cat m i uid db = (Inr (False, ''paid''), db'))"

lemma paid_order_lines:
  assumes "paid_through cat m i db db'" and "distinct (map oi_id (order_items db))"
    and "distinct (map st_id (stock (mo_env m db)))" and "distinct (map u_id (users (mo_env m db)))"
  shows "\<forall>l\<in>set (order_lines cat db i). asked l db'"
  using assms(1) unfolding paid_through_def
proof (elim disjE exE conjE)
  fix number channel e a x
  assume l: "load_payment_context db channel (ev_payment e) (ev_merchant e) = Inr (a, Some x, None)" and i: "o_id x = i"
    and p: "process_payment_event cat number m channel e db = (Inr (False, ''succeeded''), db')"
  obtain reclaim ss cs where s: "fulfill_all cat (o_id x) (mo_now m) (mo_fresh m) (order_lines cat db (o_id x)) = Inr ss"
    "run_batch (settle_statements channel a e x reclaim ss (mo_visit m) (mo_now m)) (mo_env m db) = Inr (db', cs)" "0 < cs ! 2"
    by (rule order_event_settled [OF p l]) (rule that)
  from settle_effect(5) [OF s(2,1,3) assms(3) lines_distinct [OF assms(2)]] show ?thesis by (simp add: i)
next
  fix bu assume p: "complete_free_store_order cat m i bu db = (Inr (False, ''paid''), db')"
  obtain x ss cs where "o_id x = i" and
    s: "fulfill_all cat (o_id x) (mo_now m) (mo_fresh m) (order_lines cat db (o_id x)) = Inr ss"
    "run_batch (free_statements x ss (mo_visit m) (mo_now m)) (mo_env m db) = Inr (db', cs)" "0 < cs ! 0"
    by (rule free_order_settled [OF p]) (rule that)
  with free_effect [OF s(2,1,3) assms(3) lines_distinct [OF assms(2)]] show ?thesis by simp
next
  fix uid assume p: "complete_wallet_store_order cat m i uid db = (Inr (False, ''paid''), db')"
  obtain x u ss cs where "o_id x = i" and
    s: "fulfill_all cat (o_id x) (mo_now m) (mo_fresh m) (order_lines cat db (o_id x)) = Inr ss"
    "run_batch (wallet_payment_statements x u ss (ct_currency cat) (mo_entry m) (mo_now m)) (mo_env m db) = Inr (db', cs)" "0 < cs ! 0"
    by (rule wallet_order_settled [OF p]) (rule that)
  with wallet_effect [OF s(2,1,3) assms(4,3) lines_distinct [OF assms(2)]] show ?thesis by simp
qed

section \<open>Events that are repeated, and events that fail\<close>

lemma attempt_failed_release_rest:
  assumes "attempt_failed_release old new db = Inr db'"
  shows "same_rest (db \<lparr> shop_orders := shop_orders db' \<rparr>) db'"
proof -
  from assms consider "db' = db"
    | i d c where "settle_hold i Released (pa_updated_at new) db = Inr d"
        "\<exists>P f. update_order i P f 0 d = Inr (db', c)"
    by (auto simp: attempt_failed_release_def and_then_Inr split: if_splits option.splits; blast)
  then show ?thesis
  proof cases
    case 1
    then show ?thesis by (simp add: same_rest_def)
  next
    case 2
    then have "same_rest db d" using settle_hold_rest by blast
    with 2(2) update_order_Inr(2) show ?thesis by (fastforce simp: same_rest_def)
  qed
qed

lemma update_attempt_leaves_receipts [leaves]: "leaves receipts (update_attempt i P f)"
  by (auto simp: leaves_def update_attempt_def and_then_Inr same_rest_def split: option.splits dest!: attempt_failed_release_rest)

lemma receipt_recorded:
  assumes "run_batch (record_receipt channel i e st # ss) d = Inr (d', cs)" and "\<forall>s\<in>set ss. leaves receipts s"
  shows "find_receipt d' channel (ev_id e) \<noteq> None"
proof -
  from assms(1) obtain d1 c cs' where s: "record_receipt channel i e st 0 d = Inr (d1, c)" "batch_from c ss d1 = Inr (d', cs')"
    unfolding run_batch_def by (rule batch_ConsE)
  from find_receipt_new [OF s(1)] leaves_batch [OF s(2) assms(2)] show ?thesis by (auto simp: find_receipt_def)
qed

definition recording :: "string \<Rightarrow> payment_event \<Rightarrow> db stmt list \<Rightarrow> bool" where
  "recording channel e ss \<longleftrightarrow> (\<exists>i st rest. ss = record_receipt channel i e st # rest \<and> (\<forall>s\<in>set rest. leaves receipts s))"

lemma event_batch_recorded:
  assumes "run_event_batch channel e ss d = (Inr r, d')" and "recording channel e ss"
  shows "find_receipt d' channel (ev_id e) \<noteq> None"
  using assms receipt_recorded
  by (auto simp: run_event_batch_def recording_def split: sum.splits prod.splits option.splits)

lemma answer_recorded:
  assumes "answer_event e reply (run_event_batch channel e ss d) = (Inr r, d')" and "recording channel e ss"
  shows "find_receipt d' channel (ev_id e) \<noteq> None"
  using assms(1) event_batch_recorded [OF _ assms(2), of d]
  by (cases "run_event_batch channel e ss d") (auto simp: answer_event_def split: sum.splits)

lemma settle_recording:
  assumes "fulfill_all cat (o_id x) now fresh ls = Inr ss"
  shows "recording channel e (settle_statements channel a e x reclaim ss visit now)"
proof -
  have "\<forall>s\<in>set ss. leaves receipts s" by (rule fulfill_all_leaves [OF assms]) simp_all
  moreover have "\<forall>s\<in>set (paid_tail {Redemption_Reserved, Redemption_Released} (o_id x) (Suc (o_version x)) [log_paid_visit visit (o_id x) now]).
      leaves receipts s"
    by (rule paid_tail_leaves) simp_all
  moreover have "leaves receipts (update_order i P f)" for i P f by (rule update_order_leaves) (simp add: same_rest_def)
  ultimately show ?thesis
    by (auto simp: recording_def settle_statements_def Let_def intro!: leaves split: option.splits)
qed

lemma other_recording:
  "recording channel e (reject_statements channel a e code now)" "recording channel e (close_statements channel a e now)"
  "recording channel e [record_receipt channel (pa_id a) e st]"
  "recording channel e [record_receipt channel (pa_id a) e st, succeed_attempt from i now, update_topup k g]"
  by (auto simp: recording_def reject_statements_def close_statements_def Let_def intro!: leaves split: option.splits)

lemma settle_order_recorded:
  assumes "settle_order_event cat m channel e a x db = (Inr r, db')"
  shows "find_receipt db' channel (ev_id e) \<noteq> None"
proof -
  note rec = answer_recorded [OF _ settle_recording] answer_recorded [OF _ other_recording(1)]
  from assms show ?thesis
    unfolding settle_order_event_def Let_def by (auto split: if_splits sum.splits dest: rec)
qed

lemma settle_topup_recorded:
  assumes "settle_topup_event m channel e a t db = (Inr r, db')"
  shows "find_receipt db' channel (ev_id e) \<noteq> None"
  using assms answer_recorded [OF _ other_recording(4)]
  by (auto simp: settle_topup_event_def Let_def split: if_splits sum.splits prod.splits)

lemma event_recorded:
  assumes "process_payment_event cat number m channel e db = (Inr r, db')"
  shows "find_receipt db' channel (ev_id e) \<noteq> None"
proof -
  note rec = answer_recorded [OF _ other_recording(2)] answer_recorded [OF _ other_recording(3)] settle_order_recorded settle_topup_recorded
    event_batch_recorded [OF _ other_recording(1)]
  from assms show ?thesis
    unfolding process_payment_event_def Let_def
    by (auto split: option.splits sum.splits prod.splits if_splits dest: rec)
qed

text \<open>The settlement is decided by the batch: an order that was not settled aborts it.\<close>

definition paid_logged :: "db \<Rightarrow> bool" where
  "paid_logged db \<longleftrightarrow> (\<forall>x\<in>set (shop_orders db). o_status x = Paid \<longrightarrow>
     sql_exists (\<lambda>q. oe_order q = o_id x \<and> oe_version q = Some (o_version x)) (order_events db))"

lemma settle_all_or_nothing:
  assumes "settle_order_event cat m channel e a x db = (Inl f, db')" and "paid_logged (mo_env m db)"
  shows "db' = db \<or> db' = mo_env m db"
proof (rule ccontr)
  assume n: "\<not> (db' = db \<or> db' = mo_env m db)"
  let ?reclaim = "if o_status x = Expired then load_released_coupon_use db (o_id x) else None"
  from assms(1) n obtain ss cs where ss: "fulfill_all cat (o_id x) (mo_now m) (mo_fresh m) (order_lines cat db (o_id x)) = Inr ss"
    and b: "run_batch (settle_statements channel a e x (map_option fst ?reclaim) ss (mo_visit m) (mo_now m)) (mo_env m db) = Inr (db', cs)"
    and c: "cs ! 2 < 1"
    by (auto simp: settle_order_event_def Let_def answer_event_def run_event_batch_def
        split: if_splits sum.splits prod.splits option.splits)
  obtain d1 c1 d2 c2 d3 c3 d4 c4 where
    s: "record_receipt channel (pa_id a) e Receipt_Processed 0 (mo_env m db) = Inr (d1, c1)"
    "succeed_attempt {Attempt_Created, Attempt_Pending, Attempt_Expired} (pa_id a) (mo_now m) c1 d1 = Inr (d2, c2)"
    "update_order (o_id x) (\<lambda>_ y. o_status y = o_status x \<and> o_version y = o_version x) (pay_order (True, (mo_now m))) c2 d2 = Inr (d3, c3)"
    "require_paid_event (o_id x) (Suc (o_version x)) (o_status x) c3 d3 = Inr (d4, c4)" "cs ! 2 = c3"
    by (rule settle_steps [OF b ss]) (rule that)
  from update_order_Inr(3) [OF s(3)] c s(5)
  have "sql_first (\<lambda>y. o_id y = o_id x \<and> o_status y = o_status x \<and> o_version y = o_version x) (shop_orders d2) = None"
    by (auto simp: sql_first_None sql_exists_def list_ex_iff split: if_splits)
  with s(3) have d3: "d3 = d2" by (simp add: update_order_def)
  have "leaves (\<lambda>d. (shop_orders d, order_events d)) (record_receipt channel (pa_id a) e Receipt_Processed)"
    "leaves (\<lambda>d. (shop_orders d, order_events d)) (succeed_attempt {Attempt_Created, Attempt_Pending, Attempt_Expired} (pa_id a) (mo_now m))"
    by (auto intro!: leaves)
  from leavesD [OF s(1) this(1)] leavesD [OF s(2) this(2)] d3
  have t: "shop_orders d3 = shop_orders (mo_env m db)" "order_events d3 = order_events (mo_env m db)" by simp_all
  from s(4) have p: "order_is (o_id x) Paid (Suc (o_version x)) d3"
    and e: "\<not> sql_exists (\<lambda>q. oe_order q = o_id x \<and> oe_version q = Some (Suc (o_version x))) (order_events d3)"
    by (auto simp: require_paid_event_def order_paid_at_def insert_order_event_def paid_event_def split: if_splits)
  from p obtain y where "y \<in> set (shop_orders (mo_env m db))" "o_id y = o_id x" "o_status y = Paid" "o_version y = Suc (o_version x)"
    by (auto simp: order_is_def t sql_exists_def list_ex_iff)
  with assms(2) e show False by (auto simp: paid_logged_def t)
qed

lemma event_all_or_nothing:
  assumes "process_payment_event cat number m channel e db = (Inl f, db')"
    and "load_payment_context db channel (ev_payment e) (ev_merchant e) = Inr (a, x, None)"
    and "paid_logged (mo_env m db)"
  shows "db' = db \<or> db' = mo_env m db"
  using assms(1) settle_all_or_nothing [of cat m channel e a _ db f db', OF _ assms(3)]
  unfolding process_payment_event_def Let_def assms(2)
  by (auto simp: answer_event_def run_event_batch_def present_receipt_def split: option.splits sum.splits prod.splits if_splits)

section \<open>Sample payment\<close>

definition sold_item :: item_row where
  "sold_item = \<lparr> oi_id = ''i'', oi_order = ''o'', oi_product = ''p'', oi_sellable = ''s'', oi_component = ''s'',
     oi_component_type = Stock_Component, oi_quantity = 2, oi_unit_price = 250, oi_source = ListPrice, oi_discount = 0,
     oi_subtotal = 500, oi_reward = 0, oi_definition_version = None, oi_renewed_from = None,
     oi_duration = None, oi_usage_limit = None, oi_access_limit = None \<rparr>"

definition stock_code :: "string \<Rightarrow> stock_row" where
  "stock_code i = \<lparr> st_id = i, st_sellable = ''s'', st_status = Stock_Available, st_order_item = None,
     st_content = i, st_fingerprint = i, st_redeem_sku = None, st_created_at = 1 \<rparr>"

definition shop_catalogue :: catalogue where
  "shop_catalogue = \<lparr> ct_sourcing = \<lambda>_. Some (Local_Source, False, None), ct_assets = \<lambda>_ _. [], ct_alerts = True,
     ct_currency = ''CNY'', ct_decimals = 2, ct_priced = \<lambda>_ _. False, ct_rates = [], ct_rate_decimals = \<lambda>_. 2,
     ct_route = \<lambda>_ _. None \<rparr>"

definition at_noon :: "(db \<Rightarrow> db) \<Rightarrow> moment" where
  "at_noon env = \<lparr> mo_env = env, mo_now = 9, mo_fresh = \<lambda>i. \<lparr> fi_delivery = ''d'', fi_supply = ''q'', fi_entitlement = ''e'', fi_grant = ''g'' \<rparr>,
     mo_visit = ''v'', mo_entry = ''w'', mo_wallet_env = \<lambda>_ d. d, mo_uuid = \<lambda>_. ''w'', mo_clock = \<lambda>_. 8 \<rparr>"

definition card_attempt :: "attempt_status \<Rightarrow> attempt_row" where
  "card_attempt st = \<lparr> pa_id = ''a'', pa_order = Some ''o'', pa_topup = None, pa_order_amount = Some 500, pa_channel = ''c'',
     pa_provider_payment = Some ''p'', pa_key = ''k'', pa_status = st, pa_amount = 500, pa_currency = ''CNY'', pa_decimals = 2,
     pa_rate = ''1'', pa_direction = Parity, pa_failure = None, pa_succeeded_at = None, pa_updated_at = 1 \<rparr>"

definition card_channel :: channel_row where
  "card_channel = \<lparr> pc_id = ''c'', pc_provider = ''epay'', pc_currency = ''CNY'', pc_credential = None, pc_fee_bps = 100,
     pc_fixed_fee = 0, pc_enabled = True \<rparr>"

definition card_shop :: "attempt_status \<Rightarrow> db" where
  "card_shop st = sample_db \<lparr> order_items := [sold_item], stock := [stock_code ''1'', stock_code ''2'', stock_code ''3''],
     attempts := [card_attempt st], channels := [card_channel] \<rparr>"

definition card_event :: payment_event where
  "card_event = \<lparr> ev_id = ''e1'', ev_payment = ''p'', ev_type = Payment_Succeeded, ev_amount = Some ''500'', ev_decimal = None,
     ev_currency = Some ''cny'', ev_merchant = None, ev_digest = ''h'' \<rparr>"

definition paid_by_card :: "attempt_status \<Rightarrow> payment_reply result \<times> db" where
  "paid_by_card st = process_payment_event shop_catalogue (\<lambda>i. i) (at_noon (\<lambda>d. d)) ''c'' card_event (card_shop st)"

lemma card_context:
  "load_payment_context (card_shop st) ''c'' (ev_payment card_event) (ev_merchant card_event) = Inr (card_attempt st, Some sample_order, None)"
  by (simp add: load_payment_context_def payment_matches_def card_shop_def card_event_def card_attempt_def card_channel_def
      find_order_def sample_db_def empty_db_def sample_order_def sql_exists_def)

lemma card_paid: "\<exists>db'. paid_by_card Attempt_Pending = (Inr (False, ''succeeded''), db')"
proof -
  have "fst (paid_by_card Attempt_Pending) = Inr (False, ''succeeded'')" by code_simp
  then show ?thesis by (metis prod.collapse)
qed

section \<open>Properties\<close>



text \<open>
  C21. However an order becomes paid (an event of its provider, free of charge, from the
  wallet), every item of it is asked for exactly once: it has one initial delivery, which waits
  for a worker on stock only when all of it is reserved; what the stock does not cover is
  ordered from its supplier; a new entitlement has its grant.
\<close>

lemma paid_order_is_asked:
  assumes "paid_through cat m i db db'" and "distinct (map oi_id (order_items db))"
    and "distinct (map st_id (stock (mo_env m db)))" and "distinct (map u_id (users (mo_env m db)))"
  shows "\<forall>l\<in>set (order_lines cat db i). asked l db'"
  using assms by (rule paid_order_lines)

lemma paid_order_is_asked_witness:
  "\<exists>db'. paid_by_card Attempt_Pending = (Inr (False, ''succeeded''), db')
     \<and> (\<forall>l\<in>set (order_lines shop_catalogue (card_shop Attempt_Pending) ''o''). asked l db')"
proof -
  from card_paid obtain db' where p: "paid_by_card Attempt_Pending = (Inr (False, ''succeeded''), db')" ..
  have "paid_through shop_catalogue (at_noon (\<lambda>d. d)) ''o'' (card_shop Attempt_Pending) db'"
    unfolding paid_through_def
    by (intro disjI1 exI conjI, rule card_context, simp add: sample_order_def, rule p [unfolded paid_by_card_def])
  from paid_order_is_asked [OF this] p show ?thesis
    by (simp add: card_shop_def at_noon_def sample_db_def empty_db_def stock_code_def)
qed



text \<open>
  C23. An event for an order that is refused or fails has no effect at all, although its batch
  is not guarded statement by statement: when another request has settled or closed the order in
  between, the event of the order cannot be recorded and the whole batch is rolled back.
\<close>

lemma refused_event_is_harmless:
  assumes "process_payment_event cat number m channel e db = (Inl f, db')"
    and "load_payment_context db channel (ev_payment e) (ev_merchant e) = Inr (a, x, None)"
    and "paid_logged (mo_env m db)"
  shows "db' = db \<or> db' = mo_env m db"
  using assms by (rule event_all_or_nothing)

definition cancelled_meanwhile :: "db \<Rightarrow> db" where
  "cancelled_meanwhile d = snd (transition_order (\<lambda>d. d) 8 ''o'' 1 Cancelled d)"

definition crossed_event :: "payment_reply result \<times> db" where
  "crossed_event = process_payment_event shop_catalogue (\<lambda>i. i) (at_noon cancelled_meanwhile) ''c'' card_event (card_shop Attempt_Pending)"

lemma refused_event_is_harmless_witness:
  "\<exists>f. fst crossed_event = Inl f
     \<and> (snd crossed_event = card_shop Attempt_Pending \<or> snd crossed_event = cancelled_meanwhile (card_shop Attempt_Pending))"
proof -
  have "case fst crossed_event of Inl _ \<Rightarrow> True | Inr _ \<Rightarrow> False" by code_simp
  then obtain f where f: "fst crossed_event = Inl f" by (auto split: sum.splits)
  then have p: "crossed_event = (Inl f, snd crossed_event)" by (metis prod.collapse)
  have "list_all (\<lambda>x. o_status x \<noteq> Paid) (shop_orders (cancelled_meanwhile (card_shop Attempt_Pending)))" by code_simp
  then have "paid_logged (mo_env (at_noon cancelled_meanwhile) (card_shop Attempt_Pending))"
    by (auto simp: at_noon_def paid_logged_def list_all_iff)
  from refused_event_is_harmless [OF p [unfolded crossed_event_def] card_context this]
  have "snd crossed_event = card_shop Attempt_Pending
      \<or> snd crossed_event = mo_env (at_noon cancelled_meanwhile) (card_shop Attempt_Pending)"
    unfolding crossed_event_def .
  with f show ?thesis by (simp add: at_noon_def)
qed

section \<open>Payments that lose a race\<close>

text \<open>A balance that was topped up while the order was being paid from it.\<close>

definition topped_up :: "db \<Rightarrow> db" where
  "topped_up d = snd (mutate_wallet (\<lambda>_ d. d) (\<lambda>_. ''t'') (\<lambda>_. 8)
     \<lparr> wm_user = ''u'', wm_direction = Credit, wm_amount = ''100'', wm_currency = ''CNY'', wm_source = Src_Topup,
       wm_source_id = ''t'', wm_key = ''wallet-topup:t'' \<rparr> d)"

definition coupon_shop :: db where
  "coupon_shop = (card_shop Attempt_Pending) \<lparr> attempts := [],
     coupon_uses := [sample_coupon (Promotion Recall)],
     redemptions := [\<lparr> cr_id = ''r'', cr_coupon = ''cp'', cr_order = ''o'', cr_user = Some ''u'', cr_email = ''m'', cr_status = Redemption_Reserved \<rparr>] \<rparr>"

definition lost_wallet_payment :: "payment_reply result \<times> db" where
  "lost_wallet_payment = complete_wallet_store_order shop_catalogue (at_noon topped_up) ''o'' ''u'' coupon_shop"

definition coupon_state :: "db \<Rightarrow> nat list \<times> redemption_status list" where
  "coupon_state db = (map cu_used (coupon_uses db), map cr_status (redemptions db))"

definition crossed_wallet_payment :: "payment_reply result \<times> db" where
  "crossed_wallet_payment = complete_wallet_store_order shop_catalogue (at_noon cancelled_meanwhile) ''o'' ''u'' ((card_shop Attempt_Pending) \<lparr> attempts := [] \<rparr>)"

text \<open>
  A wallet payment that loses a race reports a conflict, but some of its statements took effect.
\<close>

lemma lost_wallet_payment_leaks:
  "fst lost_wallet_payment = Inl (DomainError ''order_version_conflict'' 409)
   \<and> map o_status (shop_orders (snd lost_wallet_payment)) = [Pending_Payment]
   \<and> coupon_state (cancelled_meanwhile (snd lost_wallet_payment)) = ([1], [Redemption_Consumed])
   \<and> coupon_state (cancelled_meanwhile coupon_shop) = ([0], [Redemption_Released])
   \<and> fst crossed_wallet_payment = Inl (DomainError ''order_version_conflict'' 409)
   \<and> map o_status (shop_orders (snd crossed_wallet_payment)) = [Cancelled]
   \<and> reserved_count (snd crossed_wallet_payment) ''i'' = 2
   \<and> available_stock (snd crossed_wallet_payment) ''s'' = 1
   \<and> allowed_transitions Cancelled = []"
  by code_simp

lemma late_success_cannot_be_refunded:
  "fst (paid_by_card Attempt_Failed) = Inr (False, ''succeeded'')
   \<and> map o_status (shop_orders (snd (paid_by_card Attempt_Failed))) = [Paid]
   \<and> map o_paid (shop_orders (snd (paid_by_card Attempt_Failed))) = [500]
   \<and> map pa_status (attempts (snd (paid_by_card Attempt_Failed))) = [Attempt_Failed]"
  by code_simp

end
