(* ===== verification/Payment_Attempts.thy ===== *)
theory Payment_Attempts
  imports Payments
begin

text \<open>
  Attempts to pay (\<^verbatim>\<open>createShopPayment\<close>, \<^verbatim>\<open>createWalletTopupPayment\<close>,
  \<^verbatim>\<open>reconcilePaymentAttempt\<close> and \<^verbatim>\<open>handleShopPaymentWebhook\<close> of
  \<^verbatim>\<open>src/features/shop-payments/server/service.ts\<close>): the amount a channel is asked for,
  the claim of an attempt under its idempotency key, the call of the provider and what is
  recorded when it fails. The providers themselves are parameters.
\<close>

section \<open>Providers and requests\<close>

record payment_port =
  pp_secret :: bool
  pp_open :: "string \<Rightarrow> string result"
  pp_create :: "string \<Rightarrow> string \<Rightarrow> string \<Rightarrow> currency_quote \<Rightarrow> string result"
  pp_query :: "string \<Rightarrow> string \<Rightarrow> string \<Rightarrow> (event_type \<times> string option \<times> string option) result"
  pp_parse :: "string \<Rightarrow> string \<Rightarrow> string \<Rightarrow> payment_event result"

text \<open>A channel without a credential has the empty one.\<close>

definition load_credential :: "payment_port \<Rightarrow> string option \<Rightarrow> string result" where
  "load_credential port encrypted =
     (case encrypted of
        None \<Rightarrow> Inr []
      | Some s \<Rightarrow> (if s = [] then Inr []
                  else if \<not> pp_secret port then Inl (DomainError ''payment_secret_unavailable'' 503)
                  else pp_open port s))"

record payment_request =
  pq_order :: string
  pq_channel :: string
  pq_key :: string
  pq_currency :: "string option"

record payment_view =
  pv_id :: string
  pv_status :: attempt_status
  pv_payment :: "string option"

definition present_attempt :: "attempt_row \<Rightarrow> payment_view" where
  "present_attempt a = \<lparr> pv_id = pa_id a, pv_status = pa_status a, pv_payment = pa_provider_payment a \<rparr>"

definition find_attempt_by_key :: "db \<Rightarrow> string \<Rightarrow> attempt_row option" where
  "find_attempt_by_key db key = sql_first (\<lambda>a. pa_key a = key) (attempts db)"

definition replay_attempt :: "attempt_row \<Rightarrow> payment_request \<Rightarrow> payment_view result" where
  "replay_attempt a q =
     (if pa_order a \<noteq> Some (pq_order q) \<or> pa_channel a \<noteq> pq_channel q
      then Inl (DomainError ''payment_idempotency_conflict'' 409) else Inr (present_attempt a))"

section \<open>What the channel is asked for\<close>

definition items_of :: "db \<Rightarrow> string \<Rightarrow> item_row list" where
  "items_of db order_id = filter (\<lambda>i. oi_order i = order_id) (order_items db)"

definition is_upgrade :: "db \<Rightarrow> item_row \<Rightarrow> bool" where
  "is_upgrade db i = sql_exists (\<lambda>u. up_order_item u = oi_id i) (upgrades db)"

definition fixed_channel_pricing :: "catalogue \<Rightarrow> db \<Rightarrow> string \<Rightarrow> string \<Rightarrow> bool" where
  "fixed_channel_pricing cat db order_id channel \<longleftrightarrow>
     list_ex (is_upgrade db) (items_of db order_id)
     \<or> list_all (\<lambda>i. ct_priced cat (oi_sellable i) channel) (items_of db order_id)"

definition has_channel_pricing :: "catalogue \<Rightarrow> db \<Rightarrow> string \<Rightarrow> string \<Rightarrow> bool" where
  "has_channel_pricing cat db order_id channel \<longleftrightarrow>
     list_ex (\<lambda>i. ct_priced cat (oi_sellable i) channel \<and> \<not> is_upgrade db i) (items_of db order_id)"

text \<open>What a balance hold leaves to pay, or the total.\<close>

definition order_amount :: "db \<Rightarrow> order_row \<Rightarrow> int" where
  "order_amount db x =
     (case sql_first (\<lambda>h. h_order h = o_id x \<and> h_state h = Held) (holds db) of
        Some h \<Rightarrow> h_external h | None \<Rightarrow> o_total x)"

definition channel_quote ::
  "catalogue \<Rightarrow> int \<Rightarrow> int \<Rightarrow> int \<Rightarrow> int \<Rightarrow> string \<Rightarrow> nat \<Rightarrow> string option \<Rightarrow> currency_quote result" where
  "channel_quote cat now amount fee_bps fixed_fee currency decimals wanted =
     and_then (gross_up_payment_amount amount fee_bps fixed_fee) (\<lambda>gross.
       quote_payment_currency (ct_rate_decimals cat) (ct_rates cat) now gross currency decimals
         (case wanted of Some w \<Rightarrow> w | None \<Rightarrow> currency))"

definition new_attempt ::
  "string \<Rightarrow> string option \<Rightarrow> string option \<Rightarrow> int option \<Rightarrow> string \<Rightarrow> string \<Rightarrow> currency_quote \<Rightarrow> int \<Rightarrow> attempt_row" where
  "new_attempt aid order_id topup priced channel key q now =
     \<lparr> pa_id = aid, pa_order = order_id, pa_topup = topup, pa_order_amount = priced, pa_channel = channel,
       pa_provider_payment = None, pa_key = key, pa_status = Attempt_Created, pa_amount = cq_amount_minor q,
       pa_currency = cq_currency q, pa_decimals = cq_decimals q, pa_rate = cq_rate q, pa_direction = cq_direction q,
       pa_failure = None, pa_succeeded_at = None, pa_updated_at = now \<rparr>"

section \<open>Statements\<close>

text \<open>The triggers of the insert run before its key is found to be taken.\<close>

definition claim_attempt :: "bool \<Rightarrow> attempt_row \<Rightarrow> db stmt" where
  "claim_attempt ignore a n db =
     and_then (insert_attempt a db) (\<lambda>db'.
       if find_attempt_by_key db (pa_key a) = None then Inr (db', 1)
       else if ignore then Inr (db, 0) else Inl (DbAbort ''payment_attempts_idempotency_uidx''))"

definition open_attempt :: "string \<Rightarrow> string \<Rightarrow> string \<Rightarrow> int \<Rightarrow> db stmt" where
  "open_attempt attempt_id channel payment now n db =
     (if sql_exists (\<lambda>a. pa_id a = attempt_id \<and> pa_status a = Attempt_Created) (attempts db)
         \<and> sql_exists (\<lambda>a. pa_id a \<noteq> attempt_id \<and> pa_channel a = channel \<and> pa_provider_payment a = Some payment) (attempts db)
      then Inl (DbAbort ''payment_attempts_channel_provider_uidx'')
      else update_attempt attempt_id (\<lambda>a. pa_status a = Attempt_Created)
             (\<lambda>a. a \<lparr> pa_provider_payment := Some payment, pa_status := Attempt_Pending, pa_updated_at := now \<rparr>) n db)"

definition failure_code :: "failure \<Rightarrow> string" where
  "failure_code f = (case f of DomainError code _ \<Rightarrow> code | _ \<Rightarrow> ''provider_create_failed'')"

definition payment_creation_failure_statements :: "string \<Rightarrow> failure \<Rightarrow> int \<Rightarrow> db stmt list" where
  "payment_creation_failure_statements attempt_id f now =
     [update_attempt attempt_id (\<lambda>a. pa_status a = Attempt_Created)
        (\<lambda>a. a \<lparr> pa_status := Attempt_Failed, pa_failure := Some (failure_code f), pa_updated_at := now \<rparr>),
      audit ''payment.creation_failed'' attempt_id]"

text \<open>The provider is called and its payment recorded; any failure on the way is recorded and rethrown.\<close>

definition start_payment ::
  "(string \<Rightarrow> string result) \<Rightarrow> (db \<Rightarrow> db) \<Rightarrow> string \<Rightarrow> string \<Rightarrow> int \<Rightarrow> (failure \<Rightarrow> db stmt list) \<Rightarrow> db
   \<Rightarrow> payment_view result \<times> db" where
  "start_payment create env attempt_id channel now on_failure db =
     (let outcome = create attempt_id; db = env db;
          opened = and_then outcome (\<lambda>payment. and_then (run_batch [open_attempt attempt_id channel payment now] db)
                     (\<lambda>(db', _). Inr (payment, db')))
      in case opened of
           Inr (payment, db') \<Rightarrow> (Inr \<lparr> pv_id = attempt_id, pv_status = Attempt_Pending, pv_payment = Some payment \<rparr>, db')
         | Inl f \<Rightarrow>
             (case run_batch (on_failure f) db of
                Inl g \<Rightarrow> (Inl g, db)
              | Inr (db', _) \<Rightarrow> (Inl f, db')))"

section \<open>Paying an order\<close>

definition order_quote :: "catalogue \<Rightarrow> db \<Rightarrow> int \<Rightarrow> payment_request \<Rightarrow> order_row \<Rightarrow> channel_row \<Rightarrow> currency_quote result" where
  "order_quote cat db now q x c =
     (let fixed = fixed_channel_pricing cat db (o_id x) (pc_id c)
      in channel_quote cat now (order_amount db x) (if fixed then 0 else pc_fee_bps c) (if fixed then 0 else pc_fixed_fee c)
           (o_currency x) (o_decimals x) (pq_currency q))"

definition create_shop_payment ::
  "payment_port \<Rightarrow> catalogue \<Rightarrow> (db \<Rightarrow> db) \<Rightarrow> (db \<Rightarrow> db) \<Rightarrow> int \<Rightarrow> string \<Rightarrow> payment_request \<Rightarrow> db \<Rightarrow> payment_view result \<times> db" where
  "create_shop_payment port cat env env' now aid q db =
     (case find_attempt_by_key db (pq_key q) of
        Some a \<Rightarrow> (replay_attempt a q, db)
      | None \<Rightarrow>
          (case (find_order db (pq_order q), sql_first (\<lambda>c. pc_id c = pq_channel q \<and> pc_enabled c) (channels db)) of
             (Some x, Some c) \<Rightarrow>
               (if o_status x \<noteq> Pending_Payment then (Inl (DomainError ''order_not_payable'' 409), db)
                else if (case o_pricing_channel x of Some p \<Rightarrow> p \<noteq> pc_id c
                         | None \<Rightarrow> has_channel_pricing cat db (o_id x) (pc_id c))
                then (Inl (DomainError ''payment_channel_mismatch'' 409), db)
                else if (case find_hold db (o_id x) of None \<Rightarrow> False | Some h \<Rightarrow> h_state h \<noteq> Held)
                then (Inl (DomainError ''payment_reconciliation_required'' 409), db)
                else
                  (case and_then (order_quote cat db now q x c) (\<lambda>quote.
                          and_then (load_credential port (pc_credential c)) (\<lambda>cred. Inr (quote, cred))) of
                     Inl f \<Rightarrow> (Inl f, db)
                   | Inr (quote, cred) \<Rightarrow>
                       (let a = new_attempt aid (Some (o_id x)) None (Some (order_amount db x)) (pc_id c) (pq_key q) quote now;
                            db = env db
                        in case run_batch [claim_attempt True a] db of
                             Inl f \<Rightarrow> (Inl f, db)
                           | Inr (db', changes) \<Rightarrow>
                               (if changes ! 0 \<noteq> 1
                                then (case find_attempt_by_key db' (pq_key q) of
                                        None \<Rightarrow> (Inl (DomainError ''payment_idempotency_conflict'' 409), db')
                                      | Some b \<Rightarrow> (replay_attempt b q, db'))
                                else start_payment (\<lambda>i. pp_create port (pc_provider c) cred i quote) env' aid (pc_id c) now
                                       (\<lambda>f. payment_creation_failure_statements aid f now) db'))))
           | _ \<Rightarrow> (Inl (DomainError ''payment_channel_unavailable'' 404), db)))"

section \<open>Topping up a wallet\<close>

record topup_request =
  tq_user :: string
  tq_amount :: int
  tq_channel :: string
  tq_key :: string
  tq_currency :: "string option"

definition replay_topup :: "db \<Rightarrow> attempt_row \<Rightarrow> topup_request \<Rightarrow> (string \<times> payment_view) result" where
  "replay_topup db a q =
     (case (pa_topup a, case pa_topup a of None \<Rightarrow> None | Some i \<Rightarrow> sql_first (\<lambda>t. tp_id t = i) (topups db)) of
        (Some i, Some t) \<Rightarrow>
          (if pa_channel a = tq_channel q \<and> tp_amount t = tq_amount q then Inr (i, present_attempt a)
           else Inl (DomainError ''payment_idempotency_conflict'' 409))
      | _ \<Rightarrow> Inl (DomainError ''payment_idempotency_conflict'' 409))"

definition insert_topup :: "topup_row \<Rightarrow> db stmt" where
  "insert_topup t n db =
     (if tp_amount t < 0 then Inl (DbAbort ''wallet_topups_amount_check'')
      else if sql_exists (\<lambda>x. tp_user x = tp_user t \<and> tp_key x = tp_key t) (topups db)
      then Inl (DbAbort ''wallet_topups_user_idempotency_uidx'')
      else Inr (db \<lparr> topups := topups db @ [t] \<rparr>, 1))"

definition new_topup :: "string \<Rightarrow> topup_request \<Rightarrow> string \<Rightarrow> int \<Rightarrow> topup_row" where
  "new_topup tid q currency now = \<lparr> tp_id = tid, tp_user = tq_user q, tp_amount = tq_amount q, tp_currency = currency,
     tp_status = Topup_Pending, tp_key = tq_key q, tp_paid_at = None, tp_updated_at = now \<rparr>"

text \<open>A top-up whose payment could not be created is failed, whatever its status.\<close>

definition fail_topup :: "string \<Rightarrow> int \<Rightarrow> db stmt" where
  "fail_topup tid now n db =
     Inr (db \<lparr> topups := sql_update (\<lambda>t. tp_id t = tid) (\<lambda>t. t \<lparr> tp_status := Topup_Failed, tp_updated_at := now \<rparr>) (topups db) \<rparr>,
          sql_changes (\<lambda>t. tp_id t = tid) (topups db))"

definition create_wallet_topup_payment ::
  "payment_port \<Rightarrow> catalogue \<Rightarrow> (db \<Rightarrow> db) \<Rightarrow> (db \<Rightarrow> db) \<Rightarrow> int \<Rightarrow> string \<Rightarrow> string \<Rightarrow> topup_request \<Rightarrow> db
   \<Rightarrow> (string \<times> payment_view) result \<times> db" where
  "create_wallet_topup_payment port cat env env' now tid aid q db =
     (case find_attempt_by_key db (tq_key q) of
        Some a \<Rightarrow> (replay_topup db a q, db)
      | None \<Rightarrow>
          (case (sql_first (\<lambda>u. u_id u = tq_user q \<and> u_enabled u) (users db),
                 sql_first (\<lambda>c. pc_id c = tq_channel q \<and> pc_enabled c) (channels db)) of
             (Some u, Some c) \<Rightarrow>
               (case channel_quote cat now (tq_amount q) (pc_fee_bps c) (pc_fixed_fee c) (ct_currency cat) (ct_decimals cat)
                       (tq_currency q) of
                  Inl f \<Rightarrow> (Inl f, db)
                | Inr quote \<Rightarrow>
                    (let db = env db
                     in case run_batch [insert_topup (new_topup tid q (ct_currency cat) now),
                                claim_attempt False (new_attempt aid None (Some tid) None (pc_id c) (tq_key q) quote now)] db of
                          Inl f \<Rightarrow> (Inl f, db)
                        | Inr (db', _) \<Rightarrow>
                            (case start_payment (\<lambda>i. and_then (load_credential port (pc_credential c)) (\<lambda>cred.
                                      pp_create port (pc_provider c) cred i quote)) env' aid (pc_id c) now
                                    (\<lambda>f. payment_creation_failure_statements aid f now @ [fail_topup tid now]) db' of
                               (Inl f, d) \<Rightarrow> (Inl f, d)
                             | (Inr view, d) \<Rightarrow> (Inr (tid, view), d))))
           | _ \<Rightarrow> (Inl (DomainError ''payment_channel_unavailable'' 404), db)))"

section \<open>Webhooks and queries\<close>

definition handle_shop_payment_webhook ::
  "payment_port \<Rightarrow> catalogue \<Rightarrow> (string \<Rightarrow> string) \<Rightarrow> moment \<Rightarrow> string \<Rightarrow> string \<Rightarrow> db \<Rightarrow> (string \<times> payment_reply) result \<times> db" where
  "handle_shop_payment_webhook port cat number m channel body db =
     (case sql_first (\<lambda>c. pc_id c = channel \<and> pc_enabled c) (channels db) of
        None \<Rightarrow> (Inl (DomainError ''payment_channel_not_found'' 404), db)
      | Some c \<Rightarrow>
          (case and_then (load_credential port (pc_credential c)) (\<lambda>cred. pp_parse port (pc_provider c) body cred) of
             Inl f \<Rightarrow> (Inl f, db)
           | Inr e \<Rightarrow>
               (case process_payment_event cat number m channel e db of
                  (Inl f, d) \<Rightarrow> (Inl f, d)
                | (Inr r, d) \<Rightarrow> (Inr (pc_provider c, r), d))))"

definition touch_attempt :: "string \<Rightarrow> int \<Rightarrow> db stmt" where
  "touch_attempt attempt_id now =
     update_attempt attempt_id (\<lambda>a. pa_status a \<in> {Attempt_Pending, Attempt_Expired}) (\<lambda>a. a \<lparr> pa_updated_at := now \<rparr>)"

definition reconcile_event :: "attempt_row \<Rightarrow> string option \<Rightarrow> string option \<Rightarrow> payment_event" where
  "reconcile_event a amount currency =
     \<lparr> ev_id = ''payment-reconcile:'' @ pa_channel a @ '':'' @ pa_id a,
       ev_payment = (case pa_provider_payment a of Some p \<Rightarrow> p | None \<Rightarrow> []), ev_type = Payment_Succeeded,
       ev_amount = Some (case amount of Some s \<Rightarrow> s | None \<Rightarrow> big_string (pa_amount a)), ev_decimal = None,
       ev_currency = Some (case currency of Some s \<Rightarrow> s | None \<Rightarrow> pa_currency a), ev_merchant = None,
       ev_digest = ''payment-reconcile:'' @ pa_id a \<rparr>"

text \<open>The outcome tells whether the payment had succeeded.\<close>

definition reconcile_payment_attempt ::
  "payment_port \<Rightarrow> catalogue \<Rightarrow> (string \<Rightarrow> string) \<Rightarrow> moment \<Rightarrow> attempt_row \<Rightarrow> channel_row \<Rightarrow> db \<Rightarrow> bool result \<times> db" where
  "reconcile_payment_attempt port cat number m a c db =
     (case and_then (load_credential port (pc_credential c)) (\<lambda>cred.
             pp_query port (pc_provider c) (case pa_provider_payment a of Some p \<Rightarrow> p | None \<Rightarrow> []) cred) of
        Inl f \<Rightarrow> (Inl f, db)
      | Inr (type, amount, currency) \<Rightarrow>
          (if type \<noteq> Payment_Succeeded
           then (case run_batch [touch_attempt (pa_id a) (mo_now m)] db of
                   Inl f \<Rightarrow> (Inl f, db) | Inr (db', _) \<Rightarrow> (Inr False, db'))
           else (case process_payment_event cat number m (pa_channel a) (reconcile_event a amount currency) db of
                   (Inl f, d) \<Rightarrow> (Inl f, d) | (Inr _, d) \<Rightarrow> (Inr True, d))))"

section \<open>One attempt per key\<close>

text \<open>Other requests may move an attempt on, but keep what it is for.\<close>

definition same_attempts :: "db \<Rightarrow> db \<Rightarrow> bool" where
  "same_attempts db d \<longleftrightarrow> (\<forall>k a. find_attempt_by_key db k = Some a \<longrightarrow>
     (\<exists>b. find_attempt_by_key d k = Some b \<and> pa_id b = pa_id a \<and> pa_order b = pa_order a \<and> pa_channel b = pa_channel a))"

lemma same_attempts_refl [simp]: "same_attempts db db"
  by (simp add: same_attempts_def)

lemma same_attempts_trans: "same_attempts a b \<Longrightarrow> same_attempts b c \<Longrightarrow> same_attempts a c"
  unfolding same_attempts_def by metis

lemma sql_update_attempts:
  assumes "\<And>a. pa_key (f a) = pa_key a \<and> pa_id (f a) = pa_id a \<and> pa_order (f a) = pa_order a \<and> pa_channel (f a) = pa_channel a"
    and "attempts d = sql_update P f (attempts db)"
  shows "same_attempts db d"
proof -
  have "sql_first (\<lambda>a. pa_key a = k) (sql_update P f t) = map_option (\<lambda>a. if P a then f a else a) (sql_first (\<lambda>a. pa_key a = k) t)" for k t
    by (rule sql_first_update_key) (simp add: assms(1))
  then show ?thesis using assms by (auto simp: same_attempts_def find_attempt_by_key_def)
qed

lemma quiet_attempts:
  assumes "update_attempt i P f n db = Inr (d, c)"
    and "\<And>a. pa_key (f a) = pa_key a \<and> pa_id (f a) = pa_id a \<and> pa_order (f a) = pa_order a \<and> pa_channel (f a) = pa_channel a"
  shows "same_attempts db d"
proof (cases "sql_first (\<lambda>a. pa_id a = i \<and> P a) (attempts db)")
  case None
  with assms(1) show ?thesis by (simp add: update_attempt_def)
next
  case (Some old)
  with assms(1) have "attempts d = sql_update (\<lambda>a. pa_id a = i \<and> P a) f (attempts db)"
    by (auto simp: update_attempt_def and_then_Inr same_rest_def dest!: attempt_failed_release_rest)
  then show ?thesis by (rule sql_update_attempts [OF assms(2)])
qed

lemma open_attempts:
  assumes "run_batch [open_attempt i channel payment now] db = Inr (d, cs)"
  shows "same_attempts db d"
proof -
  from assms obtain c where "open_attempt i channel payment now 0 db = Inr (d, c)"
    by (auto simp: run_batch_def split: sum.splits prod.splits)
  then have "update_attempt i (\<lambda>a. pa_status a = Attempt_Created)
      (\<lambda>a. a \<lparr> pa_provider_payment := Some payment, pa_status := Attempt_Pending, pa_updated_at := now \<rparr>) 0 db = Inr (d, c)"
    by (simp add: open_attempt_def split: if_splits)
  then show ?thesis by (rule quiet_attempts) simp
qed

lemma started_payment:
  assumes "start_payment create env i channel now fail db = (Inr v, db')" and "same_attempts db (env db)"
  shows "same_attempts db db' \<and> pv_id v = i"
  using assms same_attempts_trans open_attempts
  by (fastforce simp: start_payment_def Let_def and_then_Inr split: sum.splits prod.splits)

lemma claimed_attempt:
  assumes "run_batch [claim_attempt True a] db = Inr (db', cs)" and "cs ! 0 = 1"
  shows "find_attempt_by_key db' (pa_key a) = Some a"
proof -
  from assms obtain c where c: "claim_attempt True a 0 db = Inr (db', c)" "c = 1"
    by (auto simp: run_batch_def split: sum.splits prod.splits)
  then have "find_attempt_by_key db (pa_key a) = None" "insert_attempt a db = Inr db'"
    by (auto simp: claim_attempt_def and_then_Inr split: if_splits)
  moreover from this(2) have "attempts db' = attempts db @ [a]" by (auto simp: insert_attempt_def split: if_splits)
  ultimately show ?thesis by (simp add: find_attempt_by_key_def sql_first_append)
qed

lemma created_payment:
  assumes "create_shop_payment port cat env env' now aid q db = (Inr v, db')" and "\<And>d. same_attempts d (env' d)"
  shows "\<exists>a. find_attempt_by_key db' (pq_key q) = Some a \<and> pa_id a = pv_id v \<and> pa_order a = Some (pq_order q) \<and> pa_channel a = pq_channel q"
proof (cases "find_attempt_by_key db (pq_key q)")
  case (Some a)
  with assms(1) show ?thesis
    by (auto simp: create_shop_payment_def replay_attempt_def present_attempt_def split: if_splits)
next
  case None
  from assms(1) None obtain x c quote cred d1 cs where
    x: "find_order db (pq_order q) = Some x" and c: "sql_first (\<lambda>c. pc_id c = pq_channel q \<and> pc_enabled c) (channels db) = Some c"
    and b: "run_batch [claim_attempt True (new_attempt aid (Some (o_id x)) None (Some (order_amount db x)) (pc_id c) (pq_key q) quote now)] (env db)
        = Inr (d1, cs)"
    and r: "(if cs ! 0 \<noteq> 1
        then (case find_attempt_by_key d1 (pq_key q) of
                None \<Rightarrow> (Inl (DomainError ''payment_idempotency_conflict'' 409), d1)
              | Some b \<Rightarrow> (replay_attempt b q, d1))
        else start_payment (\<lambda>i. pp_create port (pc_provider c) cred i quote) env' aid (pc_id c) now
               (\<lambda>f. payment_creation_failure_statements aid f now) d1) = (Inr v, db')"
    by (auto simp: create_shop_payment_def Let_def split: option.splits if_splits sum.splits prod.splits)
  show ?thesis
  proof (cases "cs ! 0 = 1")
    case False
    with r show ?thesis by (auto simp: replay_attempt_def present_attempt_def split: option.splits if_splits)
  next
    case True
    have ids: "o_id x = pq_order q" "pc_id c = pq_channel q"
      using sql_first_Some [OF x [unfolded find_order_def]] sql_first_Some [OF c] by simp_all
    from claimed_attempt [OF b True] have f: "find_attempt_by_key d1 (pq_key q)
        = Some (new_attempt aid (Some (o_id x)) None (Some (order_amount db x)) (pc_id c) (pq_key q) quote now)"
      by (simp add: new_attempt_def)
    from r True started_payment [where env = env', OF _ assms(2)] have "same_attempts d1 db' \<and> pv_id v = aid" by (auto split: if_splits)
    with f show ?thesis unfolding same_attempts_def by (fastforce simp: new_attempt_def ids)
  qed
qed


definition open_port :: payment_port where
  "open_port = \<lparr> pp_secret = True, pp_open = Inr, pp_create = \<lambda>_ _ i _. Inr (''pay-'' @ i),
     pp_query = \<lambda>_ _ _. Inr (Payment_Pending, None, None), pp_parse = \<lambda>_ _ _. Inr card_event \<rparr>"

definition card_request :: payment_request where
  "card_request = \<lparr> pq_order = ''o'', pq_channel = ''c'', pq_key = ''key'', pq_currency = None \<rparr>"

definition first_request :: "payment_view result \<times> db" where
  "first_request = create_shop_payment open_port shop_catalogue (\<lambda>d. d) (\<lambda>d. d) 9 ''a1'' card_request ((card_shop Attempt_Pending) \<lparr> attempts := [] \<rparr>)"


end
