(* ===== verification/Balance_Refunds.thy ===== *)
theory Balance_Refunds
  imports Frames
begin

text \<open>
  How a refund is split over what paid for the order, and refunds that go back to balances only
  (\<^verbatim>\<open>src/features/promotions/server/refunds.ts\<close>), with the fulfilment a full
  refund stops (\<^verbatim>\<open>src/features/fulfillment/server/refund-cancellation.ts\<close>).
\<close>

section \<open>The split\<close>

record refund_split =
  rs_order :: order_row
  rs_cash :: int
  rs_reward :: int
  rs_external :: int
  rs_reversal :: int
  rs_after :: int
  rs_allocated :: bool

definition succeeded_refunds :: "db \<Rightarrow> string \<Rightarrow> refund_row list" where
  "succeeded_refunds db i = filter (\<lambda>r. r_order r = i \<and> r_status r = Refund_Succeeded) (refunds db)"

definition refunded :: "(refund_row \<Rightarrow> int) \<Rightarrow> db \<Rightarrow> string \<Rightarrow> int" where
  "refunded key db i = sum_list (map key (succeeded_refunds db i))"

definition consumed_hold :: "db \<Rightarrow> string \<Rightarrow> hold_row option" where
  "consumed_hold db i = sql_first (\<lambda>h. h_order h = i \<and> h_state h = Consumed) (holds db)"

definition consumed_part :: "(hold_row \<Rightarrow> int) \<Rightarrow> db \<Rightarrow> string \<Rightarrow> int" where
  "consumed_part key db i = (case consumed_hold db i of None \<Rightarrow> 0 | Some h \<Rightarrow> key h)"

definition promotion_refund_split :: "db \<Rightarrow> string \<Rightarrow> int \<Rightarrow> refund_split option result" where
  "promotion_refund_split db i delta =
     (case find_order db i of
        None \<Rightarrow> Inr None
      | Some x \<Rightarrow>
          (let paid = o_paid x; before = refunded r_amount db i
           in if paid \<le> 0 \<or> delta \<le> 0 \<or> before + delta > paid
              then Inl (DomainError ''refund_amount_exceeded'' 409)
              else
                (let cash_left = consumed_part h_cash db i - refunded r_cash db i;
                     reward_left = consumed_part h_reward db i - refunded r_reward db i;
                     remaining = paid - before;
                     parts = apportion (\<lambda>k. k) remaining delta
                       [cash_left, reward_left, remaining - cash_left - reward_left];
                     reversal = big_quot (o_referral_reward x * (before + delta)) paid - refunded r_reversal db i
                 in Inr (Some \<lparr> rs_order = x, rs_cash = parts ! 0, rs_reward = parts ! 1,
                      rs_external = delta - parts ! 0 - parts ! 1, rs_reversal = reversal,
                      rs_after = before + delta, rs_allocated = (consumed_hold db i \<noteq> None) \<rparr>))))"

section \<open>Stopping fulfilment\<close>

definition order_refunded :: "string \<Rightarrow> db \<Rightarrow> bool" where
  "order_refunded i db = sql_exists (\<lambda>x. o_id x = i \<and> o_status x = Refunded) (shop_orders db)"

definition cancel_supplies :: "string \<Rightarrow> db stmt" where
  "cancel_supplies i n db =
     (let hit = (\<lambda>s. so_order s = i \<and> order_refunded i db
                   \<and> so_state s \<in> {Supply_Pending, Supply_Selecting, Supply_Submitting, Supply_Uncertain, Supply_Failed})
      in Inr (db \<lparr> supplies := sql_update hit (\<lambda>s. s \<lparr> so_state := Supply_Refunded, so_next_retry_at := None \<rparr>) (supplies db) \<rparr>,
              sql_changes hit (supplies db)))"

definition publish_events :: "(db \<Rightarrow> outbox_row \<Rightarrow> bool) \<Rightarrow> db stmt" where
  "publish_events P n db =
     (let hit = (\<lambda>e. P db e \<and> ob_status e \<in> {Outbox_Pending, Outbox_Processing})
      in Inr (db \<lparr> outbox := sql_update hit (\<lambda>e. e \<lparr> ob_status := Outbox_Published \<rparr>) (outbox db) \<rparr>,
              sql_changes hit (outbox db)))"

definition cancel_deliveries :: "string \<Rightarrow> db stmt" where
  "cancel_deliveries i n db =
     (let hit = (\<lambda>d. d_order_item d \<in> set (order_item_ids db i) \<and> order_refunded i db
                   \<and> d_status d \<in> {Delivery_Awaiting_Supply, Delivery_Pending})
      in Inr (db \<lparr> deliveries := sql_update hit (\<lambda>d. d \<lparr> d_status := Delivery_Failed,
                 d_error := Some ''order_refunded'', d_next_attempt_at := None \<rparr>) (deliveries db) \<rparr>,
              sql_changes hit (deliveries db)))"

definition cancel_open_fulfillment :: "string \<Rightarrow> db stmt list" where
  "cancel_open_fulfillment i =
     [cancel_supplies i,
      publish_events (\<lambda>db e. ob_type e = ''supplier.requested'' \<and> order_refunded i db
        \<and> sql_exists (\<lambda>s. so_order s = i \<and> so_id s = ob_aggregate e) (supplies db)),
      cancel_deliveries i,
      publish_events (\<lambda>db e. ob_type e = ''delivery.requested'' \<and> order_refunded i db
        \<and> sql_exists (\<lambda>d. d_id d = ob_aggregate e \<and> d_order_item d \<in> set (order_item_ids db i)
            \<and> d_status d = Delivery_Failed \<and> d_error d = Some ''order_refunded'') (deliveries db))]"

section \<open>A refund to balances\<close>

text \<open>A new refund row, as the handlers insert it; the amounts in the order's currency.\<close>

definition new_refund :: "string \<Rightarrow> string \<Rightarrow> string \<Rightarrow> int \<Rightarrow> order_row \<Rightarrow> int \<Rightarrow> refund_row" where
  "new_refund rid i key amount x now = \<lparr> r_id = rid, r_order = i, r_attempt = None, r_provider_refund = None,
     r_key = key, r_amount = amount, r_payment_amount = amount, r_status_before = o_status x,
     r_status = Refund_Succeeded, r_cash = 0, r_reward = 0, r_reversal = 0, r_failure = None, r_attempts = 0,
     r_next_attempt_at = None, r_completed_at = Some now, r_updated_at = now \<rparr>"

definition refund_when :: "(nat \<Rightarrow> db \<Rightarrow> bool) \<Rightarrow> refund_row \<Rightarrow> db stmt" where
  "refund_when P r n db = (if P n db then and_then (insert_refund r db) (\<lambda>db. Inr (db, 1)) else Inr (db, 0))"

definition order_at :: "string \<Rightarrow> nat \<Rightarrow> db \<Rightarrow> bool" where
  "order_at i v db = sql_exists (\<lambda>x. o_id x = i \<and> o_version x = v) (shop_orders db)"

definition refund_status :: "order_status \<times> int \<Rightarrow> order_row \<Rightarrow> order_row" where
  "refund_status a x = (let (st, now) = a in x \<lparr> o_status := st, o_version := Suc (o_version x),
     o_refunded_at := (if st = Refunded then Some now else o_refunded_at x), o_updated_at := now \<rparr>)"

definition refundable_statuses :: "order_status list" where
  "refundable_statuses = [Paid, Fulfilling, Completed, Order_Failed]"

definition allocated_status :: "refund_split \<Rightarrow> order_status" where
  "allocated_status split = (if rs_after split = o_paid (rs_order split) then Refunded else o_status (rs_order split))"

definition allocated_refund :: "string \<Rightarrow> string \<Rightarrow> int \<Rightarrow> refund_split \<Rightarrow> int \<Rightarrow> refund_row" where
  "allocated_refund rid key amount split now = new_refund rid (o_id (rs_order split)) key amount (rs_order split) now
     \<lparr> r_cash := rs_cash split, r_reward := rs_reward split, r_reversal := rs_reversal split \<rparr>"

definition allocated_tail :: "db \<Rightarrow> string \<Rightarrow> refund_split \<Rightarrow> int \<Rightarrow> db stmt list" where
  "allocated_tail db rid split now =
     (let x = rs_order split; i = o_id x; st = allocated_status split; same = (o_status x = st)
      in [event_when (\<lambda>db. sql_exists (\<lambda>r. r_id r = rid) (refunds db)) \<lparr> oe_order = i, oe_type = ''refund_succeeded'',
            oe_from = (if same then None else Some (o_status x)), oe_to = (if same then None else Some st),
            oe_version = Some (Suc (o_version x)) \<rparr>]
         @ (if st = Refunded then refund_grant_statements db i now (Some (rid, 0)) @ cancel_open_fulfillment i else [])
         @ [audit ''refund.balance_succeeded'' rid])"

definition allocated_statements ::
  "db \<Rightarrow> string \<Rightarrow> string \<Rightarrow> int \<Rightarrow> refund_split \<Rightarrow> int \<Rightarrow> db stmt list" where
  "allocated_statements db rid key amount split now =
     (let x = rs_order split
      in update_order (o_id x) (\<lambda>db y. o_version y = o_version x \<and> o_status y = o_status x)
           (refund_status (allocated_status split, now))
         # refund_when (\<lambda>n db. n = 1 \<and> order_at (o_id x) (Suc (o_version x)) db)
             (allocated_refund rid key amount split now)
         # allocated_tail db rid split now)"

text \<open>\<open>db\<close> is what the handler read the split from; \<open>env\<close> runs before the batch.\<close>

definition refund_allocated_balance ::
  "(db \<Rightarrow> db) \<Rightarrow> int \<Rightarrow> string \<Rightarrow> string \<Rightarrow> int \<Rightarrow> refund_split \<Rightarrow> db \<Rightarrow> string result \<times> db" where
  "refund_allocated_balance env now rid key amount split db =
     (if o_status (rs_order split) \<notin> set refundable_statuses \<or> rs_external split \<noteq> 0
      then (Inl (DomainError ''refund_order_unavailable'' 409), db)
      else (case run_batch (allocated_statements db rid key amount split now) (env db) of
              Inl e \<Rightarrow> (Inl e, env db)
            | Inr (db', changes) \<Rightarrow>
                (if changes ! 0 < 1 then (Inl (DomainError ''order_version_conflict'' 409), db')
                 else (Inr rid, db'))))"

section \<open>What a split promises\<close>

text \<open>
  The refunds of an order so far: no source has given back more than it paid, and the reward
  taken back from the referrer is in proportion to what was refunded.
\<close>

definition refunds_in_step :: "db \<Rightarrow> string \<Rightarrow> bool" where
  "refunds_in_step db i \<longleftrightarrow>
     (case find_order db i of
        None \<Rightarrow> True
      | Some x \<Rightarrow>
          (let cash_left = consumed_part h_cash db i - refunded r_cash db i;
               reward_left = consumed_part h_reward db i - refunded r_reward db i;
               left = o_paid x - refunded r_amount db i
           in 0 \<le> cash_left \<and> 0 \<le> reward_left \<and> cash_left + reward_left \<le> left
              \<and> 0 \<le> o_referral_reward x \<and> 0 \<le> refunded r_amount db i
              \<and> (0 < o_paid x \<longrightarrow> refunded r_reversal db i
                   = big_quot (o_referral_reward x * refunded r_amount db i) (o_paid x))))"

lemma promotion_refund_split_Inr:
  assumes "promotion_refund_split db i delta = Inr (Some s)"
  obtains x where "find_order db i = Some x" "rs_order s = x" "0 < o_paid x" "0 < delta"
    "refunded r_amount db i + delta \<le> o_paid x" "rs_after s = refunded r_amount db i + delta"
    "rs_external s = delta - rs_cash s - rs_reward s"
    "rs_allocated s \<longleftrightarrow> consumed_hold db i \<noteq> None"
    "rs_reversal s = big_quot (o_referral_reward x * rs_after s) (o_paid x) - refunded r_reversal db i"
    "rs_cash s = largest_remainder delta [consumed_part h_cash db i - refunded r_cash db i,
       consumed_part h_reward db i - refunded r_reward db i, o_paid x - refunded r_amount db i
         - (consumed_part h_cash db i - refunded r_cash db i) - (consumed_part h_reward db i - refunded r_reward db i)] ! 0"
    "rs_reward s = largest_remainder delta [consumed_part h_cash db i - refunded r_cash db i,
       consumed_part h_reward db i - refunded r_reward db i, o_paid x - refunded r_amount db i
         - (consumed_part h_cash db i - refunded r_cash db i) - (consumed_part h_reward db i - refunded r_reward db i)] ! 1"
  using assms
  by (auto simp: promotion_refund_split_def Let_def largest_remainder_def split: option.splits if_splits)

lemma sum_list_three: "length xs = 3 \<Longrightarrow> sum_list xs = xs ! 0 + xs ! 1 + (xs ! 2 :: int)"
  by (auto simp: length_Suc_conv numeral_3_eq_3)

text \<open>The split is an apportionment of what each source has left.\<close>

lemma split_bounds:
  assumes "promotion_refund_split db i delta = Inr (Some s)" and "refunds_in_step db i"
  shows "0 \<le> rs_cash s" "rs_cash s \<le> consumed_part h_cash db i - refunded r_cash db i"
    "0 \<le> rs_reward s" "rs_reward s \<le> consumed_part h_reward db i - refunded r_reward db i"
    "0 \<le> rs_external s" "rs_external s \<le> o_paid (rs_order s) - refunded r_amount db i
       - (consumed_part h_cash db i - refunded r_cash db i) - (consumed_part h_reward db i - refunded r_reward db i)"
    "rs_cash s + rs_reward s + rs_external s = delta"
proof -
  from assms(1) obtain x where x: "find_order db i = Some x" "rs_order s = x" "0 < delta"
    "refunded r_amount db i + delta \<le> o_paid x" "rs_external s = delta - rs_cash s - rs_reward s"
    and c: "rs_cash s = largest_remainder delta [consumed_part h_cash db i - refunded r_cash db i,
       consumed_part h_reward db i - refunded r_reward db i, o_paid x - refunded r_amount db i
         - (consumed_part h_cash db i - refunded r_cash db i) - (consumed_part h_reward db i - refunded r_reward db i)] ! 0"
    and r: "rs_reward s = largest_remainder delta [consumed_part h_cash db i - refunded r_cash db i,
       consumed_part h_reward db i - refunded r_reward db i, o_paid x - refunded r_amount db i
         - (consumed_part h_cash db i - refunded r_cash db i) - (consumed_part h_reward db i - refunded r_reward db i)] ! 1"
    by (rule promotion_refund_split_Inr)
  let ?c = "consumed_part h_cash db i - refunded r_cash db i"
  let ?r = "consumed_part h_reward db i - refunded r_reward db i"
  let ?l = "o_paid x - refunded r_amount db i"
  let ?w = "[?c, ?r, ?l - ?c - ?r]"
  from assms(2) x(1) have n: "0 \<le> ?c" "0 \<le> ?r" "?c + ?r \<le> ?l"
    by (simp_all add: refunds_in_step_def Let_def)
  then have w: "\<forall>w\<in>set ?w. 0 \<le> w" "0 \<le> delta" "delta \<le> sum_list ?w" using x(3,4) by simp_all
  note b = lr.split_bounds [OF w]
  have len: "length (largest_remainder delta ?w) = 3" using lr.split_length [OF w] by simp
  then have "sum_list (largest_remainder delta ?w) = largest_remainder delta ?w ! 0 + largest_remainder delta ?w ! 1
      + largest_remainder delta ?w ! 2" by (rule sum_list_three)
  with lr.split_sum [OF w] c r x(5) have sm: "largest_remainder delta ?w ! 2 = rs_external s" by linarith
  from b [of 0] c show "0 \<le> rs_cash s" "rs_cash s \<le> ?c" by simp_all
  from b [of 1] r show "0 \<le> rs_reward s" "rs_reward s \<le> ?r" by simp_all
  from b [of 2] sm x(2) show "0 \<le> rs_external s" "rs_external s \<le> o_paid (rs_order s) - refunded r_amount db i - ?c - ?r"
    by simp_all
  show "rs_cash s + rs_reward s + rs_external s = delta" by (simp add: x(5))
qed

section \<open>The batch of a balance refund\<close>

lemma fulfillment_leaves [leaves]:
  "(\<And>d x. T (d \<lparr> supplies := x \<rparr>) = T d) \<Longrightarrow> leaves T (cancel_supplies i)"
  "(\<And>d x. T (d \<lparr> deliveries := x \<rparr>) = T d) \<Longrightarrow> leaves T (cancel_deliveries i)"
  "(\<And>d x. T (d \<lparr> outbox := x \<rparr>) = T d) \<Longrightarrow> leaves T (publish_events P)"
  by (auto simp: leaves_def cancel_supplies_def cancel_deliveries_def publish_events_def Let_def)

lemma refund_when_leaves [leaves]:
  assumes "\<And>a s b. same_rest (a \<lparr> refunds := s \<rparr>) b \<Longrightarrow> T b = T a"
  shows "leaves T (refund_when P r)"
proof -
  have "T db' = T db" if "insert_refund r db = Inr db'" for db db'
    using assms insert_refund_Inr(2) [OF that] by blast
  then show ?thesis by (auto simp: leaves_def refund_when_def and_then_Inr split: if_splits)
qed

lemma cancel_open_leaves [leaves]:
  assumes "\<And>d x. T (d \<lparr> supplies := x \<rparr>) = T d" "\<And>d x. T (d \<lparr> deliveries := x \<rparr>) = T d" "\<And>d x. T (d \<lparr> outbox := x \<rparr>) = T d"
  shows "\<forall>s\<in>set (cancel_open_fulfillment i). leaves T s"
  using assms by (simp add: cancel_open_fulfillment_def leaves)

lemma refund_status_sel [simp]:
  "o_id (refund_status a x) = o_id x" "o_version (refund_status a x) = Suc (o_version x)"
  "o_status (refund_status (st, now) x) = st" "o_paid (refund_status a x) = o_paid x"
  "o_referral_reward (refund_status a x) = o_referral_reward x" "o_user (refund_status a x) = o_user x"
  by (simp_all add: refund_status_def split: prod.splits)

text \<open>The refunds' update of an order is another instance of optimistic locking.\<close>

interpretation refund_version: versioned o_id o_version refund_status
  by unfold_locales simp_all

text \<open>What is left to fulfil after a full refund: nothing that has not started.\<close>

definition fulfilment_stopped :: "string \<Rightarrow> db \<Rightarrow> bool" where
  "fulfilment_stopped i db \<longleftrightarrow>
     list_all (\<lambda>s. so_order s = i \<longrightarrow> so_state s \<in> {Supply_Supplied, Supply_Refunded}) (supplies db)
   \<and> list_all (\<lambda>d. d_order_item d \<in> set (order_item_ids db i)
       \<longrightarrow> d_status d \<in> {Delivery_Processing, Delivery_Delivered, Delivery_Failed}) (deliveries db)
   \<and> list_all (\<lambda>e. ob_status e \<in> {Outbox_Pending, Outbox_Processing} \<longrightarrow>
       \<not> (ob_type e = ''supplier.requested'' \<and> sql_exists (\<lambda>s. so_order s = i \<and> so_id s = ob_aggregate e) (supplies db))
     \<and> \<not> (ob_type e = ''delivery.requested'' \<and> sql_exists (\<lambda>d. d_id d = ob_aggregate e
            \<and> d_order_item d \<in> set (order_item_ids db i) \<and> d_status d = Delivery_Failed
            \<and> d_error d = Some ''order_refunded'') (deliveries db))) (outbox db)"

lemma open_or_closed:
  "st \<notin> {Supply_Pending, Supply_Selecting, Supply_Submitting, Supply_Uncertain, Supply_Failed}
   \<Longrightarrow> st \<in> {Supply_Supplied, Supply_Refunded}"
  "ds \<notin> {Delivery_Awaiting_Supply, Delivery_Pending} \<Longrightarrow> ds \<in> {Delivery_Processing, Delivery_Delivered, Delivery_Failed}"
  by (cases st; simp) (cases ds; simp)

lemma cancel_open_stops:
  assumes "batch_from n (cancel_open_fulfillment i) db = Inr (db', cs)" and "order_refunded i db"
  shows "fulfilment_stopped i db'"
proof -
  from assms(1) obtain d1 d2 d3 n0 n1 n2 n3 n4 where
    s: "cancel_supplies i n db = Inr (d1, n1)"
      "publish_events (\<lambda>db e. ob_type e = ''supplier.requested'' \<and> order_refunded i db
        \<and> sql_exists (\<lambda>s. so_order s = i \<and> so_id s = ob_aggregate e) (supplies db)) n1 d1 = Inr (d2, n2)"
      "cancel_deliveries i n2 d2 = Inr (d3, n3)"
      "publish_events (\<lambda>db e. ob_type e = ''delivery.requested'' \<and> order_refunded i db
        \<and> sql_exists (\<lambda>d. d_id d = ob_aggregate e \<and> d_order_item d \<in> set (order_item_ids db i)
            \<and> d_status d = Delivery_Failed \<and> d_error d = Some ''order_refunded'') (deliveries db)) n3 d3 = Inr (db', n4)"
    unfolding cancel_open_fulfillment_def batch_Cons batch_Nil by blast
  let ?open = "{Supply_Pending, Supply_Selecting, Supply_Submitting, Supply_Uncertain, Supply_Failed}"
  have o: "order_refunded i d1" "order_refunded i d2" "order_refunded i d3"
    using assms(2) s(1-3) by (auto simp: cancel_supplies_def publish_events_def cancel_deliveries_def order_refunded_def Let_def)
  have su: "supplies db' = supplies d1" "supplies d2 = supplies d1" "supplies d3 = supplies d1"
    using s(2-4) by (auto simp: publish_events_def cancel_deliveries_def Let_def)
  have it: "order_item_ids db' i = order_item_ids d2 i" "order_item_ids d3 i = order_item_ids d2 i"
    using s(3,4) by (auto simp: publish_events_def cancel_deliveries_def order_item_ids_def Let_def)
  have de: "deliveries db' = deliveries d3" using s(4) by (auto simp: publish_events_def Let_def)
  have "supplies d1 = sql_update (\<lambda>s. so_order s = i \<and> order_refunded i db \<and> so_state s \<in> ?open)
      (\<lambda>s. s \<lparr> so_state := Supply_Refunded, so_next_retry_at := None \<rparr>) (supplies db)"
    using s(1) by (auto simp: cancel_supplies_def Let_def)
  then have su1: "\<forall>r\<in>set (supplies d1). so_order r = i \<longrightarrow> so_state r \<in> {Supply_Supplied, Supply_Refunded}"
    using assms(2) open_or_closed(1) by (simp only:) (rule sql_update_post, auto)
  have "deliveries d3 = sql_update (\<lambda>d. d_order_item d \<in> set (order_item_ids d2 i) \<and> order_refunded i d2
        \<and> d_status d \<in> {Delivery_Awaiting_Supply, Delivery_Pending})
      (\<lambda>d. d \<lparr> d_status := Delivery_Failed, d_error := Some ''order_refunded'', d_next_attempt_at := None \<rparr>) (deliveries d2)"
    using s(3) by (auto simp: cancel_deliveries_def Let_def)
  then have de3: "\<forall>r\<in>set (deliveries d3). d_order_item r \<in> set (order_item_ids d2 i)
      \<longrightarrow> d_status r \<in> {Delivery_Processing, Delivery_Delivered, Delivery_Failed}"
    using o(2) open_or_closed(2) by (simp only:) (rule sql_update_post, auto)
  have su2: "\<forall>e\<in>set (outbox d2). ob_status e \<in> {Outbox_Pending, Outbox_Processing} \<longrightarrow>
       \<not> (ob_type e = ''supplier.requested'' \<and> sql_exists (\<lambda>s. so_order s = i \<and> so_id s = ob_aggregate e) (supplies d1))"
    using s(2) o(1) by (auto simp: publish_events_def sql_update_def Let_def split: if_splits)
  moreover have "outbox d3 = outbox d2" using s(3) by (auto simp: cancel_deliveries_def Let_def)
  moreover have "outbox db' = sql_update (\<lambda>e. (ob_type e = ''delivery.requested'' \<and> order_refunded i d3
        \<and> sql_exists (\<lambda>d. d_id d = ob_aggregate e \<and> d_order_item d \<in> set (order_item_ids d3 i)
            \<and> d_status d = Delivery_Failed \<and> d_error d = Some ''order_refunded'') (deliveries d3))
        \<and> ob_status e \<in> {Outbox_Pending, Outbox_Processing}) (\<lambda>e. e \<lparr> ob_status := Outbox_Published \<rparr>) (outbox d3)"
    (is "_ = sql_update ?hit _ _") using s(4) by (auto simp: publish_events_def Let_def simp del: insert_iff)
  ultimately have left: "e \<in> set (outbox d2) \<and> \<not> ?hit e"
    if "e \<in> set (outbox db')" "ob_status e \<in> {Outbox_Pending, Outbox_Processing}" for e
    using sql_update_unhit [of e ?hit "\<lambda>e. e \<lparr> ob_status := Outbox_Published \<rparr>" "outbox d3"] that by force
  show ?thesis
    unfolding fulfilment_stopped_def su it de list_all_iff
  proof (intro conjI ballI impI su1 de3)
    fix e assume e: "e \<in> set (outbox db')" "ob_status e \<in> {Outbox_Pending, Outbox_Processing}"
    from left [OF e] su2 e(2) show "\<not> (ob_type e = ''supplier.requested''
        \<and> sql_exists (\<lambda>s. so_order s = i \<and> so_id s = ob_aggregate e) (supplies d1))" by blast
    from left [OF e] o(3) e(2) show "\<not> (ob_type e = ''delivery.requested'' \<and> sql_exists (\<lambda>d. d_id d = ob_aggregate e
        \<and> d_order_item d \<in> set (order_item_ids d2 i) \<and> d_status d = Delivery_Failed
        \<and> d_error d = Some ''order_refunded'') (deliveries d3))" unfolding it(2) by blast
  qed (use su1 de3 in blast)+
qed

text \<open>The committed batch, table by table.\<close>

lemma allocated_steps:
  assumes "run_batch (allocated_statements db rid key amount split now) d = Inr (db', cs)" and "0 < cs ! 0"
  defines "x \<equiv> rs_order split"
  obtains d1 d2 n cs' where
    "update_order (o_id x) (\<lambda>db y. o_version y = o_version x \<and> o_status y = o_status x)
       (refund_status (allocated_status split, now)) 0 d = Inr (d1, 1)"
    "insert_refund (allocated_refund rid key amount split now) d1 = Inr d2"
    "batch_from n (allocated_tail db rid split now) d2 = Inr (db', cs')"
    "sql_exists (\<lambda>y. o_id y = o_id x \<and> o_version y = o_version x \<and> o_status y = o_status x) (shop_orders d)"
proof -
  let ?r = "allocated_refund rid key amount split now"
  from assms(1) obtain d1 c1 d2 c2 cs' where
    s: "update_order (o_id x) (\<lambda>db y. o_version y = o_version x \<and> o_status y = o_status x)
       (refund_status (allocated_status split, now)) 0 d = Inr (d1, c1)"
      "refund_when (\<lambda>n db. n = 1 \<and> order_at (o_id x) (Suc (o_version x)) db) ?r c1 d1 = Inr (d2, c2)"
      "batch_from c2 (allocated_tail db rid split now) d2 = Inr (db', cs')" "cs = c1 # c2 # cs'"
    unfolding run_batch_def allocated_statements_def Let_def x_def by (elim batch_ConsE) simp
  from s(4) assms(2) update_order_Inr(3) [OF s(1)] have c: "c1 = 1"
    and e: "sql_exists (\<lambda>y. o_id y = o_id x \<and> o_version y = o_version x \<and> o_status y = o_status x) (shop_orders d)"
    by (auto split: if_splits)
  then obtain y where "y \<in> set (shop_orders d)" "o_id y = o_id x" "o_version y = o_version x" "o_status y = o_status x"
    by (auto simp: sql_exists_def list_ex_iff)
  then have "order_at (o_id x) (Suc (o_version x)) d1"
    unfolding order_at_def update_order_Inr(1) [OF s(1)] by (auto intro!: sql_exists_hit [of y])
  with s(2) c have "insert_refund ?r d1 = Inr d2" by (auto simp: refund_when_def and_then_Inr)
  with s(1,3) c e show ?thesis by (intro that) simp_all
qed


text \<open>What it does to the order and its refunds. The hold of a paid order is consumed, so none is open.\<close>

lemma allocated_effect:
  assumes "run_batch (allocated_statements db rid key amount split now) d = Inr (db', cs)" and "0 < cs ! 0"
  defines "x \<equiv> rs_order split"
  shows "shop_orders db' = refund_version.cas (\<lambda>y. o_status y = o_status x) (o_id x) (o_version x)
           (allocated_status split, now) (shop_orders d)"
    and "refunds db' = refunds d @ [allocated_refund rid key amount split now]"
    and "order_items db' = order_items d"
    and "\<not> sql_exists (\<lambda>h. h_order h = o_id x \<and> h_state h = Held) (holds d) \<Longrightarrow> holds db' = holds d"
    and "\<exists>y\<in>set (shop_orders d). o_id y = o_id x \<and> o_version y = o_version x \<and> o_status y = o_status x"
    and "0 < amount"
proof -
  obtain d1 d2 n cs' where
    s: "update_order (o_id x) (\<lambda>db y. o_version y = o_version x \<and> o_status y = o_status x)
       (refund_status (allocated_status split, now)) 0 d = Inr (d1, 1)"
    and r: "insert_refund (allocated_refund rid key amount split now) d1 = Inr d2"
    and t: "batch_from n (allocated_tail db rid split now) d2 = Inr (db', cs')"
    and e: "sql_exists (\<lambda>y. o_id y = o_id x \<and> o_version y = o_version x \<and> o_status y = o_status x) (shop_orders d)"
    unfolding x_def by (rule allocated_steps [OF assms(1,2)])
  have "\<forall>s\<in>set (allocated_tail db rid split now). leaves (\<lambda>d. (shop_orders d, refunds d, order_items d, holds d)) s"
    using refund_grant_statements_leave [of "\<lambda>d. (shop_orders d, refunds d, order_items d, holds d)"]
      cancel_open_leaves [of "\<lambda>d. (shop_orders d, refunds d, order_items d, holds d)"]
    by (auto simp: allocated_tail_def Let_def leaves)
  from leaves_batch [OF t this] have t4: "shop_orders db' = shop_orders d2" "refunds db' = refunds d2"
    "order_items db' = order_items d2" "holds db' = holds d2" by simp_all
  note i = insert_refund_Inr [OF r] and u = update_order_Inr [OF s]
  from i(2) u(2) have k: "shop_orders d2 = shop_orders d1" "order_items d2 = order_items d1"
    "order_items d1 = order_items d" "refunds d1 = refunds d" by (simp_all add: same_rest_def)
  show "shop_orders db' = refund_version.cas (\<lambda>y. o_status y = o_status x) (o_id x) (o_version x)
           (allocated_status split, now) (shop_orders d)"
    by (simp add: t4 k u(1) refund_version.cas_def)
  show "refunds db' = refunds d @ [allocated_refund rid key amount split now]" by (simp add: t4 i(1) k)
  show "order_items db' = order_items d" by (simp add: t4 k)
  show "\<exists>y\<in>set (shop_orders d). o_id y = o_id x \<and> o_version y = o_version x \<and> o_status y = o_status x"
    using e by (simp add: sql_exists_def list_ex_iff)
  from i(6) show "0 < amount" by (simp add: allocated_refund_def new_refund_def)
  assume h: "\<not> sql_exists (\<lambda>h. h_order h = o_id x \<and> h_state h = Held) (holds d)"
  have "holds d1 = holds d" by (rule update_order_holds [OF s]) (use h in simp)
  then show "holds db' = holds d" by (simp add: t4 i(3))
qed

section \<open>Keeping in step\<close>

lemma refunded_snoc:
  assumes "refunds db' = refunds db @ [r]"
  shows "refunded key db' i = refunded key db i + (if r_order r = i \<and> r_status r = Refund_Succeeded then key r else 0)"
  by (simp add: refunded_def succeeded_refunds_def assms)

lemma allocated_refund_sel [simp]:
  "r_id (allocated_refund rid key amount s now) = rid" "r_order (allocated_refund rid key amount s now) = o_id (rs_order s)"
  "r_status (allocated_refund rid key amount s now) = Refund_Succeeded" "r_amount (allocated_refund rid key amount s now) = amount"
  "r_cash (allocated_refund rid key amount s now) = rs_cash s" "r_reward (allocated_refund rid key amount s now) = rs_reward s"
  "r_reversal (allocated_refund rid key amount s now) = rs_reversal s" "r_attempts (allocated_refund rid key amount s now) = 0"
  "r_completed_at (allocated_refund rid key amount s now) = Some now" "r_key (allocated_refund rid key amount s now) = key"
  by (simp_all add: allocated_refund_def new_refund_def)

text \<open>
  What runs between the read of the split and the batch may do anything to the order that raises
  its version; otherwise it leaves the order, its refunds and its hold.
\<close>

definition refund_rely :: "string \<Rightarrow> db \<Rightarrow> db \<Rightarrow> bool" where
  "refund_rely i db d \<longleftrightarrow> distinct (map o_id (shop_orders d)) \<and> distinct (map h_order (holds d)) \<and>
     (\<forall>x y. find_order db i = Some x \<longrightarrow> find_order d i = Some y \<longrightarrow> o_version y = o_version x \<longrightarrow>
        y = x \<and> succeeded_refunds d i = succeeded_refunds db i \<and> consumed_hold d i = consumed_hold db i)"

lemma refund_allocated_balance_Inr:
  assumes "refund_allocated_balance env now rid key amount split db = (Inr res, db')"
  obtains cs where "run_batch (allocated_statements db rid key amount split now) (env db) = Inr (db', cs)"
    "0 < cs ! 0" "o_status (rs_order split) \<in> set refundable_statuses" "rs_external split = 0" "res = rid"
  using assms by (auto simp: refund_allocated_balance_def split: if_splits sum.splits)

lemma consumed_not_held:
  assumes "distinct (map h_order (holds d))" and "consumed_hold d i = Some h"
  shows "\<not> sql_exists (\<lambda>h. h_order h = i \<and> h_state h = Held) (holds d)"
proof
  assume "sql_exists (\<lambda>h. h_order h = i \<and> h_state h = Held) (holds d)"
  then obtain g where g: "g \<in> set (holds d)" "h_order g = i" "h_state g = Held" by (auto simp: sql_exists_def list_ex_iff)
  from sql_first_Some [OF assms(2) [unfolded consumed_hold_def]] have h: "h \<in> set (holds d)" "h_order h = i" "h_state h = Consumed"
    by simp_all
  with keyed_first [OF assms(1)] g have "g = h" by (metis option.inject)
  with g h show False by simp
qed

lemma allocated_in_step:
  assumes "promotion_refund_split db i delta = Inr (Some s)" and "rs_allocated s" and "refunds_in_step db i"
    and "refund_rely i db (env db)" and "refund_allocated_balance env now rid key delta s db = (Inr res, db')"
  shows "refunds_in_step db' i" and "refunded r_amount db' i = rs_after s"
    and "find_order db' i = Some (refund_status (allocated_status s, now) (rs_order s))"
    and "o_id (rs_order s) = i"
proof -
  from assms(1) obtain x where x: "find_order db i = Some x" "rs_order s = x" "0 < o_paid x" "0 < delta"
    "refunded r_amount db i + delta \<le> o_paid x" "rs_after s = refunded r_amount db i + delta"
    and al: "rs_allocated s \<longleftrightarrow> consumed_hold db i \<noteq> None"
    and rev: "rs_reversal s = big_quot (o_referral_reward x * rs_after s) (o_paid x) - refunded r_reversal db i"
    by (rule promotion_refund_split_Inr)
  note b = split_bounds [OF assms(1,3)]
  from assms(5) obtain cs where run: "run_batch (allocated_statements db rid key delta s now) (env db) = Inr (db', cs)"
    "0 < cs ! 0" and ex: "rs_external s = 0" by (rule refund_allocated_balance_Inr)
  note e = allocated_effect [OF run]
  have i: "o_id x = i" using sql_first_Some [OF x(1) [unfolded find_order_def]] by simp
  with x(2) show "o_id (rs_order s) = i" by simp
  from assms(4) have d: "distinct (map o_id (shop_orders (env db)))" "distinct (map h_order (holds (env db)))"
    by (simp_all add: refund_rely_def)
  from e(5) obtain y where y: "y \<in> set (shop_orders (env db))" "o_id y = i" "o_version y = o_version x" "o_status y = o_status x"
    by (auto simp: x(2) i)
  then have fy: "find_order (env db) i = Some y" using keyed_first [OF d(1) y(1)] by (simp add: find_order_def)
  with assms(4) x(1) y(3) have q: "y = x" "succeeded_refunds (env db) i = succeeded_refunds db i"
    "consumed_hold (env db) i = consumed_hold db i" by (auto simp: refund_rely_def)
  have "holds db' = holds (env db)"
    using e(4) consumed_not_held [OF d(2), of i] q(3) al assms(2) by (auto simp: x(2) i)
  with q(3) have ch: "consumed_hold db' i = consumed_hold db i" by (simp add: consumed_hold_def)
  have rf: "refunded k db' i = refunded k db i + k (allocated_refund rid key delta s now)" for k
    using refunded_snoc [OF e(2), of k i] q(2) by (simp add: refunded_def x(2) i)
  then show am: "refunded r_amount db' i = rs_after s" by (simp add: x(6))
  show fo: "find_order db' i = Some (refund_status (allocated_status s, now) (rs_order s))"
    unfolding find_order_def e(1) x(2) i
    by (rule refund_version.cas_winner_row [OF d(1)]) (use fy q(1) in \<open>simp_all add: find_order_def\<close>)
  have p: "consumed_part k db' i = consumed_part k db i" for k by (simp add: consumed_part_def ch)
  from assms(3) x(1) have st: "0 \<le> o_referral_reward x" "0 \<le> refunded r_amount db i"
    "consumed_part h_cash db i - refunded r_cash db i + (consumed_part h_reward db i - refunded r_reward db i)
      \<le> o_paid x - refunded r_amount db i" by (simp_all add: refunds_in_step_def Let_def)
  show "refunds_in_step db' i"
    unfolding refunds_in_step_def fo option.case Let_def p
    using b st x ex rev by (simp add: rf)
qed

text \<open>The tail of a full refund ends grants and fulfilment.\<close>

lemma refund_grant_statements_Cons:
  "refund_grant_statements db i now guard = refund_grants i now guard # tl (refund_grant_statements db i now guard)"
  by (simp add: refund_grant_statements_def)

lemma refunded_grants_end:
  assumes "batch_from n (refund_grant_statements db i now guard) d = Inr (db', cs)" and "refund_done guard now d"
  shows "\<forall>g\<in>set (grants db'). g_order_item g \<in> set (order_item_ids d i) \<longrightarrow> g_status g \<notin> {Grant_Pending, Grant_Active}"
proof -
  let ?hit = "\<lambda>g. g_order_item g \<in> set (order_item_ids d i) \<and> g_status g \<in> {Grant_Pending, Grant_Active} \<and> refund_done guard now d"
  let ?f = "\<lambda>g. g \<lparr> g_status := Grant_Refunded, g_revoked_at := Some now \<rparr>"
  from assms(1) obtain d1 c cs' where "refund_grants i now guard n d = Inr (d1, c)"
    "batch_from c (tl (refund_grant_statements db i now guard)) d1 = Inr (db', cs')"
    using refund_grant_statements_Cons by (metis batch_ConsE)
  moreover have "\<forall>s\<in>set (tl (refund_grant_statements db i now guard)). leaves grants s"
    by (auto simp: refund_grant_statements_def Let_def leaves)
  ultimately have "grants db' = sql_update ?hit ?f (grants d)"
    using leaves_batch by (force simp: refund_grants_def Let_def)
  then show ?thesis using assms(2) by (simp only:) (rule sql_update_post, auto)
qed

lemma allocated_tail_full:
  assumes "batch_from n (allocated_tail db rid s now) d = Inr (db', cs)" and "allocated_status s = Refunded"
    and "refund_done (Some (rid, 0)) now d" and "order_refunded (o_id (rs_order s)) d"
  shows "fulfilment_stopped (o_id (rs_order s)) db'"
    and "\<forall>g\<in>set (grants db'). g_order_item g \<in> set (order_item_ids db' (o_id (rs_order s)))
       \<longrightarrow> g_status g \<notin> {Grant_Pending, Grant_Active}"
proof -
  let ?i = "o_id (rs_order s)"
  obtain ev where eq: "allocated_tail db rid s now = ev
      # (refund_grant_statements db ?i now (Some (rid, 0)) @ cancel_open_fulfillment ?i) @ [audit ''refund.balance_succeeded'' rid]"
    and ev: "leaves refunds ev" "leaves shop_orders ev" "leaves order_items ev"
    using assms(2) by (simp add: allocated_tail_def Let_def leaves)
  from assms(1) obtain d1 c1 d2 c2 m2 d3 c3 m3 c4 where
    s: "ev n d = Inr (d1, c1)" "batch_from c1 (refund_grant_statements db ?i now (Some (rid, 0))) d1 = Inr (d2, c2)"
      "batch_from m2 (cancel_open_fulfillment ?i) d2 = Inr (d3, c3)"
      "batch_from m3 [audit ''refund.balance_succeeded'' rid] d3 = Inr (db', c4)"
    unfolding eq batch_Cons batch_append by blast
  have a: "refunds d1 = refunds d" "shop_orders d1 = shop_orders d" "order_items d1 = order_items d"
    using leavesD [OF s(1) ev(1)] leavesD [OF s(1) ev(2)] leavesD [OF s(1) ev(3)] by simp_all
  note gl = leaves_batch [OF s(2) refund_grant_statements_leave] and cl = leaves_batch [OF s(3) cancel_open_leaves]
  have b: "refunds d2 = refunds d1" "shop_orders d2 = shop_orders d1" "order_items d2 = order_items d1"
    using gl [of refunds] gl [of shop_orders] gl [of order_items] by simp_all
  have c: "order_items d3 = order_items d2" "grants d3 = grants d2"
    using cl [of order_items] cl [of grants] by simp_all
  have e: "order_items db' = order_items d3" "grants db' = grants d3" "supplies db' = supplies d3"
    "deliveries db' = deliveries d3" "outbox db' = outbox d3"
    using s(4) by (auto simp: audit_def)
  have "order_refunded ?i d2" using assms(4) a(2) b(2) by (simp add: order_refunded_def)
  from cancel_open_stops [OF s(3) this] show "fulfilment_stopped ?i db'"
    by (simp add: fulfilment_stopped_def e order_item_ids_def)
  have "refund_done (Some (rid, 0)) now d1" using assms(3) a(1) by (simp add: refund_done_def)
  from refunded_grants_end [OF s(2) this] show "\<forall>g\<in>set (grants db'). g_order_item g \<in> set (order_item_ids db' ?i)
       \<longrightarrow> g_status g \<notin> {Grant_Pending, Grant_Active}"
    by (simp add: e c b order_item_ids_def)
qed

section \<open>The books\<close>

lemma fulfillment_kept [keeps]:
  "stmt_keeps (books_kept start) (cancel_supplies i)"
  "stmt_keeps (books_kept start) (cancel_deliveries i)"
  "stmt_keeps (books_kept start) (publish_events P)"
  by (auto intro!: stmt_keepsI elim!: books_kept_tables
      simp: cancel_supplies_def cancel_deliveries_def publish_events_def Let_def)

lemma refund_when_kept [keeps]:
  "0 \<le> r_cash r \<Longrightarrow> 0 \<le> r_reward r \<Longrightarrow> stmt_keeps (books_kept start) (refund_when P r)"
  by (rule stmt_keepsI) (auto simp: refund_when_def and_then_Inr intro: insert_refund_kept split: if_splits)

lemma cancel_open_kept: "\<forall>s\<in>set (cancel_open_fulfillment i). stmt_keeps (books_kept start) s"
  by (simp add: cancel_open_fulfillment_def keeps)

lemma refund_allocated_balance_kept:
  assumes "refund_allocated_balance env now rid key amount s db = (res, db')" and "fair env" and "books_kept start db"
    and "0 \<le> rs_cash s" "0 \<le> rs_reward s"
  shows "books_kept start db'"
proof -
  have "\<forall>t\<in>set (allocated_statements db rid key amount s now). stmt_keeps (books_kept start) t"
    unfolding allocated_statements_def allocated_tail_def Let_def
    by (simp add: keeps ball_Un assms(4,5))
      (use refund_grant_statements_kept cancel_open_kept in blast)
  then have "books_kept start d" if "run_batch (allocated_statements db rid key amount s now) (env db) = Inr (d, cs)" for d cs
    using run_batch_books [OF that fair_kept [OF assms(2,3)]] by blast
  moreover have "db' = db \<or> db' = env db
    \<or> (\<exists>cs. run_batch (allocated_statements db rid key amount s now) (env db) = Inr (db', cs))"
  proof (cases "run_batch (allocated_statements db rid key amount s now) (env db)")
    case (Inr p)
    with assms(1) show ?thesis by (cases p) (simp add: refund_allocated_balance_def split: if_splits)
  qed (use assms(1) in \<open>simp add: refund_allocated_balance_def split: if_splits\<close>)
  ultimately show ?thesis using assms(3) fair_kept [OF assms(2,3)] by blast
qed

section \<open>Properties\<close>

text \<open>The order of the sample shop, paid with two yuan of cash and three of reward.\<close>

definition sample_paid :: db where
  "sample_paid = sample_sale \<lparr>
     shop_orders := [sample_order \<lparr> o_status := Fulfilling, o_version := 3, o_paid := 500, o_referral_reward := 50 \<rparr>],
     holds := [\<lparr> h_order = ''o'', h_user = ''u'', h_cash = 200, h_reward = 300, h_external = 0, h_state = Consumed,
       h_updated_at = 1 \<rparr>],
     deliveries := [\<lparr> d_id = ''d'', d_order_item = ''i'', d_type = Stock_Component, d_request_key = ''k'',
       d_status = Delivery_Pending, d_error = None, d_content = None, d_redeem_sku = None,
       d_attempts = 0, d_next_attempt_at = Some 1, d_delivered_at = None \<rparr>],
     outbox := [\<lparr> ob_type = ''delivery.requested'', ob_aggregate = ''d'', ob_key = ''q'', ob_status = Outbox_Pending,
       ob_next_attempt_at = None \<rparr>] \<rparr>"

definition sample_split :: "int \<Rightarrow> refund_split" where
  "sample_split delta = (case promotion_refund_split sample_paid ''o'' delta of Inr (Some s) \<Rightarrow> s | _ \<Rightarrow> undefined)"

lemma sample_split_200: "promotion_refund_split sample_paid ''o'' 200 = Inr (Some (sample_split 200))"
  "rs_cash (sample_split 200) = 80" "rs_reward (sample_split 200) = 120" "rs_reversal (sample_split 200) = 20"
  "rs_allocated (sample_split 200)"
  unfolding sample_split_def by code_simp+

lemma sample_paid_in_step: "refunds_in_step sample_paid ''o''"
  by code_simp



text \<open>
  C33. A refund to balances keeps the refunds of the order in step with what paid for it, so any
  sequence of them gives back each source at most its part and takes the referral reward back in
  proportion; the order becomes refunded exactly when everything paid has been returned.
\<close>

lemma balance_refund_in_step:
  assumes "promotion_refund_split db i delta = Inr (Some s)" and "rs_allocated s" and "refunds_in_step db i"
    and "refund_rely i db (env db)" and "refund_allocated_balance env now rid key delta s db = (Inr res, db')"
  shows "refunds_in_step db' i \<and> refunded r_amount db' i = refunded r_amount db i + delta
    \<and> (\<exists>x. find_order db' i = Some x \<and> o_version x = Suc (o_version (rs_order s))
         \<and> (refunded r_amount db' i = o_paid x \<longleftrightarrow> o_status x = Refunded))"
proof -
  note a = allocated_in_step [OF assms]
  from assms(1) obtain x where "rs_after s = refunded r_amount db i + delta" by (rule promotion_refund_split_Inr)
  moreover from assms(5) have "o_status (rs_order s) \<noteq> Refunded"
    by (rule refund_allocated_balance_Inr) (auto simp: refundable_statuses_def)
  ultimately show ?thesis using a by (auto simp: allocated_status_def)
qed

lemma balance_refund_in_step_witness:
  "\<exists>r db'. refund_allocated_balance (\<lambda>d. d) 9 ''r'' ''key'' 200 (sample_split 200) sample_paid = (Inr r, db')
     \<and> refunds_in_step db' ''o'' \<and> refunded r_amount db' ''o'' = 200"
proof -
  have "fst (refund_allocated_balance (\<lambda>d. d) 9 ''r'' ''key'' 200 (sample_split 200) sample_paid) = Inr ''r''"
    unfolding sample_split_def by code_simp
  then obtain db' where t: "refund_allocated_balance (\<lambda>d. d) 9 ''r'' ''key'' 200 (sample_split 200) sample_paid = (Inr ''r'', db')"
    by (cases "refund_allocated_balance (\<lambda>d. d) 9 ''r'' ''key'' 200 (sample_split 200) sample_paid") simp
  have "refund_rely ''o'' sample_paid sample_paid"
    by (simp add: refund_rely_def sample_paid_def sample_order_def)
  moreover have "refunded r_amount sample_paid ''o'' = 0" by code_simp
  ultimately show ?thesis
    using balance_refund_in_step [OF sample_split_200(1,5) sample_paid_in_step _ t] t by auto
qed

text \<open>
  C34. A refund to balances that returns all that was paid stops what has not started: no
  supplier order, delivery or their messages of the order remain open, and none of its grants
  stays pending or active.
\<close>

lemma full_refund_stops_fulfilment:
  assumes "refund_allocated_balance env now rid key amount s db = (Inr res, db')" and "rs_after s = o_paid (rs_order s)"
  shows "fulfilment_stopped (o_id (rs_order s)) db' \<and>
    (\<forall>g\<in>set (grants db'). g_order_item g \<in> set (order_item_ids db' (o_id (rs_order s)))
       \<longrightarrow> g_status g \<notin> {Grant_Pending, Grant_Active})"
proof -
  let ?x = "rs_order s"
  from assms(1) obtain cs where run: "run_batch (allocated_statements db rid key amount s now) (env db) = Inr (db', cs)"
    "0 < cs ! 0" by (rule refund_allocated_balance_Inr)
  have st: "allocated_status s = Refunded" using assms(2) by (simp add: allocated_status_def)
  obtain d1 d2 n cs' where
    u: "update_order (o_id ?x) (\<lambda>db y. o_version y = o_version ?x \<and> o_status y = o_status ?x)
       (refund_status (allocated_status s, now)) 0 (env db) = Inr (d1, 1)"
    and r: "insert_refund (allocated_refund rid key amount s now) d1 = Inr d2"
    and t: "batch_from n (allocated_tail db rid s now) d2 = Inr (db', cs')"
    and e: "sql_exists (\<lambda>y. o_id y = o_id ?x \<and> o_version y = o_version ?x \<and> o_status y = o_status ?x) (shop_orders (env db))"
    by (rule allocated_steps [OF run])
  note i = insert_refund_Inr [OF r]
  have "refund_done (Some (rid, 0)) now d2" by (simp add: refund_done_def i(1) sql_exists_def)
  moreover have "order_refunded (o_id ?x) d2"
  proof -
    from e obtain y where "y \<in> set (shop_orders (env db))" "o_id y = o_id ?x" "o_version y = o_version ?x" "o_status y = o_status ?x"
      by (auto simp: sql_exists_def list_ex_iff)
    then have "order_refunded (o_id ?x) d1"
      unfolding order_refunded_def update_order_Inr(1) [OF u] by (auto simp: st intro!: sql_exists_hit [of y])
    with i(2) show ?thesis by (simp add: order_refunded_def same_rest_def)
  qed
  ultimately show ?thesis using allocated_tail_full [OF t st] by blast
qed

lemma full_refund_stops_fulfilment_witness:
  "\<exists>r db'. refund_allocated_balance (\<lambda>d. d) 9 ''r'' ''key'' 500 (sample_split 500) sample_paid = (Inr r, db')
     \<and> fulfilment_stopped ''o'' db' \<and> \<not> fulfilment_stopped ''o'' sample_paid"
proof -
  have "fst (refund_allocated_balance (\<lambda>d. d) 9 ''r'' ''key'' 500 (sample_split 500) sample_paid) = Inr ''r''"
    unfolding sample_split_def by code_simp
  then obtain db' where t: "refund_allocated_balance (\<lambda>d. d) 9 ''r'' ''key'' 500 (sample_split 500) sample_paid = (Inr ''r'', db')"
    by (cases "refund_allocated_balance (\<lambda>d. d) 9 ''r'' ''key'' 500 (sample_split 500) sample_paid") simp
  have "rs_after (sample_split 500) = o_paid (rs_order (sample_split 500))" "o_id (rs_order (sample_split 500)) = ''o''"
    unfolding sample_split_def by code_simp+
  moreover have "\<not> fulfilment_stopped ''o'' sample_paid"
    by (simp add: fulfilment_stopped_def sample_paid_def sample_sale_def order_item_ids_def)
  ultimately show ?thesis using full_refund_stops_fulfilment [OF t] t by auto
qed

end
