(* ===== verification/Refunds.thy ===== *)
theory Refunds
  imports Balance_Refunds Leases
begin

text \<open>
  Refunds through a payment provider
  (\<^verbatim>\<open>src/features/shop-payments/server/refunds.ts\<close>): the request, its processing in
  leased attempts, the manual completion, the retry and the final posting. The provider's client,
  the secret store and the id and currency tables of the runtime are the record \<open>services\<close>.
\<close>

section \<open>What is outside\<close>

datatype refund_mode = Automatic | Manual

text \<open>
  A provider answers a refund with a status and its own id, fails so that nobody knows what
  happened (\<^verbatim>\<open>payment_refund_reconciliation_required\<close>), or fails.
\<close>

datatype provider_reply =
    Refund_Answer refund_status string "string option"
  | Refund_Unclear
  | Refund_Error

record adapter =
  ad_mode :: refund_mode
  ad_credential_mode :: "(string \<Rightarrow> refund_mode option) option"
  ad_refund :: "string \<Rightarrow> string option \<Rightarrow> int \<Rightarrow> string \<Rightarrow> provider_reply"
  ad_query :: "string \<Rightarrow> string \<Rightarrow> provider_reply"

record services =
  sv_adapter :: "string \<Rightarrow> adapter option"
  sv_secret :: bool
  sv_open :: "string \<Rightarrow> string result"
  sv_uuid :: "string \<Rightarrow> bool"
  sv_decimals :: "string \<Rightarrow> nat"

definition get_payment_provider :: "services \<Rightarrow> string \<Rightarrow> adapter result" where
  "get_payment_provider sv provider =
     (case sv_adapter sv provider of
        None \<Rightarrow> Inl (DomainError ''payment_provider_unsupported'' 400)
      | Some a \<Rightarrow> Inr a)"

section \<open>Requests\<close>

record refund_request =
  rq_order :: string
  rq_amount :: string
  rq_reason :: string
  rq_key :: string

text \<open>
  The schema. The amount is the number its digits denote; a print with leading zeros, which the
  column refuses later, is not distinguished.
\<close>

definition parse_refund_request :: "services \<Rightarrow> refund_request \<Rightarrow> refund_request result" where
  "parse_refund_request sv q =
     (let reason = js_trim (rq_reason q); key = js_trim (rq_key q)
      in if sv_uuid sv (rq_order q) \<and> rq_amount q \<noteq> [] \<and> list_all digit (rq_amount q)
           \<and> 1 \<le> length reason \<and> length reason \<le> 2000 \<and> 8 \<le> length key \<and> length key \<le> 200
         then Inr (q \<lparr> rq_reason := reason, rq_key := key \<rparr>) else Inl ZodError)"

definition assert_agent_refund_amount :: "db \<Rightarrow> string \<Rightarrow> int \<Rightarrow> unit result" where
  "assert_agent_refund_amount db i amount =
     (case find_order db i of
        None \<Rightarrow> Inr ()
      | Some x \<Rightarrow>
          demand (\<not> (sql_exists (\<lambda>a. ag_order_item a \<in> set (order_item_ids db i)) (agents db) \<and> o_paid x \<noteq> amount))
            (DomainError ''agent_access_full_refund_required'' 409))"

text \<open>The latest succeeded attempt of an order with its channel.\<close>

definition paid_attempt :: "db \<Rightarrow> string \<Rightarrow> attempt_row option" where
  "paid_attempt db i =
     (case sql_ordered (\<lambda>a. (pa_updated_at a, pa_id a)) (\<lambda>a. pa_order a = Some i \<and> pa_status a = Attempt_Succeeded)
             (attempts db) of [] \<Rightarrow> None | as \<Rightarrow> Some (last as))"

definition find_channel :: "db \<Rightarrow> string \<Rightarrow> channel_row option" where
  "find_channel db i = sql_first (\<lambda>c. pc_id c = i) (channels db)"

definition refundable_order :: "db \<Rightarrow> string \<Rightarrow> (order_row \<times> attempt_row \<times> channel_row) option" where
  "refundable_order db i =
     (case (find_order db i, paid_attempt db i) of
        (Some x, Some a) \<Rightarrow> (case find_channel db (pa_channel a) of None \<Rightarrow> None | Some c \<Rightarrow> Some (x, a, c))
      | _ \<Rightarrow> None)"

definition reserved_refunds :: "db \<Rightarrow> string \<Rightarrow> refund_row list" where
  "reserved_refunds db i =
     filter (\<lambda>r. r_order r = i \<and> r_status r \<in> {Refund_Pending, Refund_Processing, Refund_Succeeded}) (refunds db)"

definition reserved_amount :: "db \<Rightarrow> string \<Rightarrow> int" where
  "reserved_amount db i = sum_list (map r_amount (reserved_refunds db i))"

definition reserved_payment :: "db \<Rightarrow> string \<Rightarrow> int" where
  "reserved_payment db i =
     sum_list (map (\<lambda>r. if r_attempt r = None then 0 else r_payment_amount r) (reserved_refunds db i))"

definition resolve_refund_mode :: "services \<Rightarrow> channel_row \<Rightarrow> refund_mode result" where
  "resolve_refund_mode sv c =
     and_then (get_payment_provider sv (pc_provider c)) (\<lambda>ad. Inr
       (case ad_credential_mode ad of
          None \<Rightarrow> ad_mode ad
        | Some mode \<Rightarrow>
            (case pc_credential c of
               None \<Rightarrow> Manual
             | Some secret \<Rightarrow>
                 (if \<not> sv_secret sv then Manual
                  else (case sv_open sv secret of
                          Inl _ \<Rightarrow> Manual
                        | Inr cred \<Rightarrow> (case mode cred of None \<Rightarrow> Manual | Some m \<Rightarrow> m))))))"

definition refund_outbox ::
  "string \<Rightarrow> string \<Rightarrow> int \<Rightarrow> nat \<Rightarrow> (refund_row \<Rightarrow> bool) \<Rightarrow> db stmt" where
  "refund_outbox rid type next_at attempt guard =
     outbox_when (\<lambda>db. sql_exists (\<lambda>r. r_id r = rid \<and> guard r) (refunds db)) True
       \<lparr> ob_type = type, ob_aggregate = rid, ob_key = type @ '':'' @ rid @ '':'' @ nat_string attempt,
         ob_status = Outbox_Pending, ob_next_attempt_at = Some next_at \<rparr>"

datatype refund_outcome = Outcome refund_status | Retrying

record refund_reply =
  rp_id :: string
  rp_status :: refund_outcome
  rp_manual :: bool
  rp_duplicate :: bool

definition reply :: "string \<Rightarrow> refund_status \<Rightarrow> bool \<Rightarrow> refund_reply" where
  "reply i st dup = \<lparr> rp_id = i, rp_status = Outcome st, rp_manual = False, rp_duplicate = dup \<rparr>"

definition requested_refund ::
  "string \<Rightarrow> order_row \<Rightarrow> attempt_row \<Rightarrow> string \<Rightarrow> int \<Rightarrow> int \<Rightarrow> bool \<Rightarrow> int \<Rightarrow> refund_row" where
  "requested_refund rid x a key amount payment manual now =
     \<lparr> r_id = rid, r_order = o_id x, r_attempt = Some (pa_id a), r_provider_refund = None, r_key = key,
       r_amount = amount, r_payment_amount = payment, r_status_before = o_status x,
       r_status = (if manual then Refund_Processing else Refund_Pending), r_cash = 0, r_reward = 0, r_reversal = 0,
       r_failure = (if manual then Some ''manual_action_required'' else None), r_attempts = 0,
       r_next_attempt_at = Some now, r_completed_at = None, r_updated_at = now \<rparr>"

definition store_split :: "refund_split \<Rightarrow> refund_row \<Rightarrow> refund_row" where
  "store_split s r = r \<lparr> r_cash := rs_cash s, r_reward := rs_reward s, r_reversal := rs_reversal s \<rparr>"

definition request_statements ::
  "string \<Rightarrow> order_row \<Rightarrow> attempt_row \<Rightarrow> string \<Rightarrow> int \<Rightarrow> int \<Rightarrow> bool \<Rightarrow> refund_split option \<Rightarrow> int \<Rightarrow> db stmt list" where
  "request_statements rid x a key amount payment manual split now =
     (let i = o_id x; v = Suc (o_version x); moved = order_is i Refunding v
      in [update_order i (\<lambda>db y. o_status y = o_status x \<and> o_version y = o_version x) (refund_status (Refunding, now)),
          refund_when (\<lambda>n db. n = 1 \<and> moved db) (requested_refund rid x a key amount payment manual now),
          event_when moved \<lparr> oe_order = i, oe_type = ''refund_requested'', oe_from = Some (o_status x),
            oe_to = Some Refunding, oe_version = Some v \<rparr>]
         @ (if manual then [] else [refund_outbox rid ''refund.requested'' now 0 (\<lambda>_. True)])
         @ [audit_when (\<lambda>db. sql_exists (\<lambda>r. r_id r = rid) (refunds db)) ''refund.requested'' rid]
         @ (case split of None \<Rightarrow> [] | Some s \<Rightarrow> [update_refund rid (\<lambda>_. True) (store_split s)]))"

section \<open>A refund of an order paid from the wallet alone\<close>

definition wallet_order :: "db \<Rightarrow> string \<Rightarrow> (order_row \<times> user_row) option" where
  "wallet_order db i =
     (case find_order db i of
        None \<Rightarrow> None
      | Some x \<Rightarrow>
          (case o_user x of
             None \<Rightarrow> None
           | Some uid \<Rightarrow>
               (case find_user db uid of
                  None \<Rightarrow> None
                | Some u \<Rightarrow>
                    (if sql_exists (\<lambda>e. we_source e = Src_Shop_Order \<and> we_source_id e = i \<and> we_direction e = Debit)
                          (wallet_entries db) then Some (x, u) else None))))"

text \<open>\<^verbatim>\<open>UPDATE users SET balance_minor ... WHERE id AND balance_version AND EXISTS (...)\<close>.\<close>

definition credit_for_order :: "order_row \<Rightarrow> user_row \<Rightarrow> int \<Rightarrow> int \<Rightarrow> db stmt" where
  "credit_for_order x u after now n db =
     update_balance (\<lambda>_. order_is (o_id x) (o_status x) (o_version x) db) (u_id u) (u_version u) after now n db"

text \<open>\<^verbatim>\<open>INSERT INTO wallet_entries ... SELECT ... FROM users WHERE id AND balance_version AND balance_minor\<close>.\<close>

definition record_credit :: "nat \<Rightarrow> wallet_entry \<Rightarrow> db stmt" where
  "record_credit version e n db =
     (if sql_exists (\<lambda>u. u_id u = we_user e \<and> u_version u = version \<and> u_balance u = we_after e) (users db)
      then and_then (insert_wallet_entry e db) (\<lambda>db. Inr (db, 1)) else Inr (db, 0))"

definition wallet_refund_key :: "string \<Rightarrow> string" where
  "wallet_refund_key rid = ''wallet-refund:'' @ rid"

definition wallet_refund_row :: "string \<Rightarrow> order_row \<Rightarrow> string \<Rightarrow> int \<Rightarrow> refund_split option \<Rightarrow> int \<Rightarrow> refund_row" where
  "wallet_refund_row rid x key amount split now =
     new_refund rid (o_id x) key amount x now
       \<lparr> r_reversal := (case split of None \<Rightarrow> 0 | Some s \<Rightarrow> rs_reversal s) \<rparr>"

definition wallet_refund_statements ::
  "db \<Rightarrow> string \<Rightarrow> string \<Rightarrow> order_row \<Rightarrow> user_row \<Rightarrow> string \<Rightarrow> int \<Rightarrow> order_status \<Rightarrow> refund_split option \<Rightarrow> int \<Rightarrow> db stmt list" where
  "wallet_refund_statements db rid eid x u key amount st split now =
     (let i = o_id x; v = Suc (o_version x); after = u_balance u + amount
      in [credit_for_order x u after now,
          record_credit (Suc (u_version u))
            \<lparr> we_id = Given eid, we_user = u_id u, we_direction = Credit, we_amount = amount, we_before = u_balance u,
              we_after = after, we_currency = o_currency x, we_source = Src_Refund, we_source_id = i,
              we_key = wallet_refund_key rid, we_created_at = now \<rparr>,
          update_order i (\<lambda>db y. o_status y = o_status x \<and> o_version y = o_version x
              \<and> sql_exists (\<lambda>e. we_key e = wallet_refund_key rid) (wallet_entries db)) (refund_status (st, now)),
          refund_when (\<lambda>_. order_at i v) (wallet_refund_row rid x key amount split now),
          event_when (order_at i v) \<lparr> oe_order = i, oe_type = ''refund_succeeded'', oe_from = Some (o_status x),
            oe_to = Some st, oe_version = Some v \<rparr>,
          audit ''refund.wallet_succeeded'' rid]
         @ (if st = Refunded then refund_grant_statements db i now None @ cancel_open_fulfillment i else []))"

definition request_wallet_refund ::
  "(db \<Rightarrow> db) \<Rightarrow> int \<Rightarrow> string \<Rightarrow> string \<Rightarrow> string \<Rightarrow> string \<Rightarrow> int \<Rightarrow> db \<Rightarrow> refund_reply result \<times> db" where
  "request_wallet_refund env now rid eid i key amount db =
     (case wallet_order db i of
        None \<Rightarrow> (Inl (DomainError ''refund_payment_missing'' 409), db)
      | Some (x, u) \<Rightarrow>
          (let available = o_paid x - reserved_amount db i
           in if o_status x \<notin> set refundable_statuses then (Inl (DomainError ''refund_order_unavailable'' 409), db)
              else if amount > available then (Inl (DomainError ''refund_amount_exceeded'' 409), db)
              else
                (case promotion_refund_split db i amount of
                   Inl e \<Rightarrow> (Inl e, db)
                 | Inr split \<Rightarrow>
                     (if u_balance u + amount > int64_max then (Inl (DomainError ''wallet_balance_limit'' 409), db)
                      else
                        (let st = (if amount = available then Refunded else o_status x); before = db; db = env db
                         in case run_batch (wallet_refund_statements before rid eid x u key amount st split now) db of
                              Inl e \<Rightarrow> (Inl e, db)
                            | Inr (db', changes) \<Rightarrow>
                                (if changes ! 0 < 1 then (Inl (DomainError ''wallet_conflict'' 409), db')
                                 else (Inr (reply rid Refund_Succeeded False), db')))))))"

section \<open>The request\<close>

definition payment_part ::
  "services \<Rightarrow> order_row \<Rightarrow> attempt_row \<Rightarrow> refund_split option \<Rightarrow> int \<Rightarrow> int \<Rightarrow> int \<Rightarrow> int result" where
  "payment_part sv x a split amount available payment_available =
     (if amount = available then Inr payment_available
      else map_sum id cv_amount_minor
        (convert_minor_amount (sv_decimals sv)
           (case split of Some s \<Rightarrow> (if rs_allocated s then rs_external s else amount) | None \<Rightarrow> amount)
           (o_decimals x) (pa_currency a) (pa_rate a)
           (if pa_direction a = Rated Divide then Divide else Multiply)))"

text \<open>The request once its key is fresh: \<open>db\<close> is read, \<open>env\<close> runs before the batch.\<close>

definition request_provider_refund ::
  "services \<Rightarrow> (db \<Rightarrow> db) \<Rightarrow> int \<Rightarrow> string \<Rightarrow> string \<Rightarrow> int \<Rightarrow> refund_split option
   \<Rightarrow> order_row \<times> attempt_row \<times> channel_row \<Rightarrow> db \<Rightarrow> refund_reply result \<times> db" where
  "request_provider_refund sv env now rid key amount split order db =
     (let (x, a, c) = order;
          available = o_paid x - reserved_amount db (o_id x);
          payment_available = pa_amount a - reserved_payment db (o_id x)
      in if o_status x \<notin> set refundable_statuses then (Inl (DomainError ''refund_order_unavailable'' 409), db)
         else if amount > available then (Inl (DomainError ''refund_amount_exceeded'' 409), db)
         else
           (case payment_part sv x a split amount available payment_available of
              Inl e \<Rightarrow> (Inl e, db)
            | Inr payment \<Rightarrow>
                (if payment = 0 \<or> payment > payment_available
                 then (Inl (DomainError ''refund_payment_amount_exceeded'' 409), db)
                 else
                   (case resolve_refund_mode sv c of
                      Inl e \<Rightarrow> (Inl e, db)
                    | Inr mode \<Rightarrow>
                        (let manual = (mode = Manual); db = env db
                         in case run_batch (request_statements rid x a key amount payment manual split now) db of
                              Inl e \<Rightarrow> (Inl e, db)
                            | Inr (db', changes) \<Rightarrow>
                                (if changes ! 0 < 1 then (Inl (DomainError ''order_version_conflict'' 409), db')
                                 else (Inr \<lparr> rp_id = rid,
                                         rp_status = Outcome (if manual then Refund_Processing else Refund_Pending),
                                         rp_manual = manual, rp_duplicate = False \<rparr>, db')))))))"

definition balance_only :: "refund_split option \<Rightarrow> refund_split option" where
  "balance_only split =
     (case split of None \<Rightarrow> None | Some s \<Rightarrow> (if rs_allocated s \<and> rs_external s = 0 then Some s else None))"

definition request_shop_refund ::
  "services \<Rightarrow> (db \<Rightarrow> db) \<Rightarrow> int \<Rightarrow> string \<Rightarrow> string \<Rightarrow> refund_request \<Rightarrow> db \<Rightarrow> refund_reply result \<times> db" where
  "request_shop_refund sv env now rid eid raw db =
     (case parse_refund_request sv raw of
        Inl e \<Rightarrow> (Inl e, db)
      | Inr q \<Rightarrow>
          (let i = rq_order q; amount = int (digits_value (rq_amount q)) in
           case assert_agent_refund_amount db i amount of
             Inl e \<Rightarrow> (Inl e, db)
           | Inr _ \<Rightarrow>
               (if amount = 0 then (Inl (DomainError ''refund_amount_invalid'' 400), db)
                else
                  (case sql_first (\<lambda>r. r_key r = rq_key q) (refunds db) of
                     Some r \<Rightarrow>
                       (if r_order r \<noteq> i \<or> r_amount r \<noteq> amount
                        then (Inl (DomainError ''refund_idempotency_conflict'' 409), db)
                        else (Inr (reply (r_id r) (r_status r) True), db))
                   | None \<Rightarrow>
                       (case promotion_refund_split db i amount of
                          Inl e \<Rightarrow> (Inl e, db)
                        | Inr split \<Rightarrow>
                            (case balance_only split of
                               Some s \<Rightarrow> (case refund_allocated_balance env now rid (rq_key q) amount s db of
                                          (Inl e, db') \<Rightarrow> (Inl e, db')
                                        | (Inr i', db') \<Rightarrow> (Inr (reply i' Refund_Succeeded False), db'))
                             | None \<Rightarrow>
                                 (case refundable_order db i of
                                    None \<Rightarrow> request_wallet_refund env now rid eid i (rq_key q) amount db
                                  | Some order \<Rightarrow> request_provider_refund sv env now rid (rq_key q) amount split order db)))))))"

section \<open>Closing a refund\<close>

definition close_refund :: "refund_status \<Rightarrow> string option \<Rightarrow> string option \<Rightarrow> int \<Rightarrow> refund_row \<Rightarrow> refund_row" where
  "close_refund st provider_id failure now r = r \<lparr> r_status := st, r_provider_refund := provider_id, r_failure := failure,
     r_next_attempt_at := None, r_completed_at := Some now, r_updated_at := now \<rparr>"

text \<open>The provider's id of a refund is unique among the refunds of a payment attempt.\<close>

definition update_provider_refund ::
  "string \<Rightarrow> string option \<Rightarrow> (refund_row \<Rightarrow> bool) \<Rightarrow> (refund_row \<Rightarrow> refund_row) \<Rightarrow> db stmt" where
  "update_provider_refund rid provider_id P f n db =
     (if sql_exists (\<lambda>r. r_id r = rid \<and> P r \<and> provider_id \<noteq> None \<and> r_attempt r \<noteq> None
           \<and> sql_exists (\<lambda>s. r_id s \<noteq> rid \<and> r_attempt s = r_attempt r \<and> r_provider_refund s = provider_id) (refunds db))
         (refunds db)
      then Inl (DbAbort ''refunds_attempt_provider_uidx'') else update_refund rid P f n db)"

definition refund_closed :: "string \<Rightarrow> nat \<Rightarrow> refund_status \<Rightarrow> int \<Rightarrow> db \<Rightarrow> bool" where
  "refund_closed rid attempt st now db =
     sql_exists (\<lambda>r. r_id r = rid \<and> r_attempts r = attempt \<and> r_status r = st \<and> r_completed_at r = Some now) (refunds db)"

definition close_case :: "string \<Rightarrow> case_status \<Rightarrow> string \<Rightarrow> nat \<Rightarrow> int \<Rightarrow> db stmt" where
  "close_case cid st rid attempt now n db =
     (let hit = (\<lambda>c. as_id c = cid \<and> as_status c = st \<and> refund_closed rid attempt Refund_Succeeded now db)
      in Inr (db \<lparr> after_sales := sql_update hit (\<lambda>c. c \<lparr> as_status := Case_Closed,
                 as_resolved_at := (case as_resolved_at c of Some t \<Rightarrow> Some t | None \<Rightarrow> Some now),
                 as_updated_at := now \<rparr>) (after_sales db) \<rparr>, sql_changes hit (after_sales db)))"

definition case_closed_at :: "string \<Rightarrow> int \<Rightarrow> db \<Rightarrow> bool" where
  "case_closed_at cid now db =
     sql_exists (\<lambda>c. as_id c = cid \<and> as_status c = Case_Closed \<and> as_updated_at c = now) (after_sales db)"

definition open_refund_cases :: "db \<Rightarrow> string \<Rightarrow> after_sale_row list" where
  "open_refund_cases db i =
     filter (\<lambda>c. as_order c = i \<and> as_type c = Refund_Case \<and> as_status c \<in> {Case_Open, Case_Processing}) (after_sales db)"

definition close_after_sale_statements :: "db \<Rightarrow> string \<Rightarrow> string \<Rightarrow> nat \<Rightarrow> int \<Rightarrow> db stmt list" where
  "close_after_sale_statements db i rid attempt now = concat (map (\<lambda>c.
     [close_case (as_id c) (as_status c) rid attempt now,
      event_when (\<lambda>db. case_closed_at (as_id c) now db \<and> refund_closed rid attempt Refund_Succeeded now db)
        \<lparr> oe_order = i, oe_type = ''after_sale_updated'', oe_from = None, oe_to = None, oe_version = None \<rparr>,
      outbox_when (case_closed_at (as_id c) now) True
        \<lparr> ob_type = ''after_sale.updated'', ob_aggregate = as_id c,
          ob_key = ''after_sale.updated:'' @ as_id c @ '':refund:'' @ rid @ '':'' @ nat_string attempt,
          ob_status = Outbox_Pending, ob_next_attempt_at = Some now \<rparr>,
      audit_when (case_closed_at (as_id c) now) ''after_sale.refund_closed'' (as_id c)]) (open_refund_cases db i))"

definition final_order_status :: "db \<Rightarrow> refund_row \<Rightarrow> order_row \<Rightarrow> refund_status \<Rightarrow> order_status" where
  "final_order_status db r x st =
     (let others = sum_list (map r_amount (filter (\<lambda>q. r_order q = r_order r \<and> r_status q = Refund_Succeeded \<and> r_id q \<noteq> r_id r)
                     (refunds db)));
          so_far = others + (if st = Refund_Succeeded then r_amount r else 0)
      in if st = Refund_Succeeded \<and> so_far \<ge> o_paid x then Refunded else r_status_before r)"

text \<open>\<^verbatim>\<open>INSERT INTO shop_order_events ... SELECT ..., version, ... FROM shop_orders WHERE id AND P\<close>.\<close>

definition event_of_order :: "string \<Rightarrow> (db \<Rightarrow> order_row \<Rightarrow> bool) \<Rightarrow> order_event_row \<Rightarrow> db stmt" where
  "event_of_order i P e n db =
     (case sql_first (\<lambda>x. o_id x = i \<and> P db x) (shop_orders db) of
        None \<Rightarrow> Inr (db, 0)
      | Some x \<Rightarrow> and_then (insert_order_event (e \<lparr> oe_version := Some (o_version x) \<rparr>) db) (\<lambda>db. Inr (db, 1)))"

definition finalize_head ::
  "refund_row \<Rightarrow> order_status \<Rightarrow> refund_status \<Rightarrow> string option \<Rightarrow> string option \<Rightarrow> nat \<Rightarrow> int \<Rightarrow> bool \<Rightarrow> db stmt list" where
  "finalize_head r ost st failure provider_id attempt now actor =
     (let rid = r_id r; i = r_order r; closed = refund_closed rid attempt st now
      in [update_provider_refund rid provider_id (\<lambda>q. r_status q \<in> {Refund_Processing, Refund_Failed} \<and> r_attempts q = attempt)
            (close_refund st provider_id failure now),
          update_order i (\<lambda>db _. closed db) (refund_status (ost, now)),
          event_of_order i (\<lambda>db x. o_status x = ost \<and> closed db)
            \<lparr> oe_order = i, oe_type = (if st = Refund_Succeeded then ''refund_succeeded'' else ''refund_failed''),
              oe_from = Some Refunding, oe_to = Some ost, oe_version = None \<rparr>,
          refund_outbox rid (if st = Refund_Succeeded then ''refund.succeeded'' else ''refund.failed'') now attempt
            (\<lambda>q. r_attempts q = attempt \<and> r_status q = st \<and> r_completed_at q = Some now),
          audit_when closed (if actor then ''refund.manual_completed'' else ''refund.processed'') rid])"

definition finalize_statements ::
  "db \<Rightarrow> refund_row \<Rightarrow> order_status \<Rightarrow> refund_status \<Rightarrow> string option \<Rightarrow> string option \<Rightarrow> nat \<Rightarrow> int \<Rightarrow> bool \<Rightarrow> db stmt list" where
  "finalize_statements db r ost st failure provider_id attempt now actor =
     finalize_head r ost st failure provider_id attempt now actor
     @ (if st = Refund_Succeeded \<and> ost = Refunded
        then refund_grant_statements db (r_order r) now (Some (r_id r, attempt))
          @ close_after_sale_statements db (r_order r) (r_id r) attempt now
          @ cancel_open_fulfillment (r_order r)
        else [])"

text \<open>\<open>r\<close> and \<open>x\<close> are the refund and the order as the handler loaded them.\<close>

definition finalize_refund ::
  "(db \<Rightarrow> db) \<Rightarrow> int \<Rightarrow> refund_row \<Rightarrow> order_row \<Rightarrow> refund_status \<Rightarrow> string option \<Rightarrow> string option \<Rightarrow> nat \<Rightarrow> bool \<Rightarrow> db
   \<Rightarrow> refund_reply result \<times> db" where
  "finalize_refund env now r x st failure provider_id attempt actor db =
     (let ost = final_order_status db r x st; d = env db
      in case run_batch (finalize_statements db r ost st failure provider_id attempt now actor) d of
           Inl e \<Rightarrow> (Inl e, d)
         | Inr (db', changes) \<Rightarrow> (Inr (reply (r_id r) st (changes ! 0 < 1)), db'))"

section \<open>Attempts\<close>

definition load_refund :: "db \<Rightarrow> string \<Rightarrow> (refund_row \<times> order_row \<times> attempt_row \<times> channel_row) option" where
  "load_refund db rid =
     (case sql_first (\<lambda>r. r_id r = rid) (refunds db) of
        None \<Rightarrow> None
      | Some r \<Rightarrow>
          (case (find_order db (r_order r), case r_attempt r of None \<Rightarrow> None | Some a \<Rightarrow> sql_first (\<lambda>b. pa_id b = a) (attempts db)) of
             (Some x, Some a) \<Rightarrow> (case find_channel db (pa_channel a) of None \<Rightarrow> None | Some c \<Rightarrow> Some (r, x, a, c))
           | _ \<Rightarrow> None))"

definition refund_lease :: int where
  "refund_lease = 120000"

text \<open>The attempt number is the token of the lease.\<close>

definition claimable :: "int \<Rightarrow> refund_row \<Rightarrow> bool" where
  "claimable now r \<longleftrightarrow> r_status r \<in> {Refund_Pending, Refund_Processing, Refund_Failed}
     \<and> r_failure r \<noteq> Some ''manual_action_required''
     \<and> (case r_next_attempt_at r of None \<Rightarrow> True | Some t \<Rightarrow> t \<le> now)"

definition claim_row :: "nat \<Rightarrow> int \<Rightarrow> int \<Rightarrow> refund_row \<Rightarrow> refund_row" where
  "claim_row attempt now until r = r \<lparr> r_status := Refund_Processing, r_attempts := attempt,
     r_next_attempt_at := Some until, r_updated_at := now \<rparr>"

definition claim_refund_attempt :: "int \<Rightarrow> refund_row \<Rightarrow> db \<Rightarrow> nat option result \<times> db" where
  "claim_refund_attempt now r db =
     (let attempt = Suc (r_attempts r)
      in case run_batch [update_refund (r_id r) (\<lambda>q. r_attempts q = r_attempts r \<and> claimable now q)
                (claim_row attempt now (now + refund_lease))] db of
           Inl e \<Rightarrow> (Inl e, db)
         | Inr (db', changes) \<Rightarrow> (Inr (if changes ! 0 = 1 then Some attempt else None), db'))"

definition check_backoff :: "nat \<Rightarrow> int" where
  "check_backoff attempt = min 3600000 (30000 * 2 ^ min (attempt - 1) 6)"

definition retry_backoff :: "nat \<Rightarrow> int" where
  "retry_backoff attempt = min 3600000 (10000 * 2 ^ (attempt - 1))"

definition schedule_refund_check :: "int \<Rightarrow> string \<Rightarrow> string \<Rightarrow> nat \<Rightarrow> db \<Rightarrow> refund_reply result \<times> db" where
  "schedule_refund_check now rid provider_id attempt db =
     (let next_at = now + check_backoff attempt
      in case run_batch
          [update_provider_refund rid (Some provider_id) (\<lambda>q. r_status q = Refund_Processing \<and> r_attempts q = attempt)
             (\<lambda>q. q \<lparr> r_status := Refund_Processing, r_provider_refund := Some provider_id, r_next_attempt_at := Some next_at,
                      r_failure := None, r_updated_at := now \<rparr>),
           refund_outbox rid ''refund.check'' next_at attempt
             (\<lambda>q. r_attempts q = attempt \<and> r_status q = Refund_Processing \<and> r_next_attempt_at q = Some next_at)] db of
           Inl e \<Rightarrow> (Inl e, db)
         | Inr (db', changes) \<Rightarrow> (Inr (reply rid Refund_Processing (changes ! 0 < 1)), db'))"

definition record_provider_failure ::
  "(db \<Rightarrow> db) \<Rightarrow> int \<Rightarrow> refund_row \<Rightarrow> order_row \<Rightarrow> nat \<Rightarrow> db \<Rightarrow> refund_reply result \<times> db" where
  "record_provider_failure env now r x attempt db =
     (if attempt < 5
      then (let next_at = now + retry_backoff attempt; rid = r_id r
            in case run_batch
                [update_refund rid (\<lambda>q. r_status q = Refund_Processing \<and> r_attempts q = attempt)
                   (\<lambda>q. q \<lparr> r_status := Refund_Failed, r_failure := Some ''provider_unavailable'',
                            r_next_attempt_at := Some next_at, r_updated_at := now \<rparr>),
                 refund_outbox rid ''refund.requested'' next_at attempt
                   (\<lambda>q. r_attempts q = attempt \<and> r_status q = Refund_Failed \<and> r_next_attempt_at q = Some next_at)] db of
                 Inl e \<Rightarrow> (Inl e, db)
               | Inr (db', changes) \<Rightarrow>
                   (Inr (if changes ! 0 < 1 then reply rid Refund_Failed True
                         else reply rid Refund_Failed False \<lparr> rp_status := Retrying \<rparr>), db'))
      else finalize_refund env now r x Refund_Failed (Some ''provider_unavailable'') (r_provider_refund r) attempt False db)"

definition require_manual_reconciliation :: "int \<Rightarrow> refund_row \<Rightarrow> nat \<Rightarrow> db \<Rightarrow> refund_reply result \<times> db" where
  "require_manual_reconciliation now r attempt db =
     (case run_batch [update_refund (r_id r) (\<lambda>q. r_status q = Refund_Processing \<and> r_attempts q = attempt)
             (\<lambda>q. q \<lparr> r_status := Refund_Processing, r_failure := Some ''manual_action_required'',
                      r_next_attempt_at := None, r_updated_at := now \<rparr>)] db of
        Inl e \<Rightarrow> (Inl e, db)
      | Inr (db', changes) \<Rightarrow>
          (Inr (reply (r_id r) Refund_Processing (changes ! 0 \<noteq> 1) \<lparr> rp_manual := True \<rparr>), db'))"

section \<open>Processing, manual completion and retry\<close>

text \<open>Credentials are opened before the attempt is claimed.\<close>

definition open_credential :: "services \<Rightarrow> channel_row \<Rightarrow> (adapter \<times> string) result" where
  "open_credential sv c =
     (case pc_credential c of
        None \<Rightarrow> Inl (DomainError ''payment_secret_unavailable'' 503)
      | Some secret \<Rightarrow>
          (if \<not> sv_secret sv then Inl (DomainError ''payment_secret_unavailable'' 503)
           else and_then (sv_open sv secret) (\<lambda>cred.
                and_then (get_payment_provider sv (pc_provider c)) (\<lambda>ad. Inr (ad, cred)))))"

definition ask_provider :: "adapter \<Rightarrow> string \<Rightarrow> refund_row \<Rightarrow> attempt_row \<Rightarrow> provider_reply" where
  "ask_provider ad cred r a =
     (case r_provider_refund r of
        Some pid \<Rightarrow> ad_query ad pid cred
      | None \<Rightarrow> ad_refund ad (r_id r) (pa_provider_payment a) (r_payment_amount r) cred)"

text \<open>
  \<open>env0\<close> runs between the load and the claim, \<open>env1\<close> while the provider answers,
  \<open>env2\<close> between the reads of the final posting and its batch.
\<close>

definition answer_refund ::
  "(db \<Rightarrow> db) \<Rightarrow> int \<Rightarrow> refund_row \<Rightarrow> order_row \<Rightarrow> nat \<Rightarrow> provider_reply \<Rightarrow> db \<Rightarrow> refund_reply result \<times> db" where
  "answer_refund env2 now r x attempt answer db =
     (case answer of
        Refund_Answer st pid failure \<Rightarrow>
          (if st = Refund_Pending then schedule_refund_check now (r_id r) pid attempt db
           else finalize_refund env2 now r x st failure (Some pid) attempt False db)
      | Refund_Unclear \<Rightarrow> require_manual_reconciliation now r attempt db
      | Refund_Error \<Rightarrow> record_provider_failure env2 now r x attempt db)"

definition process_shop_refund ::
  "services \<Rightarrow> (db \<Rightarrow> db) \<Rightarrow> (db \<Rightarrow> db) \<Rightarrow> (db \<Rightarrow> db) \<Rightarrow> int \<Rightarrow> int \<Rightarrow> string \<Rightarrow> db \<Rightarrow> refund_reply result \<times> db" where
  "process_shop_refund sv env0 env1 env2 claimed_at now rid db =
     (case load_refund db rid of
        None \<Rightarrow> (Inl (DomainError ''refund_not_found'' 404), db)
      | Some (r, x, a, c) \<Rightarrow>
          (if r_status r \<in> {Refund_Succeeded, Refund_Cancelled} then (Inr (reply rid (r_status r) True), db)
           else
             (case open_credential sv c of
                Inl e \<Rightarrow> (Inl e, db)
              | Inr (ad, cred) \<Rightarrow>
                  (case claim_refund_attempt claimed_at r (env0 db) of
                     (Inl e, d) \<Rightarrow> (Inl e, d)
                   | (Inr None, d) \<Rightarrow>
                       (Inr (reply rid (case load_refund d rid of None \<Rightarrow> r_status r | Some (q, _) \<Rightarrow> r_status q) True), d)
                   | (Inr (Some attempt), d) \<Rightarrow>
                       answer_refund env2 now r x attempt (ask_provider ad cred r a) (env1 d)))))"

definition complete_manual_refund ::
  "services \<Rightarrow> (db \<Rightarrow> db) \<Rightarrow> (db \<Rightarrow> db) \<Rightarrow> (db \<Rightarrow> db) \<Rightarrow> int \<Rightarrow> int \<Rightarrow> string \<Rightarrow> string \<Rightarrow> bool \<Rightarrow> db \<Rightarrow> refund_reply result \<times> db" where
  "complete_manual_refund sv env0 env1 env2 claimed_at now rid reference returned db =
     (if \<not> returned then (Inl (DomainError ''refund_funds_not_returned'' 409), db)
      else
        (case load_refund db rid of
           None \<Rightarrow> (Inl (DomainError ''refund_not_found'' 404), db)
         | Some (r, x, a, c) \<Rightarrow>
             (if r_status r = Refund_Succeeded then (Inr (reply rid Refund_Succeeded True), db)
              else
                (case get_payment_provider sv (pc_provider c) of
                   Inl e \<Rightarrow> (Inl e, db)
                 | Inr ad \<Rightarrow>
                     (if ad_mode ad \<noteq> Manual \<or> r_status r \<noteq> Refund_Processing \<or> r_failure r \<noteq> Some ''manual_action_required''
                      then (Inl (DomainError ''refund_manual_confirmation_unavailable'' 409), db)
                      else
                        (let ref = js_trim reference; attempt = Suc (r_attempts r)
                         in if ref = [] \<or> length ref > 200 then (Inl (DomainError ''refund_reference_invalid'' 400), db)
                            else
                              (let d = env0 db
                               in case run_batch [update_refund rid (\<lambda>q. r_status q = Refund_Processing
                                      \<and> r_failure q = Some ''manual_action_required'' \<and> r_attempts q = r_attempts r)
                                     (\<lambda>q. q \<lparr> r_attempts := attempt, r_updated_at := claimed_at \<rparr>)] d of
                                    Inl e \<Rightarrow> (Inl e, d)
                                  | Inr (d', changes) \<Rightarrow>
                                      (if changes ! 0 \<noteq> 1
                                       then (Inr (reply rid (case load_refund d' rid of None \<Rightarrow> r_status r | Some (q, _) \<Rightarrow> r_status q) True), d')
                                       else finalize_refund env2 now r x Refund_Succeeded None (Some (''manual:'' @ ref)) attempt True
                                              (env1 d')))))))))"

definition retry_statements :: "refund_row \<Rightarrow> int \<Rightarrow> db stmt list" where
  "retry_statements r now =
     [update_order (r_order r) (\<lambda>_ x. o_status x \<noteq> Refunding) (refund_status (Refunding, now)),
      update_refund (r_id r) (\<lambda>q. r_status q = Refund_Failed)
        (\<lambda>q. q \<lparr> r_status := Refund_Pending, r_failure := None, r_next_attempt_at := Some now, r_updated_at := now \<rparr>),
      outbox_when (\<lambda>_. True) False \<lparr> ob_type = ''refund.requested'', ob_aggregate = r_id r,
        ob_key = ''refund-manual-retry:'' @ r_id r @ '':'' @ big_string now, ob_status = Outbox_Pending,
        ob_next_attempt_at = Some now \<rparr>,
      audit ''refund.retried'' (r_id r)]"

definition retry_shop_refund ::
  "(db \<Rightarrow> db) \<Rightarrow> int \<Rightarrow> string \<Rightarrow> db \<Rightarrow> refund_reply result \<times> db" where
  "retry_shop_refund env now rid db =
     (case sql_first (\<lambda>r. r_id r = rid) (refunds db) of
        None \<Rightarrow> (Inl (DomainError ''refund_not_found'' 404), db)
      | Some r \<Rightarrow>
          (if find_order db (r_order r) = None then (Inl (DomainError ''refund_not_found'' 404), db)
           else if r_status r \<noteq> Refund_Failed then (Inl (DomainError ''refund_not_retryable'' 409), db)
           else
             (let d = env db
              in case run_batch (retry_statements r now) d of
                   Inl e \<Rightarrow> (Inl e, d)
                 | Inr (db', _) \<Rightarrow> (Inr (reply rid Refund_Pending False), db'))))"

section \<open>The lease\<close>

interpretation refund_lease: lease claimable "\<lambda>t now until. claim_row t now until" "\<lambda>t r. r_attempts r = t"
  by unfold_locales (auto simp: claim_row_def claimable_def)

section \<open>Sample shop\<close>

text \<open>An order paid by card, a provider that always succeeds and one that never answers.\<close>

definition sample_attempt :: attempt_row where
  "sample_attempt = \<lparr> pa_id = ''a'', pa_order = Some ''o'', pa_topup = None, pa_order_amount = Some 500, pa_channel = ''c'',
     pa_provider_payment = Some ''p'', pa_key = ''k'', pa_status = Attempt_Succeeded, pa_amount = 500, pa_currency = ''CNY'',
     pa_decimals = 2, pa_rate = ''1'', pa_direction = Parity, pa_failure = None, pa_succeeded_at = Some 1, pa_updated_at = 1 \<rparr>"

definition sample_adapter :: "provider_reply \<Rightarrow> adapter" where
  "sample_adapter answer = \<lparr> ad_mode = Automatic, ad_credential_mode = None, ad_refund = \<lambda>_ _ _ _. answer, ad_query = \<lambda>_ _. answer \<rparr>"

definition sample_services :: "provider_reply \<Rightarrow> services" where
  "sample_services answer = \<lparr> sv_adapter = \<lambda>_. Some (sample_adapter answer), sv_secret = True, sv_open = Inr,
     sv_uuid = \<lambda>_. True, sv_decimals = \<lambda>_. 2 \<rparr>"

definition sample_refund :: "string \<Rightarrow> refund_status \<Rightarrow> refund_row" where
  "sample_refund i st = \<lparr> r_id = i, r_order = ''o'', r_attempt = Some ''a'', r_provider_refund = None, r_key = i,
     r_amount = 500, r_payment_amount = 500, r_status_before = Completed, r_status = st, r_cash = 0, r_reward = 0,
     r_reversal = 0, r_failure = None, r_attempts = 0, r_next_attempt_at = None, r_completed_at = None, r_updated_at = 1 \<rparr>"

definition sample_card :: "order_status \<Rightarrow> refund_row list \<Rightarrow> db" where
  "sample_card st rs = sample_db \<lparr>
     shop_orders := [sample_order \<lparr> o_status := st, o_version := 3, o_paid := 500 \<rparr>],
     attempts := [sample_attempt], refunds := rs,
     channels := [\<lparr> pc_id = ''c'', pc_provider = ''stripe'', pc_currency = ''CNY'', pc_credential = Some ''s'', pc_fee_bps = 0,
       pc_fixed_fee = 0, pc_enabled = True \<rparr>] \<rparr>"

definition refunded_twice :: "db" where
  "refunded_twice =
     (let db = sample_card Refunded [sample_refund ''r'' Refund_Failed, sample_refund ''q'' Refund_Succeeded];
          db' = snd (retry_shop_refund (\<lambda>d. d) 5 ''r'' db)
      in snd (process_shop_refund (sample_services (Refund_Answer Refund_Succeeded ''x'' None)) (\<lambda>d. d) (\<lambda>d. d) (\<lambda>d. d)
           6 7 ''r'' db'))"


definition sample_wallet_order :: db where
  "sample_wallet_order = sample_db \<lparr>
     shop_orders := [sample_order \<lparr> o_status := Fulfilling, o_version := 3, o_paid := 500 \<rparr>],
     wallet_entries := [\<lparr> we_id = Given ''e'', we_user = ''u'', we_direction = Debit, we_amount = 500, we_before = 1500,
       we_after = 1000, we_currency = ''CNY'', we_source = Src_Shop_Order, we_source_id = ''o'', we_key = ''k'', we_created_at = 1 \<rparr>] \<rparr>"

text \<open>
  A delivery completes the order without an event for its version, as the GPT upgrades do
  (\<^verbatim>\<open>src/features/gpt-upgrade/server/fulfillment.ts\<close>, line 110).
\<close>

definition completes_silently :: "int \<Rightarrow> db \<Rightarrow> db" where
  "completes_silently now db =
     (case update_order ''o'' (\<lambda>_ x. o_status x \<in> {Paid, Fulfilling})
             (\<lambda>x. x \<lparr> o_status := Completed, o_completed_at := Some now, o_version := o_version x + 1, o_updated_at := now \<rparr>) 0 db of
        Inl _ \<Rightarrow> db | Inr (db', _) \<Rightarrow> db')"

definition crossed_wallet_refund :: "refund_reply result \<times> db" where
  "crossed_wallet_refund = request_wallet_refund (completes_silently 5) 9 ''r'' ''f'' ''o'' ''key'' 500 sample_wallet_order"

text \<open>
  A credit of the same amount that lands between the read of the balance and the batch: the
  balance and its version then are what the refund expects them to be after its own update.
\<close>

definition same_credit :: "db \<Rightarrow> db" where
  "same_credit d = snd (mutate_wallet (\<lambda>_ d. d) (\<lambda>_. ''t'') (\<lambda>_. 5)
     \<lparr> wm_user = ''u'', wm_direction = Credit, wm_amount = ''500'', wm_currency = ''CNY'', wm_source = Src_Topup,
       wm_source_id = ''t'', wm_key = ''wallet-topup:t'' \<rparr> d)"

definition coincident_wallet_refund :: "refund_reply result \<times> db" where
  "coincident_wallet_refund = request_wallet_refund same_credit 9 ''r'' ''f'' ''o'' ''key'' 500 sample_wallet_order"

lemma lost_wallet_refund_pays_nothing:
  "fst crossed_wallet_refund = Inl (DomainError ''wallet_conflict'' 409)
   \<and> refunded r_amount (snd crossed_wallet_refund) ''o'' = 500
   \<and> balance_of (snd crossed_wallet_refund) ''u'' = balance_of sample_wallet_order ''u''
   \<and> fst coincident_wallet_refund = Inl (DomainError ''wallet_conflict'' 409)
   \<and> map o_status (shop_orders (snd coincident_wallet_refund)) = [Refunded]
   \<and> balance_of (snd coincident_wallet_refund) ''u'' = balance_of (same_credit sample_wallet_order) ''u''
   \<and> cash_gap (snd coincident_wallet_refund) ''u'' = cash_gap (same_credit sample_wallet_order) ''u'' - 500"
  by code_simp

section \<open>What a request reserves\<close>

definition reserve_view :: "refund_row \<Rightarrow> string \<times> refund_status \<times> int" where
  "reserve_view r = (r_order r, r_status r, r_amount r)"

lemma reserved_amount_view:
  "reserved_amount db i = sum_list (map (snd \<circ> snd) (filter (\<lambda>(j, st, _). j = i
     \<and> st \<in> {Refund_Pending, Refund_Processing, Refund_Succeeded}) (map reserve_view (refunds db))))"
proof -
  have "filter (\<lambda>(j, st, _). j = i \<and> st \<in> {Refund_Pending, Refund_Processing, Refund_Succeeded}) (map reserve_view t)
      = map reserve_view (filter (\<lambda>r. r_order r = i \<and> r_status r \<in> {Refund_Pending, Refund_Processing, Refund_Succeeded}) t)" for t
    by (simp add: filter_map comp_def reserve_view_def)
  then show ?thesis by (simp add: reserved_amount_def reserved_refunds_def comp_def reserve_view_def)
qed

lemma update_refund_view:
  assumes "\<And>r. view (f r) = view r"
  shows "leaves (\<lambda>d. map view (refunds d)) (update_refund i P f)"
  unfolding leaves_def using assms by (auto dest!: update_refund_Inr(1) intro!: sql_update_cong_key)

lemma update_refund_tables:
  "leaves shop_orders (update_refund i P f)" "leaves order_items (update_refund i P f)" "leaves grants (update_refund i P f)"
  "leaves outbox (update_refund i P f)" "leaves attempts (update_refund i P f)" "leaves channels (update_refund i P f)"
  by (rule update_refund_leaves, simp add: same_rest_def)+

lemma store_split_sel [simp]:
  "r_order (store_split s r) = r_order r" "r_status (store_split s r) = r_status r" "r_amount (store_split s r) = r_amount r"
  "r_id (store_split s r) = r_id r" "r_payment_amount (store_split s r) = r_payment_amount r" "r_attempt (store_split s r) = r_attempt r"
  "r_cash (store_split s r) = rs_cash s" "r_reward (store_split s r) = rs_reward s" "r_reversal (store_split s r) = rs_reversal s"
  by (simp_all add: store_split_def)

lemma request_steps:
  assumes "run_batch (request_statements rid x a key amount payment manual split now) d = Inr (db', cs)" and "0 < cs ! 0"
  obtains d1 d2 c where
    "update_order (o_id x) (\<lambda>db y. o_status y = o_status x \<and> o_version y = o_version x) (refund_status (Refunding, now)) 0 d
       = Inr (d1, 1)"
    "insert_refund (requested_refund rid x a key amount payment manual now) d1 = Inr d2"
    "\<exists>cs'. batch_from c (tl (tl (request_statements rid x a key amount payment manual split now))) d2 = Inr (db', cs')"
    "sql_exists (\<lambda>y. o_id y = o_id x \<and> o_status y = o_status x \<and> o_version y = o_version x) (shop_orders d)"
proof -
  let ?S = "request_statements rid x a key amount payment manual split now"
  let ?P = "\<lambda>db y. o_status y = o_status x \<and> o_version y = o_version x"
  let ?v = "Suc (o_version x)"
  have S: "?S = update_order (o_id x) ?P (refund_status (Refunding, now))
      # refund_when (\<lambda>n db. n = 1 \<and> order_is (o_id x) Refunding ?v db)
          (requested_refund rid x a key amount payment manual now) # tl (tl ?S)"
    by (simp add: request_statements_def Let_def)
  have b: "batch_from 0 (update_order (o_id x) ?P (refund_status (Refunding, now))
      # refund_when (\<lambda>n db. n = 1 \<and> order_is (o_id x) Refunding ?v db)
          (requested_refund rid x a key amount payment manual now) # tl (tl ?S)) d = Inr (db', cs)"
    using assms(1) unfolding run_batch_def S [symmetric] .
  from b obtain d1 c1 d2 c2 cs' where
    s: "update_order (o_id x) ?P (refund_status (Refunding, now)) 0 d = Inr (d1, c1)"
      "refund_when (\<lambda>n db. n = 1 \<and> order_is (o_id x) Refunding ?v db)
        (requested_refund rid x a key amount payment manual now) c1 d1 = Inr (d2, c2)"
      "batch_from c2 (tl (tl ?S)) d2 = Inr (db', cs')" "cs = c1 # c2 # cs'"
    by (elim batch_ConsE) (rule that, assumption+, simp)
  from s(4) assms(2) update_order_Inr(3) [OF s(1)] have c: "c1 = 1"
    and e: "sql_exists (\<lambda>y. o_id y = o_id x \<and> o_status y = o_status x \<and> o_version y = o_version x) (shop_orders d)"
    by (auto split: if_splits)
  then obtain y where "y \<in> set (shop_orders d)" "o_id y = o_id x" "o_status y = o_status x" "o_version y = o_version x"
    by (auto simp: sql_exists_def list_ex_iff)
  then have "order_is (o_id x) Refunding ?v d1"
    unfolding order_is_def update_order_Inr(1) [OF s(1)] by (auto intro!: sql_exists_hit [of y])
  with s(2) c have "insert_refund (requested_refund rid x a key amount payment manual now) d1 = Inr d2"
    by (auto simp: refund_when_def and_then_Inr)
  with s c e show ?thesis by (intro that) auto
qed

lemma refund_outbox_leaves [leaves]:
  "(\<And>d x. T (d \<lparr> outbox := x \<rparr>) = T d) \<Longrightarrow> leaves T (refund_outbox rid type next_at attempt guard)"
  by (simp add: refund_outbox_def leaves)

lemma request_reserves:
  assumes "run_batch (request_statements rid x a key amount payment manual split now) d = Inr (db', cs)" and "0 < cs ! 0"
  shows "reserved_amount db' (o_id x) = reserved_amount d (o_id x) + amount"
    and "map r_id (refunds db') = map r_id (refunds d) @ [rid]"
    and "shop_orders db' = refund_version.cas (\<lambda>y. o_status y = o_status x) (o_id x) (o_version x) (Refunding, now) (shop_orders d)"
proof -
  obtain d1 d2 c where
    s: "update_order (o_id x) (\<lambda>db y. o_status y = o_status x \<and> o_version y = o_version x) (refund_status (Refunding, now)) 0 d
       = Inr (d1, 1)"
    and i: "insert_refund (requested_refund rid x a key amount payment manual now) d1 = Inr d2"
    and t: "\<exists>cs'. batch_from c (tl (tl (request_statements rid x a key amount payment manual split now))) d2 = Inr (db', cs')"
    by (rule request_steps [OF assms])
  let ?rest = "tl (tl (request_statements rid x a key amount payment manual split now))"
  from t obtain cs' where t': "batch_from c ?rest d2 = Inr (db', cs')" by blast
  have v: "\<forall>s\<in>set ?rest. leaves (\<lambda>d. map reserve_view (refunds d)) s" "\<forall>s\<in>set ?rest. leaves (\<lambda>d. map r_id (refunds d)) s"
    "\<forall>s\<in>set ?rest. leaves shop_orders s"
    by (auto simp: request_statements_def Let_def leaves update_refund_tables update_refund_view reserve_view_def split: option.splits)
  note r = leaves_batch [OF t' v(1)] leaves_batch [OF t' v(2)] leaves_batch [OF t' v(3)]
  have "refunds d1 = refunds d" using update_order_Inr(2) [OF s] by (simp add: same_rest_def)
  with insert_refund_Inr(1) [OF i] have n: "refunds d2 = refunds d @ [requested_refund rid x a key amount payment manual now]"
    by simp
  show "reserved_amount db' (o_id x) = reserved_amount d (o_id x) + amount"
    unfolding reserved_amount_view r(1) by (simp add: n reserve_view_def requested_refund_def)
  show "map r_id (refunds db') = map r_id (refunds d) @ [rid]" using r(2) by (simp add: n requested_refund_def)
  have "shop_orders d2 = shop_orders d1" using insert_refund_Inr(2) [OF i] by (simp add: same_rest_def)
  with r(3) update_order_Inr(1) [OF s]
  show "shop_orders db' = refund_version.cas (\<lambda>y. o_status y = o_status x) (o_id x) (o_version x) (Refunding, now) (shop_orders d)"
    by (simp add: refund_version.cas_def conj_ac)
qed

lemma request_provider_refund_Inr:
  assumes "request_provider_refund sv env now rid key amount split (x, a, c) db = (Inr rep, db')"
  obtains payment manual cs where
    "run_batch (request_statements rid x a key amount payment manual split now) (env db) = Inr (db', cs)" "0 < cs ! 0"
    "o_status x \<in> set refundable_statuses" "reserved_amount db (o_id x) + amount \<le> o_paid x"
    "payment_part sv x a split amount (o_paid x - reserved_amount db (o_id x)) (pa_amount a - reserved_payment db (o_id x))
       = Inr payment"
    "payment + reserved_payment db (o_id x) \<le> pa_amount a" "rp_id rep = rid" "rp_manual rep = manual"
    "manual \<longleftrightarrow> resolve_refund_mode sv c = Inr Manual"
  using assms by (auto simp: request_provider_refund_def Let_def split: if_splits sum.splits)

section \<open>Attempts that lost their lease\<close>

text \<open>The tables that money and access depend on.\<close>

definition ledger_of :: "db \<Rightarrow> (user_row list \<times> wallet_entry list \<times> reward_entry list \<times> order_row list \<times> refund_row list
    \<times> grant_row list \<times> entitlement_row list)" where
  "ledger_of d = (users d, wallet_entries d, reward_entries d, shop_orders d, refunds d, grants d, entitlements d)"

lemma ledger_refunds: "ledger_of d = ledger_of e \<Longrightarrow> refunds d = refunds e"
  by (simp add: ledger_of_def)

definition attempt_open :: "string \<Rightarrow> nat \<Rightarrow> db \<Rightarrow> bool" where
  "attempt_open rid attempt db \<longleftrightarrow> sql_exists (\<lambda>q. r_id q = rid \<and> r_attempts q = attempt) (refunds db)"

lemma leaves_keeps: "leaves T s \<Longrightarrow> stmt_keeps (\<lambda>d. T d = t) s"
  by (rule stmt_keepsI) (use leavesD in metis)

lemma event_of_order_leaves [leaves]:
  "(\<And>d x. T (d \<lparr> order_events := x \<rparr>) = T d) \<Longrightarrow> leaves T (event_of_order i P e)"
  by (auto simp: leaves_def event_of_order_def insert_order_event_def and_then_Inr split: option.splits if_splits)

lemma close_case_leaves [leaves]:
  "(\<And>d x. T (d \<lparr> after_sales := x \<rparr>) = T d) \<Longrightarrow> leaves T (close_case c st rid attempt now)"
  by (auto simp: leaves_def close_case_def Let_def)

lemma close_after_sale_leaves [leaves]:
  assumes "\<And>d x. T (d \<lparr> after_sales := x \<rparr>) = T d" "\<And>d x. T (d \<lparr> order_events := x \<rparr>) = T d"
    "\<And>d x. T (d \<lparr> outbox := x \<rparr>) = T d" "\<And>d x. T (d \<lparr> audit_logs := x \<rparr>) = T d"
  shows "\<forall>s\<in>set (close_after_sale_statements db i rid attempt now). leaves T s"
  using assms by (auto simp: close_after_sale_statements_def leaves)

lemma no_attempt_closed: "\<not> attempt_open rid attempt d \<Longrightarrow> \<not> refund_closed rid attempt st now d"
  by (auto simp: attempt_open_def refund_closed_def sql_exists_def list_ex_iff)

text \<open>Statements that need the attempt do nothing without it.\<close>

lemma idle_update_refund:
  assumes "\<not> attempt_open rid attempt e" and "\<And>q. P q \<Longrightarrow> r_attempts q = attempt"
  shows "stmt_keeps (\<lambda>d. ledger_of d = ledger_of e) (update_refund rid P f)"
proof (rule stmt_keepsI)
  fix n d d' c assume d: "ledger_of d = ledger_of e" and u: "update_refund rid P f n d = Inr (d', c)"
  have "sql_first (\<lambda>r. r_id r = rid \<and> P r) (refunds d) = None"
    using assms ledger_refunds [OF d] by (auto simp: sql_first_None attempt_open_def sql_exists_def list_ex_iff)
  with u d show "ledger_of d' = ledger_of e" by (simp add: update_refund_def)
qed

lemma idle_provider_refund:
  assumes "\<not> attempt_open rid attempt e" and "\<And>q. P q \<Longrightarrow> r_attempts q = attempt"
  shows "stmt_keeps (\<lambda>d. ledger_of d = ledger_of e) (update_provider_refund rid pid P f)"
proof (rule stmt_keepsI)
  fix n d d' c assume d: "ledger_of d = ledger_of e" and u: "update_provider_refund rid pid P f n d = Inr (d', c)"
  then have "update_refund rid P f n d = Inr (d', c)" by (simp add: update_provider_refund_def split: if_splits)
  with idle_update_refund [OF assms, of P f] d show "ledger_of d' = ledger_of e" unfolding stmt_keeps_def by blast
qed

lemma idle_update_order:
  assumes "\<not> attempt_open rid attempt e" and "\<And>d x. P d x \<Longrightarrow> refund_closed rid attempt st now d"
  shows "stmt_keeps (\<lambda>d. ledger_of d = ledger_of e) (update_order i P f)"
proof (rule stmt_keepsI)
  fix n d d' c assume d: "ledger_of d = ledger_of e" and u: "update_order i P f n d = Inr (d', c)"
  have "\<not> attempt_open rid attempt d" using assms(1) ledger_refunds [OF d] by (simp add: attempt_open_def)
  then have "sql_first (\<lambda>x. o_id x = i \<and> P d x) (shop_orders d) = None"
    using assms(2) no_attempt_closed by (simp add: sql_first_None) blast
  with u d show "ledger_of d' = ledger_of e" by (simp add: update_order_def)
qed

lemma idle_refund_grants:
  assumes "\<not> attempt_open rid attempt e"
  shows "\<forall>s\<in>set (refund_grant_statements db i now (Some (rid, attempt))). stmt_keeps (\<lambda>d. ledger_of d = ledger_of e) s"
proof -
  have n: "\<not> refund_done (Some (rid, attempt)) now d" if "ledger_of d = ledger_of e" for d
    using assms ledger_refunds [OF that] by (auto simp: refund_done_def attempt_open_def sql_exists_def list_ex_iff)
  show ?thesis
    using n by (auto simp: refund_grant_statements_def Let_def stmt_keeps_def refund_grants_def rebuild_entitlement_def
        sql_update_none ledger_of_def)
qed

lemma ledger_leaves:
  "leaves ledger_of (event_of_order i Q ev)" "leaves ledger_of (outbox_when c ignore b)" "leaves ledger_of (audit_when c action target)"
  "leaves ledger_of (refund_outbox rid type next_at attempt guard)"
  by (simp_all add: leaves ledger_of_def)

lemma ledger_batches:
  "\<forall>s\<in>set (close_after_sale_statements db i rid attempt now). leaves ledger_of s"
  "\<forall>s\<in>set (cancel_open_fulfillment i). leaves ledger_of s"
  by (rule close_after_sale_leaves cancel_open_leaves, simp_all add: ledger_of_def)+

lemma idle_finalize:
  assumes "\<not> attempt_open (r_id r) attempt e"
  shows "\<forall>s\<in>set (finalize_statements db r ost st failure pid attempt now actor). stmt_keeps (\<lambda>d. ledger_of d = ledger_of e) s"
proof -
  have h: "\<forall>s\<in>set (finalize_head r ost st failure pid attempt now actor). stmt_keeps (\<lambda>d. ledger_of d = ledger_of e) s"
    unfolding finalize_head_def Let_def list.set ball_simps
    by (intro conjI TrueI leaves_keeps ledger_leaves idle_provider_refund [OF assms] idle_update_order [OF assms]) auto
  have a: "\<forall>s\<in>set (close_after_sale_statements db i rid k now). stmt_keeps (\<lambda>d. ledger_of d = ledger_of e) s" for i rid k
    by (intro ballI leaves_keeps) (use ledger_batches(1) in blast)
  have f: "\<forall>s\<in>set (cancel_open_fulfillment i). stmt_keeps (\<lambda>d. ledger_of d = ledger_of e) s" for i
    by (intro ballI leaves_keeps) (use ledger_batches(2) in blast)
  show ?thesis using h a f idle_refund_grants [OF assms] by (auto simp: finalize_statements_def)
qed

lemma idle_batch:
  assumes "run_batch ss e = Inr (db', cs)" and "\<forall>s\<in>set ss. stmt_keeps (\<lambda>d. ledger_of d = ledger_of e) s"
  shows "ledger_of db' = ledger_of e"
  using run_batch_keeps [OF assms(2) refl assms(1)] .

lemma idle_finalize_refund:
  assumes "finalize_refund env now r x st failure pid attempt actor db = (res, db')"
    and "\<not> attempt_open (r_id r) attempt (env db)"
  shows "ledger_of db' = ledger_of (env db)"
proof (cases "run_batch (finalize_statements db r (final_order_status db r x st) st failure pid attempt now actor) (env db)")
  case (Inr p)
  with assms(1) have "run_batch (finalize_statements db r (final_order_status db r x st) st failure pid attempt now actor) (env db)
      = Inr (db', snd p)" by (cases p) (simp add: finalize_refund_def Let_def)
  then show ?thesis by (rule idle_batch) (rule idle_finalize [OF assms(2)])
qed (use assms(1) in \<open>simp add: finalize_refund_def Let_def\<close>)

lemma idle_two:
  assumes "run_batch [update_refund rid P f, refund_outbox rid type next_at k guard] e = Inr (db', cs)"
    and "\<not> attempt_open rid attempt e" and "\<And>q. P q \<Longrightarrow> r_attempts q = attempt"
  shows "ledger_of db' = ledger_of e"
  by (rule idle_batch [OF assms(1)])
    (use idle_update_refund [OF assms(2,3)] leaves_keeps [OF ledger_leaves(4)] in simp)

lemma idle_answer:
  assumes "answer_refund env2 now r x attempt answer db = (res, db')"
    and "\<not> attempt_open (r_id r) attempt db" and "\<not> attempt_open (r_id r) attempt (env2 db)"
  shows "ledger_of db' = ledger_of db \<or> ledger_of db' = ledger_of (env2 db)"
proof -
  have fin: "ledger_of d = ledger_of (env2 db)" if "finalize_refund env2 now r x st failure pid attempt actor db = (q, d)"
    for st failure pid actor q d
    using idle_finalize_refund [OF that assms(3)] .
  have sched: "ledger_of d = ledger_of db" if "schedule_refund_check now (r_id r) pid attempt db = (q, d)" for pid q d
  proof -
    let ?ss = "[update_provider_refund (r_id r) (Some pid) (\<lambda>q. r_status q = Refund_Processing \<and> r_attempts q = attempt)
             (\<lambda>q. q \<lparr> r_status := Refund_Processing, r_provider_refund := Some pid,
                      r_next_attempt_at := Some (now + check_backoff attempt), r_failure := None, r_updated_at := now \<rparr>),
           refund_outbox (r_id r) ''refund.check'' (now + check_backoff attempt) attempt
             (\<lambda>q. r_attempts q = attempt \<and> r_status q = Refund_Processing \<and> r_next_attempt_at q = Some (now + check_backoff attempt))]"
    have k: "\<forall>s\<in>set ?ss. stmt_keeps (\<lambda>d. ledger_of d = ledger_of db) s"
      by (simp add: leaves_keeps [OF ledger_leaves(4)], rule idle_provider_refund [OF assms(2)]) simp
    show ?thesis
      using that idle_batch [OF _ k] by (auto simp: schedule_refund_check_def Let_def split: sum.splits)
  qed
  have fail: "ledger_of d = ledger_of db \<or> ledger_of d = ledger_of (env2 db)"
    if "record_provider_failure env2 now r x attempt db = (q, d)" for q d
    using that idle_two [OF _ assms(2)] fin
    by (auto simp: record_provider_failure_def Let_def split: if_splits sum.splits)
  have man: "ledger_of d = ledger_of db" if "require_manual_reconciliation now r attempt db = (q, d)" for q d
  proof -
    let ?s = "update_refund (r_id r) (\<lambda>q. r_status q = Refund_Processing \<and> r_attempts q = attempt)
             (\<lambda>q. q \<lparr> r_status := Refund_Processing, r_failure := Some ''manual_action_required'',
                      r_next_attempt_at := None, r_updated_at := now \<rparr>)"
    have k: "\<forall>s\<in>set [?s]. stmt_keeps (\<lambda>d. ledger_of d = ledger_of db) s"
      by (simp, rule idle_update_refund [OF assms(2)]) simp
    show ?thesis
      using that idle_batch [OF _ k] by (auto simp: require_manual_reconciliation_def split: sum.splits)
  qed
  show ?thesis
    using assms(1) sched fail man fin
    by (auto simp: answer_refund_def split: provider_reply.splits if_splits)
qed

section \<open>A succeeded refund stays as it is\<close>

lemma settled_update_refund:
  assumes "r_status r = Refund_Succeeded" and "\<And>q. P q \<Longrightarrow> r_status q \<noteq> Refund_Succeeded"
  shows "stmt_keeps (\<lambda>d. r \<in> set (refunds d)) (update_refund i P f)"
  using assms by (intro stmt_keepsI) (force dest!: update_refund_Inr(1) simp: sql_update_def)

lemma settled_provider_refund:
  assumes "r_status r = Refund_Succeeded" and "\<And>q. P q \<Longrightarrow> r_status q \<noteq> Refund_Succeeded"
  shows "stmt_keeps (\<lambda>d. r \<in> set (refunds d)) (update_provider_refund i pid P f)"
proof (rule stmt_keepsI)
  fix n d d' c assume d: "r \<in> set (refunds d)" and u: "update_provider_refund i pid P f n d = Inr (d', c)"
  then have "update_refund i P f n d = Inr (d', c)" by (simp add: update_provider_refund_def split: if_splits)
  with settled_update_refund [OF assms, where f = f and i = i] d show "r \<in> set (refunds d')" unfolding stmt_keeps_def by blast
qed

lemma leaves_keeps_in: "leaves refunds s \<Longrightarrow> stmt_keeps (\<lambda>d. r \<in> set (refunds d)) s"
  by (rule stmt_keepsI) (use leavesD in metis)

lemma refunds_left:
  "leaves refunds (update_order i P g)" "leaves refunds (event_of_order i Q ev)" "leaves refunds (outbox_when c ignore b)"
  "leaves refunds (audit_when c action target)" "leaves refunds (audit action target)"
  "leaves refunds (refund_outbox rid type next_at attempt guard)"
  by (rule update_order_leaves, simp add: same_rest_def) (simp_all add: leaves)

lemma refunds_left_batches:
  "\<forall>s\<in>set (close_after_sale_statements db i rid attempt now). leaves refunds s"
  "\<forall>s\<in>set (cancel_open_fulfillment i). leaves refunds s"
  "\<forall>s\<in>set (refund_grant_statements db i now guard). leaves refunds s"
  by (rule close_after_sale_leaves cancel_open_leaves refund_grant_statements_leave, simp_all)+

lemma settled_finalize:
  assumes "r_status r = Refund_Succeeded"
  shows "\<forall>s\<in>set (finalize_statements db r' ost st failure pid attempt now actor). stmt_keeps (\<lambda>d. r \<in> set (refunds d)) s"
proof -
  have "\<forall>s\<in>set (finalize_head r' ost st failure pid attempt now actor). stmt_keeps (\<lambda>d. r \<in> set (refunds d)) s"
    unfolding finalize_head_def Let_def list.set ball_simps
    by (intro conjI TrueI leaves_keeps_in refunds_left settled_provider_refund [OF assms]) auto
  moreover have "stmt_keeps (\<lambda>d. r \<in> set (refunds d)) s"
    if "s \<in> set (refund_grant_statements db (r_order r') now g @ close_after_sale_statements db (r_order r') (r_id r') attempt now
          @ cancel_open_fulfillment (r_order r'))" for s g
    by (rule leaves_keeps_in) (use that refunds_left_batches in auto)
  ultimately show ?thesis by (auto simp: finalize_statements_def)
qed

lemma settled_finalize_refund:
  assumes "r_status r = Refund_Succeeded" and "r \<in> set (refunds (env db))"
    and "finalize_refund env now r' x st failure pid attempt actor db = (res, db')"
  shows "r \<in> set (refunds db')"
proof (cases "run_batch (finalize_statements db r' (final_order_status db r' x st) st failure pid attempt now actor) (env db)")
  case (Inr p)
  with assms(3) have "run_batch (finalize_statements db r' (final_order_status db r' x st) st failure pid attempt now actor) (env db)
      = Inr (db', snd p)" by (cases p) (simp add: finalize_refund_def Let_def)
  then show ?thesis
    by (rule run_batch_keeps [where I = "\<lambda>d. r \<in> set (refunds d)", OF settled_finalize [OF assms(1)] assms(2)])
qed (use assms(2,3) in \<open>simp add: finalize_refund_def Let_def\<close>)

lemma settled_batch:
  assumes "r \<in> set (refunds d)" and "\<forall>s\<in>set ss. stmt_keeps (\<lambda>d. r \<in> set (refunds d)) s"
  shows "case run_batch ss d of Inl e \<Rightarrow> True | Inr (d', cs) \<Rightarrow> r \<in> set (refunds d')"
  using run_batch_keeps [of ss "\<lambda>d. r \<in> set (refunds d)" d] assms by (auto split: sum.splits)

lemma settled_single:
  assumes "r \<in> set (refunds d)" and "r_status r = Refund_Succeeded" and "\<And>q. P q \<Longrightarrow> r_status q \<noteq> Refund_Succeeded"
    and "run_batch [update_refund i P f] d = Inr (d', cs)"
  shows "r \<in> set (refunds d')"
  using settled_batch [OF assms(1), of "[update_refund i P f]"] settled_update_refund [OF assms(2,3)] assms(4) by simp

lemma settled_answer:
  assumes r: "r_status r = Refund_Succeeded" and "r \<in> set (refunds db)" and "r \<in> set (refunds (env2 db))"
    and "answer_refund env2 now r' x attempt answer db = (res, db')"
  shows "r \<in> set (refunds db')"
proof -
  have fin: "r \<in> set (refunds d)" if "finalize_refund env2 now r' x st failure pid attempt actor db = (q, d)"
    for st failure pid actor q d
    using settled_finalize_refund [OF r assms(3) that] .
  have sched: "r \<in> set (refunds d)" if "schedule_refund_check now (r_id r') pid attempt db = (q, d)" for pid q d
  proof -
    let ?ss = "[update_provider_refund (r_id r') (Some pid) (\<lambda>q. r_status q = Refund_Processing \<and> r_attempts q = attempt)
             (\<lambda>q. q \<lparr> r_status := Refund_Processing, r_provider_refund := Some pid,
                      r_next_attempt_at := Some (now + check_backoff attempt), r_failure := None, r_updated_at := now \<rparr>),
           refund_outbox (r_id r') ''refund.check'' (now + check_backoff attempt) attempt
             (\<lambda>q. r_attempts q = attempt \<and> r_status q = Refund_Processing \<and> r_next_attempt_at q = Some (now + check_backoff attempt))]"
    have k: "\<forall>s\<in>set ?ss. stmt_keeps (\<lambda>d. r \<in> set (refunds d)) s"
      by (simp add: leaves_keeps_in [OF refunds_left(6)], rule settled_provider_refund [OF r]) simp
    show ?thesis using that settled_batch [OF assms(2) k] assms(2)
      by (auto simp: schedule_refund_check_def Let_def split: sum.splits)
  qed
  have fail: "r \<in> set (refunds d)" if f: "record_provider_failure env2 now r' x attempt db = (q, d)" for q d
  proof (cases "attempt < 5")
    case True
    let ?ss = "[update_refund (r_id r') (\<lambda>q. r_status q = Refund_Processing \<and> r_attempts q = attempt)
                   (\<lambda>q. q \<lparr> r_status := Refund_Failed, r_failure := Some ''provider_unavailable'',
                            r_next_attempt_at := Some (now + retry_backoff attempt), r_updated_at := now \<rparr>),
                 refund_outbox (r_id r') ''refund.requested'' (now + retry_backoff attempt) attempt
                   (\<lambda>q. r_attempts q = attempt \<and> r_status q = Refund_Failed \<and> r_next_attempt_at q = Some (now + retry_backoff attempt))]"
    have k: "\<forall>s\<in>set ?ss. stmt_keeps (\<lambda>d. r \<in> set (refunds d)) s"
      by (simp add: leaves_keeps_in [OF refunds_left(6)], rule settled_update_refund [OF r]) simp
    show ?thesis using f True settled_batch [OF assms(2) k] assms(2)
      by (auto simp: record_provider_failure_def Let_def split: sum.splits)
  next
    case False
    with f fin show ?thesis by (simp add: record_provider_failure_def)
  qed
  have man: "r \<in> set (refunds d)" if "require_manual_reconciliation now r' attempt db = (q, d)" for q d
    using that assms(2) settled_single [OF assms(2) r, of "\<lambda>q. r_status q = Refund_Processing \<and> r_attempts q = attempt"]
    by (simp add: require_manual_reconciliation_def split: sum.splits prod.splits)
  show ?thesis
    using assms(4) sched fail man fin by (auto simp: answer_refund_def split: provider_reply.splits if_splits)
qed

lemma settled_claim:
  assumes "r_status r = Refund_Succeeded" and "r \<in> set (refunds d)" and "claim_refund_attempt now r' d = (res, d')"
  shows "r \<in> set (refunds d')"
proof -
  have "\<And>q. r_attempts q = r_attempts r' \<and> claimable now q \<Longrightarrow> r_status q \<noteq> Refund_Succeeded"
    by (auto simp: claimable_def)
  from settled_single [OF assms(2,1) this] assms(2,3) show ?thesis
    by (auto simp: claim_refund_attempt_def Let_def split: sum.splits)
qed

definition spares :: "refund_row \<Rightarrow> (db \<Rightarrow> db) \<Rightarrow> bool" where
  "spares r env \<longleftrightarrow> (\<forall>d. r \<in> set (refunds d) \<longrightarrow> r \<in> set (refunds (env d)))"

lemma spares_id [simp]: "spares r (\<lambda>d. d)"
  by (simp add: spares_def)

lemma settled_process:
  assumes r: "r_status r = Refund_Succeeded" "r \<in> set (refunds db)" and e: "spares r env0" "spares r env1" "spares r env2"
    and p: "process_shop_refund sv env0 env1 env2 claimed_at now rid db = (res, db')"
  shows "r \<in> set (refunds db')"
proof (cases "load_refund db rid")
  case None
  with p r show ?thesis by (simp add: process_shop_refund_def)
next
  case (Some t)
  obtain r' x a c where t: "t = (r', x, a, c)" by (cases t)
  show ?thesis
  proof (cases "r_status r' \<in> {Refund_Succeeded, Refund_Cancelled} \<or> (\<exists>e. open_credential sv c = Inl e)")
    case True
    with p r Some t show ?thesis by (auto simp: process_shop_refund_def split: if_splits)
  next
    case False
    then obtain ad cred where o: "open_credential sv c = Inr (ad, cred)" by (cases "open_credential sv c") auto
    obtain claim d where d: "claim_refund_attempt claimed_at r' (env0 db) = (claim, d)" by fastforce
    have k: "r \<in> set (refunds d)" using settled_claim [OF r(1) _ d] e(1) r(2) by (simp add: spares_def)
    then have k1: "r \<in> set (refunds (env1 d))" "r \<in> set (refunds (env2 (env1 d)))" using e(2,3) by (simp_all add: spares_def)
    show ?thesis
    proof (cases claim)
      case (Inl e)
      with p Some t False o d k show ?thesis by (simp add: process_shop_refund_def)
    next
      case (Inr m)
      show ?thesis
      proof (cases m)
        case None
        with p Some t False o d k Inr show ?thesis by (simp add: process_shop_refund_def)
      next
        case (Some attempt)
        with p \<open>load_refund db rid = Some t\<close> t False o d Inr
        have "answer_refund env2 now r' x attempt (ask_provider ad cred r' a) (env1 d) = (res, db')"
          by (simp add: process_shop_refund_def)
        then show ?thesis by (rule settled_answer [where ?env2.0 = env2, OF r(1) k1])
      qed
    qed
  qed
qed

lemma settled_complete:
  assumes r: "r_status r = Refund_Succeeded" "r \<in> set (refunds db)" and e: "spares r env0" "spares r env1" "spares r env2"
    and p: "complete_manual_refund sv env0 env1 env2 claimed_at now rid reference returned db = (res, db')"
  shows "r \<in> set (refunds db')"
proof (cases "db' = db")
  case False
  with p obtain r' x a c ad where l: "returned" "load_refund db rid = Some (r', x, a, c)" "r_status r' \<noteq> Refund_Succeeded"
    "get_payment_provider sv (pc_provider c) = Inr ad"
    "\<not> (ad_mode ad \<noteq> Manual \<or> r_status r' \<noteq> Refund_Processing \<or> r_failure r' \<noteq> Some ''manual_action_required'')"
    "\<not> (js_trim reference = [] \<or> length (js_trim reference) > 200)"
    unfolding complete_manual_refund_def Let_def
    by (auto split: if_splits option.splits sum.splits)
  let ?P = "\<lambda>q. r_status q = Refund_Processing \<and> r_failure q = Some ''manual_action_required'' \<and> r_attempts q = r_attempts r'"
  let ?f = "\<lambda>q. q \<lparr> r_attempts := Suc (r_attempts r'), r_updated_at := claimed_at \<rparr>"
  have d: "r \<in> set (refunds (env0 db))" using e(1) r(2) by (simp add: spares_def)
  show ?thesis
  proof (cases "run_batch [update_refund rid ?P ?f] (env0 db)")
    case (Inl err)
    with p l d show ?thesis by (simp add: complete_manual_refund_def Let_def)
  next
    case (Inr q)
    obtain d' cs where q: "q = (d', cs)" by (cases q)
    have k: "r \<in> set (refunds d')"
      by (rule settled_single [OF d r(1) _ Inr [unfolded q]]) simp
    then have k1: "r \<in> set (refunds (env2 (env1 d')))" using e(2,3) by (simp add: spares_def)
    show ?thesis
    proof (cases "cs ! 0 = 1")
      case True
      with p l Inr q have "finalize_refund env2 now r' x Refund_Succeeded None (Some (''manual:'' @ js_trim reference))
          (Suc (r_attempts r')) True (env1 d') = (res, db')" by (simp add: complete_manual_refund_def Let_def)
      then show ?thesis by (rule settled_finalize_refund [where env = env2, OF r(1) k1])
    next
      case False
      with p l Inr q k show ?thesis by (simp add: complete_manual_refund_def Let_def)
    qed
  qed
qed (use r in simp)

lemma settled_retry:
  assumes r: "r_status r = Refund_Succeeded" "r \<in> set (refunds db)" and e: "spares r env"
    and p: "retry_shop_refund env now rid db = (res, db')"
  shows "r \<in> set (refunds db')"
proof -
  have d: "r \<in> set (refunds (env db))" using e r(2) by (simp add: spares_def)
  have k: "\<forall>s\<in>set (retry_statements q now). stmt_keeps (\<lambda>d. r \<in> set (refunds d)) s" for q
    by (simp add: retry_statements_def leaves_keeps_in refunds_left, rule settled_update_refund [OF r(1)]) simp
  note b = settled_batch [OF d k]
  show ?thesis
  proof (cases "sql_first (\<lambda>r. r_id r = rid) (refunds db)")
    case (Some q)
    with p b [of q] r(2) d show ?thesis
      by (cases "run_batch (retry_statements q now) (env db)") (auto simp: retry_shop_refund_def Let_def split: if_splits)
  qed (use p r(2) in \<open>simp add: retry_shop_refund_def\<close>)
qed

section \<open>A provider outage ends\<close>

text \<open>The refund is processed each time it is due; nothing else runs.\<close>

definition due_at :: "string \<Rightarrow> db \<Rightarrow> int" where
  "due_at rid db = (case sql_first (\<lambda>r. r_id r = rid) (refunds db) of
     Some r \<Rightarrow> (case r_next_attempt_at r of Some t \<Rightarrow> t | None \<Rightarrow> 0) | None \<Rightarrow> 0)"

fun run_when_due :: "services \<Rightarrow> string \<Rightarrow> nat \<Rightarrow> db \<Rightarrow> db" where
  "run_when_due sv rid 0 db = db"
| "run_when_due sv rid (Suc n) db =
     (let t = due_at rid db
      in run_when_due sv rid n (snd (process_shop_refund sv (\<lambda>d. d) (\<lambda>d. d) (\<lambda>d. d) t t rid db)))"

definition fail_row :: "int \<Rightarrow> int \<Rightarrow> refund_row \<Rightarrow> refund_row" where
  "fail_row now next_at q = q \<lparr> r_status := Refund_Failed, r_failure := Some ''provider_unavailable'',
     r_next_attempt_at := Some next_at, r_updated_at := now \<rparr>"

lemma update_refund_plain:
  assumes "distinct (map r_id (refunds db))" and "sql_first (\<lambda>r. r_id r = rid) (refunds db) = Some r" and "P r"
    and "r_status (f r) \<noteq> Refund_Succeeded"
  shows "update_refund rid P f n db = Inr (db \<lparr> refunds := sql_update (\<lambda>q. r_id q = rid) f (refunds db) \<rparr>, 1)"
proof -
  have r: "r \<in> set (refunds db)" "r_id r = rid" using sql_first_Some [OF assms(2)] by simp_all
  have only: "q = r" if "q \<in> set (refunds db)" "r_id q = rid" for q
    using keyed_first [OF assms(1)] that r by (metis option.inject)
  obtain q where q: "sql_first (\<lambda>r. r_id r = rid \<and> P r) (refunds db) = Some q"
    using r assms(3) by (metis (mono_tags, lifting) not_None_eq sql_first_None)
  from sql_first_Some [OF q] only have "q = r" by blast
  with q have "sql_first (\<lambda>r. r_id r = rid \<and> P r) (refunds db) = Some r" by simp
  moreover have "sql_update (\<lambda>r. r_id r = rid \<and> P r) f (refunds db) = sql_update (\<lambda>q. r_id q = rid) f (refunds db)"
    unfolding sql_update_def by (rule map_cong [OF refl]) (use only assms(3) in metis)
  ultimately show ?thesis using assms(4) by (simp add: update_refund_def Let_def)
qed

lemma load_refund_first: "load_refund db rid = Some (r, x, a, c) \<Longrightarrow> sql_first (\<lambda>r. r_id r = rid) (refunds db) = Some r"
  by (auto simp: load_refund_def split: option.splits)

lemma load_refund_order: "load_refund db rid = Some (r, x, a, c) \<Longrightarrow> find_order db (r_order r) = Some x"
  by (auto simp: load_refund_def split: option.splits)

lemma load_refund_update:
  assumes "load_refund db rid = Some (r, x, a, c)" and "refunds db' = sql_update (\<lambda>q. r_id q = rid) f (refunds db)"
    and "shop_orders db' = shop_orders db" "attempts db' = attempts db" "channels db' = channels db"
    and "\<And>q. r_id (f q) = r_id q \<and> r_order (f q) = r_order q \<and> r_attempt (f q) = r_attempt q"
  shows "load_refund db' rid = Some (f r, x, a, c)"
proof -
  have "r_id r = rid" using sql_first_Some [OF load_refund_first [OF assms(1)]] by simp
  moreover have "sql_first (\<lambda>r. r_id r = rid) (refunds db') = Some (if r_id r = rid then f r else r)"
    unfolding assms(2) using sql_first_update_key [of r_id f rid "\<lambda>q. r_id q = rid" "refunds db"] assms(6)
      load_refund_first [OF assms(1)] by simp
  ultimately show ?thesis
    using assms(1,3-6) by (auto simp: load_refund_def find_order_def find_channel_def split: option.splits)
qed

text \<open>One failed attempt: before the fifth it is scheduled again.\<close>

lemma refund_outbox_Inr: "\<exists>d c. refund_outbox rid type next_at k guard n db = Inr (d, c) \<and> (\<exists>b. d = db \<lparr> outbox := b \<rparr>)"
proof -
  have "\<exists>b. db = db \<lparr> outbox := b \<rparr>" by (rule exI [of _ "outbox db"]) simp
  then show ?thesis
    by (auto simp: refund_outbox_def outbox_when_def insert_outbox_def)
qed

lemma claim_plain:
  assumes "load_refund db rid = Some (r, x, a, c)" and "distinct (map r_id (refunds db))" and "claimable now r"
  shows "claim_refund_attempt now r db = (Inr (Some (Suc (r_attempts r))),
    db \<lparr> refunds := sql_update (\<lambda>q. r_id q = rid) (claim_row (Suc (r_attempts r)) now (now + refund_lease)) (refunds db) \<rparr>)"
proof -
  have i: "r_id r = rid" using sql_first_Some [OF load_refund_first [OF assms(1)]] by simp
  have "update_refund rid (\<lambda>q. r_attempts q = r_attempts r \<and> claimable now q) (claim_row (Suc (r_attempts r)) now (now + refund_lease)) 0 db
      = Inr (db \<lparr> refunds := sql_update (\<lambda>q. r_id q = rid) (claim_row (Suc (r_attempts r)) now (now + refund_lease)) (refunds db) \<rparr>, 1)"
    by (rule update_refund_plain [OF assms(2) load_refund_first [OF assms(1)]]) (use assms(3) in \<open>simp_all add: claim_row_def\<close>)
  then show ?thesis by (simp add: claim_refund_attempt_def Let_def run_batch_def i)
qed

lemma claim_row_sel [simp]:
  "r_id (claim_row k now u r) = r_id r" "r_order (claim_row k now u r) = r_order r" "r_attempt (claim_row k now u r) = r_attempt r"
  "r_attempts (claim_row k now u r) = k" "r_status (claim_row k now u r) = Refund_Processing"
  "r_provider_refund (claim_row k now u r) = r_provider_refund r" "r_status_before (claim_row k now u r) = r_status_before r"
  by (simp_all add: claim_row_def)

lemma fail_row_sel [simp]:
  "r_id (fail_row now u r) = r_id r" "r_order (fail_row now u r) = r_order r" "r_attempt (fail_row now u r) = r_attempt r"
  "r_attempts (fail_row now u r) = r_attempts r" "r_status (fail_row now u r) = Refund_Failed" "r_next_attempt_at (fail_row now u r) = Some u"
  "r_failure (fail_row now u r) = Some ''provider_unavailable''" "r_provider_refund (fail_row now u r) = r_provider_refund r"
  "r_status_before (fail_row now u r) = r_status_before r"
  by (simp_all add: fail_row_def)

lemma sql_update_twice:
  assumes "\<And>q. r_id (f q) = r_id q"
  shows "sql_update (\<lambda>q. r_id q = rid) g (sql_update (\<lambda>q. r_id q = rid) f t) = sql_update (\<lambda>q. r_id q = rid) (g \<circ> f) t"
  using assms by (auto simp: sql_update_def)

lemma outage_step:
  assumes l: "load_refund db rid = Some (r, x, a, c)" and u: "distinct (map r_id (refunds db))" and cl: "claimable now r"
    and o: "open_credential sv c = Inr (ad, cred)" and dead: "\<And>q. ask_provider ad cred q a = Refund_Error"
  defines "k \<equiv> Suc (r_attempts r)"
  defines "d \<equiv> db \<lparr> refunds := sql_update (\<lambda>q. r_id q = rid) (claim_row k now (now + refund_lease)) (refunds db) \<rparr>"
  shows "process_shop_refund sv (\<lambda>d. d) (\<lambda>d. d) (\<lambda>d. d) now now rid db = record_provider_failure (\<lambda>d. d) now r x k d"
proof -
  have "r_status r \<notin> {Refund_Succeeded, Refund_Cancelled}" using cl by (auto simp: claimable_def)
  then show ?thesis
    by (simp add: process_shop_refund_def l o claim_plain [OF l u cl] answer_refund_def dead k_def d_def)
qed

lemma outage_reschedules:
  assumes l: "load_refund db rid = Some (r, x, a, c)" and u: "distinct (map r_id (refunds db))" and cl: "claimable now r"
    and o: "open_credential sv c = Inr (ad, cred)" and dead: "\<And>q. ask_provider ad cred q a = Refund_Error" and k: "Suc (r_attempts r) < 5"
  obtains d r' where "snd (process_shop_refund sv (\<lambda>d. d) (\<lambda>d. d) (\<lambda>d. d) now now rid db) = d"
    "load_refund d rid = Some (r', x, a, c)" "distinct (map r_id (refunds d))" "shop_orders d = shop_orders db"
    "r_attempts r' = Suc (r_attempts r)" "r_status r' = Refund_Failed" "r_failure r' = Some ''provider_unavailable''"
    "r_next_attempt_at r' = Some (now + retry_backoff (Suc (r_attempts r)))"
    "r_provider_refund r' = r_provider_refund r" "r_status_before r' = r_status_before r"
    "order_events d = order_events db" "r_order r' = r_order r"
proof -
  let ?k = "Suc (r_attempts r)"
  let ?t = "now + retry_backoff ?k"
  let ?claim = "claim_row ?k now (now + refund_lease)"
  let ?d = "db \<lparr> refunds := sql_update (\<lambda>q. r_id q = rid) ?claim (refunds db) \<rparr>"
  let ?e = "?d \<lparr> refunds := sql_update (\<lambda>q. r_id q = rid) (fail_row now ?t) (refunds ?d) \<rparr>"
  have i: "r_id r = rid" using sql_first_Some [OF load_refund_first [OF l]] by simp
  have l1: "load_refund ?d rid = Some (?claim r, x, a, c)"
    by (rule load_refund_update [OF l]) simp_all
  have ids: "map r_id (sql_update (\<lambda>q. r_id q = rid) f t) = map r_id t" if "\<And>q. r_id (f q) = r_id q" for f t
    using that by (rule sql_update_cong_key)
  have u1: "distinct (map r_id (refunds ?d))" using u by (simp add: ids)
  have s1: "update_refund rid (\<lambda>q. r_status q = Refund_Processing \<and> r_attempts q = ?k) (fail_row now ?t) 0 ?d = Inr (?e, 1)"
    by (rule update_refund_plain [OF u1 load_refund_first [OF l1]]) simp_all
  obtain b n where s2: "refund_outbox rid ''refund.requested'' ?t ?k (\<lambda>q. r_attempts q = ?k \<and> r_status q = Refund_Failed
      \<and> r_next_attempt_at q = Some ?t) 1 ?e = Inr (?e \<lparr> outbox := b \<rparr>, n)"
    using refund_outbox_Inr [of rid "''refund.requested''" ?t ?k "\<lambda>q. r_attempts q = ?k \<and> r_status q = Refund_Failed
      \<and> r_next_attempt_at q = Some ?t" 1 ?e] by auto
  have f: "(\<lambda>q. q \<lparr> r_status := Refund_Failed, r_failure := Some ''provider_unavailable'',
     r_next_attempt_at := Some ?t, r_updated_at := now \<rparr>) = fail_row now ?t" by (simp add: fail_row_def fun_eq_iff)
  have "run_batch [update_refund rid (\<lambda>q. r_status q = Refund_Processing \<and> r_attempts q = ?k) (fail_row now ?t),
      refund_outbox rid ''refund.requested'' ?t ?k (\<lambda>q. r_attempts q = ?k \<and> r_status q = Refund_Failed
      \<and> r_next_attempt_at q = Some ?t)] ?d = Inr (?e \<lparr> outbox := b \<rparr>, [1, n])"
    using s1 s2 by (simp only: run_batch_def batch_from.simps sum.case prod.case)
  then have p: "snd (process_shop_refund sv (\<lambda>d. d) (\<lambda>d. d) (\<lambda>d. d) now now rid db) = ?e \<lparr> outbox := b \<rparr>"
    unfolding outage_step [OF l u cl o dead] using k by (simp only: record_provider_failure_def Let_def i f) simp
  have l2: "load_refund (?e \<lparr> outbox := b \<rparr>) rid = Some (fail_row now ?t (?claim r), x, a, c)"
    by (rule load_refund_update [OF l1]) simp_all
  show thesis by (rule that [OF p l2]) (use u in \<open>simp_all add: ids\<close>)
qed

lemma update_order_quiet:
  assumes "find_order db i = Some x" and "P db x" and "o_status (f x) \<in> {Fulfilling, Completed, Order_Failed, Refunding, Refunded}"
    and "\<And>y. P db y"
  obtains p where "update_order i P f n db
    = Inr (db \<lparr> shop_orders := sql_update (\<lambda>x. o_id x = i) f (shop_orders db), promotion_rewards := p \<rparr>, 1)"
proof -
  have e: "sql_first (\<lambda>x. o_id x = i \<and> P db x) (shop_orders db) = Some x" using assms(1,4) by (simp add: find_order_def)
  have s: "sql_update (\<lambda>x. o_id x = i \<and> P db x) f (shop_orders db) = sql_update (\<lambda>x. o_id x = i) f (shop_orders db)"
    using assms(4) by simp
  let ?d = "db \<lparr> shop_orders := sql_update (\<lambda>x. o_id x = i) f (shop_orders db) \<rparr>"
  have "order_before x (f x) db = Inr ()" using assms(3) by (auto simp: order_before_def)
  moreover have "order_lifecycle (f x) ?d = Inr (lifecycle_schedule (f x) ?d)"
    using assms(3) by (auto simp: order_lifecycle_def lifecycle_hold_def lifecycle_reward_def)
  moreover have "coupon_release x (f x) d = d" for d using assms(3) by (auto simp: coupon_release_def)
  ultimately have u: "update_order i P f n db = Inr (lifecycle_schedule (f x) ?d, 1)"
    by (simp add: update_order_def e s Let_def)
  have "\<exists>p. lifecycle_schedule (f x) ?d = ?d \<lparr> promotion_rewards := p \<rparr>"
    by (cases "o_status (f x) = Completed") (auto simp: lifecycle_schedule_def intro: exI [of _ "promotion_rewards db"])
  with u that show thesis by fastforce
qed

lemma close_refund_sel [simp]:
  "r_id (close_refund st p f now r) = r_id r" "r_order (close_refund st p f now r) = r_order r" "r_attempt (close_refund st p f now r) = r_attempt r"
  "r_attempts (close_refund st p f now r) = r_attempts r" "r_status (close_refund st p f now r) = st"
  "r_completed_at (close_refund st p f now r) = Some now" "r_next_attempt_at (close_refund st p f now r) = None"
  "r_failure (close_refund st p f now r) = f" "r_status_before (close_refund st p f now r) = r_status_before r"
  by (simp_all add: close_refund_def)

lemma log_runs:
  "\<exists>d' c. audit_when q a t n d = Inr (d', c)" "\<exists>d' c. refund_outbox rid type next_at k guard n d = Inr (d', c)"
  using refund_outbox_Inr [of rid type next_at k guard n d] by (auto simp: audit_when_def audit_def)

text \<open>The events of an order do not run ahead of its version.\<close>

definition events_behind :: "string \<Rightarrow> nat \<Rightarrow> db \<Rightarrow> bool" where
  "events_behind i v db \<longleftrightarrow>
     (\<forall>e\<in>set (order_events db). oe_order e = i \<longrightarrow> (case oe_version e of None \<Rightarrow> True | Some w \<Rightarrow> w \<le> v))"

lemma first_also: "sql_first P t = Some r \<Longrightarrow> Q r \<Longrightarrow> (\<And>x. Q x \<Longrightarrow> P x) \<Longrightarrow> sql_first Q t = Some r"
  by (induction t) (auto split: if_splits)

lemma batch_runs: "\<forall>s\<in>set ss. \<forall>n d. \<exists>d' c. s n d = Inr (d', c) \<Longrightarrow> \<exists>d' cs. batch_from n ss d = Inr (d', cs)"
proof (induction ss arbitrary: n d)
  case (Cons s ss)
  from Cons.prems obtain e c where "s n d = Inr (e, c)" by (meson list.set_intros(1))
  moreover from Cons obtain d' cs where "batch_from c ss e = Inr (d', cs)" by (meson list.set_intros(2))
  ultimately show ?case by (auto simp: batch_Cons)
qed simp

lemma outage_gives_up:
  assumes l: "load_refund db rid = Some (r, x, a, c)" and u: "distinct (map r_id (refunds db))" and cl: "claimable now r"
    and o: "open_credential sv c = Inr (ad, cred)" and dead: "\<And>q. ask_provider ad cred q a = Refund_Error"
    and k: "5 \<le> Suc (r_attempts r)" and p: "r_provider_refund r = None"
    and b: "r_status_before r \<in> {Fulfilling, Completed, Order_Failed}" and ev: "events_behind (r_order r) (o_version x) db"
  obtains d r' where "snd (process_shop_refund sv (\<lambda>d. d) (\<lambda>d. d) (\<lambda>d. d) now now rid db) = d"
    "load_refund d rid = Some (r', refund_status (r_status_before r, now) x, a, c)"
    "r_status r' = Refund_Failed" "r_next_attempt_at r' = None" "r_completed_at r' = Some now"
    "find_order d (r_order r) = Some (refund_status (r_status_before r, now) x)"
proof -
  let ?k = "Suc (r_attempts r)"
  let ?claim = "claim_row ?k now (now + refund_lease)"
  let ?d = "db \<lparr> refunds := sql_update (\<lambda>q. r_id q = rid) ?claim (refunds db) \<rparr>"
  let ?close = "close_refund Refund_Failed None (Some ''provider_unavailable'') now"
  let ?e = "?d \<lparr> refunds := sql_update (\<lambda>q. r_id q = rid) ?close (refunds ?d) \<rparr>"
  let ?b = "r_status_before r"
  have i: "r_id r = rid" using sql_first_Some [OF load_refund_first [OF l]] by simp
  have l1: "load_refund ?d rid = Some (?claim r, x, a, c)" by (rule load_refund_update [OF l]) simp_all
  have "map r_id (sql_update (\<lambda>q. r_id q = rid) ?claim (refunds db)) = map r_id (refunds db)"
    by (rule sql_update_cong_key) simp
  with u have u1: "distinct (map r_id (refunds ?d))" by simp
  have l2: "load_refund ?e rid = Some (?close (?claim r), x, a, c)" by (rule load_refund_update [OF l1]) simp_all
  let ?P = "\<lambda>q. r_status q \<in> {Refund_Processing, Refund_Failed} \<and> r_attempts q = ?k"
  have "update_refund rid ?P ?close 0 ?d = Inr (?e, 1)"
    by (rule update_refund_plain [OF u1 load_refund_first [OF l1]]) simp_all
  then have s1: "update_provider_refund rid None ?P ?close 0 ?d = Inr (?e, 1)" by (simp add: update_provider_refund_def sql_exists_def list_ex_iff)
  from sql_first_Some [OF load_refund_first [OF l2]] have closed: "refund_closed rid ?k Refund_Failed now ?e"
    unfolding refund_closed_def sql_exists_def list_ex_iff by (intro bexI [of _ "?close (?claim r)"]) simp_all
  have fe: "find_order ?e (r_order r) = Some x" using load_refund_order [OF l2] by simp
  have fb: "o_status (refund_status (?b, now) x) \<in> {Fulfilling, Completed, Order_Failed, Refunding, Refunded}" using b by auto
  obtain pr where s2: "update_order (r_order r) (\<lambda>db _. refund_closed rid ?k Refund_Failed now db) (refund_status (?b, now)) 1 ?e
      = Inr (?e \<lparr> shop_orders := sql_update (\<lambda>x. o_id x = r_order r) (refund_status (?b, now)) (shop_orders ?e), promotion_rewards := pr \<rparr>, 1)"
    by (rule update_order_quiet [where P = "\<lambda>db _. refund_closed rid ?k Refund_Failed now db" and f = "refund_status (?b, now)",
          OF fe closed fb closed]) (rule that)
  let ?g = "?e \<lparr> shop_orders := sql_update (\<lambda>x. o_id x = r_order r) (refund_status (?b, now)) (shop_orders ?e), promotion_rewards := pr \<rparr>"
  let ?tail = "drop 2 (finalize_head r ?b Refund_Failed (Some ''provider_unavailable'') None ?k now False)"
  have ox: "find_order ?e (r_order r) = Some x" using load_refund_order [OF l2] by simp
  then have ix: "o_id x = r_order r" using sql_first_Some [of "\<lambda>x. o_id x = r_order r" "shop_orders db" x] by (simp add: find_order_def)
  then have fg: "find_order ?g (r_order r) = Some (refund_status (?b, now) x)"
    using sql_first_update_key [of o_id "refund_status (?b, now)" "r_order r" "\<lambda>x. o_id x = r_order r" "shop_orders ?e"] ox
    by (simp add: find_order_def)
  have cg: "refund_closed rid ?k Refund_Failed now ?g" using closed by (simp add: refund_closed_def)
  obtain d3 c3 where s3: "hd ?tail 1 ?g = Inr (d3, c3)"
  proof -
    have "sql_first (\<lambda>x. o_id x = r_order r \<and> o_status x = ?b \<and> refund_closed rid ?k Refund_Failed now ?g) (shop_orders ?g)
        = Some (refund_status (?b, now) x)"
      by (rule first_also [OF fg [unfolded find_order_def]]) (use cg ix in simp_all)
    moreover have "\<not> sql_exists (\<lambda>x'. oe_order x' = r_order r \<and> oe_version x' = Some (Suc (o_version x))) (order_events ?g)"
      using ev by (fastforce simp: events_behind_def sql_exists_def list_ex_iff)
    moreover have "Refunding \<noteq> ?b" using b by auto
    ultimately have "\<exists>d' c. hd ?tail 1 ?g = Inr (d', c)"
      by (simp add: finalize_head_def Let_def event_of_order_def insert_order_event_def i)
    then show thesis using that by blast
  qed
  have "\<forall>s\<in>set (tl ?tail). \<forall>n d. \<exists>d' c. s n d = Inr (d', c)"
    using log_runs by (simp add: finalize_head_def Let_def)
  from batch_runs [OF this] obtain d cs' where "batch_from c3 (tl ?tail) d3 = Inr (d, cs')" by blast
  with s3 have "batch_from 1 (hd ?tail # tl ?tail) ?g = Inr (d, c3 # cs')" by (simp only: batch_from.simps sum.case prod.case)
  then obtain cs where t: "batch_from 1 ?tail ?g = Inr (d, cs)" by (simp add: finalize_head_def Let_def)
  have eq: "finalize_statements ?d r ?b Refund_Failed (Some ''provider_unavailable'') None ?k now False
      = update_provider_refund rid None ?P ?close
      # update_order (r_order r) (\<lambda>db _. refund_closed rid ?k Refund_Failed now db) (refund_status (?b, now)) # ?tail"
    by (simp add: finalize_statements_def finalize_head_def Let_def i)
  have "run_batch (finalize_statements ?d r ?b Refund_Failed (Some ''provider_unavailable'') None ?k now False) ?d = Inr (d, 1 # 1 # cs)"
    unfolding run_batch_def eq batch_Cons using s1 s2 t by blast
  then have pr: "snd (process_shop_refund sv (\<lambda>d. d) (\<lambda>d. d) (\<lambda>d. d) now now rid db) = d"
    unfolding outage_step [OF l u cl o dead] using k p
    by (simp add: record_provider_failure_def finalize_refund_def final_order_status_def)
  have lv: "\<forall>s\<in>set ?tail. leaves (\<lambda>d. (refunds d, shop_orders d, attempts d, channels d)) s"
    by (simp add: finalize_head_def Let_def leaves)
  from leaves_batch [OF t lv] have g: "refunds d = refunds ?e" "shop_orders d = shop_orders ?g" "attempts d = attempts ?e"
    "channels d = channels ?e" by simp_all
  have fo: "find_order d (r_order r) = Some (refund_status (?b, now) x)" using fg by (simp add: find_order_def g(2))
  have "load_refund d rid = Some (?close (?claim r), refund_status (?b, now) x, a, c)"
    using l2 fo by (auto simp: load_refund_def g find_channel_def split: option.splits)
  from that [OF pr this] fo show thesis by simp
qed

lemma outage_runs:
  assumes "load_refund db rid = Some (r, x, a, c)" and "distinct (map r_id (refunds db))" and "n + r_attempts r = 4"
    and "r_status r \<in> {Refund_Pending, Refund_Failed}" and "r_failure r \<noteq> Some ''manual_action_required''"
    and "open_credential sv c = Inr (ad, cred)" and "\<And>q. ask_provider ad cred q a = Refund_Error"
    and "r_provider_refund r = None" and "r_status_before r \<in> {Fulfilling, Completed, Order_Failed}"
    and "events_behind (r_order r) (o_version x) db"
  shows "\<exists>r' t. load_refund (run_when_due sv rid (Suc n) db) rid = Some (r', refund_status (r_status_before r, t) x, a, c)
    \<and> r_status r' = Refund_Failed \<and> r_next_attempt_at r' = None \<and> r_completed_at r' = Some t"
  using assms
proof (induction n arbitrary: db r)
  case 0
  let ?t = "due_at rid db"
  have cl: "claimable ?t r"
    using 0(4,5) load_refund_first [OF 0(1)] by (auto simp: claimable_def due_at_def split: option.splits)
  obtain d r' where "snd (process_shop_refund sv (\<lambda>d. d) (\<lambda>d. d) (\<lambda>d. d) ?t ?t rid db) = d"
    "load_refund d rid = Some (r', refund_status (r_status_before r, ?t) x, a, c)"
    "r_status r' = Refund_Failed" "r_next_attempt_at r' = None" "r_completed_at r' = Some ?t"
    by (rule outage_gives_up [OF 0(1,2) cl 0(6,7) _ 0(8,9,10)]) (use 0(3) in auto)
  then show ?case by (auto simp: Let_def)
next
  case (Suc n)
  let ?t = "due_at rid db"
  have cl: "claimable ?t r"
    using Suc.prems(4,5) load_refund_first [OF Suc.prems(1)] by (auto simp: claimable_def due_at_def split: option.splits)
  have k: "Suc (r_attempts r) < 5" using Suc.prems(3) by simp
  obtain d r' where d: "snd (process_shop_refund sv (\<lambda>d. d) (\<lambda>d. d) (\<lambda>d. d) ?t ?t rid db) = d"
    "load_refund d rid = Some (r', x, a, c)" "distinct (map r_id (refunds d))"
    "r_attempts r' = Suc (r_attempts r)" "r_status r' = Refund_Failed" "r_failure r' = Some ''provider_unavailable''"
    "r_provider_refund r' = r_provider_refund r" "r_status_before r' = r_status_before r"
    "order_events d = order_events db" "r_order r' = r_order r"
    by (rule outage_reschedules [OF Suc.prems(1,2) cl Suc.prems(6,7) k])
  have "\<exists>r'' t. load_refund (run_when_due sv rid (Suc n) d) rid = Some (r'', refund_status (r_status_before r', t) x, a, c)
    \<and> r_status r'' = Refund_Failed \<and> r_next_attempt_at r'' = None \<and> r_completed_at r'' = Some t"
    by (rule Suc.IH [OF d(2,3)]) (use d(4-10) Suc.prems in \<open>auto simp: events_behind_def\<close>)
  then show ?case by (simp add: d(1,8) Let_def)
qed

section \<open>Properties\<close>

text \<open>What runs between the reads of a request and its batch reserves nothing more unless it moves the order.\<close>

definition reserve_rely :: "order_row \<Rightarrow> db \<Rightarrow> db \<Rightarrow> bool" where
  "reserve_rely x db d \<longleftrightarrow>
     (sql_exists (\<lambda>y. o_id y = o_id x \<and> o_status y = o_status x \<and> o_version y = o_version x) (shop_orders d)
        \<longrightarrow> reserved_amount d (o_id x) \<le> reserved_amount db (o_id x))"

lemma request_within_paid:
  assumes "request_provider_refund sv env now rid key amount split (x, a, c) db = (Inr rep, db')" and "reserve_rely x db (env db)"
  shows "reserved_amount db' (o_id x) \<le> o_paid x
    \<and> (\<exists>y\<in>set (shop_orders db'). o_id y = o_id x \<and> o_status y = Refunding \<and> o_version y = Suc (o_version x))
    \<and> Refunding \<notin> set refundable_statuses"
proof -
  from assms(1) obtain payment manual cs where
    b: "run_batch (request_statements rid x a key amount payment manual split now) (env db) = Inr (db', cs)" "0 < cs ! 0"
    and le: "reserved_amount db (o_id x) + amount \<le> o_paid x"
    by (rule request_provider_refund_Inr)
  note r = request_reserves [OF b]
  obtain d1 d2 n where
    "sql_exists (\<lambda>y. o_id y = o_id x \<and> o_status y = o_status x \<and> o_version y = o_version x) (shop_orders (env db))"
    by (rule request_steps [OF b])
  with assms(2) have "reserved_amount (env db) (o_id x) \<le> reserved_amount db (o_id x)" by (simp add: reserve_rely_def)
  with r(1) le have "reserved_amount db' (o_id x) \<le> o_paid x" by simp
  moreover obtain y where y: "y \<in> set (shop_orders (env db))" "o_id y = o_id x" "o_status y = o_status x" "o_version y = o_version x"
    using \<open>sql_exists _ _\<close> by (auto simp: sql_exists_def list_ex_iff)
  then have "refund_status (Refunding, now) y \<in> set (shop_orders db')"
    by (auto simp: r(3) refund_version.cas_def sql_update_def)
  ultimately show ?thesis using y
    by (auto simp: refundable_statuses_def intro!: bexI [of _ "refund_status (Refunding, now) y"])
qed

lemma request_within_paid_witness:
  "\<exists>rep db'. request_provider_refund (sample_services Refund_Error) (\<lambda>d. d) 9 ''r'' ''key'' 200 None
      (hd (shop_orders (sample_card Completed [])), sample_attempt, hd (channels (sample_card Completed [])))
      (sample_card Completed []) = (Inr rep, db') \<and> reserved_amount db' ''o'' \<le> 500"
proof -
  let ?x = "hd (shop_orders (sample_card Completed []))"
  let ?q = "request_provider_refund (sample_services Refund_Error) (\<lambda>d. d) 9 ''r'' ''key'' 200 None
      (?x, sample_attempt, hd (channels (sample_card Completed []))) (sample_card Completed [])"
  have "case fst ?q of Inl _ \<Rightarrow> False | Inr _ \<Rightarrow> True" by code_simp
  then obtain rep db' where q: "?q = (Inr rep, db')" by (cases ?q) (auto split: sum.splits)
  have "reserve_rely ?x (sample_card Completed []) (sample_card Completed [])" by (simp add: reserve_rely_def)
  from request_within_paid [OF q this] q show ?thesis by (auto simp: sample_card_def sample_order_def)
qed

text \<open>
  C37. An attempt at a refund that has lost its lease to a later attempt has no effect when its
  provider answers at last: no balance, entry, order, refund, grant or entitlement changes.
\<close>

lemma stale_refund_attempt_is_harmless:
  assumes "answer_refund env now r x attempt answer db = (res, db')"
    and "\<not> attempt_open (r_id r) attempt db" and "\<not> attempt_open (r_id r) attempt (env db)"
  shows "ledger_of db' = ledger_of db \<or> ledger_of db' = ledger_of (env db)"
  using assms by (rule idle_answer)

lemma stale_refund_attempt_is_harmless_witness:
  "ledger_of (snd (answer_refund (\<lambda>d. d) 9 (sample_refund ''r'' Refund_Processing) sample_order 3 (Refund_Answer Refund_Succeeded ''x'' None)
     (sample_card Refunding [sample_refund ''r'' Refund_Processing])))
   = ledger_of (sample_card Refunding [sample_refund ''r'' Refund_Processing])"
proof -
  let ?db = "sample_card Refunding [sample_refund ''r'' Refund_Processing]"
  obtain res db' where a: "answer_refund (\<lambda>d. d) 9 (sample_refund ''r'' Refund_Processing) sample_order 3
    (Refund_Answer Refund_Succeeded ''x'' None) ?db = (res, db')" by fastforce
  have n: "\<not> attempt_open (r_id (sample_refund ''r'' Refund_Processing)) 3 ?db"
    by (simp add: attempt_open_def sample_card_def sample_refund_def sql_exists_def)
  from stale_refund_attempt_is_harmless [OF a n n] a show ?thesis by simp
qed





section \<open>Partial refunds to a wallet\<close>

lemma wallet_refund_batch:
  assumes "run_batch (wallet_refund_statements before rid eid x u key amount st split now) db = Inr (db', cs)" and "\<not> cs ! 0 < 1"
  shows "st \<noteq> o_status x"
proof
  assume st: "st = o_status x"
  let ?S = "wallet_refund_statements before rid eid x u key amount st split now"
  let ?after = "u_balance u + amount" and ?v = "Suc (o_version x)"
  let ?e = "\<lparr> we_id = Given eid, we_user = u_id u, we_direction = Credit, we_amount = amount, we_before = u_balance u,
    we_after = ?after, we_currency = o_currency x, we_source = Src_Refund, we_source_id = o_id x,
    we_key = wallet_refund_key rid, we_created_at = now \<rparr>"
  let ?P = "\<lambda>db y. o_status y = o_status x \<and> o_version y = o_version x
    \<and> sql_exists (\<lambda>e. we_key e = wallet_refund_key rid) (wallet_entries db)"
  let ?refund = "refund_when (\<lambda>_. order_at (o_id x) ?v) (wallet_refund_row rid x key amount split now)"
  let ?event = "event_when (order_at (o_id x) ?v) \<lparr> oe_order = o_id x, oe_type = ''refund_succeeded'', oe_from = Some (o_status x),
    oe_to = Some st, oe_version = Some ?v \<rparr>"
  have S: "?S = credit_for_order x u ?after now # record_credit (Suc (u_version u)) ?e
      # update_order (o_id x) ?P (refund_status (st, now)) # ?refund # ?event # drop 5 ?S"
    by (simp add: wallet_refund_statements_def Let_def)
  have b: "batch_from 0 (credit_for_order x u ?after now # record_credit (Suc (u_version u)) ?e
      # update_order (o_id x) ?P (refund_status (st, now)) # ?refund # ?event # drop 5 ?S) db = Inr (db', cs)"
    using assms(1) unfolding run_batch_def S [symmetric] .
  from b obtain d1 c1 d2 c2 d3 c3 d4 c4 d5 c5 where
    s: "credit_for_order x u ?after now 0 db = Inr (d1, c1)" "record_credit (Suc (u_version u)) ?e c1 d1 = Inr (d2, c2)"
       "update_order (o_id x) ?P (refund_status (st, now)) c2 d2 = Inr (d3, c3)" "?refund c3 d3 = Inr (d4, c4)"
       "?event c4 d4 = Inr (d5, c5)" and c: "cs ! 0 = c1"
    by (elim batch_ConsE) (rule that, assumption+, simp)
  let ?hit = "\<lambda>y. u_id y = u_id u \<and> u_version y = u_version u \<and> order_is (o_id x) (o_status x) (o_version x) db"
  from s(1) have d1: "d1 = db \<lparr> users := sql_update ?hit (store_balance (?after, now)) (users db) \<rparr>"
    and c1: "c1 = sql_changes ?hit (users db)"
    by (auto simp: credit_for_order_def update_balance_def Let_def split: if_splits)
  from c assms(2) have "0 < sql_changes ?hit (users db)" by (simp add: c1)
  then obtain w where w: "w \<in> set (users db)" "?hit w" by (auto simp: sql_simps)
  from w have os: "order_is (o_id x) (o_status x) (o_version x) db" by simp
  have "sql_exists (\<lambda>y. u_id y = u_id u \<and> u_version y = Suc (u_version u) \<and> u_balance y = ?after) (users d1)"
    unfolding d1 using w by (auto intro!: sql_exists_hit [of w] simp: store_balance_def)
  with s(2) have "insert_wallet_entry ?e d1 = Inr d2" by (auto simp: record_credit_def and_then_Inr)
  then have d2: "d2 = d1 \<lparr> wallet_entries := wallet_entries d1 @ [?e] \<rparr>"
    by (auto simp: insert_wallet_entry_def split: if_splits)
  from os obtain y where y: "y \<in> set (shop_orders d2)" "o_id y = o_id x" "o_status y = o_status x" "o_version y = o_version x"
    by (auto simp: order_is_def sql_exists_def list_ex_iff d2 d1)
  have k: "sql_exists (\<lambda>e. we_key e = wallet_refund_key rid) (wallet_entries d2)" by (simp add: d2 sql_exists_def)
  from y k have "order_at (o_id x) ?v d3"
    unfolding order_at_def update_order_Inr(1) [OF s(3)] by (auto intro!: sql_exists_hit [of y] simp: refund_status_def Let_def)
  moreover have "leaves shop_orders ?refund"
    by (auto simp: leaves_def refund_when_def and_then_Inr same_rest_def dest!: insert_refund_Inr(2) split: if_splits)
  then have "shop_orders d4 = shop_orders d3" by (rule leavesD [where s = ?refund, OF s(4)])
  ultimately have "order_at (o_id x) ?v d4" by (simp add: order_at_def)
  with s(5) st show False by (simp add: event_when_def insert_order_event_def and_then_Inr)
qed

text \<open>
  A partial refund of an order paid from the wallet never succeeds: its event would repeat the
  status of the order.
\<close>

lemma partial_wallet_refund_aborts:
  assumes "request_wallet_refund env now rid eid i key amount db = (Inr rep, db')" and "wallet_order db i = Some (x, u)"
  shows "amount = o_paid x - reserved_amount db i"
proof (rule ccontr)
  assume p: "amount \<noteq> o_paid x - reserved_amount db i"
  from assms obtain split cs where
    "run_batch (wallet_refund_statements db rid eid x u key amount (o_status x) split now) (env db) = Inr (db', cs)" "\<not> cs ! 0 < 1"
    using p by (auto simp: request_wallet_refund_def Let_def split: if_splits sum.splits prod.splits)
  from wallet_refund_batch [OF this] show False by simp
qed

lemma partial_wallet_refund_aborts_witness:
  "\<exists>rep db'. request_wallet_refund (\<lambda>d. d) 9 ''r'' ''f'' ''o'' ''key'' 500 sample_wallet_order = (Inr rep, db')
     \<and> 500 = 500 - reserved_amount sample_wallet_order ''o''"
proof -
  let ?q = "request_wallet_refund (\<lambda>d. d) 9 ''r'' ''f'' ''o'' ''key'' 500 sample_wallet_order"
  have "case fst ?q of Inl _ \<Rightarrow> False | Inr _ \<Rightarrow> True" by code_simp
  then obtain rep db' where q: "?q = (Inr rep, db')" by (cases ?q) (auto split: sum.splits)
  have "case wallet_order sample_wallet_order ''o'' of None \<Rightarrow> False | Some (x, _) \<Rightarrow> o_paid x = 500" by code_simp
  then obtain x u where w: "wallet_order sample_wallet_order ''o'' = Some (x, u)" "o_paid x = 500" by (auto split: option.splits)
  from partial_wallet_refund_aborts [OF q w(1)] q w(2) show ?thesis by auto
qed

end
