(* ===== verification/Order_Expiry.thy ===== *)
theory Order_Expiry
  imports Payments
begin

text \<open>
  Orders that were not paid in time (\<^verbatim>\<open>src/features/shop-orders/server/expiration.ts\<close>).
  A pass reads the due orders, at most a hundred, and expires each in a batch of its own, guarded
  by the version it was read at; \<open>env k\<close> runs before the batch that has \<open>k\<close> orders behind it.
\<close>

section \<open>Statements\<close>

definition due_order :: "int \<Rightarrow> order_row \<Rightarrow> bool" where
  "due_order now x \<longleftrightarrow> o_status x = Pending_Payment \<and> o_expires_at x \<le> now"

definition pass_limit :: "int \<Rightarrow> nat" where
  "pass_limit limit = nat (max 1 (min 100 limit))"

definition due_orders :: "int \<Rightarrow> nat \<Rightarrow> db \<Rightarrow> (string \<times> nat) list" where
  "due_orders now limit db =
     map (\<lambda>x. (o_id x, o_version x)) (take limit (sql_ordered (\<lambda>x. (o_expires_at x, o_id x)) (due_order now) (shop_orders db)))"

definition set_expired :: "int \<Rightarrow> order_row \<Rightarrow> order_row" where
  "set_expired now x = x \<lparr> o_status := Expired, o_cancelled_at := Some now, o_version := Suc (o_version x), o_updated_at := now \<rparr>"

text \<open>The use of a coupon that is still reserved for the order, given back when the order expired.\<close>

definition give_back_use :: "string \<Rightarrow> nat \<Rightarrow> db stmt" where
  "give_back_use i v n db =
     (let mine = sql_first (\<lambda>r. cr_order r = i \<and> cr_status r = Redemption_Reserved) (redemptions db);
          hit = (\<lambda>c. (case mine of None \<Rightarrow> False | Some r \<Rightarrow> cu_id c = cr_coupon r) \<and> order_is i Expired v db)
      in Inr (db \<lparr> coupon_uses := sql_update hit (\<lambda>c. c \<lparr> cu_used := cu_used c - 1 \<rparr>) (coupon_uses db) \<rparr>,
              sql_changes hit (coupon_uses db)))"

definition release_redemption :: "string \<Rightarrow> nat \<Rightarrow> db stmt" where
  "release_redemption i v n db =
     (let hit = (\<lambda>r. cr_order r = i \<and> cr_status r = Redemption_Reserved \<and> order_is i Expired v db)
      in Inr (db \<lparr> redemptions := sql_update hit (\<lambda>r. r \<lparr> cr_status := Redemption_Released \<rparr>) (redemptions db) \<rparr>,
              sql_changes hit (redemptions db)))"

definition open_attempt_of :: "string \<Rightarrow> attempt_row \<Rightarrow> bool" where
  "open_attempt_of i a \<longleftrightarrow> pa_order a = Some i \<and> pa_status a \<in> {Attempt_Created, Attempt_Pending}"

definition set_attempt_expired :: "int \<Rightarrow> attempt_row \<Rightarrow> attempt_row" where
  "set_attempt_expired now a = a \<lparr> pa_status := Attempt_Expired, pa_failure := Some ''order_expired'', pa_updated_at := now \<rparr>"

text \<open>The rows are chosen first; each is updated with its trigger.\<close>

fun expire_each :: "string \<Rightarrow> int \<Rightarrow> attempt_row list \<Rightarrow> db \<Rightarrow> db result" where
  "expire_each i now [] db = Inr db"
| "expire_each i now (a # as) db =
     and_then (update_attempt (pa_id a) (open_attempt_of i) (set_attempt_expired now) 0 db) (\<lambda>(db, _). expire_each i now as db)"

definition expire_attempts :: "string \<Rightarrow> nat \<Rightarrow> int \<Rightarrow> db stmt" where
  "expire_attempts i v now n db =
     (let hit = (if order_is i Expired v db then filter (open_attempt_of i) (attempts db) else [])
      in and_then (expire_each i now hit db) (\<lambda>db. Inr (db, length hit)))"

text \<open>\<^verbatim>\<open>ON CONFLICT(order_id, order_version) DO NOTHING\<close>.\<close>

definition event_unless_taken :: "(db \<Rightarrow> bool) \<Rightarrow> order_event_row \<Rightarrow> db stmt" where
  "event_unless_taken c e n db =
     (if sql_exists (\<lambda>q. oe_order q = oe_order e \<and> oe_version q = oe_version e) (order_events db) then Inr (db, 0)
      else event_when c e n db)"

definition expired_event :: "string \<Rightarrow> nat \<Rightarrow> order_event_row" where
  "expired_event i v = \<lparr> oe_order = i, oe_type = ''order_expired'', oe_from = Some Pending_Payment, oe_to = Some Expired,
     oe_version = Some v \<rparr>"

definition expiry_statements :: "int \<Rightarrow> string \<Rightarrow> nat \<Rightarrow> db stmt list" where
  "expiry_statements now i version =
     (let v = Suc version
      in [update_order i (\<lambda>_ x. due_order now x \<and> o_version x = version) (set_expired now),
          give_back_use i v,
          release_redemption i v,
          expire_attempts i v now,
          event_unless_taken (order_is i Expired v) (expired_event i v),
          release_sale i])"

section \<open>A pass\<close>

fun expire_loop :: "(nat \<Rightarrow> db \<Rightarrow> db) \<Rightarrow> int \<Rightarrow> (string \<times> nat) list \<Rightarrow> nat \<Rightarrow> db \<Rightarrow> nat result \<times> db" where
  "expire_loop env now [] expired db = (Inr expired, db)"
| "expire_loop env now ((i, v) # os) expired db =
     (let db = env (length os) db
      in case run_batch (expiry_statements now i v) db of
           Inl e \<Rightarrow> (Inl e, db)
         | Inr (db', changes) \<Rightarrow> expire_loop env now os (expired + (if changes ! 0 > 0 then 1 else 0)) db')"

definition expire_store_orders :: "(nat \<Rightarrow> db \<Rightarrow> db) \<Rightarrow> int \<Rightarrow> int \<Rightarrow> db \<Rightarrow> (nat \<times> nat) result \<times> db" where
  "expire_store_orders env now limit db =
     (let due = due_orders now (pass_limit limit) db
      in case expire_loop env now due 0 db of
           (Inl e, db') \<Rightarrow> (Inl e, db')
         | (Inr expired, db') \<Rightarrow> (Inr (length due, expired), db'))"

section \<open>What an expiry does\<close>

definition none_held :: "string \<Rightarrow> db \<Rightarrow> bool" where
  "none_held i db \<longleftrightarrow> \<not> sql_exists (\<lambda>h. h_order h = i \<and> h_state h = Held) (holds db)"

lemma settle_hold_none_held:
  assumes "settle_hold i Released now db = Inr db'" and "distinct (map h_order (holds db))"
  shows "none_held i db'"
proof (cases "sql_first (\<lambda>h. h_order h = i \<and> h_state h = Held) (holds db)")
  case None
  with assms(1) show ?thesis by (auto simp: settle_hold_def none_held_def sql_first_None sql_exists_def list_ex_iff)
next
  case (Some h)
  let ?h = "h \<lparr> h_state := Released, h_updated_at := now \<rparr>"
  let ?d = "db \<lparr> holds := sql_update (\<lambda>r. r = h) (\<lambda>_. ?h) (holds db) \<rparr>"
  have r: "hold_release ?h ?d = Inr db'" using assms(1) Some by (simp add: settle_hold_def Let_def)
  have h: "h \<in> set (holds db)" "h_order h = i" using sql_first_Some [OF Some] by auto
  have "g = h" if "g \<in> set (holds db)" "h_order g = i" for g
    using assms(2) h that by (metis keyed_first option.inject)
  then have "none_held i ?d" by (auto simp: none_held_def sql_exists_def list_ex_iff sql_update_def)
  with hold_release_frame [OF r] show ?thesis by (simp add: none_held_def)
qed

lemma order_dies_none_held:
  assumes "update_order i P f n db = Inr (db', Suc k)" and "distinct (map h_order (holds db))"
    and "\<And>x. o_id (f x) = o_id x \<and> o_status (f x) \<in> {Cancelled, Expired}"
  shows "none_held i db'"
proof -
  from assms(1) obtain old where old: "sql_first (\<lambda>x. o_id x = i \<and> P db x) (shop_orders db) = Some old"
    by (auto simp: update_order_def split: option.splits)
  let ?d = "db \<lparr> shop_orders := sql_update (\<lambda>x. o_id x = i \<and> P db x) f (shop_orders db) \<rparr>"
  from assms(1) old obtain d where d: "order_lifecycle (f old) ?d = Inr d" "db' = coupon_release old (f old) d"
    by (auto simp: update_order_def Let_def and_then_Inr)
  from assms(3) [of old] sql_first_Some [OF old] have f: "o_id (f old) = i" "o_status (f old) \<in> {Cancelled, Expired}" by auto
  with d(1) obtain e where e: "settle_hold i Released (o_updated_at (f old)) ?d = Inr e" "lifecycle_reward (f old) e = Inr d"
    unfolding order_lifecycle_def and_then_Inr lifecycle_hold_def by (auto simp: lifecycle_schedule_def)
  have "holds db' = holds e" using lifecycle_reward_frame [OF e(2)] by (simp add: d(2) coupon_release_def Let_def)
  with settle_hold_none_held [OF e(1)] assms(2) show ?thesis by (simp add: none_held_def)
qed

text \<open>Once its order is dead and holds nothing, an attempt expires without touching anything else.\<close>

definition not_pending :: "string \<Rightarrow> db \<Rightarrow> bool" where
  "not_pending i db \<longleftrightarrow> (\<forall>x\<in>set (shop_orders db). o_id x = i \<longrightarrow> o_status x \<noteq> Pending_Payment)"

lemma expire_attempt_alone:
  assumes "not_pending i db" and "none_held i db"
  shows "update_attempt k (open_attempt_of i) (set_attempt_expired now) n db
    = Inr (db \<lparr> attempts := sql_update (\<lambda>a. pa_id a = k \<and> open_attempt_of i a) (set_attempt_expired now) (attempts db) \<rparr>,
        if sql_exists (\<lambda>a. pa_id a = k \<and> open_attempt_of i a) (attempts db) then 1 else 0)"
proof (cases "sql_first (\<lambda>a. pa_id a = k \<and> open_attempt_of i a) (attempts db)")
  case None
  then have "\<forall>a\<in>set (attempts db). \<not> (pa_id a = k \<and> open_attempt_of i a)" by (simp add: sql_first_None)
  with None show ?thesis by (simp add: update_attempt_def sql_update_none sql_exists_def list_ex_iff)
next
  case (Some a)
  let ?d = "db \<lparr> attempts := sql_update (\<lambda>a. pa_id a = k \<and> open_attempt_of i a) (set_attempt_expired now) (attempts db) \<rparr>"
  from sql_first_Some [OF Some] have a: "a \<in> set (attempts db)" "pa_id a = k" "open_attempt_of i a" by auto
  have "sql_first (\<lambda>h. h_order h = i \<and> h_state h = Held) (holds ?d) = None"
    using assms(2) by (simp add: none_held_def sql_first_None sql_exists_def list_ex_iff)
  then have "settle_hold i Released now ?d = Inr ?d" by (simp add: settle_hold_def)
  moreover have "sql_first (\<lambda>x. o_id x = i \<and> o_status x = Pending_Payment \<and> Q) (shop_orders ?d) = None" for Q
    using assms(1) by (auto simp: not_pending_def sql_first_None)
  then have "update_order i (\<lambda>db x. o_status x = Pending_Payment \<and> R db) g m ?d = Inr (?d, 0)" for R g m
    by (simp add: update_order_def)
  ultimately have "attempt_failed_release a (set_attempt_expired now a) ?d = Inr ?d"
    using a(3) by (simp add: attempt_failed_release_def set_attempt_expired_def open_attempt_of_def)
  with Some a show ?thesis by (auto simp: update_attempt_def sql_exists_def list_ex_iff)
qed

lemma sql_update_either:
  "(\<And>r. P r \<Longrightarrow> \<not> Q (f r)) \<Longrightarrow> sql_update Q f (sql_update P f t) = sql_update (\<lambda>r. P r \<or> Q r) f t"
  by (auto simp: sql_update_def)

lemma expired_not_open: "\<not> open_attempt_of i (set_attempt_expired now a)"
  by (simp add: open_attempt_of_def set_attempt_expired_def)

lemma expire_each_effect:
  assumes "not_pending i db" and "none_held i db"
  shows "expire_each i now as db
    = Inr (db \<lparr> attempts := sql_update (\<lambda>a. open_attempt_of i a \<and> pa_id a \<in> pa_id ` set as) (set_attempt_expired now) (attempts db) \<rparr>)"
  using assms
proof (induction "as" arbitrary: db)
  case Nil
  then show ?case by (simp add: sql_update_none)
next
  case (Cons a as)
  let ?d = "db \<lparr> attempts := sql_update (\<lambda>b. pa_id b = pa_id a \<and> open_attempt_of i b) (set_attempt_expired now) (attempts db) \<rparr>"
  have k: "not_pending i ?d" "none_held i ?d" using Cons.prems by (simp_all add: not_pending_def none_held_def)
  have "(\<lambda>b. (pa_id b = pa_id a \<and> open_attempt_of i b) \<or> (open_attempt_of i b \<and> pa_id b \<in> pa_id ` set as))
      = (\<lambda>b. open_attempt_of i b \<and> pa_id b \<in> pa_id ` set (a # as))" by auto
  with sql_update_either [of "\<lambda>b. pa_id b = pa_id a \<and> open_attempt_of i b"
      "\<lambda>b. open_attempt_of i b \<and> pa_id b \<in> pa_id ` set as" "set_attempt_expired now"]
  have "sql_update (\<lambda>b. open_attempt_of i b \<and> pa_id b \<in> pa_id ` set as) (set_attempt_expired now)
      (sql_update (\<lambda>b. pa_id b = pa_id a \<and> open_attempt_of i b) (set_attempt_expired now) t)
    = sql_update (\<lambda>b. open_attempt_of i b \<and> pa_id b \<in> pa_id ` set (a # as)) (set_attempt_expired now) t" for t
    by (simp add: expired_not_open)
  then show ?case
    by (simp add: Cons.IH [OF k] expire_attempt_alone [OF Cons.prems])
qed

lemma expire_attempts_effect:
  assumes "order_is i Expired v db" and "not_pending i db" and "none_held i db"
  shows "\<exists>c. expire_attempts i v now n db
    = Inr (db \<lparr> attempts := sql_update (open_attempt_of i) (set_attempt_expired now) (attempts db) \<rparr>, c)"
proof -
  have "sql_update (\<lambda>a. open_attempt_of i a \<and> pa_id a \<in> pa_id ` set (filter (open_attempt_of i) t)) (set_attempt_expired now) t
      = sql_update (open_attempt_of i) (set_attempt_expired now) t" for t
    by (auto simp: sql_update_def)
  with assms show ?thesis by (simp add: expire_attempts_def Let_def expire_each_effect)
qed

section \<open>The batch\<close>

lemma expiry_steps:
  assumes "run_batch (expiry_statements now i v) db = Inr (db', cs)"
  obtains d1 c1 d2 c2 d3 c3 d4 c4 d5 c5 c6 where
    "update_order i (\<lambda>_ x. due_order now x \<and> o_version x = v) (set_expired now) 0 db = Inr (d1, c1)"
    "give_back_use i (Suc v) c1 d1 = Inr (d2, c2)" "release_redemption i (Suc v) c2 d2 = Inr (d3, c3)"
    "expire_attempts i (Suc v) now c3 d3 = Inr (d4, c4)"
    "event_unless_taken (order_is i Expired (Suc v)) (expired_event i (Suc v)) c4 d4 = Inr (d5, c5)"
    "release_sale i c5 d5 = Inr (db', c6)" "cs ! 0 = c1"
proof -
  from assms obtain d1 c1 d2 c2 d3 c3 d4 c4 d5 c5 d6 c6 cs' where
    s: "update_order i (\<lambda>_ x. due_order now x \<and> o_version x = v) (set_expired now) 0 db = Inr (d1, c1)"
    "give_back_use i (Suc v) c1 d1 = Inr (d2, c2)" "release_redemption i (Suc v) c2 d2 = Inr (d3, c3)"
    "expire_attempts i (Suc v) now c3 d3 = Inr (d4, c4)"
    "event_unless_taken (order_is i Expired (Suc v)) (expired_event i (Suc v)) c4 d4 = Inr (d5, c5)"
    "release_sale i c5 d5 = Inr (d6, c6)" "batch_from c6 [] d6 = Inr (db', cs')" "cs ! 0 = c1"
    unfolding run_batch_def expiry_statements_def Let_def
    by (elim batch_ConsE) (rule that, assumption+, simp)
  from s(7) have "d6 = db'" by simp
  with s show thesis by (intro that) auto
qed

lemma set_expired_sel [simp]:
  "o_id (set_expired now x) = o_id x" "o_status (set_expired now x) = Expired" "o_version (set_expired now x) = Suc (o_version x)"
  by (simp_all add: set_expired_def)

lemma give_back_Inr: "give_back_use i v n db = Inr (db', c) \<Longrightarrow> \<exists>u. db' = db \<lparr> coupon_uses := u \<rparr> \<and> (\<not> order_is i Expired v db \<longrightarrow> u = coupon_uses db)"
  by (auto simp: give_back_use_def Let_def sql_update_none)

lemma release_redemption_Inr: "release_redemption i v n db = Inr (db', c) \<Longrightarrow>
    db' = db \<lparr> redemptions := sql_update (\<lambda>r. cr_order r = i \<and> cr_status r = Redemption_Reserved \<and> order_is i Expired v db)
      (\<lambda>r. r \<lparr> cr_status := Redemption_Released \<rparr>) (redemptions db) \<rparr>"
  by (auto simp: release_redemption_def Let_def)

lemma event_unless_Inr: "event_unless_taken p e n db = Inr (db', c) \<Longrightarrow>
    \<exists>es. db' = db \<lparr> order_events := order_events db @ es \<rparr> \<and> (\<not> p db \<longrightarrow> es = [])
      \<and> (p db \<longrightarrow> sql_exists (\<lambda>q. oe_order q = oe_order e \<and> oe_version q = oe_version e) (order_events db'))"
proof (cases "sql_exists (\<lambda>q. oe_order q = oe_order e \<and> oe_version q = oe_version e) (order_events db)")
  case False
  assume "event_unless_taken p e n db = Inr (db', c)"
  with False have "event_when p e n db = Inr (db', c)" by (simp add: event_unless_taken_def)
  from event_when_Inr [OF this] show ?thesis
    by (intro exI [of _ "if p db then [e] else []"]) (simp add: sql_exists_def)
qed (auto simp: event_unless_taken_def intro: exI [of _ "[]"])

text \<open>An order that was settled or closed since it was read keeps what it has, stock of a dead order apart.\<close>

lemma missed_batch:
  assumes "run_batch (expiry_statements now i v) db = Inr (db', cs)"
    and "\<not> sql_exists (\<lambda>x. o_id x = i \<and> due_order now x \<and> o_version x = v) (shop_orders db)"
    and "\<not> order_is i Expired (Suc v) db"
  shows "db' = db \<lparr> stock := stock db' \<rparr>" and "cs ! 0 = 0"
proof -
  obtain d1 c1 d2 c2 d3 c3 d4 c4 d5 c5 c6 where
    s: "update_order i (\<lambda>_ x. due_order now x \<and> o_version x = v) (set_expired now) 0 db = Inr (d1, c1)"
    "give_back_use i (Suc v) c1 d1 = Inr (d2, c2)" "release_redemption i (Suc v) c2 d2 = Inr (d3, c3)"
    "expire_attempts i (Suc v) now c3 d3 = Inr (d4, c4)"
    "event_unless_taken (order_is i Expired (Suc v)) (expired_event i (Suc v)) c4 d4 = Inr (d5, c5)"
    "release_sale i c5 d5 = Inr (db', c6)" "cs ! 0 = c1"
    by (rule expiry_steps [OF assms(1)]) (rule that)
  have d1: "d1 = db" "c1 = 0" using s(1) assms(2)
    by (auto simp: update_order_def sql_exists_def list_ex_iff split: option.splits dest: sql_first_Some)
  have d2: "d2 = db" using give_back_Inr [OF s(2)] assms(3) by (auto simp: d1)
  have d3: "d3 = db" using release_redemption_Inr [OF s(3)] assms(3) by (simp add: d2 sql_update_none)
  have d4: "d4 = db" using s(4) assms(3) by (simp add: expire_attempts_def d3)
  have "d5 = db" using event_unless_Inr [OF s(5)] assms(3) by (auto simp: d4)
  with release_sale_Inr [OF s(6)] show "db' = db \<lparr> stock := stock db' \<rparr>" by auto
  show "cs ! 0 = 0" using s(7) d1(2) by simp
qed

section \<open>What an expiry leaves to the other orders\<close>

lemma ledger_redemptions:
  "post_cash d uid a src sid key now db = Inr db' \<Longrightarrow> redemptions db' = redemptions db"
  "shift_user uid c r k now db = Inr db' \<Longrightarrow> redemptions db' = redemptions db"
  "post_reward uid delta kind sid key db = Inr db' \<Longrightarrow> redemptions db' = redemptions db"
  by (auto simp: post_cash_def insert_wallet_entry_def shift_user_def post_reward_def insert_reward_entry_def
      split: option.splits if_splits)

lemma hold_release_redemptions: "hold_release h db = Inr db' \<Longrightarrow> redemptions db' = redemptions db"
  unfolding hold_release_def and_then_Inr by (auto dest!: ledger_redemptions split: if_splits)

text \<open>A hold is only ever let go.\<close>

definition fewer_held :: "db \<Rightarrow> db \<Rightarrow> bool" where
  "fewer_held db db' \<longleftrightarrow> map h_order (holds db') = map h_order (holds db)
     \<and> (\<forall>h\<in>set (holds db'). h_state h = Held \<longrightarrow> h \<in> set (holds db))"

lemma settle_hold_fewer:
  assumes "settle_hold i st now db = Inr db'" and "st \<noteq> Held"
  shows "fewer_held db db'" and "redemptions db' = redemptions db"
proof (atomize (full), cases "sql_first (\<lambda>h. h_order h = i \<and> h_state h = Held) (holds db)")
  case None
  with assms(1) show "fewer_held db db' \<and> redemptions db' = redemptions db" by (simp add: settle_hold_def fewer_held_def)
next
  case (Some h)
  let ?h = "h \<lparr> h_state := st, h_updated_at := now \<rparr>"
  let ?d = "db \<lparr> holds := sql_update (\<lambda>r. r = h) (\<lambda>_. ?h) (holds db) \<rparr>"
  have "map h_order (sql_update (\<lambda>r. r = h) (\<lambda>_. ?h) t) = map h_order t" for t by (induction t) auto
  moreover have "g \<in> set t" if "g \<in> set (sql_update (\<lambda>r. r = h) (\<lambda>_. ?h) t)" "h_state g = Held" for g t
    using that assms(2) by (induction t) (auto split: if_splits)
  ultimately have d: "fewer_held db ?d" by (simp add: fewer_held_def)
  from assms(1) Some have "db' = ?d \<or> hold_release ?h ?d = Inr db'" by (auto simp: settle_hold_def Let_def split: if_splits)
  then show "fewer_held db db' \<and> redemptions db' = redemptions db"
    using d hold_release_frame hold_release_redemptions by (fastforce simp: fewer_held_def)
qed

definition fewer_reserved :: "db \<Rightarrow> db \<Rightarrow> bool" where
  "fewer_reserved db db' \<longleftrightarrow> (\<forall>r\<in>set (redemptions db'). cr_status r = Redemption_Reserved \<longrightarrow> r \<in> set (redemptions db))"

lemma fewer_reserved_update:
  "redemptions db' = sql_update P (\<lambda>r. r \<lparr> cr_status := Redemption_Released \<rparr>) (redemptions db) \<Longrightarrow> fewer_reserved db db'"
  by (auto simp: fewer_reserved_def sql_update_def)

lemma update_order_fewer:
  assumes "update_order i P f n db = Inr (db', c)"
  shows "fewer_held db db'" and "fewer_reserved db db'"
proof (atomize (full), cases "sql_first (\<lambda>x. o_id x = i \<and> P db x) (shop_orders db)")
  case None
  with assms show "fewer_held db db' \<and> fewer_reserved db db'" by (simp add: update_order_def fewer_held_def fewer_reserved_def)
next
  case (Some old)
  let ?d = "db \<lparr> shop_orders := sql_update (\<lambda>x. o_id x = i \<and> P db x) f (shop_orders db) \<rparr>"
  from assms Some obtain d where d: "order_lifecycle (f old) ?d = Inr d" "db' = coupon_release old (f old) d"
    by (auto simp: update_order_def Let_def and_then_Inr)
  from d(1) obtain e g where e: "lifecycle_hold (f old) ?d = Inr e" "lifecycle_reward (f old) e = Inr g" "d = lifecycle_schedule (f old) g"
    unfolding order_lifecycle_def and_then_Inr by auto
  have h: "fewer_held ?d e" "redemptions e = redemptions db"
    using e(1) settle_hold_fewer by (fastforce simp: lifecycle_hold_def fewer_held_def split: if_splits)+
  have "redemptions g = redemptions e" "holds g = holds e"
    using e(2) lifecycle_reward_frame [OF e(2)] by (auto simp: lifecycle_reward_def split: if_splits option.splits)
  then have d': "redemptions d = redemptions db" "holds d = holds e" using h(2) by (simp_all add: e(3) lifecycle_schedule_def)
  have "holds db' = holds d" by (simp add: d(2) coupon_release_def Let_def)
  with h(1) d'(2) have "fewer_held db db'" by (simp add: fewer_held_def)
  moreover have "fewer_reserved d db'"
    unfolding d(2) coupon_release_def Let_def by (auto simp: fewer_reserved_def sql_update_def)
  then have "fewer_reserved db db'" by (simp add: fewer_reserved_def d'(1))
  ultimately show "fewer_held db db' \<and> fewer_reserved db db'" by simp
qed

lemma release_sale_reserved:
  "release_sale i n db = Inr (db', c) \<Longrightarrow> s \<in> set (stock db') \<Longrightarrow> st_status s = Stock_Reserved \<Longrightarrow> s \<in> set (stock db)"
  by (auto simp: release_sale_def Let_def sql_update_def split: if_splits)

text \<open>The statements after a hit, as one update of the database the first of them left.\<close>

lemma expired_shape:
  assumes "run_batch (expiry_statements now i v) db = Inr (db', cs)" and "0 < cs ! 0"
    and "distinct (map o_id (shop_orders db))" and "distinct (map h_order (holds db))"
  obtains d1 cu es st n c k where
    "update_order i (\<lambda>_ x. due_order now x \<and> o_version x = v) (set_expired now) 0 db = Inr (d1, Suc k)"
    "db' = d1 \<lparr> coupon_uses := cu,
       redemptions := sql_update (\<lambda>r. cr_order r = i \<and> cr_status r = Redemption_Reserved) (\<lambda>r. r \<lparr> cr_status := Redemption_Released \<rparr>) (redemptions d1),
       attempts := sql_update (open_attempt_of i) (set_attempt_expired now) (attempts d1),
       order_events := order_events d1 @ es, stock := st \<rparr>"
    "sql_exists (\<lambda>x. o_id x = i \<and> due_order now x \<and> o_version x = v) (shop_orders db)"
    "order_is i Expired (Suc v) d1" "none_held i d1"
    "sql_exists (\<lambda>q. oe_order q = i \<and> oe_version q = Some (Suc v)) (order_events db')"
    "release_sale i n (db' \<lparr> stock := stock d1 \<rparr>) = Inr (db', c)"
proof -
  obtain d1 c1 d2 c2 d3 c3 d4 c4 d5 c5 c6 where
    s: "update_order i (\<lambda>_ x. due_order now x \<and> o_version x = v) (set_expired now) 0 db = Inr (d1, c1)"
    "give_back_use i (Suc v) c1 d1 = Inr (d2, c2)" "release_redemption i (Suc v) c2 d2 = Inr (d3, c3)"
    "expire_attempts i (Suc v) now c3 d3 = Inr (d4, c4)"
    "event_unless_taken (order_is i Expired (Suc v)) (expired_event i (Suc v)) c4 d4 = Inr (d5, c5)"
    "release_sale i c5 d5 = Inr (db', c6)" "cs ! 0 = c1"
    by (rule expiry_steps [OF assms(1)]) (rule that)
  note u = update_order_Inr [OF s(1)]
  from assms(2) s(7) u(3) have e: "sql_exists (\<lambda>x. o_id x = i \<and> due_order now x \<and> o_version x = v) (shop_orders db)"
    by (auto split: if_splits)
  obtain k where k: "c1 = Suc k" using assms(2) s(7) by (cases c1) auto
  from e obtain x where x: "x \<in> set (shop_orders db)" "o_id x = i" "due_order now x" "o_version x = v"
    by (auto simp: sql_exists_def list_ex_iff)
  have uniq: "y = x" if "y \<in> set (shop_orders db)" "o_id y = i" for y
    using assms(3) that x(1,2) by (metis keyed_first option.inject)
  have o1: "order_is i Expired (Suc v) d1"
    unfolding order_is_def u(1) using x by (auto intro!: sql_exists_hit [of x])
  have n1: "not_pending i d1"
    unfolding not_pending_def
  proof (intro ballI impI)
    fix y assume "y \<in> set (shop_orders d1)" "o_id y = i"
    then obtain z where z: "z \<in> set (shop_orders db)"
      and y: "y = (if o_id z = i \<and> due_order now z \<and> o_version z = v then set_expired now z else z)" and "o_id y = i"
      unfolding u(1) sql_update_def set_map by blast
    then have "o_id z = i" by (simp split: if_splits)
    from uniq [OF z this] have "z = x" .
    with y x show "o_status y \<noteq> Pending_Payment" by simp
  qed
  have h1: "none_held i d1" by (rule order_dies_none_held [OF s(1) [unfolded k] assms(4)]) simp
  obtain cu where d2: "d2 = d1 \<lparr> coupon_uses := cu \<rparr>" using give_back_Inr [OF s(2)] by blast
  note d3 = release_redemption_Inr [OF s(3)]
  have q3: "order_is i Expired (Suc v) d3" "not_pending i d3" "none_held i d3"
    using o1 n1 h1 by (simp_all add: order_is_def not_pending_def none_held_def d3 d2)
  from expire_attempts_effect [OF q3, of now c3] s(4)
  have d4: "d4 = d3 \<lparr> attempts := sql_update (open_attempt_of i) (set_attempt_expired now) (attempts d3) \<rparr>" by auto
  have q4: "order_is i Expired (Suc v) d4" using q3(1) by (simp add: order_is_def d4)
  obtain es where d5: "d5 = d4 \<lparr> order_events := order_events d4 @ es \<rparr>"
    and "sql_exists (\<lambda>q. oe_order q = oe_order (expired_event i (Suc v)) \<and> oe_version q = oe_version (expired_event i (Suc v))) (order_events d5)"
    using event_unless_Inr [OF s(5)] q4 by blast
  then have ev: "sql_exists (\<lambda>q. oe_order q = i \<and> oe_version q = Some (Suc v)) (order_events d5)" by (simp add: expired_event_def)
  obtain st where d6: "db' = d5 \<lparr> stock := st \<rparr>" using release_sale_Inr [OF s(6)] by blast
  have "order_is i Expired (Suc v) d2" using o1 by (simp add: order_is_def d2)
  then have sh: "db' = d1 \<lparr> coupon_uses := cu,
       redemptions := sql_update (\<lambda>r. cr_order r = i \<and> cr_status r = Redemption_Reserved) (\<lambda>r. r \<lparr> cr_status := Redemption_Released \<rparr>) (redemptions d1),
       attempts := sql_update (open_attempt_of i) (set_attempt_expired now) (attempts d1),
       order_events := order_events d1 @ es, stock := st \<rparr>"
    unfolding d6 d5 d4 d3 by (simp add: d2)
  have "d5 = db' \<lparr> stock := stock d1 \<rparr>" by (simp add: d6 d5 d4 d3 d2)
  with s(6) have rl: "release_sale i c5 (db' \<lparr> stock := stock d1 \<rparr>) = Inr (db', c6)" by simp
  have ev': "sql_exists (\<lambda>q. oe_order q = i \<and> oe_version q = Some (Suc v)) (order_events db')" using ev by (simp add: d6)
  show thesis by (rule that [OF s(1) [unfolded k] sh e o1 h1 ev' rl])
qed

text \<open>An expired order holds nothing any more.\<close>

definition let_go :: "string \<Rightarrow> nat \<Rightarrow> db \<Rightarrow> bool" where
  "let_go i v db \<longleftrightarrow> order_is i Expired v db \<and> none_held i db \<and> (\<forall>a\<in>set (attempts db). \<not> open_attempt_of i a)
     \<and> (\<forall>r\<in>set (redemptions db). cr_order r = i \<longrightarrow> cr_status r \<noteq> Redemption_Reserved)
     \<and> (\<forall>s\<in>set (stock db). \<forall>k\<in>set (order_item_ids db i). st_order_item s = Some k \<longrightarrow> st_status s \<noteq> Stock_Reserved)
     \<and> sql_exists (\<lambda>q. oe_order q = i \<and> oe_version q = Some v) (order_events db)"

lemma expired_batch:
  assumes "run_batch (expiry_statements now i v) db = Inr (db', cs)" and "0 < cs ! 0"
    and "distinct (map o_id (shop_orders db))" and "distinct (map h_order (holds db))"
  shows "let_go i (Suc v) db'"
    and "shop_orders db' = sql_update (\<lambda>x. o_id x = i \<and> due_order now x \<and> o_version x = v) (set_expired now) (shop_orders db)"
    and "sql_exists (\<lambda>x. o_id x = i \<and> due_order now x \<and> o_version x = v) (shop_orders db)"
    and "map h_order (holds db') = map h_order (holds db)"
    and "j \<noteq> i \<Longrightarrow> let_go j w db \<Longrightarrow> let_go j w db'"
proof -
  obtain d1 cu es st n c k where
    u: "update_order i (\<lambda>_ x. due_order now x \<and> o_version x = v) (set_expired now) 0 db = Inr (d1, Suc k)" and
    db': "db' = d1 \<lparr> coupon_uses := cu,
       redemptions := sql_update (\<lambda>r. cr_order r = i \<and> cr_status r = Redemption_Reserved) (\<lambda>r. r \<lparr> cr_status := Redemption_Released \<rparr>) (redemptions d1),
       attempts := sql_update (open_attempt_of i) (set_attempt_expired now) (attempts d1),
       order_events := order_events d1 @ es, stock := st \<rparr>"
    and e: "sql_exists (\<lambda>x. o_id x = i \<and> due_order now x \<and> o_version x = v) (shop_orders db)"
    and o: "order_is i Expired (Suc v) d1" "none_held i d1"
    and ev: "sql_exists (\<lambda>q. oe_order q = i \<and> oe_version q = Some (Suc v)) (order_events db')"
    and r: "release_sale i n (db' \<lparr> stock := stock d1 \<rparr>) = Inr (db', c)"
    by (rule expired_shape [OF assms]) (rule that)
  note u' = update_order_Inr [OF u] update_order_fewer [OF u]
  show e': "sql_exists (\<lambda>x. o_id x = i \<and> due_order now x \<and> o_version x = v) (shop_orders db)" by (rule e)
  show so: "shop_orders db' = sql_update (\<lambda>x. o_id x = i \<and> due_order now x \<and> o_version x = v) (set_expired now) (shop_orders db)"
    by (simp add: db' u'(1))
  show "map h_order (holds db') = map h_order (holds db)" using u'(4) by (simp add: fewer_held_def db')
  have oe: "order_is i Expired (Suc v) db'" "none_held i db'" using o by (simp_all add: order_is_def none_held_def db')
  have at: "attempts db' = sql_update (open_attempt_of i) (set_attempt_expired now) (attempts db)"
    and rest: "order_items db' = order_items db" "stock d1 = stock db" "order_events d1 = order_events db"
    using u'(2) by (simp_all add: db' same_rest_def)
  have rd: "redemptions db' = sql_update (\<lambda>r. cr_order r = i \<and> cr_status r = Redemption_Reserved)
      (\<lambda>r. r \<lparr> cr_status := Redemption_Released \<rparr>) (redemptions d1)" by (simp add: db')
  have "\<forall>a\<in>set (attempts db'). \<not> open_attempt_of i a"
    unfolding at by (rule sql_update_post) (simp_all add: expired_not_open)
  moreover have "\<forall>r\<in>set (redemptions db'). cr_order r = i \<longrightarrow> cr_status r \<noteq> Redemption_Reserved"
    unfolding rd by (rule sql_update_post) simp_all
  moreover have "sql_exists (\<lambda>x. o_id x = i \<and> o_status x \<in> {Cancelled, Expired, Order_Failed, Refunded}) (shop_orders (db' \<lparr> stock := stock d1 \<rparr>))"
    using oe(1) by (auto simp: order_is_def sql_exists_def list_ex_iff)
  note free = release_sale_frees [OF r _ _ _ this]
  have "order_item_ids (db' \<lparr> stock := stock d1 \<rparr>) i = order_item_ids db' i" by (simp add: order_item_ids_def)
  then have "\<forall>s\<in>set (stock db'). \<forall>k\<in>set (order_item_ids db' i). st_order_item s = Some k \<longrightarrow> st_status s \<noteq> Stock_Reserved"
    by (intro ballI impI free) simp_all
  ultimately show "let_go i (Suc v) db'" using oe ev by (simp add: let_go_def)
  show "let_go j w db'" if j: "j \<noteq> i" and l: "let_go j w db"
  proof -
    from l obtain y where "y \<in> set (shop_orders db)" "o_id y = j" "o_status y = Expired" "o_version y = w"
      by (auto simp: let_go_def order_is_def sql_exists_def list_ex_iff)
    with j have "y \<in> set (shop_orders db')" by (auto simp: so sql_update_def image_iff intro!: bexI [of _ y])
    then have "order_is j Expired w db'" using \<open>o_id y = j\<close> \<open>o_status y = Expired\<close> \<open>o_version y = w\<close>
      by (auto simp: order_is_def sql_exists_def list_ex_iff)
    moreover have "none_held j db'"
      using l u'(4) by (auto simp: let_go_def none_held_def fewer_held_def sql_exists_def list_ex_iff db')
    moreover have "\<forall>a\<in>set (attempts db'). \<not> open_attempt_of j a"
    proof
      fix a assume "a \<in> set (attempts db')"
      then obtain b where "b \<in> set (attempts db)" "a = (if open_attempt_of i b then set_attempt_expired now b else b)"
        unfolding at sql_update_def set_map by blast
      with l expired_not_open show "\<not> open_attempt_of j a" by (auto simp: let_go_def split: if_splits)
    qed
    moreover have "\<forall>r\<in>set (redemptions db'). cr_order r = j \<longrightarrow> cr_status r \<noteq> Redemption_Reserved"
    proof (intro ballI impI notI)
      fix q assume q: "q \<in> set (redemptions db')" "cr_order q = j" "cr_status q = Redemption_Reserved"
      from fewer_reserved_update [OF rd] q have "q \<in> set (redemptions d1)" by (simp add: fewer_reserved_def)
      with u'(5) q(3) have "q \<in> set (redemptions db)" by (simp add: fewer_reserved_def)
      with l q show False by (simp add: let_go_def)
    qed
    moreover have "\<forall>s\<in>set (stock db'). \<forall>k\<in>set (order_item_ids db' j). st_order_item s = Some k \<longrightarrow> st_status s \<noteq> Stock_Reserved"
    proof (intro ballI impI notI)
      fix s k assume s: "s \<in> set (stock db')" "k \<in> set (order_item_ids db' j)" "st_order_item s = Some k" "st_status s = Stock_Reserved"
      from release_sale_reserved [OF r s(1,4)] have "s \<in> set (stock d1)" by simp
      with l s show False by (auto simp: let_go_def rest order_item_ids_def)
    qed
    moreover have "sql_exists (\<lambda>q. oe_order q = j \<and> oe_version q = Some w) (order_events db')"
      using l by (simp add: let_go_def sql_exists_def rest db')
    ultimately show ?thesis by (simp add: let_go_def)
  qed
qed

section \<open>A pass without other requests\<close>

definition read_due :: "int \<Rightarrow> string \<times> nat \<Rightarrow> db \<Rightarrow> bool" where
  "read_due now p db \<longleftrightarrow> sql_exists (\<lambda>x. o_id x = fst p \<and> due_order now x \<and> o_version x = snd p) (shop_orders db)"

lemma set_expired_not_due: "\<not> due_order now (set_expired now' x)"
  by (simp add: due_order_def)

lemma read_due_other:
  assumes "read_due now p db" and "fst p \<noteq> i"
    and "shop_orders d = sql_update (\<lambda>x. o_id x = i \<and> Q x) f (shop_orders db)"
  shows "read_due now p d"
proof -
  from assms(1) obtain x where "x \<in> set (shop_orders db)" "o_id x = fst p" "due_order now x" "o_version x = snd p"
    by (auto simp: read_due_def sql_exists_def list_ex_iff)
  with assms(2,3) show ?thesis by (auto simp: read_due_def sql_exists_def list_ex_iff sql_update_def intro!: bexI [of _ x])
qed

lemma expire_loop_all:
  assumes "expire_loop (\<lambda>_ d. d) now os n db = (Inr m, db')" and "distinct (map fst os)"
    and "\<forall>p\<in>set os. read_due now p db"
    and "distinct (map o_id (shop_orders db))" and "distinct (map h_order (holds db))"
  shows "m = n + length os \<and> (\<forall>p\<in>set os. let_go (fst p) (Suc (snd p)) db')
    \<and> (\<forall>i v. i \<notin> fst ` set os \<longrightarrow> let_go i v db \<longrightarrow> let_go i v db')
    \<and> shop_orders db' = sql_update (\<lambda>x. due_order now x \<and> (o_id x, o_version x) \<in> set os) (set_expired now) (shop_orders db)"
  using assms
proof (induction os arbitrary: n db)
  case Nil
  then show ?case by (simp add: sql_update_none)
next
  case (Cons p os)
  obtain i v where p: "p = (i, v)" by fastforce
  from Cons.prems(1) obtain d cs where b: "run_batch (expiry_statements now i v) db = Inr (d, cs)"
    and r: "expire_loop (\<lambda>_ d. d) now os (n + (if cs ! 0 > 0 then 1 else 0)) d = (Inr m, db')"
    by (auto simp: p split: sum.splits prod.splits)
  have "0 < cs ! 0"
  proof -
    obtain d1 c1 where "update_order i (\<lambda>_ x. due_order now x \<and> o_version x = v) (set_expired now) 0 db = Inr (d1, c1)" "cs ! 0 = c1"
      by (rule expiry_steps [OF b]) (rule that)
    with update_order_Inr(3) Cons.prems(3) show ?thesis by (fastforce simp: read_due_def p)
  qed
  note e = expired_batch [OF b this Cons.prems(4,5)]
  have d: "distinct (map o_id (shop_orders d))" "distinct (map h_order (holds d))"
    using Cons.prems(4,5) sql_update_cong_key [of o_id "set_expired now"] by (simp_all add: e(2,4))
  have i: "i \<notin> fst ` set os" "distinct (map fst os)" using Cons.prems(2) by (simp_all add: p)
  have "\<forall>p\<in>set os. read_due now p d"
  proof
    fix q assume "q \<in> set os"
    with Cons.prems(3) i(1) have "read_due now q db" "fst q \<noteq> i" by auto
    then show "read_due now q d" using e(2) by (rule read_due_other)
  qed
  from Cons.IH [OF r i(2) this d] \<open>0 < cs ! 0\<close>
  have ih: "m = n + length (p # os)" "\<forall>p\<in>set os. let_go (fst p) (Suc (snd p)) db'"
    "\<forall>i v. i \<notin> fst ` set os \<longrightarrow> let_go i v d \<longrightarrow> let_go i v db'"
    "shop_orders db' = sql_update (\<lambda>x. due_order now x \<and> (o_id x, o_version x) \<in> set os) (set_expired now) (shop_orders d)" by simp_all
  have "(\<lambda>x. (o_id x = i \<and> due_order now x \<and> o_version x = v) \<or> (due_order now x \<and> (o_id x, o_version x) \<in> set os))
      = (\<lambda>x. due_order now x \<and> (o_id x, o_version x) \<in> set (p # os))" by (auto simp: p)
  then have "shop_orders db' = sql_update (\<lambda>x. due_order now x \<and> (o_id x, o_version x) \<in> set (p # os)) (set_expired now) (shop_orders db)"
    using sql_update_either [of "\<lambda>x. o_id x = i \<and> due_order now x \<and> o_version x = v"
        "\<lambda>x. due_order now x \<and> (o_id x, o_version x) \<in> set os" "set_expired now" "shop_orders db"]
    by (simp add: ih(4) e(2) set_expired_not_due)
  moreover have "let_go i (Suc v) db'" using ih(3) i(1) e(1) by blast
  moreover have "let_go j w db'" if "j \<notin> fst ` set (p # os)" "let_go j w db" for j w
    using that ih(3) e(5) [of j w] by (simp add: p)
  ultimately show ?case using ih(1,2) by (simp add: p)
qed

definition due_count :: "int \<Rightarrow> db \<Rightarrow> nat" where
  "due_count now db = sql_changes (due_order now) (shop_orders db)"

lemma due_orders_read:
  assumes "distinct (map o_id (shop_orders db))"
  shows "distinct (map fst (due_orders now limit db))" and "\<forall>p\<in>set (due_orders now limit db). read_due now p db"
    and "length (due_orders now limit db) = min limit (due_count now db)"
proof -
  let ?due = "sql_ordered (\<lambda>x. (o_expires_at x, o_id x)) (due_order now) (shop_orders db)"
  have m: "mset ?due = mset (filter (due_order now) (shop_orders db))" by (simp add: sql_ordered_def)
  have "mset (map o_id ?due) = mset (map o_id (filter (due_order now) (shop_orders db)))" by (simp only: mset_map m)
  moreover have "distinct (map o_id (filter (due_order now) (shop_orders db)))" by (rule distinct_map_filter [OF assms])
  ultimately have "distinct (map o_id ?due)" by (metis mset_eq_imp_distinct_iff)
  then show "distinct (map fst (due_orders now limit db))" by (simp add: due_orders_def comp_def flip: take_map)
  show "\<forall>p\<in>set (due_orders now limit db). read_due now p db"
    by (auto simp: due_orders_def read_due_def sql_exists_def list_ex_iff dest!: in_set_takeD)
  show "length (due_orders now limit db) = min limit (due_count now db)"
    by (simp add: due_orders_def due_count_def sql_changes_def sql_ordered_def min.commute)
qed

lemma distinct_pairs: "distinct (map f xs) \<Longrightarrow> distinct (map (\<lambda>x. (f x, g x)) xs)"
  by (induction xs) auto

lemma expire_pass:
  assumes "expire_store_orders (\<lambda>_ d. d) now limit db = (Inr (scanned, expired), db')"
    and "distinct (map o_id (shop_orders db))" and "distinct (map h_order (holds db))"
  shows "scanned = min (pass_limit limit) (due_count now db)" and "expired = scanned"
    and "\<forall>p\<in>set (due_orders now (pass_limit limit) db). let_go (fst p) (Suc (snd p)) db'"
    and "due_count now db' = due_count now db - scanned"
proof -
  let ?due = "due_orders now (pass_limit limit) db"
  note r = due_orders_read [OF assms(2), of now "pass_limit limit"]
  from assms(1) have l: "expire_loop (\<lambda>_ d. d) now ?due 0 db = (Inr expired, db')" and s: "scanned = length ?due"
    by (auto simp: expire_store_orders_def Let_def split: prod.splits sum.splits)
  note e = expire_loop_all [OF l r(1,2) assms(2,3)]
  show "scanned = min (pass_limit limit) (due_count now db)" using s r(3) by simp
  show ex: "expired = scanned" and "\<forall>p\<in>set ?due. let_go (fst p) (Suc (snd p)) db'" using e s by simp_all
  have o: "shop_orders db' = sql_update (\<lambda>x. due_order now x \<and> (o_id x, o_version x) \<in> set ?due) (set_expired now) (shop_orders db)"
    using e by simp
  have "sql_changes (due_order now) (sql_update (\<lambda>x. due_order now x \<and> P x) (set_expired now) t)
      + sql_changes (\<lambda>x. due_order now x \<and> P x) t = sql_changes (due_order now) t" for P t
    by (induction t) (auto simp: sql_changes_def set_expired_not_due)
  then have c: "due_count now db' + sql_changes (\<lambda>x. due_order now x \<and> (o_id x, o_version x) \<in> set ?due) (shop_orders db) = due_count now db"
    unfolding due_count_def o .
  have "sql_changes (\<lambda>x. due_order now x \<and> (o_id x, o_version x) \<in> set ?due) (shop_orders db) = length ?due"
  proof -
    let ?hit = "filter (\<lambda>x. due_order now x \<and> (o_id x, o_version x) \<in> set ?due) (shop_orders db)"
    let ?k = "\<lambda>x. (o_id x, o_version x)"
    have a: "set (map ?k ?hit) = set ?due"
    proof
      show "set ?due \<subseteq> set (map ?k ?hit)"
      proof
        fix p assume p: "p \<in> set ?due"
        with r(2) obtain x where "x \<in> set (shop_orders db)" "o_id x = fst p" "due_order now x" "o_version x = snd p"
          by (auto simp: read_due_def sql_exists_def list_ex_iff)
        with p show "p \<in> set (map ?k ?hit)" by (auto intro!: image_eqI [of _ _ x])
      qed
    qed auto
    have b: "distinct (map ?k ?hit)"
      by (rule distinct_pairs [OF distinct_map_filter [OF assms(2)]])
    have d: "distinct ?due" using r(1) by (simp add: distinct_map)
    have "length ?hit = length (map ?k ?hit)" by simp
    also have "\<dots> = card (set (map ?k ?hit))" by (rule distinct_card [OF b, symmetric])
    also have "\<dots> = length ?due" unfolding a by (rule distinct_card [OF d])
    finally show ?thesis by (simp only: sql_changes_def)
  qed
  with c s show "due_count now db' = due_count now db - scanned" by simp
qed

section \<open>Properties\<close>


text \<open>An order with a hold, reserved stock, an open payment attempt and a reserved coupon.\<close>

definition stale_sale :: db where
  "stale_sale = sample_sale \<lparr> attempts := [card_attempt Attempt_Pending],
     coupon_uses := [sample_coupon Standard],
     redemptions := [\<lparr> cr_id = ''r'', cr_coupon = ''cp'', cr_order = ''o'', cr_user = Some ''u'', cr_email = ''m'', cr_status = Redemption_Reserved \<rparr>] \<rparr>"


end
