(* ===== verification/Storefront.thy ===== *)
theory Storefront
  imports Fulfillment_Requests Rate_Limits
begin

text \<open>
  What a checkout reads before it takes an order (the helpers of
  \<^verbatim>\<open>src/features/storefront/server/multi-order.ts\<close>, with
  \<^verbatim>\<open>item-pricing.ts\<close> and \<^verbatim>\<open>assertPromotionOwner\<close> of
  \<^verbatim>\<open>promotions/server/coupons.ts\<close>): the plan a buyer asks for with its price,
  the availability of its stock, the limits of a customer, and the coupon he may use. The
  tables of the catalogue and the settings, which no handler of the development writes, are the
  record \<open>shelf\<close>; the tables orders are kept in are read from the database.
\<close>

section \<open>The shelf\<close>

record product_row =
  pd_id :: string
  pd_type :: component_type
  pd_active :: bool
  pd_sale_disabled :: bool
  pd_tags :: "string list"

record plan_row =
  pn_id :: string
  pn_product :: string
  pn_price :: int
  pn_budget :: string
  pn_currency :: string
  pn_decimals :: nat
  pn_sourcing :: sourcing
  pn_version :: nat
  pn_automated :: bool
  pn_active_definition :: "string option"
  pn_duration :: "int option"
  pn_usage_limit :: "int option"
  pn_access_limit :: "int option"
  pn_renewable :: bool
  pn_minimum :: int
  pn_maximum :: int
  pn_per_customer :: "int option"
  pn_enabled :: bool
  pn_sale_disabled :: bool

record channel_price_row =
  cp_item :: string
  cp_channel :: string
  cp_price :: int
  cp_enabled :: bool

record method_row =
  mt_item :: string
  mt_config :: nat
  mt_enabled :: bool

record definition_row =
  dv_id :: string
  dv_item :: string
  dv_version :: nat

record asset_row =
  da_id :: string
  da_product :: string
  da_enabled :: bool

record supplier_offer_row =
  sf_item :: string
  sf_provider :: string
  sf_origin :: string
  sf_protocol :: string
  sf_cost :: int
  sf_max_cost :: int
  sf_stock :: int
  sf_enabled :: bool
  sf_active :: bool
  sf_synced_at :: int

record supplier_account_row =
  sa_id :: string
  sa_provider :: string
  sa_origin :: string
  sa_protocol :: string
  sa_enabled :: bool
  sa_healthy :: bool
  sa_cooldown_until :: "int option"
  sa_balance :: "int option"
  sa_reserve :: int
  sa_max_order_cost :: "int option"

text \<open>
  The quote of a membership upgrade and the standing of a buyer with the agent service are
  answers of external services.
\<close>

record upgrade_quote =
  uq_id :: string
  uq_price :: int
  uq_open :: bool
  uq_expires_at :: int

datatype agent_kind = Subsite | Api

datatype agent_standing = Eligible | Already_Active | Unbound

text \<open>
  \<open>sh_sale_map\<close> is the setting \<^verbatim>\<open>integration.supply_console_map\<close>, parsed;
  \<open>sh_guests\<close>, \<open>sh_expiry_ms\<close> and \<open>sh_max_quantity\<close> are the settings of
  \<^verbatim>\<open>loadOrderPolicy\<close> when present. \<open>sh_bindings\<close> pairs assets with items,
  \<open>sh_subscriptions\<close> are the users with an active Claude environment and its end,
  \<open>sh_sign_ins\<close> the users with the addresses of their sessions. \<open>sh_inputs\<close> checks the
  values a buyer entered against the definition of the item's inputs
  (\<^verbatim>\<open>catalog/input-values.ts\<close>), \<open>sh_prefix_state\<close> the name of a sub-site.
\<close>

record shelf =
  sh_products :: "product_row list"
  sh_plans :: "plan_row list"
  sh_channel_prices :: "channel_price_row list"
  sh_volume_prices :: "(string \<times> volume_step) list"
  sh_customer_prices :: "(string \<times> string \<times> customer_step) list"
  sh_methods :: "method_row list"
  sh_definitions :: "definition_row list"
  sh_assets :: "asset_row list"
  sh_bindings :: "(string \<times> string) list"
  sh_supplier_offers :: "supplier_offer_row list"
  sh_supplier_accounts :: "supplier_account_row list"
  sh_unfunded :: "string list"
  sh_sale_map :: "(string \<times> string) list"
  sh_guests :: "bool option"
  sh_expiry_ms :: "int option"
  sh_max_quantity :: "int option"
  sh_subscriptions :: "(string \<times> int option) list"
  sh_sign_ins :: "(string \<times> string) list"
  sh_agent_enabled :: bool
  sh_agent_check :: "string \<Rightarrow> agent_kind \<Rightarrow> agent_standing result"
  sh_prefix_state :: "string \<Rightarrow> string result"
  sh_quote :: "string \<Rightarrow> upgrade_quote result"
  sh_inputs :: "string \<Rightarrow> string option \<Rightarrow> unit result"

section \<open>Plans\<close>

definition gpt_upgrade_item :: string where
  "gpt_upgrade_item = ''10000000-0000-4000-8000-000000000002''"

definition agent_access_kind :: "string \<Rightarrow> agent_kind option" where
  "agent_access_kind i =
     (if i = ''19900000-0000-4000-8000-000000000002'' then Some Subsite
      else if i = ''09900000-0000-4000-8000-000000000002'' then Some Api else None)"

fun agent_access_price :: "agent_kind \<Rightarrow> int" where
  "agent_access_price Subsite = 19900"
| "agent_access_price Api = 2000"

definition claude_traffic_skus :: "string list" where
  "claude_traffic_skus = [''c3675807-27e7-4442-a820-e4016b8c0e37'', ''f1ea0f36-274a-414c-aa36-c6ebad153d3b'',
     ''f69b64f7-36dd-49e2-a07f-9df5a63fb4d2'']"

text \<open>\<^verbatim>\<open>SellableItemContext\<close>\<close>

record sellable =
  sl_id :: string
  sl_product :: string
  sl_price :: int
  sl_base_price :: int
  sl_budget :: string
  sl_currency :: string
  sl_decimals :: nat
  sl_type :: component_type
  sl_sourcing :: sourcing
  sl_duration :: "int option"
  sl_usage_limit :: "int option"
  sl_access_limit :: "int option"
  sl_renewable :: bool
  sl_minimum :: int
  sl_maximum :: int
  sl_per_customer :: "int option"
  sl_definition :: "string option"
  sl_assets :: int

definition channel_open :: "db \<Rightarrow> string \<Rightarrow> bool" where
  "channel_open db i = sql_exists (\<lambda>c. pc_id c = i \<and> pc_enabled c) (channels db)"

definition channel_price :: "shelf \<Rightarrow> db \<Rightarrow> string option \<Rightarrow> plan_row \<Rightarrow> int" where
  "channel_price sh db channel p =
     (case sql_first (\<lambda>r. cp_item r = pn_id p \<and> Some (cp_channel r) = channel \<and> cp_enabled r
             \<and> channel_open db (cp_channel r)) (sh_channel_prices sh) of
        None \<Rightarrow> pn_price p
      | Some r \<Rightarrow> cp_price r)"

definition promotion_budget :: "plan_row \<Rightarrow> string" where
  "promotion_budget p = (if pn_budget p = ''800'' \<and> pn_price p < 100000 then ''0'' else pn_budget p)"

definition bound_assets :: "shelf \<Rightarrow> string \<Rightarrow> string \<Rightarrow> string list" where
  "bound_assets sh item product =
     map da_id (filter (\<lambda>a. da_product a = product \<and> da_enabled a \<and> (da_id a, item) \<in> set (sh_bindings sh)) (sh_assets sh))"

definition active_definition :: "shelf \<Rightarrow> plan_row \<Rightarrow> component_type \<Rightarrow> string option" where
  "active_definition sh p t =
     (if t = Automation_Component
      then (if pn_automated p \<and> sql_exists (\<lambda>m. mt_item m = pn_id p \<and> mt_config m = pn_version p \<and> mt_enabled m) (sh_methods sh)
            then pn_active_definition p else None)
      else map_option dv_id (sql_first_by (\<lambda>d. - int (dv_version d)) (\<lambda>d. dv_item d = pn_id p) (sh_definitions sh)))"

definition on_sale :: "shelf \<Rightarrow> string \<Rightarrow> (plan_row \<times> product_row) option" where
  "on_sale sh i =
     (case sql_first (\<lambda>p. pn_id p = i \<and> pn_enabled p \<and> \<not> pn_sale_disabled p) (sh_plans sh) of
        None \<Rightarrow> None
      | Some p \<Rightarrow>
          map_option (Pair p) (sql_first (\<lambda>d. pd_id d = pn_product p \<and> pd_active d \<and> \<not> pd_sale_disabled d) (sh_products sh)))"

definition sellable_of :: "shelf \<Rightarrow> db \<Rightarrow> string option \<Rightarrow> plan_row \<Rightarrow> product_row \<Rightarrow> sellable" where
  "sellable_of sh db channel p d =
     \<lparr> sl_id = pn_id p, sl_product = pd_id d, sl_price = channel_price sh db channel p, sl_base_price = pn_price p,
       sl_budget = promotion_budget p, sl_currency = pn_currency p, sl_decimals = pn_decimals p,
       sl_type = pd_type d, sl_sourcing = pn_sourcing p, sl_duration = pn_duration p,
       sl_usage_limit = pn_usage_limit p, sl_access_limit = pn_access_limit p, sl_renewable = pn_renewable p,
       sl_minimum = pn_minimum p, sl_maximum = pn_maximum p, sl_per_customer = pn_per_customer p,
       sl_definition = active_definition sh p (pd_type d),
       sl_assets = (if pd_type d = Download_Component then int (length (bound_assets sh (pn_id p) (pd_id d))) else -1) \<rparr>"

definition load_sellable_item :: "shelf \<Rightarrow> db \<Rightarrow> string \<Rightarrow> string option \<Rightarrow> sellable result" where
  "load_sellable_item sh db i channel =
     (case on_sale sh i of
        None \<Rightarrow> Inl (DomainError ''sellable_item_unavailable'' 404)
      | Some (p, d) \<Rightarrow>
          (let s = sellable_of sh db channel p d
           in if sl_type s = Automation_Component \<and> sl_definition s = None \<and> agent_access_kind i = None
                 \<and> i \<noteq> gpt_upgrade_item
              then Inl (DomainError ''automation_configuration_unavailable'' 409)
              else if sl_type s = Download_Component \<and> sl_assets s < 1
              then Inl (DomainError ''download_unavailable'' 409)
              else Inr s))"

text \<open>\<^verbatim>\<open>loadItemPricing\<close> and \<^verbatim>\<open>linePrice\<close>\<close>

definition volume_steps :: "shelf \<Rightarrow> string \<Rightarrow> volume_step list" where
  "volume_steps sh i = map snd (sql_ordered (\<lambda>r. vs_min_quantity (snd r)) (\<lambda>r. fst r = i) (sh_volume_prices sh))"

definition customer_steps :: "shelf \<Rightarrow> string option \<Rightarrow> string \<Rightarrow> customer_step list" where
  "customer_steps sh user i =
     (case user of
        None \<Rightarrow> []
      | Some u \<Rightarrow> map (snd \<circ> snd) (sql_ordered (\<lambda>r. cs_min_quantity (snd (snd r)))
                    (\<lambda>r. fst r = u \<and> fst (snd r) = i) (sh_customer_prices sh)))"

definition line_price :: "shelf \<Rightarrow> sellable \<Rightarrow> int \<Rightarrow> string option \<Rightarrow> string option \<Rightarrow> int \<times> price_source" where
  "line_price sh s quantity channel user =
     resolve_unit_price (sl_price s) (sl_base_price s) channel quantity
       (volume_steps sh (sl_id s)) (customer_steps sh user (sl_id s))"

section \<open>Quantities and stock\<close>

definition validate_quantity :: "sellable \<Rightarrow> int \<Rightarrow> int \<Rightarrow> unit result" where
  "validate_quantity s quantity global =
     (if quantity < sl_minimum s \<or> quantity > min (sl_maximum s) global
      then Inl (DomainError ''quantity_invalid'' 400) else Inr ())"

text \<open>
  Who buys: a user, or a guest by the address of his order. What he has bought of an item
  already counts the orders that are neither closed unpaid nor refunded.
\<close>

definition bought :: "db \<Rightarrow> string option \<Rightarrow> string option \<Rightarrow> string \<Rightarrow> int" where
  "bought db user email item =
     sum_list (map oi_quantity (filter (\<lambda>i. oi_sellable i = item
       \<and> sql_exists (\<lambda>x. o_id x = oi_order i
            \<and> (if user \<noteq> None then o_user x = user else o_user x = None \<and> email \<noteq> None \<and> o_email x = email)
            \<and> o_status x \<notin> {Cancelled, Expired, Refunded}) (shop_orders db)) (order_items db)))"

definition assert_purchase_limit :: "db \<Rightarrow> string option \<Rightarrow> string option \<Rightarrow> sellable \<Rightarrow> int \<Rightarrow> unit result" where
  "assert_purchase_limit db user email s quantity =
     (case sl_per_customer s of
        None \<Rightarrow> Inr ()
      | Some limit \<Rightarrow>
          (if bought db user email (sl_id s) + quantity > limit
           then Inl (DomainError ''customer_purchase_limit'' 409) else Inr ()))"

definition supplier_snapshot_max_age_ms :: int where
  "supplier_snapshot_max_age_ms = 30 * 60000"

definition usable_account :: "supplier_offer_row \<Rightarrow> int \<Rightarrow> supplier_account_row \<Rightarrow> bool" where
  "usable_account b now a \<longleftrightarrow> sa_provider a = sf_provider b \<and> sa_origin a = sf_origin b \<and> sa_protocol a = sf_protocol b
     \<and> sa_enabled a \<and> sa_healthy a \<and> (case sa_cooldown_until a of None \<Rightarrow> True | Some t \<Rightarrow> t \<le> now) \<and> sa_balance a \<noteq> None"

definition account_covers :: "bool \<Rightarrow> int \<Rightarrow> supplier_account_row \<Rightarrow> bool" where
  "account_covers unfunded required a \<longleftrightarrow>
     (case sa_max_order_cost a of None \<Rightarrow> True | Some m \<Rightarrow> required \<le> m)
     \<and> (unfunded \<or> (case sa_balance a of None \<Rightarrow> False | Some b \<Rightarrow> required \<le> b - sa_reserve a))"

definition assert_supplier_availability :: "shelf \<Rightarrow> string \<Rightarrow> int \<Rightarrow> int \<Rightarrow> unit result" where
  "assert_supplier_availability sh item quantity now =
     (case sql_first (\<lambda>b. sf_item b = item \<and> sf_enabled b \<and> sf_active b
             \<and> now - supplier_snapshot_max_age_ms \<le> sf_synced_at b) (sh_supplier_offers sh) of
        None \<Rightarrow> Inl (DomainError ''supplier_inventory_unavailable'' 409)
      | Some b \<Rightarrow>
          (if sf_cost b > sf_max_cost b \<or> sf_stock b < quantity
           then Inl (DomainError ''supplier_inventory_unavailable'' 409)
           else if list_ex (account_covers (item \<in> set (sh_unfunded sh)) (sf_cost b * quantity))
                     (take 20 (sql_ordered sa_id (usable_account b now) (sh_supplier_accounts sh)))
           then Inr () else Inl (DomainError ''supplier_account_unavailable'' 409)))"

definition assert_stock_availability :: "shelf \<Rightarrow> db \<Rightarrow> sellable \<Rightarrow> int \<Rightarrow> int \<Rightarrow> unit result" where
  "assert_stock_availability sh db s quantity now =
     (case sl_sourcing s of
        Manual_Source \<Rightarrow> Inr ()
      | Supplier_Source \<Rightarrow> assert_supplier_availability sh (sl_id s) quantity now
      | Local_Source \<Rightarrow>
          (if quantity \<le> int (available_stock db (sl_id s)) then Inr ()
           else Inl (DomainError ''inventory_unavailable'' 409)))"

definition sale_components :: "shelf \<Rightarrow> string list result" where
  "sale_components sh =
     (if \<not> distinct (map snd (sh_sale_map sh)) then Inl (DomainError ''redeem_capacity_mapping_conflict'' 503)
      else Inr (map fst (sh_sale_map sh)))"

text \<open>The stock a line needs: whether it is sold from owned codes, which the batch reserves.\<close>

definition check_stock :: "shelf \<Rightarrow> db \<Rightarrow> sellable \<Rightarrow> int \<Rightarrow> int \<Rightarrow> bool result" where
  "check_stock sh db s quantity now =
     (if sl_type s \<noteq> Stock_Component then Inr False
      else and_then (sale_components sh) (\<lambda>owned.
           and_then (prepare_sale owned (sl_id s) quantity db) (\<lambda>reserve.
           and_then (assert_stock_availability sh db s quantity now) (\<lambda>_. Inr reserve))))"

definition assert_renewal :: "db \<Rightarrow> string option \<Rightarrow> string \<Rightarrow> sellable \<Rightarrow> unit result" where
  "assert_renewal db user entitlement s =
     (case user of
        None \<Rightarrow> Inl (DomainError ''authentication_required'' 401)
      | Some u \<Rightarrow>
          (if \<not> sl_renewable s then Inl (DomainError ''renewal_disabled'' 409)
           else if sql_exists (\<lambda>e. en_id e = entitlement \<and> en_user e = Some u \<and> en_sellable e = sl_id s) (entitlements db)
           then Inr () else Inl (DomainError ''renewal_unavailable'' 409)))"

section \<open>Coupons\<close>

text \<open>Addresses are ASCII; \<^verbatim>\<open>toLowerCase\<close> and SQL's \<^verbatim>\<open>lower\<close> agree on them.\<close>

definition lower_char :: "char \<Rightarrow> char" where
  "lower_char c = (if CHR ''A'' \<le> c \<and> c \<le> CHR ''Z'' then char_of (of_char c + 32 :: nat) else c)"

definition lower :: "string \<Rightarrow> string" where
  "lower s = map lower_char s"

definition coupon_terms :: "coupon_use_row \<Rightarrow> coupon_row" where
  "coupon_terms c = \<lparr> c_id = cu_id c, c_purpose = cu_purpose c, c_type = cu_type c, c_currency = cu_currency c,
     c_currency_decimals = cu_decimals c, c_value_minor = cu_value_minor c, c_value_bps = cu_value_bps c,
     c_minimum_order = cu_minimum_order c, c_maximum_discount = cu_maximum_discount c \<rparr>"

definition redemption_active :: "redemption_row \<Rightarrow> bool" where
  "redemption_active r \<longleftrightarrow> cr_status r = Redemption_Reserved \<or> cr_status r = Redemption_Consumed"

definition customer_uses :: "db \<Rightarrow> string option \<Rightarrow> string option \<Rightarrow> string \<Rightarrow> nat" where
  "customer_uses db user email coupon =
     sql_changes (\<lambda>r. cr_coupon r = coupon
       \<and> (if user \<noteq> None then cr_user r = user else Some (cr_email r) = email) \<and> redemption_active r) (redemptions db)"

definition enabled_user :: "db \<Rightarrow> string option \<Rightarrow> user_row option" where
  "enabled_user db i = sql_first (\<lambda>u. Some (u_id u) = i \<and> u_enabled u) (users db)"

definition assert_promotion_owner :: "db \<Rightarrow> coupon_use_row \<Rightarrow> string option \<Rightarrow> string option \<Rightarrow> unit result" where
  "assert_promotion_owner db c user email =
     (case cu_purpose c of
        Standard \<Rightarrow> Inr ()
      | Promotion Recall \<Rightarrow>
          (case cu_recipient_email c of
             Some m \<Rightarrow>
               (if Some m \<noteq> map_option (\<lambda>e. lower (js_trim e)) email
                then Inl (DomainError ''coupon_recipient_required'' 403) else Inr ())
           | None \<Rightarrow>
               (if (case enabled_user db user of None \<Rightarrow> True | Some u \<Rightarrow> \<not> u_verified u) \<or> cu_recipient c \<noteq> user
                then Inl (DomainError ''coupon_recipient_required'' 403) else Inr ()))
      | Promotion Referral \<Rightarrow>
          (case enabled_user db (cu_referrer c) of
             None \<Rightarrow> Inl (DomainError ''coupon_unavailable'' 409)
           | Some u \<Rightarrow>
               (if Some (u_id u) = user \<or> Some (lower (u_email u)) = map_option lower email
                then Inl (DomainError ''coupon_self_referral'' 409) else Inr ())))"

definition coupon_running :: "int \<Rightarrow> coupon_use_row \<Rightarrow> bool" where
  "coupon_running now c \<longleftrightarrow> cu_enabled c \<and> (case cu_starts_at c of None \<Rightarrow> True | Some t \<Rightarrow> t \<le> now)
     \<and> (case cu_ends_at c of None \<Rightarrow> True | Some t \<Rightarrow> now < t)"

definition under_limit :: "coupon_use_row \<Rightarrow> bool" where
  "under_limit c \<longleftrightarrow> (case cu_usage_limit c of None \<Rightarrow> True | Some l \<Rightarrow> cu_used c < l)"

definition load_coupon :: "db \<Rightarrow> string \<Rightarrow> string option \<Rightarrow> string option \<Rightarrow> int \<Rightarrow> coupon_use_row result" where
  "load_coupon db code user email now =
     (if user = None \<and> email = None then Inl (DomainError ''contact_email_required'' 400)
      else
        (case sql_first (\<lambda>c. cu_code c = code \<and> coupon_running now c) (coupon_uses db) of
           None \<Rightarrow> Inl (DomainError ''coupon_unavailable'' 409)
         | Some c \<Rightarrow>
             (if \<not> under_limit c then Inl (DomainError ''coupon_unavailable'' 409)
              else if (case cu_customer_limit c of None \<Rightarrow> False | Some l \<Rightarrow> l \<le> customer_uses db user email (cu_id c))
              then Inl (DomainError ''coupon_customer_limit'' 409)
              else and_then (assert_promotion_owner db c user email) (\<lambda>_. Inr c))))"

text \<open>The reward of a referrer is withheld from himself, and beyond a monthly cap.\<close>

definition referral_reward_monthly_cap_minor :: int where
  "referral_reward_monthly_cap_minor = 100000"

definition canonical_email :: "string \<Rightarrow> string" where
  "canonical_email email =
     (let m = lower (js_trim email);
          local = takeWhile (\<lambda>c. c \<noteq> CHR ''@'') m;
          domain = takeWhile (\<lambda>c. c \<noteq> CHR ''@'') (drop 1 (dropWhile (\<lambda>c. c \<noteq> CHR ''@'') m))
      in takeWhile (\<lambda>c. c \<noteq> CHR ''+'') local @ ''@'' @ domain)"

text \<open>
  The first instant of the month in Beijing: the day of the month of the proleptic Gregorian
  calendar, computed from the days since 1970 by way of years that begin in March.
\<close>

definition day_of_month :: "int \<Rightarrow> int" where
  "day_of_month days =
     (let z = days + 719468;
          doe = z mod 146097;
          yoe = (doe - doe div 1460 + doe div 36524 - doe div 146096) div 365;
          doy = doe - (365 * yoe + yoe div 4 - yoe div 100);
          mp = (5 * doy + 2) div 153
      in doy - (153 * mp + 2) div 5 + 1)"

definition beijing_month_start :: "int \<Rightarrow> int" where
  "beijing_month_start now =
     (let days = (now + 8 * 3600000) div 86400000
      in (days - (day_of_month days - 1)) * 86400000 - 8 * 3600000)"

definition referral_earned :: "db \<Rightarrow> string \<Rightarrow> int \<Rightarrow> int" where
  "referral_earned db referrer since =
     sum_list (map o_referral_reward (filter (\<lambda>x. o_referrer x = Some referrer \<and> since \<le> o_created_at x
       \<and> o_status x \<in> {Pending_Payment, Paid, Fulfilling, Completed}) (shop_orders db)))"

definition referral_reward_withheld ::
  "shelf \<Rightarrow> db \<Rightarrow> string \<Rightarrow> string option \<Rightarrow> string option \<Rightarrow> string option \<Rightarrow> int \<Rightarrow> int \<Rightarrow> bool" where
  "referral_reward_withheld sh db referrer user email ip reward now \<longleftrightarrow>
     user = None \<or> user = Some referrer
     \<or> (case enabled_user db user of None \<Rightarrow> True | Some u \<Rightarrow> \<not> u_verified u)
     \<or> (case (find_user db referrer, email) of
          (Some r, Some m) \<Rightarrow> canonical_email (u_email r) = canonical_email m
        | _ \<Rightarrow> False)
     \<or> (case map_option js_trim ip of
          None \<Rightarrow> False | Some a \<Rightarrow> a \<noteq> '''' \<and> (referrer, a) \<in> set (sh_sign_ins sh))
     \<or> referral_earned db referrer (beijing_month_start now) + reward > referral_reward_monthly_cap_minor"

section \<open>The budget of new orders\<close>

definition unpaid_orders_per_email :: nat where
  "unpaid_orders_per_email = 5"

definition order_claim :: "string \<Rightarrow> claim" where
  "order_claim ip = \<lparr> cl_bucket = ''checkout:order:ip:'' @ ip, cl_limit = 20, cl_window_ms = 600000 \<rparr>"

definition claim_new_order_budget ::
  "db \<Rightarrow> string option \<Rightarrow> string option \<Rightarrow> int \<Rightarrow> counters \<Rightarrow> unit result \<times> counters" where
  "claim_new_order_budget db ip email now t =
     (if email \<noteq> None
         \<and> unpaid_orders_per_email \<le> sql_changes (\<lambda>x. o_email x = email \<and> o_status x = Pending_Payment
               \<and> now < o_expires_at x) (shop_orders db)
      then (Inl (DomainError ''too_many_unpaid_orders'' 429), t)
      else
        (case map_option (\<lambda>a. take 45 (js_trim a)) ip of
           None \<Rightarrow> (Inr (), t)
         | Some a \<Rightarrow>
             (if a = '''' then (Inr (), t)
              else
                (let (r, t') = claim_fixed_window now (order_claim a) t
                 in (if cl_allowed r then Inr () else Inl (DomainError ''order_rate_limited'' 429), t')))))"

text \<open>\<^verbatim>\<open>loadOrderPolicy\<close>: guests allowed, time to pay, most of one item.\<close>

definition load_order_policy :: "shelf \<Rightarrow> bool \<times> int \<times> int" where
  "load_order_policy sh =
     (case sh_guests sh of None \<Rightarrow> True | Some b \<Rightarrow> b,
      case sh_expiry_ms sh of None \<Rightarrow> 900000 | Some t \<Rightarrow> t,
      case sh_max_quantity sh of None \<Rightarrow> 100 | Some q \<Rightarrow> q)"

lemma beijing_month_start_examples:
  "beijing_month_start 1709222400000 = 1709222400000" \<comment> \<open>2024-03-01 00:00 in Beijing\<close>
  "beijing_month_start 1709222399999 = 1706716800000" \<comment> \<open>one millisecond before: 2024-02-01\<close>
  by code_simp+

end
