(* ===== verification/Checkout.thy ===== *)
theory Checkout
  imports Storefront
begin

text \<open>
  How an order is placed (\<^verbatim>\<open>createMultiStoreOrder\<close> of
  \<^verbatim>\<open>src/features/storefront/server/multi-order.ts\<close>, with the checkouts of the two
  services that are sold one at a time: \<^verbatim>\<open>gpt-upgrade/server/checkout.ts\<close> and
  \<^verbatim>\<open>agent-access/server/checkout.ts\<close>). The cart is checked line by line and priced, then one
  batch claims the coupon, writes the order with its items, reserves owned stock and records
  the use of the coupon.
\<close>

section \<open>Carts\<close>

record cart_item =
  ci_item :: string
  ci_quantity :: int
  ci_renewed :: "string option"

text \<open>Empty strings are how the input schema writes an absent coupon code and prefix.\<close>

record cart =
  ca_key :: string
  ca_email :: "string option"
  ca_items :: "cart_item list"
  ca_coupon :: string
  ca_session :: "string option"
  ca_quote_token :: "string option"
  ca_agent_terms :: bool
  ca_prefix :: string

record visitor =
  vi_user :: "string option"
  vi_email :: "string option"
  vi_channel :: "string option"
  vi_ip :: "string option"

record order_line =
  ol_id :: string
  ol_cart :: cart_item
  ol_sellable :: sellable
  ol_unit_price :: int
  ol_source :: price_source
  ol_subtotal :: int
  ol_discount :: int
  ol_reserve :: bool

record order_reply =
  or_id :: string
  or_number :: string
  or_status :: order_status
  or_total :: int
  or_currency :: string
  or_decimals :: nat
  or_expires_at :: int
  or_duplicate :: bool

text \<open>The random values of a checkout.\<close>

record order_ids =
  id_order :: string
  id_number :: string
  id_items :: "nat \<Rightarrow> string"
  id_visit :: string
  id_redemption :: string

section \<open>Replays\<close>

definition find_order_by_key :: "db \<Rightarrow> string \<Rightarrow> order_row option" where
  "find_order_by_key db key = sql_first (\<lambda>x. o_key x = Some key) (shop_orders db)"

definition replay_order :: "cart \<Rightarrow> visitor \<Rightarrow> order_row \<Rightarrow> order_reply result" where
  "replay_order ca vi x =
     (if \<not> (if vi_user vi \<noteq> None then o_user x = vi_user vi else o_email x = ca_email ca)
      then Inl (DomainError ''idempotency_key_conflict'' 409)
      else if o_pricing_channel x \<noteq> vi_channel vi then Inl (DomainError ''payment_channel_mismatch'' 409)
      else Inr \<lparr> or_id = o_id x, or_number = o_number x, or_status = o_status x, or_total = o_total x,
                 or_currency = o_currency x, or_decimals = o_decimals x, or_expires_at = o_expires_at x,
                 or_duplicate = True \<rparr>)"

section \<open>Services sold one at a time\<close>

definition open_upgrade_quote :: "upgrade_quote \<Rightarrow> int \<Rightarrow> unit result" where
  "open_upgrade_quote q now =
     (if \<not> uq_open q \<or> uq_expires_at q \<le> now then Inl (DomainError ''upgrade_quote_expired'' 409) else Inr ())"

definition prepare_upgrade_checkout :: "shelf \<Rightarrow> cart \<Rightarrow> int \<Rightarrow> upgrade_quote option result" where
  "prepare_upgrade_checkout sh ca now =
     (if \<not> list_ex (\<lambda>i. ci_item i = gpt_upgrade_item) (ca_items ca) then Inr None
      else
        (case (ca_items ca, ca_quote_token ca) of
           ([i], Some token) \<Rightarrow>
             (if ci_quantity i \<noteq> 1 \<or> ci_renewed i \<noteq> None \<or> ca_coupon ca \<noteq> '''' \<or> token = ''''
              then Inl (DomainError ''upgrade_checkout_invalid'' 400)
              else and_then (sh_quote sh token) (\<lambda>q. and_then (open_upgrade_quote q now) (\<lambda>_. Inr (Some q))))
         | _ \<Rightarrow> Inl (DomainError ''upgrade_checkout_invalid'' 400)))"

text \<open>Items of orders that were closed unpaid.\<close>

definition dead_item :: "db \<Rightarrow> string \<Rightarrow> bool" where
  "dead_item db i = sql_exists (\<lambda>it. oi_id it = i
     \<and> sql_exists (\<lambda>x. o_id x = oi_order it \<and> o_status x \<in> {Expired, Cancelled} \<and> o_paid x = 0) (shop_orders db)) (order_items db)"

definition drop_dead_agents :: "db stmt" where
  "drop_dead_agents n db =
     (let hit = (\<lambda>a. ag_state a = Agent_Pending \<and> dead_item db (ag_order_item a))
      in Inr (db \<lparr> agents := sql_update hit (\<lambda>a. a \<lparr> ag_active_key := None, ag_state := Agent_Cancelled \<rparr>) (agents db) \<rparr>,
              sql_changes hit (agents db)))"

definition drop_dead_upgrades :: "db stmt" where
  "drop_dead_upgrades n db =
     (let hit = (\<lambda>u. up_state u = Upgrade_Pending \<and> dead_item db (up_order_item u))
      in Inr (db \<lparr> upgrades := sql_update hit (\<lambda>u. u \<lparr> up_active_key := None, up_state := Upgrade_Cancelled \<rparr>) (upgrades db) \<rparr>,
              sql_changes hit (upgrades db)))"

fun agent_kind_name :: "agent_kind \<Rightarrow> string" where
  "agent_kind_name Subsite = ''subsite''"
| "agent_kind_name Api = ''api''"

definition agent_active_key :: "string \<Rightarrow> agent_kind \<Rightarrow> string" where
  "agent_active_key user kind = user @ '':'' @ agent_kind_name kind"

definition agent_plan_price_ok :: "shelf \<Rightarrow> string \<Rightarrow> agent_kind \<Rightarrow> bool" where
  "agent_plan_price_ok sh i kind \<longleftrightarrow>
     (case sql_first (\<lambda>p. pn_id p = i) (sh_plans sh) of
        None \<Rightarrow> False
      | Some p \<Rightarrow> pn_price p = agent_access_price kind \<and> pn_currency p = ''CNY'' \<and> pn_decimals p = 2)"

text \<open>The answers of the agent service, and the name of a sub-site when one is asked for.\<close>

definition check_agent :: "shelf \<Rightarrow> cart \<Rightarrow> string \<Rightarrow> agent_kind \<Rightarrow> unit result" where
  "check_agent sh ca user kind =
     and_then (sh_agent_check sh user kind) (\<lambda>standing.
       case standing of
         Already_Active \<Rightarrow> Inl (DomainError ''agent_access_already_active'' 409)
       | Unbound \<Rightarrow> Inl (DomainError ''agent_access_binding_required'' 409)
       | Eligible \<Rightarrow>
           (if ca_prefix ca = '''' then Inr ()
            else if kind \<noteq> Subsite then Inl (DomainError ''agent_subsite_prefix_invalid'' 400)
            else and_then (sh_prefix_state sh (ca_prefix ca)) (\<lambda>state.
              if state \<noteq> ''available'' then Inl (DomainError (''agent_subsite_prefix_'' @ state) 409) else Inr ())))"

text \<open>Returns the kind of access that is bought with the key that reserves it.\<close>

definition prepare_agent_checkout ::
  "shelf \<Rightarrow> cart \<Rightarrow> string option \<Rightarrow> db \<Rightarrow> (agent_kind \<times> string) option result \<times> db" where
  "prepare_agent_checkout sh ca user db =
     (case filter (\<lambda>i. agent_access_kind (ci_item i) \<noteq> None) (ca_items ca) of
        [] \<Rightarrow> (Inr None, db)
      | i # _ \<Rightarrow>
          (if \<not> sh_agent_enabled sh then (Inl (DomainError ''agent_access_disabled'' 409), db)
           else
             (case agent_access_kind (ci_item i) of
                None \<Rightarrow> (Inl (DomainError ''agent_access_checkout_invalid'' 400), db)
              | Some kind \<Rightarrow>
                  (if length (ca_items ca) \<noteq> 1 \<or> ci_quantity i \<noteq> 1 \<or> ca_coupon ca \<noteq> ''''
                   then (Inl (DomainError ''agent_access_checkout_invalid'' 400), db)
                   else
                     (case user of
                        None \<Rightarrow> (Inl (DomainError ''authentication_required'' 401), db)
                      | Some u \<Rightarrow>
                          (if (case enabled_user db (Some u) of None \<Rightarrow> True | Some r \<Rightarrow> \<not> u_verified r)
                           then (Inl (DomainError ''agent_access_email_verification'' 403), db)
                           else if \<not> ca_agent_terms ca then (Inl (DomainError ''agent_access_terms_required'' 400), db)
                           else if \<not> agent_plan_price_ok sh (ci_item i) kind
                           then (Inl (DomainError ''agent_access_price_invalid'' 409), db)
                           else
                             (case drop_dead_agents 0 db of
                                Inl e \<Rightarrow> (Inl e, db)
                              | Inr (db, _) \<Rightarrow>
                                  (if sql_exists (\<lambda>a. ag_active_key a = Some (agent_active_key u kind)) (agents db)
                                   then (Inl (DomainError ''agent_access_existing_order'' 409), db)
                                   else (and_then (check_agent sh ca u kind)
                                           (\<lambda>_. Inr (Some (kind, agent_active_key u kind))), db)))))))))"

section \<open>Lines\<close>

definition claude_subscribed :: "shelf \<Rightarrow> string \<Rightarrow> int \<Rightarrow> bool" where
  "claude_subscribed sh user now \<longleftrightarrow>
     list_ex (\<lambda>(u, t). u = user \<and> (case t of None \<Rightarrow> True | Some e \<Rightarrow> now < e)) (sh_subscriptions sh)"

text \<open>Who may buy an item at all.\<close>

definition admit_line ::
  "shelf \<Rightarrow> visitor \<Rightarrow> upgrade_quote option \<Rightarrow> int \<Rightarrow> cart_item \<Rightarrow> sellable \<Rightarrow> unit result" where
  "admit_line sh vi upgrade now it s =
     (if vi_user vi = None \<and> sl_type s = Automation_Component \<and> ci_item it \<noteq> gpt_upgrade_item
      then Inl (DomainError ''account_required_for_delivery'' 403)
      else if sl_id s \<in> set claude_traffic_skus \<and> vi_user vi = None
      then Inl (DomainError ''account_required_for_delivery'' 403)
      else if sl_id s \<in> set claude_traffic_skus \<and> \<not> claude_subscribed sh (the (vi_user vi)) now
      then Inl (DomainError ''claude_env_subscription_required'' 409)
      else if upgrade \<noteq> None \<and> (sl_currency s \<noteq> ''CNY'' \<or> sl_decimals s \<noteq> 2)
      then Inl (DomainError ''upgrade_currency_invalid'' 409) else Inr ())"

definition unit_price ::
  "shelf \<Rightarrow> visitor \<Rightarrow> upgrade_quote option \<Rightarrow> cart_item \<Rightarrow> sellable \<Rightarrow> int \<times> price_source" where
  "unit_price sh vi upgrade it s =
     (case upgrade of
        Some q \<Rightarrow> (uq_price q, ListPrice)
      | None \<Rightarrow> line_price sh s (ci_quantity it) (vi_channel vi) (vi_user vi))"

definition check_line ::
  "shelf \<Rightarrow> db \<Rightarrow> cart \<Rightarrow> visitor \<Rightarrow> upgrade_quote option \<Rightarrow> int \<Rightarrow> string \<Rightarrow> cart_item \<Rightarrow> order_line result" where
  "check_line sh db ca vi upgrade now item_id it =
     and_then (load_sellable_item sh db (ci_item it) (vi_channel vi)) (\<lambda>s.
     and_then (admit_line sh vi upgrade now it s) (\<lambda>_.
     and_then (validate_quantity s (ci_quantity it) (snd (snd (load_order_policy sh)))) (\<lambda>_.
     and_then (assert_purchase_limit db (vi_user vi) (ca_email ca) s (ci_quantity it)) (\<lambda>_.
     and_then (check_stock sh db s (ci_quantity it) now) (\<lambda>reserve.
     and_then (case ci_renewed it of None \<Rightarrow> Inr () | Some e \<Rightarrow> assert_renewal db (vi_user vi) e s) (\<lambda>_.
     and_then (sh_inputs sh (ci_item it) (if sl_type s = Automation_Component then None else sl_definition s)) (\<lambda>_.
       (let (price, source) = unit_price sh vi upgrade it s
        in Inr \<lparr> ol_id = item_id, ol_cart = it, ol_sellable = s, ol_unit_price = price, ol_source = source,
                 ol_subtotal = price * ci_quantity it, ol_discount = 0, ol_reserve = reserve \<rparr>))))))))"

fun check_lines ::
  "shelf \<Rightarrow> db \<Rightarrow> cart \<Rightarrow> visitor \<Rightarrow> upgrade_quote option \<Rightarrow> int \<Rightarrow> (nat \<Rightarrow> string) \<Rightarrow> nat \<Rightarrow> cart_item list
   \<Rightarrow> order_line list result" where
  "check_lines sh db ca vi upgrade now item_ids k [] = Inr []"
| "check_lines sh db ca vi upgrade now item_ids k (it # its) =
     and_then (check_line sh db ca vi upgrade now (item_ids k) it) (\<lambda>l.
     and_then (check_lines sh db ca vi upgrade now item_ids (Suc k) its) (\<lambda>ls. Inr (l # ls)))"

definition pricing_line_of :: "order_line \<Rightarrow> pricing_line" where
  "pricing_line_of l =
     (let s = ol_sellable l
      in \<lparr> pl_id = ol_id l, pl_sellable = sl_id s, pl_product = sl_product s, pl_currency = sl_currency s,
           pl_decimals = sl_decimals s, pl_promotion_budget = sl_budget s, pl_quantity = ci_quantity (ol_cart l),
           pl_source = ol_source l, pl_subtotal = ol_subtotal l, pl_discount = ol_discount l \<rparr>)"

definition take_discount :: "order_line \<Rightarrow> pricing_line \<Rightarrow> order_line" where
  "take_discount l p = l \<lparr> ol_discount := pl_discount p \<rparr>"

definition product_tags :: "shelf \<Rightarrow> (string \<times> string list) list" where
  "product_tags sh = map (\<lambda>p. (pd_id p, pd_tags p)) (sh_products sh)"

definition stored_scope :: "db \<Rightarrow> coupon_use_row option \<Rightarrow> coupon_scope option option" where
  "stored_scope db coupon =
     Option.bind coupon (\<lambda>c. map_option cu_scope (sql_first (\<lambda>r. cu_id r = cu_id c) (coupon_uses db)))"

text \<open>The discount and the reward of the order, and its lines with their discounts.\<close>

definition price_order ::
  "(string \<Rightarrow> 'k::linorder) \<Rightarrow> shelf \<Rightarrow> db \<Rightarrow> coupon_use_row option \<Rightarrow> order_line list
   \<Rightarrow> (store_coupon_price \<times> order_line list) result" where
  "price_order collate sh db coupon lines =
     and_then (price_store_coupon collate (product_tags sh) (stored_scope db coupon) (map_option coupon_terms coupon)
                 (map pricing_line_of lines))
       (\<lambda>(priced, ps). Inr (priced, map2 take_discount lines ps))"

section \<open>Statements\<close>

text \<open>The coupon is claimed under the number of uses it was read with.\<close>

definition claimable :: "string \<Rightarrow> nat \<Rightarrow> coupon_use_row \<Rightarrow> bool" where
  "claimable i used c \<longleftrightarrow> cu_id c = i \<and> cu_enabled c \<and> cu_used c = used \<and> under_limit c"

definition count_use :: "coupon_use_row \<Rightarrow> coupon_use_row" where
  "count_use c = c \<lparr> cu_used := cu_used c + 1 \<rparr>"

definition claim_coupon :: "string \<Rightarrow> nat \<Rightarrow> db stmt" where
  "claim_coupon i used n db =
     Inr (db \<lparr> coupon_uses := sql_update (claimable i used) count_use (coupon_uses db) \<rparr>,
          sql_changes (claimable i used) (coupon_uses db))"

definition user_known :: "db \<Rightarrow> string option \<Rightarrow> bool" where
  "user_known db user \<longleftrightarrow> (case user of None \<Rightarrow> True | Some u \<Rightarrow> find_user db u \<noteq> None)"

definition insert_order :: "order_row \<Rightarrow> db stmt" where
  "insert_order x n db =
     (if sql_exists (\<lambda>y. o_id y = o_id x \<or> o_number y = o_number x \<or> o_key x \<noteq> None \<and> o_key y = o_key x) (shop_orders db)
      then Inl (DbAbort ''shop_orders_uidx'')
      else if o_subtotal x < 0 \<or> o_discount x < 0 \<or> o_total x < 0 \<or> 8 < o_decimals x then Inl (DbAbort ''shop_orders_check'')
      else if \<not> user_known db (o_user x) then Inl (DbAbort ''FOREIGN KEY constraint failed'')
      else Inr (db \<lparr> shop_orders := shop_orders db @ [x] \<rparr>, 1))"

text \<open>With a coupon the order is selected from its row, when the statement before changed one.\<close>

definition insert_order_claimed :: "string \<Rightarrow> order_row \<Rightarrow> db stmt" where
  "insert_order_claimed coupon x n db =
     (if n = 1 \<and> sql_exists (\<lambda>c. cu_id c = coupon) (coupon_uses db) then insert_order x n db else Inr (db, 0))"

text \<open>The trigger \<^verbatim>\<open>owned_code_checkout_stock\<close> (\<^verbatim>\<open>drizzle/0022\<close>).\<close>

definition owned_stock_missing :: "shelf \<Rightarrow> item_row \<Rightarrow> db \<Rightarrow> bool" where
  "owned_stock_missing sh it db \<longleftrightarrow> oi_component_type it = Stock_Component
     \<and> sql_exists (\<lambda>x. o_id x = oi_order it \<and> o_status x = Pending_Payment) (shop_orders db)
     \<and> sql_exists (\<lambda>p. pn_id p = oi_component it \<and> pn_sourcing p = Local_Source) (sh_plans sh)
     \<and> oi_component it \<in> fst ` set (sh_sale_map sh)
     \<and> int (available_stock db (oi_component it)) < oi_quantity it"

definition limit_ok :: "int option \<Rightarrow> bool" where
  "limit_ok v \<longleftrightarrow> (case v of None \<Rightarrow> True | Some x \<Rightarrow> 0 < x)"

definition item_checked :: "item_row \<Rightarrow> bool" where
  "item_checked it \<longleftrightarrow> 0 < oi_quantity it \<and> 0 \<le> oi_unit_price it \<and> 0 \<le> oi_discount it \<and> 0 \<le> oi_subtotal it
     \<and> limit_ok (oi_duration it) \<and> limit_ok (oi_usage_limit it) \<and> limit_ok (oi_access_limit it)"

definition insert_item :: "shelf \<Rightarrow> item_row \<Rightarrow> db stmt" where
  "insert_item sh it n db =
     (if owned_stock_missing sh it db then Inl (DbAbort ''owned_code_stock_unavailable'')
      else if sql_exists (\<lambda>y. oi_id y = oi_id it) (order_items db) then Inl (DbAbort ''shop_order_items.id'')
      else if \<not> item_checked it then Inl (DbAbort ''shop_order_items_check'')
      else if find_order db (oi_order it) = None then Inl (DbAbort ''FOREIGN KEY constraint failed'')
      else Inr (db \<lparr> order_items := order_items db @ [it] \<rparr>, 1))"

definition insert_upgrade :: "upgrade_row \<Rightarrow> db stmt" where
  "insert_upgrade u n db =
     (if sql_exists (\<lambda>y. up_order_item y = up_order_item u) (upgrades db) then Inl (DbAbort ''gpt_upgrade_orders.order_item_id'')
      else if up_active_key u \<noteq> None \<and> sql_exists (\<lambda>y. up_active_key y = up_active_key u) (upgrades db)
      then Inl (DbAbort ''gpt_upgrade_orders.active_key'')
      else if up_price u \<le> 0 then Inl (DbAbort ''gpt_upgrade_orders_check'')
      else Inr (db \<lparr> upgrades := upgrades db @ [u] \<rparr>, 1))"

definition insert_agent :: "agent_row \<Rightarrow> db stmt" where
  "insert_agent a n db =
     (if sql_exists (\<lambda>y. ag_order_item y = ag_order_item a) (agents db) then Inl (DbAbort ''agent_access_orders.order_item_id'')
      else if ag_active_key a \<noteq> None \<and> sql_exists (\<lambda>y. ag_active_key y = ag_active_key a) (agents db)
      then Inl (DbAbort ''agent_access_orders.active_key'')
      else Inr (db \<lparr> agents := agents db @ [a] \<rparr>, 1))"

text \<open>A download is sold with the assets that are bound to it at that moment.\<close>

definition insert_snapshots :: "shelf \<Rightarrow> string \<Rightarrow> string \<Rightarrow> string \<Rightarrow> db stmt" where
  "insert_snapshots sh item_id component product n db =
     (let rows = map (\<lambda>a. \<lparr> sn_order_item = item_id, sn_asset = Some a \<rparr>) (bound_assets sh component product)
      in if \<not> distinct rows \<or> list_ex (\<lambda>r. r \<in> set (snapshots db)) rows
         then Inl (DbAbort ''order_item_download_assets_item_asset_uidx'')
         else Inr (db \<lparr> snapshots := snapshots db @ rows \<rparr>, length rows))"

definition insert_visit :: "commerce_event_row \<Rightarrow> db stmt" where
  "insert_visit e n db =
     (if sql_exists (\<lambda>y. ce_id y = ce_id e) (commerce_events db) then Inl (DbAbort ''commerce_events.id'')
      else Inr (db \<lparr> commerce_events := commerce_events db @ [e] \<rparr>, 1))"

text \<open>
  The triggers \<^verbatim>\<open>personal_coupon_reservation_guard\<close> (\<^verbatim>\<open>drizzle/0036\<close>) and
  \<^verbatim>\<open>referral_coupon_reservation_guard\<close> (\<^verbatim>\<open>drizzle/0028\<close>).
\<close>

definition sql_trim :: "string \<Rightarrow> string" where
  "sql_trim s = rev (dropWhile (\<lambda>c. c = CHR '' '') (rev (dropWhile (\<lambda>c. c = CHR '' '') s)))"

definition recall_allowed :: "redemption_row \<Rightarrow> int \<Rightarrow> coupon_use_row \<Rightarrow> db \<Rightarrow> bool" where
  "recall_allowed r now c db \<longleftrightarrow> cu_enabled c
     \<and> (case cu_ends_at c of None \<Rightarrow> False | Some t \<Rightarrow> now < t)
     \<and> (case cu_starts_at c of None \<Rightarrow> False | Some t \<Rightarrow> t \<le> now)
     \<and> (sql_exists (\<lambda>u. Some (u_id u) = cu_recipient c \<and> Some (u_id u) = cr_user r \<and> u_enabled u \<and> u_verified u) (users db)
        \<or> cu_recipient_email c = Some (lower (sql_trim (cr_email r))))"

definition redemption_refused :: "redemption_row \<Rightarrow> int \<Rightarrow> db \<Rightarrow> string option" where
  "redemption_refused r now db =
     (case sql_first (\<lambda>c. cu_id c = cr_coupon r) (coupon_uses db) of
        None \<Rightarrow> Some ''FOREIGN KEY constraint failed''
      | Some c \<Rightarrow>
          (case cu_purpose c of
             Standard \<Rightarrow> None
           | Promotion Recall \<Rightarrow>
               (if \<not> recall_allowed r now c db
                   \<or> sql_exists (\<lambda>q. cr_coupon q = cr_coupon r \<and> redemption_active q) (redemptions db)
                then Some ''coupon_recipient_or_usage_invalid'' else None)
           | Promotion Referral \<Rightarrow>
               (if \<not> (cu_enabled c \<and> sql_exists (\<lambda>u. Some (u_id u) = cu_referrer c \<and> u_enabled u
                        \<and> Some (u_id u) \<noteq> cr_user r \<and> lower (u_email u) \<noteq> lower (cr_email r)) (users db))
                then Some ''referral_owner_invalid'' else None)))"

definition insert_redemption :: "redemption_row \<Rightarrow> int \<Rightarrow> db stmt" where
  "insert_redemption r now n db =
     (case redemption_refused r now db of
        Some m \<Rightarrow> Inl (DbAbort m)
      | None \<Rightarrow>
          (if sql_exists (\<lambda>y. cr_id y = cr_id r \<or> cr_order y = cr_order r) (redemptions db)
           then Inl (DbAbort ''coupon_redemptions_uidx'')
           else if find_order db (cr_order r) = None \<or> \<not> user_known db (cr_user r)
           then Inl (DbAbort ''FOREIGN KEY constraint failed'')
           else Inr (db \<lparr> redemptions := redemptions db @ [r] \<rparr>, 1)))"

definition mark_promotion :: "string \<Rightarrow> promotion_purpose \<Rightarrow> string option \<Rightarrow> int \<Rightarrow> db stmt" where
  "mark_promotion i purpose referrer reward n db =
     (let hit = (\<lambda>x. o_id x = i)
      in Inr (db \<lparr> shop_orders := sql_update hit (\<lambda>x. x \<lparr> o_promotion := Some purpose, o_referrer := referrer,
                    o_referral_reward := reward \<rparr>) (shop_orders db) \<rparr>, sql_changes hit (shop_orders db)))"

definition mark_item_reward :: "string \<Rightarrow> int \<Rightarrow> db stmt" where
  "mark_item_reward i reward n db =
     (let hit = (\<lambda>x. oi_id x = i)
      in Inr (db \<lparr> order_items := sql_update hit (\<lambda>x. x \<lparr> oi_reward := reward \<rparr>) (order_items db) \<rparr>,
              sql_changes hit (order_items db)))"

section \<open>Placing an order\<close>

definition order_subtotal :: "order_line list \<Rightarrow> int" where
  "order_subtotal lines = sum_list (map ol_subtotal lines)"

text \<open>The row of the order; the reward and purpose of a promotion follow by an update.\<close>

definition new_order ::
  "cart \<Rightarrow> visitor \<Rightarrow> order_ids \<Rightarrow> coupon_use_row option \<Rightarrow> order_line list \<Rightarrow> int \<Rightarrow> int \<Rightarrow> int \<Rightarrow> order_row" where
  "new_order ca vi ids coupon lines discount expires_at now =
     \<lparr> o_id = id_order ids, o_number = id_number ids, o_key = Some (ca_key ca), o_user = vi_user vi, o_email = ca_email ca,
       o_status = Pending_Payment, o_version = 1, o_subtotal = order_subtotal lines, o_discount = discount,
       o_total = order_subtotal lines - discount, o_paid = 0, o_currency = sl_currency (ol_sellable (hd lines)),
       o_decimals = sl_decimals (ol_sellable (hd lines)), o_coupon = map_option cu_id coupon, o_promotion = None,
       o_referrer = None, o_referral_reward = 0, o_pricing_channel = vi_channel vi, o_expires_at = expires_at,
       o_paid_at = None, o_completed_at = None, o_cancelled_at = None, o_refunded_at = None, o_created_at = now,
       o_updated_at = now \<rparr>"

definition new_item :: "string \<Rightarrow> order_line \<Rightarrow> item_row" where
  "new_item order_id l =
     (let s = ol_sellable l
      in \<lparr> oi_id = ol_id l, oi_order = order_id, oi_product = sl_product s, oi_sellable = sl_id s, oi_component = sl_id s,
           oi_component_type = sl_type s, oi_quantity = ci_quantity (ol_cart l), oi_unit_price = ol_unit_price l,
           oi_source = ol_source l, oi_discount = ol_discount l, oi_subtotal = ol_subtotal l, oi_reward = 0,
           oi_definition_version = sl_definition s, oi_renewed_from = ci_renewed (ol_cart l), oi_duration = sl_duration s,
           oi_usage_limit = sl_usage_limit s, oi_access_limit = sl_access_limit s \<rparr>)"

definition service_statements :: "upgrade_quote option \<Rightarrow> (agent_kind \<times> string) option \<Rightarrow> string \<Rightarrow> db stmt list" where
  "service_statements upgrade agent item_id =
     (case upgrade of
        None \<Rightarrow> []
      | Some q \<Rightarrow> [drop_dead_upgrades, insert_upgrade \<lparr> up_order_item = item_id, up_active_key = Some (uq_id q),
                    up_price = uq_price q, up_state = Upgrade_Pending, up_status_url = None, up_attempts = 0,
                    up_next_attempt_at = 0, up_error = None \<rparr>])
     @ (case agent of
          None \<Rightarrow> []
        | Some (kind, key) \<Rightarrow> [insert_agent \<lparr> ag_order_item = item_id, ag_active_key = Some key, ag_state = Agent_Pending,
              ag_password = None, ag_remote_user = None, ag_domain = None, ag_attempts = 0, ag_next_attempt_at = 0, ag_error = None \<rparr>])"

definition line_extras ::
  "shelf \<Rightarrow> upgrade_quote option \<Rightarrow> (agent_kind \<times> string) option \<Rightarrow> order_line \<Rightarrow> db stmt list" where
  "line_extras sh upgrade agent l =
     (let s = ol_sellable l
      in service_statements upgrade agent (ol_id l)
         @ (if ol_reserve l then [reserve_sale (sl_id s) (ol_id l) (ci_quantity (ol_cart l))] else [])
         @ (if sl_type s = Download_Component then [insert_snapshots sh (ol_id l) (sl_id s) (sl_product s)] else []))"

definition line_statements ::
  "shelf \<Rightarrow> string \<Rightarrow> upgrade_quote option \<Rightarrow> (agent_kind \<times> string) option \<Rightarrow> order_line \<Rightarrow> db stmt list" where
  "line_statements sh order_id upgrade agent l =
     insert_item sh (new_item order_id l) # line_extras sh upgrade agent l"

definition created_event :: "string \<Rightarrow> order_event_row" where
  "created_event order_id = \<lparr> oe_order = order_id, oe_type = ''order_created'', oe_from = None, oe_to = None, oe_version = None \<rparr>"

definition order_statements :: "order_row \<Rightarrow> coupon_use_row option \<Rightarrow> db stmt list" where
  "order_statements x coupon =
     (case coupon of
        None \<Rightarrow> [insert_order x]
      | Some c \<Rightarrow> [claim_coupon (cu_id c) (cu_used c), insert_order_claimed (cu_id c) x])"

definition log_statements :: "cart \<Rightarrow> order_ids \<Rightarrow> order_row \<Rightarrow> db stmt list" where
  "log_statements ca ids x =
     event_when (\<lambda>_. True) (created_event (o_id x))
     # (case ca_session ca of
          None \<Rightarrow> []
        | Some session \<Rightarrow> [insert_visit \<lparr> ce_id = id_visit ids, ce_type = ''order_created'', ce_session = session,
                             ce_order = Some (o_id x), ce_amount = Some (o_total x), ce_created_at = o_created_at x \<rparr>])"

definition coupon_statements ::
  "order_ids \<Rightarrow> order_row \<Rightarrow> coupon_use_row option \<Rightarrow> string \<Rightarrow> store_coupon_price \<Rightarrow> bool \<Rightarrow> db stmt list" where
  "coupon_statements ids x coupon identity priced withheld =
     (case coupon of
        None \<Rightarrow> []
      | Some c \<Rightarrow>
          insert_redemption \<lparr> cr_id = id_redemption ids, cr_coupon = cu_id c, cr_order = o_id x, cr_user = o_user x,
                              cr_email = identity, cr_status = Redemption_Reserved \<rparr> (o_created_at x)
          # (case cu_purpose c of
               Standard \<Rightarrow> []
             | Promotion purpose \<Rightarrow>
                 mark_promotion (o_id x) purpose (cu_referrer c) (if withheld then 0 else sp_reward priced)
                 # map (\<lambda>(i, d, reward). mark_item_reward i (if withheld then 0 else reward)) (sp_lines priced)))"

definition place_statements ::
  "shelf \<Rightarrow> cart \<Rightarrow> order_ids \<Rightarrow> order_row \<Rightarrow> upgrade_quote option \<Rightarrow> (agent_kind \<times> string) option \<Rightarrow> order_line list
   \<Rightarrow> coupon_use_row option \<Rightarrow> string \<Rightarrow> store_coupon_price \<Rightarrow> bool \<Rightarrow> db stmt list" where
  "place_statements sh ca ids x upgrade agent lines coupon identity priced withheld =
     order_statements x coupon
     @ concat (map (line_statements sh (o_id x) upgrade agent) lines)
     @ log_statements ca ids x
     @ coupon_statements ids x coupon identity priced withheld"

definition order_failure :: "upgrade_quote option \<Rightarrow> coupon_use_row option \<Rightarrow> failure \<Rightarrow> failure" where
  "order_failure upgrade coupon e =
     (if e = DbAbort ''owned_code_stock_unavailable'' then DomainError ''inventory_unavailable'' 409
      else if upgrade \<noteq> None \<and> e = DbAbort ''gpt_upgrade_orders.active_key'' then DomainError ''upgrade_existing_order'' 409
      else if coupon \<noteq> None then DomainError ''coupon_unavailable'' 409 else e)"

definition order_reply_of :: "order_row \<Rightarrow> order_reply" where
  "order_reply_of x = \<lparr> or_id = o_id x, or_number = o_number x, or_status = Pending_Payment, or_total = o_total x,
     or_currency = o_currency x, or_decimals = o_decimals x, or_expires_at = o_expires_at x, or_duplicate = False \<rparr>"

text \<open>
  The address a coupon is used under, the coupon, the price and whether the reward of its
  referrer is withheld.
\<close>

definition coupon_identity :: "cart \<Rightarrow> visitor \<Rightarrow> string option" where
  "coupon_identity ca vi = (if vi_email vi \<noteq> None then vi_email vi else ca_email ca)"

definition cart_coupon :: "db \<Rightarrow> cart \<Rightarrow> visitor \<Rightarrow> int \<Rightarrow> coupon_use_row option result" where
  "cart_coupon db ca vi now =
     (if ca_coupon ca = '''' then Inr None
      else if coupon_identity ca vi = None then Inl (DomainError ''contact_email_required'' 400)
      else and_then (load_coupon db (ca_coupon ca) (vi_user vi) (coupon_identity ca vi) now) (\<lambda>c. Inr (Some c)))"

definition reward_withheld ::
  "shelf \<Rightarrow> db \<Rightarrow> cart \<Rightarrow> visitor \<Rightarrow> coupon_use_row option \<Rightarrow> store_coupon_price \<Rightarrow> int \<Rightarrow> bool" where
  "reward_withheld sh db ca vi coupon priced now \<longleftrightarrow>
     (case coupon of
        None \<Rightarrow> False
      | Some c \<Rightarrow> cu_purpose c = Promotion Referral
          \<and> (case cu_referrer c of None \<Rightarrow> False
             | Some referrer \<Rightarrow> referral_reward_withheld sh db referrer (vi_user vi) (ca_email ca) (vi_ip vi) (sp_reward priced) now))"

definition quote_in_time :: "upgrade_quote option \<Rightarrow> int \<Rightarrow> unit result" where
  "quote_in_time upgrade now = (case upgrade of None \<Rightarrow> Inr () | Some q \<Rightarrow> open_upgrade_quote q now)"

definition order_expiry :: "shelf \<Rightarrow> upgrade_quote option \<Rightarrow> int \<Rightarrow> int" where
  "order_expiry sh upgrade now =
     (let due = now + fst (snd (load_order_policy sh))
      in case upgrade of None \<Rightarrow> due | Some q \<Rightarrow> min due (uq_expires_at q))"

definition agent_price_kept :: "(agent_kind \<times> string) option \<Rightarrow> order_line list \<Rightarrow> int \<Rightarrow> bool" where
  "agent_price_kept agent lines discount \<longleftrightarrow>
     (case agent of None \<Rightarrow> True
      | Some (kind, key) \<Rightarrow> discount = 0 \<and> lines \<noteq> [] \<and> sl_price (ol_sellable (hd lines)) = agent_access_price kind)"

text \<open>Everything that is decided before the batch: its order and statements, from what was read.\<close>

definition plan_order ::
  "(string \<Rightarrow> 'k::linorder) \<Rightarrow> shelf \<Rightarrow> db \<Rightarrow> cart \<Rightarrow> visitor \<Rightarrow> order_ids \<Rightarrow> upgrade_quote option
   \<Rightarrow> (agent_kind \<times> string) option \<Rightarrow> int \<Rightarrow> (order_row \<times> coupon_use_row option \<times> db stmt list) result" where
  "plan_order collate sh db ca vi ids upgrade agent now =
     and_then (check_lines sh db ca vi upgrade now (id_items ids) 0 (ca_items ca)) (\<lambda>lines.
     and_then (assert_single_currency (map pricing_line_of lines)) (\<lambda>_.
     and_then (cart_coupon db ca vi now) (\<lambda>coupon.
     and_then (price_order collate sh db coupon lines) (\<lambda>(priced, lines).
       if \<not> agent_price_kept agent lines (sp_discount priced) then Inl (DomainError ''agent_access_price_invalid'' 409)
       else and_then (quote_in_time upgrade now) (\<lambda>_.
         let x = new_order ca vi ids coupon lines (sp_discount priced) (order_expiry sh upgrade now) now;
             withheld = reward_withheld sh db ca vi coupon priced now;
             identity = (case coupon_identity ca vi of None \<Rightarrow> '''' | Some m \<Rightarrow> m)
         in Inr (x, coupon, place_statements sh ca ids x upgrade agent lines coupon identity priced withheld))))))"

definition admit_order :: "shelf \<Rightarrow> db \<Rightarrow> visitor \<Rightarrow> unit result" where
  "admit_order sh db vi =
     (if vi_user vi = None \<and> \<not> fst (load_order_policy sh) then Inl (DomainError ''guest_checkout_disabled'' 403)
      else (case vi_channel vi of
              None \<Rightarrow> Inr ()
            | Some c \<Rightarrow> demand (channel_open db c) (DomainError ''payment_channel_unavailable'' 404)))"

definition create_order ::
  "(db \<Rightarrow> db) \<Rightarrow> (string \<Rightarrow> 'k::linorder) \<Rightarrow> shelf \<Rightarrow> order_ids \<Rightarrow> int \<Rightarrow> cart \<Rightarrow> visitor \<Rightarrow> counters \<times> db
   \<Rightarrow> order_reply result \<times> counters \<times> db" where
  "create_order env collate sh ids now ca vi = (\<lambda>(t, db).
     if vi_user vi = None \<and> ca_email ca = None then (Inl (DomainError ''contact_email_required'' 400), t, db)
     else case find_order_by_key db (ca_key ca) of
       Some x \<Rightarrow> (replay_order ca vi x, t, db)
     | None \<Rightarrow>
         (case claim_new_order_budget db (vi_ip vi) (ca_email ca) now t of
            (Inl e, t) \<Rightarrow> (Inl e, t, db)
          | (Inr _, t) \<Rightarrow>
              (case and_then (admit_order sh db vi) (\<lambda>_. prepare_upgrade_checkout sh ca now) of
                 Inl e \<Rightarrow> (Inl e, t, db)
               | Inr upgrade \<Rightarrow>
                   (case prepare_agent_checkout sh ca (vi_user vi) db of
                      (Inl e, db) \<Rightarrow> (Inl e, t, db)
                    | (Inr agent, db) \<Rightarrow>
                        (case plan_order collate sh db ca vi ids upgrade agent now of
                           Inl e \<Rightarrow> (Inl e, t, db)
                         | Inr (x, coupon, ss) \<Rightarrow>
                             (let db = env db
                              in case run_batch ss db of
                                   Inl e \<Rightarrow> (Inl (order_failure upgrade coupon e), t, db)
                                 | Inr (db, _) \<Rightarrow> (Inr (order_reply_of x), t, db)))))))"

end
