(* ===== verification/Placed_Orders.thy ===== *)
theory Placed_Orders
  imports Checkout
begin

text \<open>
  What a checkout leaves in the tables: the order it places is its cart, line by line and sum by
  sum, and what it sells from owned stock is reserved for it and no longer available.
\<close>

section \<open>What the statements of a checkout write\<close>

lemma checkout_leaves [leaves]:
  "(\<And>d x. T (d \<lparr> coupon_uses := x \<rparr>) = T d) \<Longrightarrow> leaves T (claim_coupon i used)"
  "(\<And>d x. T (d \<lparr> shop_orders := x \<rparr>) = T d) \<Longrightarrow> leaves T (insert_order x)"
  "(\<And>d x. T (d \<lparr> shop_orders := x \<rparr>) = T d) \<Longrightarrow> leaves T (insert_order_claimed c x)"
  "(\<And>d x. T (d \<lparr> order_items := x \<rparr>) = T d) \<Longrightarrow> leaves T (insert_item sh it)"
  "(\<And>d x. T (d \<lparr> upgrades := x \<rparr>) = T d) \<Longrightarrow> leaves T drop_dead_upgrades"
  "(\<And>d x. T (d \<lparr> upgrades := x \<rparr>) = T d) \<Longrightarrow> leaves T (insert_upgrade u)"
  "(\<And>d x. T (d \<lparr> agents := x \<rparr>) = T d) \<Longrightarrow> leaves T (insert_agent a)"
  "(\<And>d x. T (d \<lparr> snapshots := x \<rparr>) = T d) \<Longrightarrow> leaves T (insert_snapshots sh i c p)"
  "(\<And>d x. T (d \<lparr> commerce_events := x \<rparr>) = T d) \<Longrightarrow> leaves T (insert_visit e)"
  "(\<And>d x. T (d \<lparr> redemptions := x \<rparr>) = T d) \<Longrightarrow> leaves T (insert_redemption r now)"
  "(\<And>d x. T (d \<lparr> shop_orders := x \<rparr>) = T d) \<Longrightarrow> leaves T (mark_promotion i purpose ref w)"
  "(\<And>d x. T (d \<lparr> order_items := x \<rparr>) = T d) \<Longrightarrow> leaves T (mark_item_reward i w)"
  by (auto simp: leaves_def claim_coupon_def insert_order_def insert_order_claimed_def insert_item_def
      drop_dead_upgrades_def insert_upgrade_def insert_agent_def insert_snapshots_def insert_visit_def
      insert_redemption_def mark_promotion_def mark_item_reward_def Let_def split: if_splits option.splits)

lemma service_leaves:
  assumes "\<And>d x. T (d \<lparr> upgrades := x \<rparr>) = T d" "\<And>d x. T (d \<lparr> agents := x \<rparr>) = T d"
  shows "\<forall>s\<in>set (service_statements upgrade agent i). leaves T s"
  unfolding service_statements_def using assms by (auto split: option.splits intro!: leaves)

lemma log_statements_leave:
  assumes "\<And>d x. T (d \<lparr> order_events := x \<rparr>) = T d" "\<And>d x. T (d \<lparr> commerce_events := x \<rparr>) = T d"
  shows "\<forall>s\<in>set (log_statements ca ids x). leaves T s"
  unfolding log_statements_def using assms by (auto split: option.splits intro!: leaves)

lemma coupon_statements_leave:
  assumes "\<And>d x. T (d \<lparr> redemptions := x \<rparr>) = T d" "\<And>d x. T (d \<lparr> shop_orders := x \<rparr>) = T d"
    "\<And>d x. T (d \<lparr> order_items := x \<rparr>) = T d"
  shows "\<forall>s\<in>set (coupon_statements ids x coupon m p w). leaves T s"
  unfolding coupon_statements_def using assms by (auto split: option.splits coupon_purpose.splits intro!: leaves)

lemma line_extras_leave:
  assumes "\<And>d x. T (d \<lparr> stock := x \<rparr>) = T d" "\<And>d x. T (d \<lparr> snapshots := x \<rparr>) = T d"
    "\<And>d x. T (d \<lparr> upgrades := x \<rparr>) = T d" "\<And>d x. T (d \<lparr> agents := x \<rparr>) = T d"
  shows "\<forall>s\<in>set (line_extras sh upgrade agent l). leaves T s"
  using assms service_leaves [OF assms(3,4)] by (auto simp: line_extras_def Let_def split: if_splits intro!: leaves)

lemma line_statements_leave:
  assumes "\<And>d x. T (d \<lparr> order_items := x \<rparr>) = T d" "\<And>d x. T (d \<lparr> stock := x \<rparr>) = T d"
    "\<And>d x. T (d \<lparr> snapshots := x \<rparr>) = T d"
    "\<And>d x. T (d \<lparr> upgrades := x \<rparr>) = T d" "\<And>d x. T (d \<lparr> agents := x \<rparr>) = T d"
  shows "\<forall>s\<in>set (concat (map (line_statements sh i upgrade agent) ls)). leaves T s"
  using line_extras_leave [OF assms(2-5)] assms(1) by (auto simp: line_statements_def intro!: leaves)

lemma order_statements_leave:
  assumes "\<And>d x. T (d \<lparr> shop_orders := x \<rparr>) = T d" "\<And>d x. T (d \<lparr> coupon_uses := x \<rparr>) = T d"
  shows "\<forall>s\<in>set (order_statements x coupon). leaves T s"
  unfolding order_statements_def using assms by (auto split: option.splits intro!: leaves)

lemma batch_append_leaves:
  assumes "batch_from n (ss @ ts) db = Inr (db', cs)"
  obtains d m c1 c2 where "batch_from n ss db = Inr (d, c1)" "batch_from m ts d = Inr (db', c2)" "m = last (n # c1)"
  using assms unfolding batch_append by blast

text \<open>A table that only one part of the batch writes.\<close>

lemma place_parts:
  assumes "run_batch (place_statements sh ca ids x upgrade agent lines coupon m p w) d = Inr (db', cs)"
  obtains d1 d2 d3 n1 n2 n3 c1 c2 c3 c4 where
    "batch_from 0 (order_statements x coupon) d = Inr (d1, c1)"
    "batch_from n1 (concat (map (line_statements sh (o_id x) upgrade agent) lines)) d1 = Inr (d2, c2)"
    "batch_from n2 (log_statements ca ids x) d2 = Inr (d3, c3)"
    "batch_from n3 (coupon_statements ids x coupon m p w) d3 = Inr (db', c4)"
  using assms unfolding place_statements_def run_batch_def by (elim batch_append_leaves) (rule that, assumption+)

lemma insert_order_Inr:
  "insert_order x n d = Inr (d', c) \<Longrightarrow> d' = d \<lparr> shop_orders := shop_orders d @ [x] \<rparr>
     \<and> find_order d (o_id x) = None \<and> 0 \<le> o_subtotal x \<and> 0 \<le> o_discount x \<and> 0 \<le> o_total x
     \<and> user_known d (o_user x)
     \<and> (\<forall>y\<in>set (shop_orders d). o_key x \<noteq> None \<longrightarrow> o_key y \<noteq> o_key x)"
  by (auto simp: insert_order_def find_order_def sql_first_None sql_exists_def list_ex_iff split: if_splits)

lemma insert_item_Inr:
  "insert_item sh it n d = Inr (d', c) \<Longrightarrow> d' = d \<lparr> order_items := order_items d @ [it] \<rparr>
     \<and> find_order d (oi_order it) \<noteq> None \<and> item_checked it \<and> oi_id it \<notin> oi_id ` set (order_items d)
     \<and> \<not> owned_stock_missing sh it d"
  by (auto simp: insert_item_def sql_exists_def list_ex_iff split: if_splits)

text \<open>One line: its item, then statements that leave orders and items alone.\<close>

lemma line_Inr:
  assumes "batch_from n (line_statements sh i upgrade agent l) d = Inr (d', cs)"
  shows "order_items d' = order_items d @ [new_item i l] \<and> shop_orders d' = shop_orders d
     \<and> find_order d i \<noteq> None \<and> item_checked (new_item i l) \<and> ol_id l \<notin> oi_id ` set (order_items d)"
proof -
  from assms obtain d1 c c' where s: "insert_item sh (new_item i l) n d = Inr (d1, c)"
    "batch_from c (line_extras sh upgrade agent l) d1 = Inr (d', c')"
    unfolding line_statements_def by (elim batch_ConsE) (rule that)
  have "order_items d' = order_items d1" "shop_orders d' = shop_orders d1"
    by (rule leaves_batch [OF s(2) line_extras_leave]; simp)+
  with insert_item_Inr [OF s(1)] show ?thesis by (simp add: new_item_def Let_def)
qed

lemma lines_Inr:
  "batch_from n (concat (map (line_statements sh i upgrade agent) ls)) d = Inr (d', cs) \<Longrightarrow>
     order_items d' = order_items d @ map (new_item i) ls \<and> shop_orders d' = shop_orders d
     \<and> (ls \<noteq> [] \<longrightarrow> find_order d i \<noteq> None) \<and> (\<forall>l\<in>set ls. item_checked (new_item i l))
     \<and> distinct (map ol_id ls) \<and> ol_id ` set ls \<inter> oi_id ` set (order_items d) = {}"
proof (induction ls arbitrary: n d cs)
  case Nil
  then show ?case by simp
next
  case (Cons l ls)
  from Cons.prems obtain d1 m c1 c2 where b: "batch_from n (line_statements sh i upgrade agent l) d = Inr (d1, c1)"
    "batch_from m (concat (map (line_statements sh i upgrade agent) ls)) d1 = Inr (d', c2)"
    unfolding list.map concat.simps by (elim batch_append_leaves) (rule that)
  have o: "oi_id (new_item i l) = ol_id l" by (simp add: new_item_def Let_def)
  from line_Inr [OF b(1)] Cons.IH [OF b(2)] o show ?case by auto
qed

text \<open>The coupon and the order; with a coupon that was lost no order is written.\<close>

lemma order_part:
  assumes "batch_from 0 (order_statements x coupon) d = Inr (d1, cs)" and "find_order d (o_id x) = None"
    and "find_order d1 (o_id x) \<noteq> None"
  shows "shop_orders d1 = shop_orders d @ [x]" and "0 \<le> o_subtotal x \<and> 0 \<le> o_discount x \<and> 0 \<le> o_total x"
    and "user_known d (o_user x)" and "o_key x \<noteq> None \<Longrightarrow> \<forall>y\<in>set (shop_orders d). o_key y \<noteq> o_key x"
    and "coupon = None \<Longrightarrow> coupon_uses d1 = coupon_uses d"
    and "coupon = Some c \<Longrightarrow> sql_changes (claimable (cu_id c) (cu_used c)) (coupon_uses d) = 1
           \<and> coupon_uses d1 = sql_update (claimable (cu_id c) (cu_used c)) count_use (coupon_uses d)"
proof -
  have "\<exists>e. insert_order x (case coupon of None \<Rightarrow> 0 | Some c \<Rightarrow> 1) e = Inr (d1, 1)
      \<and> shop_orders e = shop_orders d \<and> users e = users d
      \<and> (case coupon of None \<Rightarrow> e = d
         | Some c \<Rightarrow> sql_changes (claimable (cu_id c) (cu_used c)) (coupon_uses d) = 1
             \<and> coupon_uses e = sql_update (claimable (cu_id c) (cu_used c)) count_use (coupon_uses d))"
  proof (cases coupon)
    case None
    with assms(1) have "insert_order x 0 d = Inr (d1, hd cs)"
      unfolding order_statements_def by (auto split: sum.splits prod.splits)
    with None show ?thesis by (auto simp: insert_order_def split: if_splits)
  next
    case (Some c)
    let ?e = "d \<lparr> coupon_uses := sql_update (claimable (cu_id c) (cu_used c)) count_use (coupon_uses d) \<rparr>"
    let ?n = "sql_changes (claimable (cu_id c) (cu_used c)) (coupon_uses d)"
    from assms(1) obtain k where i: "insert_order_claimed (cu_id c) x ?n ?e = Inr (d1, k)"
      unfolding order_statements_def Some by (auto simp: claim_coupon_def split: sum.splits prod.splits)
    have "find_order ?e (o_id x) = None" using assms(2) by (simp add: find_order_def)
    with i assms(3) have n: "?n = 1" and j: "insert_order x ?n ?e = Inr (d1, k)"
      by (auto simp: insert_order_claimed_def split: if_splits)
    from j n have "insert_order x 1 ?e = Inr (d1, 1)" by (auto simp: insert_order_def split: if_splits)
    with Some n show ?thesis by (intro exI [of _ ?e]) simp
  qed
  then obtain e where e: "insert_order x (case coupon of None \<Rightarrow> 0 | Some c \<Rightarrow> 1) e = Inr (d1, 1)"
    "shop_orders e = shop_orders d" "users e = users d"
    "case coupon of None \<Rightarrow> e = d
         | Some c \<Rightarrow> sql_changes (claimable (cu_id c) (cu_used c)) (coupon_uses d) = 1
             \<and> coupon_uses e = sql_update (claimable (cu_id c) (cu_used c)) count_use (coupon_uses d)" by blast
  note i = insert_order_Inr [OF e(1)]
  have "find_user e = find_user d" using e(3) by (simp add: find_user_def fun_eq_iff)
  then have u: "user_known e = user_known d" by (auto simp: user_known_def fun_eq_iff split: option.split)
  show "shop_orders d1 = shop_orders d @ [x]" "0 \<le> o_subtotal x \<and> 0 \<le> o_discount x \<and> 0 \<le> o_total x"
    "user_known d (o_user x)" "o_key x \<noteq> None \<Longrightarrow> \<forall>y\<in>set (shop_orders d). o_key y \<noteq> o_key x"
    using i e(2) u by simp_all
  show "coupon = None \<Longrightarrow> coupon_uses d1 = coupon_uses d" using i e(4) by simp
  show "coupon = Some c \<Longrightarrow> sql_changes (claimable (cu_id c) (cu_used c)) (coupon_uses d) = 1
           \<and> coupon_uses d1 = sql_update (claimable (cu_id c) (cu_used c)) count_use (coupon_uses d)"
    using i e(4) by simp
qed

text \<open>Marking the rewards touches the items that are named, and only their rewards.\<close>

lemma mark_rewards:
  "batch_from n (map (\<lambda>(i, e, r). mark_item_reward i (if w then 0 else r)) ps) d = Inr (d', cs) \<Longrightarrow>
     \<exists>f. order_items d' = map (\<lambda>it. it \<lparr> oi_reward := f it \<rparr>) (order_items d)
       \<and> (\<forall>it. oi_id it \<notin> fst ` set ps \<longrightarrow> f it = oi_reward it)"
proof (induction ps arbitrary: n d cs)
  case Nil
  then show ?case by (intro exI [of _ oi_reward]) simp
next
  case (Cons p ps)
  obtain i e r where p: "p = (i, e, r)" by (cases p)
  let ?r = "if w then 0 else r"
  from Cons.prems obtain d1 c cs' where s: "mark_item_reward i ?r n d = Inr (d1, c)"
    "batch_from c (map (\<lambda>(i, e, r). mark_item_reward i (if w then 0 else r)) ps) d1 = Inr (d', cs')"
    unfolding p list.map prod.case by (elim batch_ConsE) (rule that)
  from Cons.IH [OF s(2)] obtain f where f: "order_items d' = map (\<lambda>it. it \<lparr> oi_reward := f it \<rparr>) (order_items d1)"
    "\<forall>it. oi_id it \<notin> fst ` set ps \<longrightarrow> f it = oi_reward it" by blast
  let ?g = "\<lambda>it. if oi_id it = i then it \<lparr> oi_reward := ?r \<rparr> else it"
  have "order_items d1 = map ?g (order_items d)" using s(1) by (auto simp: mark_item_reward_def sql_update_def)
  then have "order_items d' = map (\<lambda>it. it \<lparr> oi_reward := f (?g it) \<rparr>) (order_items d)" using f(1) by simp
  moreover have "oi_id it \<notin> fst ` set (p # ps) \<longrightarrow> f (?g it) = oi_reward it" for it using f(2) p by simp
  ultimately show ?case by (intro exI [of _ "\<lambda>it. f (?g it)"]) simp
qed

definition promoted :: "coupon_use_row option \<Rightarrow> store_coupon_price \<Rightarrow> bool \<Rightarrow> order_row \<Rightarrow> order_row" where
  "promoted coupon p w x =
     (case coupon of
        None \<Rightarrow> x
      | Some c \<Rightarrow>
          (case cu_purpose c of
             Standard \<Rightarrow> x
           | Promotion purpose \<Rightarrow>
               x \<lparr> o_promotion := Some purpose, o_referrer := cu_referrer c, o_referral_reward := (if w then 0 else sp_reward p) \<rparr>))"

lemma coupon_part:
  assumes "batch_from n (coupon_statements ids x coupon m p w) d = Inr (d', cs)"
  shows "shop_orders d' = sql_update (\<lambda>y. o_id y = o_id x)
           (\<lambda>y. y \<lparr> o_promotion := o_promotion (promoted coupon p w y), o_referrer := o_referrer (promoted coupon p w y),
                  o_referral_reward := o_referral_reward (promoted coupon p w y) \<rparr>) (shop_orders d)"
    and "\<exists>f. order_items d' = map (\<lambda>it. it \<lparr> oi_reward := f it \<rparr>) (order_items d)
       \<and> (\<forall>it. oi_id it \<notin> fst ` set (sp_lines p) \<longrightarrow> f it = oi_reward it)"
    and "coupon = None \<Longrightarrow> redemptions d' = redemptions d"
    and "coupon = Some c \<Longrightarrow> (\<exists>k e. insert_redemption \<lparr> cr_id = id_redemption ids, cr_coupon = cu_id c, cr_order = o_id x,
             cr_user = o_user x, cr_email = m, cr_status = Redemption_Reserved \<rparr> (o_created_at x) n d = Inr (e, k)
             \<and> redemptions d' = redemptions e)"
proof -
  have same: "sql_update P (\<lambda>y. y) t = t" for P :: "order_row \<Rightarrow> bool" and t by (simp add: sql_update_def)
  let ?Q1 = "shop_orders d' = sql_update (\<lambda>y. o_id y = o_id x)
           (\<lambda>y. y \<lparr> o_promotion := o_promotion (promoted coupon p w y), o_referrer := o_referrer (promoted coupon p w y),
                  o_referral_reward := o_referral_reward (promoted coupon p w y) \<rparr>) (shop_orders d)"
  let ?Q2 = "\<exists>f. order_items d' = map (\<lambda>it. it \<lparr> oi_reward := f it \<rparr>) (order_items d)
       \<and> (\<forall>it. oi_id it \<notin> fst ` set (sp_lines p) \<longrightarrow> f it = oi_reward it)"
  let ?Q3 = "coupon = None \<longrightarrow> redemptions d' = redemptions d"
  let ?Q4 = "\<forall>c. coupon = Some c \<longrightarrow> (\<exists>k e. insert_redemption \<lparr> cr_id = id_redemption ids, cr_coupon = cu_id c, cr_order = o_id x,
             cr_user = o_user x, cr_email = m, cr_status = Redemption_Reserved \<rparr> (o_created_at x) n d = Inr (e, k)
             \<and> redemptions d' = redemptions e)"
  have id2: "\<exists>f. order_items d = map (\<lambda>it. it \<lparr> oi_reward := f it \<rparr>) (order_items d)
       \<and> (\<forall>it. oi_id it \<notin> K \<longrightarrow> f it = oi_reward it)" for d K
    by (intro exI [of _ oi_reward]) simp
  have "?Q1 \<and> ?Q2 \<and> ?Q3 \<and> ?Q4"
  proof (cases coupon)
    case None
    with assms have "d' = d" by (simp add: coupon_statements_def)
    with None show ?thesis using id2 by (simp add: promoted_def same)
  next
    case (Some c)
    let ?r = "\<lparr> cr_id = id_redemption ids, cr_coupon = cu_id c, cr_order = o_id x, cr_user = o_user x, cr_email = m,
        cr_status = Redemption_Reserved \<rparr>"
    let ?rest = "case cu_purpose c of
               Standard \<Rightarrow> []
             | Promotion purpose \<Rightarrow>
                 mark_promotion (o_id x) purpose (cu_referrer c) (if w then 0 else sp_reward p)
                 # map (\<lambda>(i, d, reward). mark_item_reward i (if w then 0 else reward)) (sp_lines p)"
    from assms obtain e k cs' where s: "insert_redemption ?r (o_created_at x) n d = Inr (e, k)"
      "batch_from k ?rest e = Inr (d', cs')"
      unfolding coupon_statements_def Some option.case by (elim batch_ConsE) (rule that)
    have e: "shop_orders e = shop_orders d" "order_items e = order_items d"
      using s(1) by (auto simp: insert_redemption_def split: option.splits if_splits)
    have rest: "redemptions d' = redemptions e"
      by (rule leaves_batch [OF s(2)]) (auto split: coupon_purpose.splits intro!: leaves)
    show ?thesis
    proof (cases "cu_purpose c")
      case Standard
      with s(2) have "d' = e" by simp
      with Standard Some e rest s(1) show ?thesis using id2 [of d] by (auto simp: promoted_def same)
    next
      case (Promotion purpose)
      let ?f = "\<lambda>y. y \<lparr> o_promotion := Some purpose, o_referrer := cu_referrer c,
          o_referral_reward := (if w then 0 else sp_reward p) \<rparr>"
      from s(2) Promotion obtain e' k' cs'' where t:
        "mark_promotion (o_id x) purpose (cu_referrer c) (if w then 0 else sp_reward p) k e = Inr (e', k')"
        "batch_from k' (map (\<lambda>(i, d, reward). mark_item_reward i (if w then 0 else reward)) (sp_lines p)) e' = Inr (d', cs'')"
        by (simp only: coupon_purpose.case) (elim batch_ConsE, rule that)
      have e': "shop_orders e' = sql_update (\<lambda>y. o_id y = o_id x) ?f (shop_orders e)" "order_items e' = order_items e"
        using t(1) by (simp_all add: mark_promotion_def Let_def) auto
      have "shop_orders d' = shop_orders e'" by (rule leaves_batch [OF t(2)]) (auto intro!: leaves)
      then have "?Q1" using e e' Some Promotion by (simp add: promoted_def)
      moreover have "?Q2" using mark_rewards [OF t(2)] e e' by simp
      ultimately show ?thesis using Some s(1) rest by blast
    qed
  qed
  then show ?Q1 ?Q2 "coupon = None \<Longrightarrow> redemptions d' = redemptions d"
    "coupon = Some c \<Longrightarrow> (\<exists>k e. insert_redemption \<lparr> cr_id = id_redemption ids, cr_coupon = cu_id c, cr_order = o_id x,
             cr_user = o_user x, cr_email = m, cr_status = Redemption_Reserved \<rparr> (o_created_at x) n d = Inr (e, k)
             \<and> redemptions d' = redemptions e)" by blast+
qed

section \<open>What is planned\<close>

definition coupons_valid :: "db \<Rightarrow> bool" where
  "coupons_valid db \<longleftrightarrow> (\<forall>c\<in>set (coupon_uses db). coupon_values_valid (coupon_terms c))"

text \<open>A line is what the cart asks for, at the price of its plan.\<close>

definition line_of_cart ::
  "shelf \<Rightarrow> db \<Rightarrow> visitor \<Rightarrow> upgrade_quote option \<Rightarrow> cart_item \<Rightarrow> order_line \<Rightarrow> bool" where
  "line_of_cart sh db vi upgrade it l \<longleftrightarrow> ol_cart l = it
     \<and> load_sellable_item sh db (ci_item it) (vi_channel vi) = Inr (ol_sellable l)
     \<and> (ol_unit_price l, ol_source l) = unit_price sh vi upgrade it (ol_sellable l)
     \<and> ol_subtotal l = ol_unit_price l * ci_quantity it"

lemma check_line_Inr:
  assumes "check_line sh db ca vi upgrade now i it = Inr l"
  shows "line_of_cart sh db vi upgrade it l" and "ol_discount l = 0" and "ol_id l = i"
    and "check_stock sh db (ol_sellable l) (ci_quantity it) now = Inr (ol_reserve l)"
    and "assert_purchase_limit db (vi_user vi) (ca_email ca) (ol_sellable l) (ci_quantity it) = Inr ()"
    and "validate_quantity (ol_sellable l) (ci_quantity it) (snd (snd (load_order_policy sh))) = Inr ()"
  using assms by (auto simp: check_line_def line_of_cart_def and_then_Inr case_prod_unfold Let_def)

lemma check_lines_Inr:
  "check_lines sh db ca vi upgrade now item_ids k its = Inr ls \<Longrightarrow>
     list_all2 (line_of_cart sh db vi upgrade) its ls \<and> (\<forall>l\<in>set ls. ol_discount l = 0)
     \<and> (\<forall>l\<in>set ls. check_stock sh db (ol_sellable l) (ci_quantity (ol_cart l)) now = Inr (ol_reserve l))"
proof (induction its arbitrary: k ls)
  case Nil
  then show ?case by simp
next
  case (Cons it its)
  from Cons.prems obtain l ls' where "check_line sh db ca vi upgrade now (item_ids k) it = Inr l"
    "check_lines sh db ca vi upgrade now item_ids (Suc k) its = Inr ls'" "ls = l # ls'"
    by (auto simp: and_then_Inr)
  with check_line_Inr [OF this(1)] Cons.IH [OF this(2)] show ?case by (auto simp: line_of_cart_def)
qed

lemma load_coupon_Inr:
  assumes "load_coupon db code user email now = Inr c"
  shows "c \<in> set (coupon_uses db)" and "under_limit c" and "coupon_running now c" and "cu_code c = code"
    and "case cu_customer_limit c of None \<Rightarrow> True | Some l \<Rightarrow> customer_uses db user email (cu_id c) < l"
    and "assert_promotion_owner db c user email = Inr ()"
  using assms by (auto simp: load_coupon_def and_then_Inr not_le split: if_splits option.splits dest: sql_first_Some)

lemma cart_coupon_Inr: "cart_coupon db ca vi now = Inr (Some c) \<Longrightarrow>
    load_coupon db (ca_coupon ca) (vi_user vi) (coupon_identity ca vi) now = Inr c"
  by (auto simp: cart_coupon_def and_then_Inr split: if_splits)

text \<open>Pricing gives the lines their discounts and changes nothing else.\<close>

lemma price_order_Inr:
  assumes "price_order collate sh db coupon lines = Inr (p, lines')" and "distinct (map ol_id lines)"
    and "\<forall>l\<in>set lines. 0 \<le> ol_subtotal l \<and> ol_discount l = 0"
    and "\<forall>c\<in>set_option coupon. coupon_values_valid (coupon_terms c)"
  shows "map (ol_discount_update (\<lambda>_. 0)) lines' = lines" and "sp_discount p = sum_list (map ol_discount lines')"
    and "0 \<le> sp_discount p" and "sp_discount p \<le> sum_list (map ol_subtotal lines)"
proof -
  from assms(1) obtain ps where ps: "price_store_coupon collate (product_tags sh) (stored_scope db coupon)
      (map_option coupon_terms coupon) (map pricing_line_of lines) = Inr (p, ps)" "lines' = map2 take_discount lines ps"
    by (auto simp: price_order_def and_then_Inr)
  have i: "map pl_id (map pricing_line_of lines) = map ol_id lines" by (simp add: pricing_line_of_def Let_def)
  have s: "map pl_subtotal (map pricing_line_of lines) = map ol_subtotal lines" by (simp add: pricing_line_of_def Let_def)
  have "discounts_fit p (map pricing_line_of lines) ps"
    by (rule price_store_coupon_fits [OF ps(1)])
      (use assms(2-4) in \<open>auto simp: pricing_line_of_def Let_def o_def split: option.splits\<close>)
  then have f: "map (pl_discount_update (\<lambda>_. 0)) ps = map pricing_line_of lines"
    "sp_discount p = sum_list (map pl_discount ps)" "0 \<le> sp_discount p" "sp_discount p \<le> sum_list (map ol_subtotal lines)"
    unfolding discounts_fit_def s by auto
  have len: "length ps = length lines" using f(1) map_eq_imp_length_eq by fastforce
  have "map ol_discount lines' = map pl_discount ps"
    unfolding ps(2) by (rule nth_equalityI) (use len in \<open>auto simp: take_discount_def\<close>)
  with f show "sp_discount p = sum_list (map ol_discount lines')" "0 \<le> sp_discount p"
    "sp_discount p \<le> sum_list (map ol_subtotal lines)" by simp_all
  show "map (ol_discount_update (\<lambda>_. 0)) lines' = lines"
    unfolding ps(2) by (rule nth_equalityI) (use len assms(3) in \<open>auto simp: take_discount_def\<close>)
qed

lemma price_order_same:
  assumes "price_order collate sh db coupon lines = Inr (p, lines')" and "\<forall>l\<in>set lines. ol_discount l = 0"
  shows "map (ol_discount_update (\<lambda>_. 0)) lines' = lines"
proof -
  from assms(1) obtain ps where ps: "price_store_coupon collate (product_tags sh) (stored_scope db coupon)
      (map_option coupon_terms coupon) (map pricing_line_of lines) = Inr (p, ps)" "lines' = map2 take_discount lines ps"
    by (auto simp: price_order_def and_then_Inr)
  have "length ps = length lines" using price_store_coupon_ids [OF ps(1)] map_eq_imp_length_eq by fastforce
  then show ?thesis unfolding ps(2) by (intro nth_equalityI) (use assms(2) in \<open>auto simp: take_discount_def\<close>)
qed

lemma plan_order_Inr:
  assumes "plan_order collate sh db ca vi ids upgrade agent now = Inr (x, coupon, ss)"
  obtains lines lines' p m w where
    "check_lines sh db ca vi upgrade now (id_items ids) 0 (ca_items ca) = Inr lines"
    "assert_single_currency (map pricing_line_of lines) = Inr ()"
    "cart_coupon db ca vi now = Inr coupon" "price_order collate sh db coupon lines = Inr (p, lines')"
    "x = new_order ca vi ids coupon lines' (sp_discount p) (order_expiry sh upgrade now) now"
    "ss = place_statements sh ca ids x upgrade agent lines' coupon m p w"
    "coupon = None \<or> coupon_identity ca vi = Some m"
proof -
  from assms obtain lines lines' p where r: "check_lines sh db ca vi upgrade now (id_items ids) 0 (ca_items ca) = Inr lines"
    "assert_single_currency (map pricing_line_of lines) = Inr ()"
    "cart_coupon db ca vi now = Inr coupon" "price_order collate sh db coupon lines = Inr (p, lines')"
    "x = new_order ca vi ids coupon lines' (sp_discount p) (order_expiry sh upgrade now) now"
    "ss = place_statements sh ca ids x upgrade agent lines' coupon
       (case coupon_identity ca vi of None \<Rightarrow> '''' | Some m \<Rightarrow> m) p (reward_withheld sh db ca vi coupon p now)"
    by (auto simp: plan_order_def and_then_Inr Let_def split: if_splits)
  moreover have "coupon = None \<or> coupon_identity ca vi = Some (case coupon_identity ca vi of None \<Rightarrow> '''' | Some m \<Rightarrow> m)"
    using r(3) by (auto simp: cart_coupon_def split: if_splits)
  ultimately show thesis using that by blast
qed

text \<open>The database a checkout meets: others may have run since it looked for a pending agent order.\<close>

definition met :: "(db \<Rightarrow> db) \<Rightarrow> shelf \<Rightarrow> cart \<Rightarrow> visitor \<Rightarrow> db \<Rightarrow> db" where
  "met env sh ca vi db = env (snd (prepare_agent_checkout sh ca (vi_user vi) db))"

lemma create_order_Inr:
  assumes "create_order env collate sh ids now ca vi (t, db) = (Inr r, t', db')" and "\<not> or_duplicate r"
  obtains upgrade agent x coupon ss cs where
    "prepare_upgrade_checkout sh ca now = Inr upgrade"
    "plan_order collate sh (snd (prepare_agent_checkout sh ca (vi_user vi) db)) ca vi ids upgrade agent now = Inr (x, coupon, ss)"
    "run_batch ss (met env sh ca vi db) = Inr (db', cs)" "r = order_reply_of x" "find_order_by_key db (ca_key ca) = None"
proof -
  note c = assms(1) [unfolded create_order_def prod.case]
  have "\<not> (vi_user vi = None \<and> ca_email ca = None)"
  proof
    assume h: "vi_user vi = None \<and> ca_email ca = None"
    from c [unfolded if_P [OF h]] show False by simp
  qed
  note c = c [unfolded if_not_P [OF this]]
  have k: "find_order_by_key db (ca_key ca) = None"
  proof (cases "find_order_by_key db (ca_key ca)")
    case (Some y)
    with c have "replay_order ca vi y = Inr r" by simp
    with assms(2) show ?thesis by (auto simp: replay_order_def split: if_splits)
  qed
  obtain b t1 where b: "claim_new_order_budget db (vi_ip vi) (ca_email ca) now t = (b, t1)" by fastforce
  obtain ag d where a: "prepare_agent_checkout sh ca (vi_user vi) db = (ag, d)" by fastforce
  note c = c [unfolded k b a option.case prod.case]
  from c obtain z where "b = Inr z" by (cases b) auto
  note c = c [unfolded this sum.case]
  from c obtain upgrade where u: "and_then (admit_order sh db vi) (\<lambda>_. prepare_upgrade_checkout sh ca now) = Inr upgrade"
    by (cases "and_then (admit_order sh db vi) (\<lambda>_. prepare_upgrade_checkout sh ca now)") auto
  note c = c [unfolded u sum.case]
  from c obtain agent where g: "ag = Inr agent" by (cases ag) auto
  note c = c [unfolded g sum.case]
  from c obtain x coupon ss where p: "plan_order collate sh d ca vi ids upgrade agent now = Inr (x, coupon, ss)"
    by (cases "plan_order collate sh d ca vi ids upgrade agent now") auto
  note c = c [unfolded p sum.case prod.case Let_def]
  from c obtain cs where "run_batch ss (env d) = Inr (db', cs)" "r = order_reply_of x"
    by (cases "run_batch ss (env d)") auto
  with k u p a show thesis using that by (auto simp: met_def and_then_Inr)
qed

section \<open>What a placed order looks like\<close>

lemma price_order_ids:
  assumes "price_order collate sh db coupon lines = Inr (p, lines')"
  shows "fst ` set (sp_lines p) \<subseteq> ol_id ` set lines"
proof -
  from assms obtain ps where s: "price_store_coupon collate (product_tags sh) (stored_scope db coupon)
      (map_option coupon_terms coupon) (map pricing_line_of lines) = Inr (p, ps)" by (auto simp: price_order_def and_then_Inr)
  have "pl_id ` set (map pricing_line_of lines) = ol_id ` set lines" by (auto simp: pricing_line_of_def Let_def image_iff)
  with price_store_coupon_ids [OF s] show ?thesis by simp
qed

lemma placed:
  assumes "run_batch (place_statements sh ca ids x upgrade agent lines coupon m p w) d = Inr (db', cs)"
    and "find_order d (o_id x) = None" and "lines \<noteq> []" and "fst ` set (sp_lines p) \<subseteq> ol_id ` set lines"
  shows "shop_orders db' = shop_orders d @ [x \<lparr> o_promotion := o_promotion (promoted coupon p w x),
            o_referrer := o_referrer (promoted coupon p w x),
            o_referral_reward := o_referral_reward (promoted coupon p w x) \<rparr>]"
    and "\<exists>items. order_items db' = order_items d @ items
       \<and> map (oi_reward_update (\<lambda>_. 0)) items = map (new_item (o_id x)) lines"
    and "distinct (map ol_id lines)" and "\<forall>l\<in>set lines. item_checked (new_item (o_id x) l)"
    and "0 \<le> o_subtotal x \<and> 0 \<le> o_discount x \<and> 0 \<le> o_total x"
    and "o_key x \<noteq> None \<Longrightarrow> \<forall>y\<in>set (shop_orders d). o_key y \<noteq> o_key x"
proof -
  from place_parts [OF assms(1)] obtain d1 d2 d3 n1 n2 n3 c1 c2 c3 c4 where b:
    "batch_from 0 (order_statements x coupon) d = Inr (d1, c1)"
    "batch_from n1 (concat (map (line_statements sh (o_id x) upgrade agent) lines)) d1 = Inr (d2, c2)"
    "batch_from n2 (log_statements ca ids x) d2 = Inr (d3, c3)"
    "batch_from n3 (coupon_statements ids x coupon m p w) d3 = Inr (db', c4)" .
  note l = lines_Inr [OF b(2)]
  have f: "find_order d1 (o_id x) \<noteq> None" using l assms(3) by blast
  note part = order_part [OF b(1) assms(2) f]
  have o3: "shop_orders d3 = shop_orders d @ [x]" using leaves_batch [OF b(3) log_statements_leave, of shop_orders] l part(1) by simp
  have i1: "order_items d1 = order_items d" by (rule leaves_batch [OF b(1) order_statements_leave]; simp)
  have i3: "order_items d3 = order_items d @ map (new_item (o_id x)) lines"
    using leaves_batch [OF b(3) log_statements_leave, of order_items] l i1 by simp
  have "\<forall>y\<in>set (shop_orders d). o_id y \<noteq> o_id x" using assms(2) by (simp add: find_order_def sql_first_None)
  then have "sql_update (\<lambda>y. o_id y = o_id x) g (shop_orders d @ [x]) = shop_orders d @ [g x]" for g
    by (induction "shop_orders d") (auto simp: sql_update_def intro: map_idI)
  with coupon_part(1) [OF b(4)] o3
  show "shop_orders db' = shop_orders d @ [x \<lparr> o_promotion := o_promotion (promoted coupon p w x),
            o_referrer := o_referrer (promoted coupon p w x),
            o_referral_reward := o_referral_reward (promoted coupon p w x) \<rparr>]" by simp
  from coupon_part(2) [OF b(4)] obtain g where g: "order_items db' = map (\<lambda>it. it \<lparr> oi_reward := g it \<rparr>) (order_items d3)"
    "\<forall>it. oi_id it \<notin> fst ` set (sp_lines p) \<longrightarrow> g it = oi_reward it" by blast
  have "g it = oi_reward it" if "it \<in> set (order_items d)" for it
  proof -
    have "oi_id it \<notin> ol_id ` set lines" using that l i1 by auto
    with assms(4) g(2) show ?thesis by blast
  qed
  then have "map (\<lambda>it. it \<lparr> oi_reward := g it \<rparr>) (order_items d) = order_items d"
    by (intro map_idI) simp
  with g(1) i3 have "order_items db' = order_items d @ map (\<lambda>it. it \<lparr> oi_reward := g it \<rparr>) (map (new_item (o_id x)) lines)" by simp
  moreover have "map (oi_reward_update (\<lambda>_. 0)) (map (\<lambda>it. it \<lparr> oi_reward := g it \<rparr>) (map (new_item (o_id x)) lines))
      = map (new_item (o_id x)) lines" by (simp add: new_item_def Let_def)
  ultimately show "\<exists>items. order_items db' = order_items d @ items
       \<and> map (oi_reward_update (\<lambda>_. 0)) items = map (new_item (o_id x)) lines" by blast
  show "distinct (map ol_id lines)" "\<forall>l\<in>set lines. item_checked (new_item (o_id x) l)" using l by auto
  show "0 \<le> o_subtotal x \<and> 0 \<le> o_discount x \<and> 0 \<le> o_total x"
    "o_key x \<noteq> None \<Longrightarrow> \<forall>y\<in>set (shop_orders d). o_key y \<noteq> o_key x" using part by auto
qed

section \<open>Orders and their carts\<close>

text \<open>An item row is what the cart asks for, at the price and on the terms of its plan.\<close>

definition sold_as :: "shelf \<Rightarrow> db \<Rightarrow> visitor \<Rightarrow> upgrade_quote option \<Rightarrow> cart_item \<Rightarrow> item_row \<Rightarrow> bool" where
  "sold_as sh db vi upgrade it i \<longleftrightarrow> oi_sellable i = ci_item it \<and> oi_quantity i = ci_quantity it
     \<and> oi_renewed_from i = ci_renewed it \<and> oi_subtotal i = oi_unit_price i * oi_quantity i \<and> 0 \<le> oi_discount i
     \<and> (\<exists>s. load_sellable_item sh db (ci_item it) (vi_channel vi) = Inr s
          \<and> (oi_unit_price i, oi_source i) = unit_price sh vi upgrade it s
          \<and> oi_component_type i = sl_type s \<and> oi_duration i = sl_duration s
          \<and> oi_usage_limit i = sl_usage_limit s \<and> oi_access_limit i = sl_access_limit s)"

text \<open>The order adds up and is the buyer's, unpaid.\<close>

definition order_of_cart :: "cart \<Rightarrow> visitor \<Rightarrow> order_row \<Rightarrow> item_row list \<Rightarrow> bool" where
  "order_of_cart ca vi x items \<longleftrightarrow> (\<forall>i\<in>set items. oi_order i = o_id x)
     \<and> o_subtotal x = sum_list (map oi_subtotal items) \<and> o_discount x = sum_list (map oi_discount items)
     \<and> o_total x = o_subtotal x - o_discount x \<and> 0 \<le> o_discount x \<and> o_discount x \<le> o_subtotal x
     \<and> o_status x = Pending_Payment \<and> o_version x = 1 \<and> o_paid x = 0
     \<and> o_user x = vi_user vi \<and> o_email x = ca_email ca \<and> o_key x = Some (ca_key ca)
     \<and> o_pricing_channel x = vi_channel vi"

lemma load_sellable_id: "load_sellable_item sh db i channel = Inr s \<Longrightarrow> sl_id s = i"
  by (auto simp: load_sellable_item_def on_sale_def sellable_of_def Let_def dest!: sql_first_Some split: option.splits if_splits)

lemma line_sold_as:
  assumes "line_of_cart sh db vi upgrade it l0" and "l \<lparr> ol_discount := 0 \<rparr> = l0" and "item_checked (new_item oid l)"
    and "i \<lparr> oi_reward := 0 \<rparr> = new_item oid l"
  shows "sold_as sh db vi upgrade it i"
proof -
  have l: "ol_cart l = ol_cart l0" "ol_sellable l = ol_sellable l0" "ol_unit_price l = ol_unit_price l0"
    "ol_source l = ol_source l0" "ol_subtotal l = ol_subtotal l0" using assms(2) by auto
  from arg_cong [OF assms(4), of oi_sellable] arg_cong [OF assms(4), of oi_quantity] arg_cong [OF assms(4), of oi_renewed_from]
    arg_cong [OF assms(4), of oi_subtotal] arg_cong [OF assms(4), of oi_unit_price] arg_cong [OF assms(4), of oi_source]
    arg_cong [OF assms(4), of oi_discount] arg_cong [OF assms(4), of oi_component_type] arg_cong [OF assms(4), of oi_duration]
    arg_cong [OF assms(4), of oi_usage_limit] arg_cong [OF assms(4), of oi_access_limit]
  have i: "oi_sellable i = sl_id (ol_sellable l)" "oi_quantity i = ci_quantity (ol_cart l)"
    "oi_renewed_from i = ci_renewed (ol_cart l)" "oi_subtotal i = ol_subtotal l" "oi_unit_price i = ol_unit_price l"
    "oi_source i = ol_source l" "oi_discount i = ol_discount l" "oi_component_type i = sl_type (ol_sellable l)"
    "oi_duration i = sl_duration (ol_sellable l)" "oi_usage_limit i = sl_usage_limit (ol_sellable l)"
    "oi_access_limit i = sl_access_limit (ol_sellable l)" by (simp_all add: new_item_def Let_def)
  have "0 \<le> ol_discount l" using assms(3) by (simp add: item_checked_def new_item_def Let_def)
  with assms(1) i l show ?thesis using load_sellable_id by (auto simp: sold_as_def line_of_cart_def)
qed

lemma new_items:
  assumes "map (oi_reward_update (\<lambda>_. 0)) items = map (new_item oid) lines"
  shows "\<forall>i\<in>set items. oi_order i = oid" and "map oi_subtotal items = map ol_subtotal lines"
    and "map oi_discount items = map ol_discount lines" and "length items = length lines"
proof -
  have f: "map (f \<circ> oi_reward_update (\<lambda>_. 0)) items = map (f \<circ> new_item oid) lines" for f :: "item_row \<Rightarrow> 'b"
    using arg_cong [OF assms, of "map f"] by simp
  show "map oi_subtotal items = map ol_subtotal lines" "map oi_discount items = map ol_discount lines"
    using f [of oi_subtotal] f [of oi_discount] by (simp_all add: o_def new_item_def Let_def)
  show "length items = length lines" using assms map_eq_imp_length_eq by fastforce
  have "map oi_order items = map (\<lambda>_. oid) lines" using f [of oi_order] by (simp add: o_def new_item_def Let_def)
  then show "\<forall>i\<in>set items. oi_order i = oid" by (induction items lines rule: list_induct2') auto
qed

lemma new_items_map:
  assumes "map (oi_reward_update (\<lambda>_. 0)) items = map (new_item oid) lines"
    and "\<And>i r. f (i \<lparr> oi_reward := r \<rparr>) = f i"
  shows "map f items = map (\<lambda>l. f (new_item oid l)) lines"
  using arg_cong [OF assms(1), of "map f"] assms(2) by (simp add: o_def)

lemma map_all_True: "map P xs = map Q ys \<Longrightarrow> \<forall>y\<in>set ys. Q y \<Longrightarrow> \<forall>x\<in>set xs. P x"
  by (induction xs ys rule: list_induct2') auto

lemma load_sellable_plan:
  assumes "load_sellable_item sh db i channel = Inr s"
  shows "\<exists>p\<in>set (sh_plans sh). pn_id p = sl_id s"
proof -
  from assms obtain p e where "on_sale sh i = Some (p, e)" "s = sellable_of sh db channel p e"
    by (auto simp: load_sellable_item_def Let_def split: option.splits if_splits)
  then have "p \<in> set (sh_plans sh)" "pn_id p = sl_id s"
    by (auto simp: on_sale_def sellable_of_def split: option.splits dest: sql_first_Some)
  then show ?thesis by blast
qed

lemma check_lines_ids:
  "check_lines sh db ca vi upgrade now item_ids k its = Inr ls \<Longrightarrow> \<forall>l\<in>set ls. \<exists>j. ol_id l = item_ids j"
proof (induction its arbitrary: k ls)
  case (Cons it its)
  then show ?case using check_line_Inr(3) by (fastforce simp: and_then_Inr)
qed simp

text \<open>Everything that is known of a checkout that placed an order.\<close>

lemma checkout_placed:
  assumes "create_order env collate sh ids now ca vi (t, db) = (Inr r, t', db')" and "\<not> or_duplicate r"
    and "find_order (met env sh ca vi db) (id_order ids) = None"
  obtains upgrade agent lines lines' p m w coupon x cs where
    "prepare_upgrade_checkout sh ca now = Inr upgrade"
    "check_lines sh (snd (prepare_agent_checkout sh ca (vi_user vi) db)) ca vi upgrade now (id_items ids) 0 (ca_items ca) = Inr lines"
    "cart_coupon (snd (prepare_agent_checkout sh ca (vi_user vi) db)) ca vi now = Inr coupon"
    "price_order collate sh (snd (prepare_agent_checkout sh ca (vi_user vi) db)) coupon lines = Inr (p, lines')"
    "x = new_order ca vi ids coupon lines' (sp_discount p) (order_expiry sh upgrade now) now"
    "run_batch (place_statements sh ca ids x upgrade agent lines' coupon m p w) (met env sh ca vi db) = Inr (db', cs)"
    "coupon = None \<or> coupon_identity ca vi = Some m" "r = order_reply_of x"
    "map (ol_discount_update (\<lambda>_. 0)) lines' = lines" "lines' \<noteq> []" "fst ` set (sp_lines p) \<subseteq> ol_id ` set lines'"
    "find_order (met env sh ca vi db) (o_id x) = None"
proof -
  let ?d = "snd (prepare_agent_checkout sh ca (vi_user vi) db)"
  obtain upgrade agent x coupon ss cs where c: "prepare_upgrade_checkout sh ca now = Inr upgrade"
    "plan_order collate sh ?d ca vi ids upgrade agent now = Inr (x, coupon, ss)"
    "run_batch ss (met env sh ca vi db) = Inr (db', cs)" "r = order_reply_of x" by (rule create_order_Inr [OF assms(1,2)])
  obtain lines lines' p m w where l: "check_lines sh ?d ca vi upgrade now (id_items ids) 0 (ca_items ca) = Inr lines"
    "assert_single_currency (map pricing_line_of lines) = Inr ()" "cart_coupon ?d ca vi now = Inr coupon"
    "price_order collate sh ?d coupon lines = Inr (p, lines')"
    "x = new_order ca vi ids coupon lines' (sp_discount p) (order_expiry sh upgrade now) now"
    "ss = place_statements sh ca ids x upgrade agent lines' coupon m p w"
    "coupon = None \<or> coupon_identity ca vi = Some m" by (rule plan_order_Inr [OF c(2)])
  have "\<forall>l\<in>set lines. ol_discount l = 0" using check_lines_Inr [OF l(1)] by blast
  from price_order_same [OF l(4) this] have z: "map (ol_discount_update (\<lambda>_. 0)) lines' = lines" .
  have "lines \<noteq> []" using l(2) by (auto simp: assert_single_currency_def)
  with z have ne: "lines' \<noteq> []" by auto
  have "map (ol_id \<circ> ol_discount_update (\<lambda>_. 0)) lines' = map ol_id lines" using arg_cong [OF z, of "map ol_id"] by simp
  then have "map ol_id lines' = map ol_id lines" by (simp add: o_def)
  then have "ol_id ` set lines' = ol_id ` set lines" by (metis list.set_map)
  with price_order_ids [OF l(4)] have "fst ` set (sp_lines p) \<subseteq> ol_id ` set lines'" by simp
  moreover have "find_order (met env sh ca vi db) (o_id x) = None" using assms(3) l(5) by (simp add: new_order_def)
  ultimately show thesis using that [OF c(1) l(1,3,4,5) c(3) [unfolded l(6)] l(7) c(4) z ne] by blast
qed

lemma priced_totals:
  assumes l: "check_lines sh db ca vi upgrade now is k its = Inr lines" and p: "price_order collate sh db coupon lines = Inr (p, lines')"
    and z: "map (ol_discount_update (\<lambda>_. 0)) lines' = lines" and i: "distinct (map ol_id lines')"
    and n: "\<forall>l\<in>set lines'. item_checked (new_item oid l)" and c: "cart_coupon db ca vi now = Inr coupon" "coupons_valid db"
  shows "sp_discount p = sum_list (map ol_discount lines')" and "0 \<le> sp_discount p" and "sp_discount p \<le> sum_list (map ol_subtotal lines')"
proof -
  have same: "map ol_id lines = map ol_id lines'" "map ol_subtotal lines = map ol_subtotal lines'" by (auto simp: z [symmetric])
  have "\<forall>l\<in>set lines. 0 \<le> ol_subtotal l \<and> ol_discount l = 0"
    using n by (auto simp: z [symmetric] item_checked_def new_item_def Let_def)
  moreover have "\<forall>c\<in>set_option coupon. coupon_values_valid (coupon_terms c)"
    using cart_coupon_Inr load_coupon_Inr(1) c by (fastforce simp: coupons_valid_def)
  ultimately show "sp_discount p = sum_list (map ol_discount lines')" and "0 \<le> sp_discount p"
    and "sp_discount p \<le> sum_list (map ol_subtotal lines')"
    using price_order_Inr(2-4) [OF p] i same by auto
qed

lemma lines_sold_as:
  assumes c: "list_all2 (line_of_cart sh db vi upgrade) its lines" and z: "map (ol_discount_update (\<lambda>_. 0)) lines' = lines"
    and i: "map (oi_reward_update (\<lambda>_. 0)) items = map (new_item oid) lines'" and n: "\<forall>l\<in>set lines'. item_checked (new_item oid l)"
  shows "list_all2 (sold_as sh db vi upgrade) its items"
  unfolding list_all2_conv_all_nth
proof (intro conjI allI impI)
  note len = new_items(4) [OF i] list_all2_lengthD [OF c] arg_cong [OF z, of length, unfolded length_map]
  then show "length its = length items" by simp
  fix k assume k: "k < length its"
  with len have k': "k < length lines'" "k < length items" by simp_all
  show "sold_as sh db vi upgrade (its ! k) (items ! k)"
  proof (rule line_sold_as)
    show "line_of_cart sh db vi upgrade (its ! k) (lines ! k)" using c k by (rule list_all2_nthD)
    show "(lines' ! k) \<lparr> ol_discount := 0 \<rparr> = lines ! k" using k'(1) by (simp add: z [symmetric])
    show "item_checked (new_item oid (lines' ! k))" using n k' by simp
    show "(items ! k) \<lparr> oi_reward := 0 \<rparr> = new_item oid (lines' ! k)" using arg_cong [OF i, of "\<lambda>l. l ! k"] k' by simp
  qed
qed

text \<open>
  C4. A checkout that succeeds adds exactly one order, which is its cart: one item per line, in
  the order of the cart, each at the price and on the terms of its plan; discounts and sums add
  up, nothing is paid yet, the reply shows the order, and no other order has its key. Others may
  run between the checks and the batch.
\<close>

lemma order_matches_cart:
  assumes "create_order env collate sh ids now ca vi (t, db) = (Inr r, t', db')" and "\<not> or_duplicate r"
    and "find_order (met env sh ca vi db) (id_order ids) = None" and "coupons_valid (met id sh ca vi db)"
  shows "\<exists>x items upgrade. shop_orders db' = shop_orders (met env sh ca vi db) @ [x]
     \<and> order_items db' = order_items (met env sh ca vi db) @ items
     \<and> prepare_upgrade_checkout sh ca now = Inr upgrade
     \<and> list_all2 (sold_as sh (met id sh ca vi db) vi upgrade) (ca_items ca) items
     \<and> order_of_cart ca vi x items \<and> r = order_reply_of x
     \<and> (\<forall>y\<in>set (shop_orders (met env sh ca vi db)). o_key y \<noteq> Some (ca_key ca))"
proof -
  obtain upgrade agent lines lines' p m w coupon x cs where c:
    "prepare_upgrade_checkout sh ca now = Inr upgrade"
    "check_lines sh (snd (prepare_agent_checkout sh ca (vi_user vi) db)) ca vi upgrade now (id_items ids) 0 (ca_items ca) = Inr lines"
    "cart_coupon (snd (prepare_agent_checkout sh ca (vi_user vi) db)) ca vi now = Inr coupon"
    "price_order collate sh (snd (prepare_agent_checkout sh ca (vi_user vi) db)) coupon lines = Inr (p, lines')"
    "x = new_order ca vi ids coupon lines' (sp_discount p) (order_expiry sh upgrade now) now"
    "run_batch (place_statements sh ca ids x upgrade agent lines' coupon m p w) (met env sh ca vi db) = Inr (db', cs)"
    "coupon = None \<or> coupon_identity ca vi = Some m" "r = order_reply_of x"
    "map (ol_discount_update (\<lambda>_. 0)) lines' = lines" "lines' \<noteq> []" "fst ` set (sp_lines p) \<subseteq> ol_id ` set lines'"
    "find_order (met env sh ca vi db) (o_id x) = None" by (rule checkout_placed [OF assms(1-3)])
  have d: "snd (prepare_agent_checkout sh ca (vi_user vi) db) = met id sh ca vi db" by (simp add: met_def)
  note pl = placed [OF c(6) c(12) c(10) c(11)]
  obtain items where items: "order_items db' = order_items (met env sh ca vi db) @ items"
    "map (oi_reward_update (\<lambda>_. 0)) items = map (new_item (o_id x)) lines'" using pl(2) by blast
  let ?x = "x \<lparr> o_promotion := o_promotion (promoted coupon p w x), o_referrer := o_referrer (promoted coupon p w x),
            o_referral_reward := o_referral_reward (promoted coupon p w x) \<rparr>"
  have cl: "list_all2 (line_of_cart sh (met id sh ca vi db) vi upgrade) (ca_items ca) lines"
    using check_lines_Inr [OF c(2) [unfolded d]] by blast
  note pr = priced_totals [OF c(2) [unfolded d] c(4) [unfolded d] c(9) pl(3,4) c(3) [unfolded d] assms(4)]
  have xs: "o_subtotal x = sum_list (map ol_subtotal lines')" "o_discount x = sp_discount p"
    "o_total x = o_subtotal x - o_discount x" by (simp_all add: c(5) new_order_def order_subtotal_def)
  have "order_of_cart ca vi ?x items"
    using new_items [OF items(2)] pr xs by (auto simp: order_of_cart_def c(5) new_order_def)
  moreover note lines_sold_as [OF cl c(9) items(2) pl(4)]
  moreover have "r = order_reply_of ?x" by (simp add: c(8) order_reply_of_def)
  moreover have "\<forall>y\<in>set (shop_orders (met env sh ca vi db)). o_key y \<noteq> Some (ca_key ca)"
    using pl(6) by (simp add: c(5) new_order_def)
  ultimately show ?thesis using pl(1) items(1) c(1) by blast
qed

section \<open>Owned stock\<close>

lemma sql_changes_update: "sql_changes Q (sql_update P f t) = sql_changes (\<lambda>r. if P r then Q (f r) else Q r) t"
  by (induction t) (auto simp: sql_changes_def)

lemma sql_changes_split: "sql_changes P t = sql_changes (\<lambda>r. P r \<and> Q r) t + sql_changes (\<lambda>r. P r \<and> \<not> Q r) t"
  by (induction t) (auto simp: sql_changes_def)

lemma sql_changes_cong: "(\<And>r. r \<in> set t \<Longrightarrow> P r = Q r) \<Longrightarrow> sql_changes P t = sql_changes Q t"
  unfolding sql_changes_def by (metis (mono_tags, lifting) filter_cong)

lemma sql_changes_keys:
  assumes "distinct (map k t)" and "distinct ks" and "set ks \<subseteq> k ` set t"
  shows "sql_changes (\<lambda>r. k r \<in> set ks) t = length ks"
proof -
  have "k ` set (filter (\<lambda>r. k r \<in> set ks) t) = set ks" using assms(3) by auto
  moreover have "distinct (map k (filter (\<lambda>r. k r \<in> set ks) t))" using assms(1) by (rule distinct_map_filter)
  ultimately show ?thesis unfolding sql_changes_def
    using assms(2) distinct_card by (metis length_map list.set_map)
qed

definition names_stock :: "db \<Rightarrow> string \<Rightarrow> bool" where
  "names_stock db i \<longleftrightarrow> (\<exists>s\<in>set (stock db). st_order_item s = Some i)"

lemma names_stock_none: "\<not> names_stock db i \<Longrightarrow> reserved_count db i = 0"
  by (auto simp: names_stock_def reserved_count_def sql_changes_zero)

text \<open>With enough stock, reserving takes exactly what is asked for, from what is available.\<close>

lemma reserve_sale_exact:
  assumes r: "reserve_sale c i q n d = Inr (d', k)" and ids: "distinct (map st_id (stock d))"
    and q: "0 \<le> q" "q \<le> int (available_stock d c)" and i: "\<not> names_stock d i"
  shows "reserved_count d' i = q" and "available_stock d c = available_stock d' c + nat q"
    and "\<And>e. e \<noteq> c \<Longrightarrow> available_stock d' e = available_stock d e"
    and "\<And>j. j \<noteq> i \<Longrightarrow> reserved_count d' j = reserved_count d j"
    and "\<And>j. j \<noteq> i \<Longrightarrow> names_stock d' j \<Longrightarrow> names_stock d j" and "map st_id (stock d') = map st_id (stock d)"
proof -
  let ?free = "\<lambda>s. st_sellable s = c \<and> st_status s = Stock_Available"
  let ?rows = "take (nat q) (sql_ordered (\<lambda>s. (st_created_at s, st_id s)) ?free (stock d))"
  let ?hit = "\<lambda>s. st_id s \<in> set (map st_id ?rows)"
  let ?f = "\<lambda>s. s \<lparr> st_status := Stock_Reserved, st_order_item := Some i \<rparr>"
  have d': "stock d' = sql_update ?hit ?f (stock d)" using r by (auto simp: reserve_sale_def Let_def)
  have sub: "set ?rows \<subseteq> {s \<in> set (stock d). ?free s}" using set_take_subset by fastforce
  have free: "?free s" if "s \<in> set (stock d)" "?hit s" for s
  proof -
    from that(2) obtain p where "p \<in> set ?rows" "st_id p = st_id s" by auto
    with sub have p: "p \<in> set (stock d)" "?free p" "st_id p = st_id s" by auto
    with ids that(1) have "p = s" by (metis keyed_first option.inject)
    with p show ?thesis by simp
  qed
  have len: "length ?rows = nat q"
    using q by (simp add: sql_ordered_def available_stock_def sql_changes_def)
  have "distinct (map st_id (sql_ordered (\<lambda>s. (st_created_at s, st_id s)) ?free (stock d)))"
  proof -
    have "distinct (map st_id (filter ?free (stock d)))" using ids by (rule distinct_map_filter)
    then show ?thesis unfolding sql_ordered_def by (simp add: distinct_map)
  qed
  then have dk: "distinct (map st_id ?rows)" unfolding take_map [symmetric] by (rule distinct_take)
  have hits: "sql_changes ?hit (stock d) = nat q"
    using sql_changes_keys [OF ids dk] sub len by auto
  have "sql_changes (\<lambda>s. st_order_item s = Some i \<and> st_status s = Stock_Reserved) (stock d') = sql_changes ?hit (stock d)"
    unfolding d' sql_changes_update by (rule sql_changes_cong) (use i in \<open>auto simp: names_stock_def\<close>)
  then show "reserved_count d' i = q" using hits q(1) by (simp add: reserved_count_def)
  have a: "available_stock d' e = sql_changes (\<lambda>s. (st_sellable s = e \<and> st_status s = Stock_Available) \<and> \<not> ?hit s) (stock d)" for e
    unfolding available_stock_def d' sql_changes_update by (rule sql_changes_cong) auto
  have "sql_changes (\<lambda>s. ?free s \<and> ?hit s) (stock d) = sql_changes ?hit (stock d)"
    by (rule sql_changes_cong) (use free in blast)
  then have "sql_changes (\<lambda>s. ?free s \<and> ?hit s) (stock d) = nat q" by (rule trans [OF _ hits])
  moreover have "available_stock d c = sql_changes ?free (stock d)" by (simp add: available_stock_def)
  ultimately show "available_stock d c = available_stock d' c + nat q"
    using sql_changes_split [of ?free "stock d" ?hit] by (simp only: a)
  show "available_stock d' e = available_stock d e" if "e \<noteq> c" for e
    unfolding a unfolding available_stock_def using free that by (intro sql_changes_cong) auto
  show "reserved_count d' j = reserved_count d j" if "j \<noteq> i" for j
    unfolding reserved_count_def d' sql_changes_update using free that by (intro arg_cong [of _ _ int] sql_changes_cong) auto
  show "names_stock d j" if "j \<noteq> i" "names_stock d' j" for j
    using that by (auto simp: names_stock_def d' sql_update_def split: if_splits)
  show "map st_id (stock d') = map st_id (stock d)" unfolding d' by (rule sql_update_cong_key) simp
qed

definition owned_component :: "shelf \<Rightarrow> string \<Rightarrow> bool" where
  "owned_component sh c \<longleftrightarrow> c \<in> fst ` set (sh_sale_map sh)"

definition owned_item :: "shelf \<Rightarrow> item_row \<Rightarrow> bool" where
  "owned_item sh i \<longleftrightarrow> oi_component_type i = Stock_Component \<and> owned_component sh (oi_component i)"

text \<open>The items of the sales map are sold from the shop's own codes.\<close>

definition owned_locally :: "shelf \<Rightarrow> bool" where
  "owned_locally sh \<longleftrightarrow> (\<forall>p\<in>set (sh_plans sh). owned_component sh (pn_id p) \<longrightarrow> pn_sourcing p = Local_Source)"

definition line_owned :: "shelf \<Rightarrow> order_line \<Rightarrow> bool" where
  "line_owned sh l \<longleftrightarrow> sl_type (ol_sellable l) = Stock_Component \<and> owned_component sh (sl_id (ol_sellable l))"

lemma check_stock_owned:
  "check_stock sh db s q now = Inr b \<Longrightarrow> b \<longleftrightarrow> sl_type s = Stock_Component \<and> owned_component sh (sl_id s)"
  by (auto simp: check_stock_def and_then_Inr sale_components_def prepare_sale_def owned_component_def split: if_splits)

text \<open>One line takes the stock it sells; the trigger has seen to it that there is enough.\<close>

lemma line_stock:
  assumes b: "batch_from n (line_statements sh i upgrade agent l) d = Inr (d', cs)"
    and ids: "distinct (map st_id (stock d))" and fresh: "\<not> names_stock d (ol_id l)"
    and res: "ol_reserve l = line_owned sh l"
    and plan: "\<exists>p\<in>set (sh_plans sh). pn_id p = sl_id (ol_sellable l)" "owned_locally sh"
    and pend: "sql_exists (\<lambda>x. o_id x = i \<and> o_status x = Pending_Payment) (shop_orders d)"
  shows "map st_id (stock d') = map st_id (stock d)
     \<and> (ol_reserve l \<longrightarrow> reserved_count d' (ol_id l) = ci_quantity (ol_cart l))
     \<and> (\<forall>e. int (available_stock d e) = int (available_stock d' e)
          + (if ol_reserve l \<and> sl_id (ol_sellable l) = e then ci_quantity (ol_cart l) else 0))
     \<and> (\<forall>j. j \<noteq> ol_id l \<longrightarrow> reserved_count d' j = reserved_count d j \<and> (names_stock d' j \<longrightarrow> names_stock d j))"
proof -
  let ?c = "sl_id (ol_sellable l)" and ?q = "ci_quantity (ol_cart l)"
  from b obtain d1 c c' where s: "insert_item sh (new_item i l) n d = Inr (d1, c)"
    "batch_from c (line_extras sh upgrade agent l) d1 = Inr (d', c')"
    unfolding line_statements_def by (elim batch_ConsE) (rule that)
  note it = insert_item_Inr [OF s(1)]
  have st1: "stock d1 = stock d" using it by simp
  show ?thesis
  proof (cases "ol_reserve l")
    case False
    then have "\<forall>s\<in>set (line_extras sh upgrade agent l). leaves stock s"
      using service_leaves [of stock upgrade agent "ol_id l"] by (auto simp: line_extras_def Let_def split: if_splits intro!: leaves)
    from leaves_batch [OF s(2) this] st1 False show ?thesis
      by (simp add: available_stock_def reserved_count_def names_stock_def)
  next
    case True
    let ?snaps = "if sl_type (ol_sellable l) = Download_Component then [insert_snapshots sh (ol_id l) ?c (sl_product (ol_sellable l))] else []"
    have "line_extras sh upgrade agent l = service_statements upgrade agent (ol_id l) @ reserve_sale ?c (ol_id l) ?q # ?snaps"
      using True by (simp add: line_extras_def Let_def)
    with s(2) have "batch_from c (service_statements upgrade agent (ol_id l) @ reserve_sale ?c (ol_id l) ?q # ?snaps) d1 = Inr (d', c')" by simp
    then obtain d2 m c1 c2 where t: "batch_from c (service_statements upgrade agent (ol_id l)) d1 = Inr (d2, c1)"
      "batch_from m (reserve_sale ?c (ol_id l) ?q # ?snaps) d2 = Inr (d', c2)" by (rule batch_append_leaves)
    from t(2) obtain d3 k c3 where u: "reserve_sale ?c (ol_id l) ?q m d2 = Inr (d3, k)" "batch_from k ?snaps d3 = Inr (d', c3)"
      by (elim batch_ConsE) (rule that)
    have st2: "stock d2 = stock d" using leaves_batch [OF t(1) service_leaves, of stock] st1 by simp
    have st3: "stock d' = stock d3" by (rule leaves_batch [OF u(2)]) (auto intro!: leaves)
    have ow: "line_owned sh l" using True res by simp
    have "\<not> owned_stock_missing sh (new_item i l) d" using it by blast
    moreover have "oi_component_type (new_item i l) = Stock_Component" "oi_component (new_item i l) = ?c"
      "oi_order (new_item i l) = i" "oi_quantity (new_item i l) = ?q" "?c \<in> fst ` set (sh_sale_map sh)"
      using ow by (auto simp: new_item_def Let_def line_owned_def owned_component_def)
    moreover have "sql_exists (\<lambda>p. pn_id p = ?c \<and> pn_sourcing p = Local_Source) (sh_plans sh)"
      using plan ow by (auto simp: owned_locally_def line_owned_def sql_exists_def list_ex_iff)
    ultimately have enough: "?q \<le> int (available_stock d ?c)"
      using pend by (simp add: owned_stock_missing_def not_less)
    have pos: "0 \<le> ?q" using it by (simp add: item_checked_def new_item_def Let_def)
    have same: "available_stock d2 = available_stock d" "names_stock d2 = names_stock d" "reserved_count d2 = reserved_count d"
      "available_stock d' = available_stock d3" "names_stock d' = names_stock d3" "reserved_count d' = reserved_count d3"
      using st2 st3 by (simp_all add: available_stock_def names_stock_def reserved_count_def fun_eq_iff)
    note e = reserve_sale_exact [OF u(1), unfolded st2 same, OF ids pos enough fresh]
    have "int (available_stock d e) = int (available_stock d3 e) + (if ?c = e then ?q else 0)" for e
      using e(2) e(3) [of e] pos by (cases "?c = e") auto
    with e True st3 same show ?thesis by simp
  qed
qed

lemma lines_stock:
  assumes "batch_from n (concat (map (line_statements sh i upgrade agent) ls)) d = Inr (d', cs)"
    and "distinct (map st_id (stock d))" and "\<forall>l\<in>set ls. \<not> names_stock d (ol_id l)"
    and "\<forall>l\<in>set ls. ol_reserve l = line_owned sh l \<and> (\<exists>p\<in>set (sh_plans sh). pn_id p = sl_id (ol_sellable l))"
    and "owned_locally sh"
    and "sql_exists (\<lambda>x. o_id x = i \<and> o_status x = Pending_Payment) (shop_orders d)"
  shows "(\<forall>l\<in>set ls. ol_reserve l \<longrightarrow> reserved_count d' (ol_id l) = ci_quantity (ol_cart l))
     \<and> (\<forall>e. int (available_stock d e) = int (available_stock d' e)
          + sum_list (map (\<lambda>l. if ol_reserve l \<and> sl_id (ol_sellable l) = e then ci_quantity (ol_cart l) else 0) ls))
     \<and> (\<forall>j. j \<notin> ol_id ` set ls \<longrightarrow> reserved_count d' j = reserved_count d j)"
  using assms
proof (induction ls arbitrary: n d cs)
  case Nil
  then show ?case by simp
next
  case (Cons l ls)
  from Cons.prems(1) obtain d1 m c1 c2 where b: "batch_from n (line_statements sh i upgrade agent l) d = Inr (d1, c1)"
    "batch_from m (concat (map (line_statements sh i upgrade agent) ls)) d1 = Inr (d', c2)"
    unfolding list.map concat.simps by (elim batch_append_leaves) (rule that)
  have one: "map st_id (stock d1) = map st_id (stock d)
     \<and> (ol_reserve l \<longrightarrow> reserved_count d1 (ol_id l) = ci_quantity (ol_cart l))
     \<and> (\<forall>e. int (available_stock d e) = int (available_stock d1 e)
          + (if ol_reserve l \<and> sl_id (ol_sellable l) = e then ci_quantity (ol_cart l) else 0))
     \<and> (\<forall>j. j \<noteq> ol_id l \<longrightarrow> reserved_count d1 j = reserved_count d j \<and> (names_stock d1 j \<longrightarrow> names_stock d j))"
    by (rule line_stock [OF b(1)]) (use Cons.prems(2-6) in auto)
  have di: "distinct (map ol_id (l # ls))" using lines_Inr [OF Cons.prems(1)] by blast
  have "\<forall>k\<in>set ls. \<not> names_stock d1 (ol_id k)"
  proof
    fix k assume k: "k \<in> set ls"
    with di have "ol_id k \<noteq> ol_id l" by (auto simp: image_iff)
    with one Cons.prems(3) k show "\<not> names_stock d1 (ol_id k)" by auto
  qed
  moreover have "shop_orders d1 = shop_orders d" using line_Inr [OF b(1)] by blast
  ultimately have r: "(\<forall>l\<in>set ls. ol_reserve l \<longrightarrow> reserved_count d' (ol_id l) = ci_quantity (ol_cart l))
     \<and> (\<forall>e. int (available_stock d1 e) = int (available_stock d' e)
          + sum_list (map (\<lambda>l. if ol_reserve l \<and> sl_id (ol_sellable l) = e then ci_quantity (ol_cart l) else 0) ls))
     \<and> (\<forall>j. j \<notin> ol_id ` set ls \<longrightarrow> reserved_count d' j = reserved_count d1 j)"
    using Cons.IH [OF b(2)] one Cons.prems(2,4-6) by simp
  have "ol_id l \<notin> ol_id ` set ls" using di by auto
  with r one show ?case by auto
qed

lemma checked_line_owned:
  assumes c: "check_lines sh db ca vi upgrade now is 0 its = Inr lines" and z: "map (ol_discount_update (\<lambda>_. 0)) lines' = lines"
    and l: "l \<in> set lines'"
  shows "ol_reserve l = line_owned sh l" and "\<exists>p\<in>set (sh_plans sh). pn_id p = sl_id (ol_sellable l)" and "ol_id l \<in> range is"
proof -
  let ?l = "l \<lparr> ol_discount := 0 \<rparr>"
  have z: "?l \<in> set lines" using l by (auto simp: z [symmetric])
  note cl = check_lines_Inr [OF c]
  have "ol_reserve ?l = line_owned sh ?l" using check_stock_owned cl z by (fastforce simp: line_owned_def)
  then show "ol_reserve l = line_owned sh l" by (simp add: line_owned_def)
  obtain it where "line_of_cart sh db vi upgrade it ?l" using cl z by (auto simp: list_all2_conv_all_nth in_set_conv_nth)
  then show "\<exists>p\<in>set (sh_plans sh). pn_id p = sl_id (ol_sellable l)" using load_sellable_plan by (fastforce simp: line_of_cart_def)
  show "ol_id l \<in> range is" using check_lines_ids [OF c] z by fastforce
qed

text \<open>The lines of the batch take what they sell; the rest of the batch leaves the stock alone.\<close>

lemma placed_stock:
  assumes r: "run_batch (place_statements sh ca ids x upgrade agent lines coupon m p w) d = Inr (db', cs)"
    and x: "find_order d (o_id x) = None" "o_status x = Pending_Payment" and "lines \<noteq> []"
    and "distinct (map st_id (stock d))" and "owned_locally sh"
    and "\<forall>l\<in>set lines. ol_reserve l = line_owned sh l \<and> (\<exists>p\<in>set (sh_plans sh). pn_id p = sl_id (ol_sellable l)) \<and> \<not> names_stock d (ol_id l)"
  shows "\<forall>l\<in>set lines. ol_reserve l \<longrightarrow> reserved_count db' (ol_id l) = ci_quantity (ol_cart l)"
    and "int (available_stock d e) = int (available_stock db' e)
          + sum_list (map (\<lambda>l. if ol_reserve l \<and> sl_id (ol_sellable l) = e then ci_quantity (ol_cart l) else 0) lines)"
proof -
  from place_parts [OF r] obtain d1 d2 d3 n1 n2 n3 c1 c2 c3 c4 where b:
    "batch_from 0 (order_statements x coupon) d = Inr (d1, c1)"
    "batch_from n1 (concat (map (line_statements sh (o_id x) upgrade agent) lines)) d1 = Inr (d2, c2)"
    "batch_from n2 (log_statements ca ids x) d2 = Inr (d3, c3)"
    "batch_from n3 (coupon_statements ids x coupon m p w) d3 = Inr (db', c4)" .
  have st: "stock d1 = stock d" "stock d3 = stock d2" "stock db' = stock d3"
    by (rule leaves_batch [OF b(1) order_statements_leave] leaves_batch [OF b(3) log_statements_leave]
          leaves_batch [OF b(4) coupon_statements_leave]; simp)+
  have f1: "find_order d1 (o_id x) \<noteq> None" using lines_Inr [OF b(2)] assms(4) by blast
  have "shop_orders d1 = shop_orders d @ [x]" by (rule order_part [OF b(1) x(1) f1])
  then have pend: "sql_exists (\<lambda>y. o_id y = o_id x \<and> o_status y = Pending_Payment) (shop_orders d1)"
    using x(2) by (simp add: sql_exists_def)
  have "(\<forall>l\<in>set lines. ol_reserve l \<longrightarrow> reserved_count d2 (ol_id l) = ci_quantity (ol_cart l))
     \<and> (\<forall>e. int (available_stock d1 e) = int (available_stock d2 e)
          + sum_list (map (\<lambda>l. if ol_reserve l \<and> sl_id (ol_sellable l) = e then ci_quantity (ol_cart l) else 0) lines))
     \<and> (\<forall>j. j \<notin> ol_id ` set lines \<longrightarrow> reserved_count d2 j = reserved_count d1 j)"
    by (rule lines_stock [OF b(2)]) (use assms(5-7) st pend in \<open>auto simp: names_stock_def\<close>)
  moreover have "available_stock d1 = available_stock d" "available_stock db' = available_stock d2" "reserved_count db' = reserved_count d2"
    using st by (simp_all add: available_stock_def reserved_count_def fun_eq_iff)
  ultimately show "\<forall>l\<in>set lines. ol_reserve l \<longrightarrow> reserved_count db' (ol_id l) = ci_quantity (ol_cart l)"
    and "int (available_stock d e) = int (available_stock db' e)
          + sum_list (map (\<lambda>l. if ol_reserve l \<and> sl_id (ol_sellable l) = e then ci_quantity (ol_cart l) else 0) lines)" by auto
qed

text \<open>The same in terms of the items that were written.\<close>

lemma owned_items:
  assumes i: "map (oi_reward_update (\<lambda>_. 0)) items = map (new_item oid) lines" and r: "\<forall>l\<in>set lines. ol_reserve l = line_owned sh l"
    and h: "\<forall>l\<in>set lines. ol_reserve l \<longrightarrow> reserved_count b (ol_id l) = ci_quantity (ol_cart l)"
  shows "\<forall>i\<in>set items. owned_item sh i \<longrightarrow> reserved_count b (oi_id i) = oi_quantity i"
    and "map (\<lambda>i. if owned_item sh i \<and> oi_component i = e then oi_quantity i else 0) items
      = map (\<lambda>l. if ol_reserve l \<and> sl_id (ol_sellable l) = e then ci_quantity (ol_cart l) else 0) lines" (is "map ?f items = map ?g lines")
proof -
  have n: "owned_item sh (new_item oid l) = line_owned sh l" "oi_component (new_item oid l) = sl_id (ol_sellable l)"
    "oi_quantity (new_item oid l) = ci_quantity (ol_cart l)" "oi_id (new_item oid l) = ol_id l" for l
    by (simp_all add: new_item_def Let_def owned_item_def line_owned_def)
  let ?held = "\<lambda>i. owned_item sh i \<longrightarrow> reserved_count b (oi_id i) = oi_quantity i"
  have "map ?held items = map (\<lambda>l. ?held (new_item oid l)) lines"
    by (rule new_items_map [OF i]) (simp add: owned_item_def)
  moreover have "\<forall>l\<in>set lines. ?held (new_item oid l)" unfolding n using h r by simp
  ultimately show "\<forall>i\<in>set items. ?held i" using map_all_True by blast
  have "map ?f items = map (\<lambda>l. ?f (new_item oid l)) lines" by (rule new_items_map [OF i]) (auto simp: owned_item_def)
  also have "\<dots> = map ?g lines" unfolding n by (rule map_cong [OF refl]) (use r in simp)
  finally show "map ?f items = map ?g lines" .
qed

text \<open>
  C5. What is sold from owned codes is taken from the stock that is there when the order is
  written: every such item has exactly its quantity reserved, and the available stock shrinks by
  what was sold, also when other orders took stock since the cart was checked.
\<close>

lemma owned_stock_sold_once:
  assumes "create_order env collate sh ids now ca vi (t, db) = (Inr r, t', db')" and "\<not> or_duplicate r"
    and "find_order (met env sh ca vi db) (id_order ids) = None"
    and "\<forall>k. \<not> names_stock (met env sh ca vi db) (id_items ids k)"
    and "distinct (map st_id (stock (met env sh ca vi db)))" and "owned_locally sh"
  shows "\<exists>items. order_items db' = order_items (met env sh ca vi db) @ items
     \<and> (\<forall>i\<in>set items. owned_item sh i \<longrightarrow> reserved_count db' (oi_id i) = oi_quantity i)
     \<and> (\<forall>c. int (available_stock (met env sh ca vi db) c) = int (available_stock db' c)
          + sum_list (map (\<lambda>i. if owned_item sh i \<and> oi_component i = c then oi_quantity i else 0) items))"
proof -
  obtain upgrade agent lines lines' p m w coupon x cs where c:
    "prepare_upgrade_checkout sh ca now = Inr upgrade"
    "check_lines sh (snd (prepare_agent_checkout sh ca (vi_user vi) db)) ca vi upgrade now (id_items ids) 0 (ca_items ca) = Inr lines"
    "cart_coupon (snd (prepare_agent_checkout sh ca (vi_user vi) db)) ca vi now = Inr coupon"
    "price_order collate sh (snd (prepare_agent_checkout sh ca (vi_user vi) db)) coupon lines = Inr (p, lines')"
    "x = new_order ca vi ids coupon lines' (sp_discount p) (order_expiry sh upgrade now) now"
    "run_batch (place_statements sh ca ids x upgrade agent lines' coupon m p w) (met env sh ca vi db) = Inr (db', cs)"
    "coupon = None \<or> coupon_identity ca vi = Some m" "r = order_reply_of x"
    "map (ol_discount_update (\<lambda>_. 0)) lines' = lines" "lines' \<noteq> []" "fst ` set (sp_lines p) \<subseteq> ol_id ` set lines'"
    "find_order (met env sh ca vi db) (o_id x) = None" by (rule checkout_placed [OF assms(1-3)])
  note pl = placed [OF c(6) c(12) c(10) c(11)]
  obtain items where items: "order_items db' = order_items (met env sh ca vi db) @ items"
    "map (oi_reward_update (\<lambda>_. 0)) items = map (new_item (o_id x)) lines'" using pl(2) by blast
  have ln: "\<forall>l\<in>set lines'. ol_reserve l = line_owned sh l \<and> (\<exists>p\<in>set (sh_plans sh). pn_id p = sl_id (ol_sellable l))
      \<and> \<not> names_stock (met env sh ca vi db) (ol_id l)"
  proof
    fix l assume "l \<in> set lines'"
    note o = checked_line_owned [OF c(2,9) this]
    then show "ol_reserve l = line_owned sh l \<and> (\<exists>p\<in>set (sh_plans sh). pn_id p = sl_id (ol_sellable l))
      \<and> \<not> names_stock (met env sh ca vi db) (ol_id l)" using assms(4) by auto
  qed
  have pend: "o_status x = Pending_Payment" by (simp add: c(5) new_order_def)
  note st = placed_stock [OF c(6,12) pend c(10) assms(5,6) ln]
  have "\<forall>l\<in>set lines'. ol_reserve l = line_owned sh l" using ln by blast
  note own = owned_items [OF items(2) this st(1)]
  have "\<forall>c. int (available_stock (met env sh ca vi db) c) = int (available_stock db' c)
      + sum_list (map (\<lambda>i. if owned_item sh i \<and> oi_component i = c then oi_quantity i else 0) items)"
    unfolding own(2) by (intro allI st(2))
  with own(1) items(1) show ?thesis by (intro exI [of _ items] conjI)
qed

section \<open>A checkout\<close>

text \<open>
  Two of a plan that is sold from owned codes, at most three to a customer, and one download,
  with a coupon of one yuan off.
\<close>

definition sample_plan :: "string \<Rightarrow> string \<Rightarrow> int \<Rightarrow> plan_row" where
  "sample_plan i product price = \<lparr> pn_id = i, pn_product = product, pn_price = price, pn_budget = ''0'', pn_currency = ''CNY'',
     pn_decimals = 2, pn_sourcing = Local_Source, pn_version = 1, pn_automated = False, pn_active_definition = None,
     pn_duration = None, pn_usage_limit = None, pn_access_limit = None, pn_renewable = False, pn_minimum = 1,
     pn_maximum = 10, pn_per_customer = Some 3, pn_enabled = True, pn_sale_disabled = False \<rparr>"

definition sample_product :: "string \<Rightarrow> component_type \<Rightarrow> product_row" where
  "sample_product i t = \<lparr> pd_id = i, pd_type = t, pd_active = True, pd_sale_disabled = False, pd_tags = [] \<rparr>"

definition sample_shelf :: shelf where
  "sample_shelf = \<lparr> sh_products = [sample_product ''codes'' Stock_Component, sample_product ''files'' Download_Component],
     sh_plans = [sample_plan ''code'' ''codes'' 500, sample_plan ''file'' ''files'' 300],
     sh_channel_prices = [], sh_volume_prices = [], sh_customer_prices = [], sh_methods = [], sh_definitions = [],
     sh_assets = [\<lparr> da_id = ''pdf'', da_product = ''files'', da_enabled = True \<rparr>], sh_bindings = [(''pdf'', ''file'')],
     sh_supplier_offers = [], sh_supplier_accounts = [], sh_unfunded = [], sh_sale_map = [(''code'', ''warehouse'')],
     sh_guests = None, sh_expiry_ms = None, sh_max_quantity = None, sh_subscriptions = [], sh_sign_ins = [],
     sh_agent_enabled = False, sh_agent_check = (\<lambda>u k. Inr Eligible), sh_prefix_state = (\<lambda>p. Inr ''available''),
     sh_quote = (\<lambda>q. Inl (DomainError ''upgrade_quote_not_found'' 404)), sh_inputs = (\<lambda>i d. Inr ()) \<rparr>"

definition sample_cart :: "string \<Rightarrow> string \<Rightarrow> cart" where
  "sample_cart key coupon = \<lparr> ca_key = key, ca_email = Some ''a@b.c'', ca_items =
     [\<lparr> ci_item = ''code'', ci_quantity = 2, ci_renewed = None \<rparr>, \<lparr> ci_item = ''file'', ci_quantity = 1, ci_renewed = None \<rparr>],
     ca_coupon = coupon, ca_session = Some ''s'', ca_quote_token = None, ca_agent_terms = False, ca_prefix = '''' \<rparr>"

definition sample_visitor :: visitor where
  "sample_visitor = \<lparr> vi_user = Some ''u'', vi_email = Some ''a@b.c'', vi_channel = None, vi_ip = None \<rparr>"

definition sample_ids :: "string \<Rightarrow> order_ids" where
  "sample_ids p = \<lparr> id_order = p @ ''-order'', id_number = p @ ''-number'',
     id_items = (\<lambda>k. if k = 0 then p @ ''-item1'' else p @ ''-item2''), id_visit = p @ ''-visit'', id_redemption = p @ ''-use'' \<rparr>"

definition sample_entry :: "string \<Rightarrow> stock_row" where
  "sample_entry i = \<lparr> st_id = i, st_sellable = ''code'', st_status = Stock_Available, st_order_item = None,
     st_content = i, st_fingerprint = i, st_redeem_sku = None, st_created_at = 0 \<rparr>"

definition sample_stocked :: db where
  "sample_stocked = sample_db \<lparr> coupon_uses := [(sample_coupon Standard) \<lparr> cu_used := 0 \<rparr>],
     stock := map sample_entry [''s1'', ''s2'', ''s3'', ''s4'', ''s5''] \<rparr>"

definition sample_checkout :: "(db \<Rightarrow> db) \<Rightarrow> string \<Rightarrow> string \<Rightarrow> db \<Rightarrow> order_reply result \<times> db" where
  "sample_checkout env p coupon db =
     (case create_order env (length :: string \<Rightarrow> nat) sample_shelf (sample_ids p) 1000 (sample_cart p coupon) sample_visitor ([], db) of
        (r, t, db') \<Rightarrow> (r, db'))"

lemma sample_checkout_Inr:
  assumes "fst (sample_checkout env p coupon db) = Inr r"
  obtains t where "create_order env (length :: string \<Rightarrow> nat) sample_shelf (sample_ids p) 1000 (sample_cart p coupon) sample_visitor
      ([], db) = (Inr r, t, snd (sample_checkout env p coupon db))"
  using assms that
  by (cases "create_order env (length :: string \<Rightarrow> nat) sample_shelf (sample_ids p) 1000 (sample_cart p coupon) sample_visitor ([], db)")
    (auto simp: sample_checkout_def)

lemma sample_met: "met env sample_shelf (sample_cart p coupon) sample_visitor db = env db"
proof -
  have "filter (\<lambda>i. agent_access_kind (ci_item i) \<noteq> None) (ca_items (sample_cart p coupon)) = []"
    by (simp add: sample_cart_def agent_access_kind_def)
  then show ?thesis by (simp add: met_def prepare_agent_checkout_def)
qed

definition sample_reply :: "string \<Rightarrow> int \<Rightarrow> order_reply" where
  "sample_reply p price = \<lparr> or_id = p @ ''-order'', or_number = p @ ''-number'', or_status = Pending_Payment,
     or_total = price, or_currency = ''CNY'', or_decimals = 2, or_expires_at = 901000, or_duplicate = False \<rparr>"

lemma sample_checkout_reply: "fst (sample_checkout id ''k'' ''CODE'' sample_stocked) = Inr (sample_reply ''k'' 1200)"
  by code_simp

lemma order_matches_cart_witness:
  "\<exists>x items. shop_orders (snd (sample_checkout id ''k'' ''CODE'' sample_stocked)) = [sample_order, x]
     \<and> order_items (snd (sample_checkout id ''k'' ''CODE'' sample_stocked)) = items \<and> length items = 2
     \<and> order_of_cart (sample_cart ''k'' ''CODE'') sample_visitor x items \<and> order_reply_of x = sample_reply ''k'' 1200"
proof -
  obtain t where c: "create_order id (length :: string \<Rightarrow> nat) sample_shelf (sample_ids ''k'') 1000 (sample_cart ''k'' ''CODE'')
      sample_visitor ([], sample_stocked) = (Inr (sample_reply ''k'' 1200), t, snd (sample_checkout id ''k'' ''CODE'' sample_stocked))"
    by (rule sample_checkout_Inr [OF sample_checkout_reply])
  have "\<not> or_duplicate (sample_reply ''k'' 1200)" by (simp add: sample_reply_def)
  moreover have "find_order sample_stocked (id_order (sample_ids ''k'')) = None" by code_simp
  moreover have "coupons_valid sample_stocked" by code_simp
  moreover have "shop_orders sample_stocked = [sample_order]" "order_items sample_stocked = []"
    by (simp_all add: sample_stocked_def sample_db_def empty_db_def)
  moreover have "length (ca_items (sample_cart ''k'' ''CODE'')) = 2" by (simp add: sample_cart_def)
  ultimately show ?thesis using order_matches_cart [OF c]
    by (simp add: sample_met) (metis list_all2_lengthD)
qed

text \<open>Another checkout takes two of the five codes before this one commits.\<close>

lemma owned_stock_sold_once_witness:
  "available_stock (snd (sample_checkout (\<lambda>d. snd (sample_checkout id ''j'' [] d)) ''k'' [] sample_stocked)) ''code'' = 1"
proof -
  let ?env = "\<lambda>d. snd (sample_checkout id ''j'' [] d)"
  let ?d = "snd (sample_checkout id ''j'' [] sample_stocked)" and ?e = "snd (sample_checkout ?env ''k'' [] sample_stocked)"
  have r: "fst (sample_checkout ?env ''k'' [] sample_stocked) = Inr (sample_reply ''k'' 1300)" by code_simp
  obtain t where c: "create_order ?env (length :: string \<Rightarrow> nat) sample_shelf (sample_ids ''k'') 1000 (sample_cart ''k'' [])
      sample_visitor ([], sample_stocked) = (Inr (sample_reply ''k'' 1300), t, ?e)" by (rule sample_checkout_Inr [OF r])
  have "\<not> or_duplicate (sample_reply ''k'' 1300)" by (simp add: sample_reply_def)
  moreover have "find_order ?d (id_order (sample_ids ''k'')) = None" by code_simp
  moreover have "\<not> names_stock ?d ''k-item1''" "\<not> names_stock ?d ''k-item2''" by code_simp+
  then have "\<forall>k. \<not> names_stock ?d (id_items (sample_ids ''k'') k)" by (simp add: sample_ids_def)
  moreover have "distinct (map st_id (stock ?d))" by code_simp
  moreover have "owned_locally sample_shelf" by code_simp
  ultimately obtain items where i: "order_items ?e = order_items ?d @ items"
    "int (available_stock ?d ''code'') = int (available_stock ?e ''code'')
       + sum_list (map (\<lambda>i. if owned_item sample_shelf i \<and> oi_component i = ''code'' then oi_quantity i else 0) items)"
    using owned_stock_sold_once [OF c] unfolding sample_met by blast
  have a: "available_stock ?d ''code'' = 3" and n: "length (order_items ?d) = 2" by code_simp+
  have "sum_list (map (\<lambda>i. if owned_item sample_shelf i \<and> oi_component i = ''code'' then oi_quantity i else 0) (drop 2 (order_items ?e))) = 2"
    by code_simp
  moreover have "drop 2 (order_items ?e) = items" using i(1) n by simp
  ultimately show ?thesis using i(2) a by simp
qed

lemma purchase_limit_is_passed:
  "list_all (\<lambda>p. pn_per_customer p = Some 3) (sh_plans sample_shelf)
   \<and> fst (sample_checkout id ''k'' [] (snd (sample_checkout id ''j'' [] sample_stocked)))
       = Inl (DomainError ''customer_purchase_limit'' 409)
   \<and> (case sample_checkout (\<lambda>d. snd (sample_checkout id ''j'' [] d)) ''k'' [] sample_stocked of
        (r, db) \<Rightarrow> r = Inr (sample_reply ''k'' 1300) \<and> bought db (Some ''u'') None ''code'' = 4)"
  by (intro conjI; code_simp)

section \<open>Replays of a checkout\<close>

text \<open>The columns of an order that are never rewritten.\<close>

definition order_core where
  "order_core x = (o_id x, o_number x, o_key x, o_user x, o_email x, o_total x, o_currency x, o_decimals x, o_pricing_channel x,
     o_expires_at x)"

lemma sql_first_middle: "\<forall>y\<in>set ys. \<not> P y \<Longrightarrow> P y \<Longrightarrow> sql_first P (ys @ y # zs) = Some y"
  by (induction ys) (auto simp: sql_first_def)

lemma kept_order:
  assumes "map order_core t = map order_core (old @ [x]) @ newer" and "\<forall>y\<in>set old. o_key y \<noteq> o_key x"
  obtains y where "sql_first (\<lambda>y. o_key y = o_key x) t = Some y" and "order_core y = order_core x"
proof -
  from assms(1) have "map order_core t = map order_core old @ order_core x # newer" by simp
  then obtain ys y zs where t: "t = ys @ y # zs" "map order_core ys = map order_core old" "order_core y = order_core x"
    by (auto simp: map_eq_append_conv map_eq_Cons_conv)
  have "o_key z \<noteq> o_key x" if "z \<in> set ys" for z
  proof -
    from that t(2) have "order_core z \<in> order_core ` set old" by (metis image_eqI list.set_map)
    with assms(2) show ?thesis by (auto simp: order_core_def)
  qed
  moreover have "o_key y = o_key x" using t(3) by (simp add: order_core_def)
  ultimately have "sql_first (\<lambda>y. o_key y = o_key x) t = Some y" unfolding t(1) by (intro sql_first_middle) auto
  with t(3) show thesis using that by blast
qed

lemma replayed_reply:
  assumes "order_core y = order_core x" and "o_user x = vi_user vi" "o_email x = ca_email ca" "o_pricing_channel x = vi_channel vi"
    and "ca_email ca' = ca_email ca"
  shows "vi_user vi' = vi_user vi \<Longrightarrow> vi_channel vi' = vi_channel vi
      \<Longrightarrow> replay_order ca' vi' y = Inr (order_reply_of x \<lparr> or_status := o_status y, or_duplicate := True \<rparr>)"
    and "vi_user vi' \<noteq> vi_user vi \<Longrightarrow> vi_user vi' \<noteq> None \<Longrightarrow> replay_order ca' vi' y = Inl (DomainError ''idempotency_key_conflict'' 409)"
proof -
  have "o_id y = o_id x" "o_number y = o_number x" "o_user y = vi_user vi" "o_email y = ca_email ca" "o_total y = o_total x"
    "o_currency y = o_currency x" "o_decimals y = o_decimals x" "o_pricing_channel y = vi_channel vi" "o_expires_at y = o_expires_at x"
    using assms(1-4) by (auto simp: order_core_def)
  then show "vi_user vi' = vi_user vi \<Longrightarrow> vi_channel vi' = vi_channel vi
      \<Longrightarrow> replay_order ca' vi' y = Inr (order_reply_of x \<lparr> or_status := o_status y, or_duplicate := True \<rparr>)"
    and "vi_user vi' \<noteq> vi_user vi \<Longrightarrow> vi_user vi' \<noteq> None \<Longrightarrow> replay_order ca' vi' y = Inl (DomainError ''idempotency_key_conflict'' 409)"
    using assms(5) by (simp_all add: replay_order_def order_reply_of_def)
qed



section \<open>How a checkout ends\<close>

lemma prepare_agent_leaves:
  assumes "\<And>d x. T (d \<lparr> agents := x \<rparr>) = T d"
  shows "T (snd (prepare_agent_checkout sh ca user db)) = T db"
  using assms by (auto simp: prepare_agent_checkout_def drop_dead_agents_def Let_def split: list.split option.split)

lemma create_order_ends:
  assumes "create_order env collate sh ids now ca vi (t, db) = (res, t', db')"
  obtains "db' = db" | "db' = snd (prepare_agent_checkout sh ca (vi_user vi) db)" | "db' = met env sh ca vi db"
  | x upgrade agent lines coupon m p w cs where
      "run_batch (place_statements sh ca ids x upgrade agent lines coupon m p w) (met env sh ca vi db) = Inr (db', cs)"
      "o_id x = id_order ids" "lines \<noteq> []"
proof -
  have "db' = db \<or> db' = snd (prepare_agent_checkout sh ca (vi_user vi) db) \<or> db' = met env sh ca vi db
      \<or> (\<exists>upgrade agent x coupon ss cs.
            plan_order collate sh (snd (prepare_agent_checkout sh ca (vi_user vi) db)) ca vi ids upgrade agent now = Inr (x, coupon, ss)
            \<and> run_batch ss (met env sh ca vi db) = Inr (db', cs))" (is "_ \<or> _ \<or> _ \<or> ?placed")
    using assms unfolding create_order_def met_def
    by (auto simp: Let_def split: if_splits option.splits sum.splits prod.splits)
  then show thesis
  proof (elim disjE)
    assume ?placed
    then obtain upgrade agent x coupon ss cs where
      p: "plan_order collate sh (snd (prepare_agent_checkout sh ca (vi_user vi) db)) ca vi ids upgrade agent now = Inr (x, coupon, ss)"
      and r: "run_batch ss (met env sh ca vi db) = Inr (db', cs)" by blast
    from plan_order_Inr [OF p] obtain lines lines' pr m w where l:
      "check_lines sh (snd (prepare_agent_checkout sh ca (vi_user vi) db)) ca vi upgrade now (id_items ids) 0 (ca_items ca) = Inr lines"
      "assert_single_currency (map pricing_line_of lines) = Inr ()"
      "price_order collate sh (snd (prepare_agent_checkout sh ca (vi_user vi) db)) coupon lines = Inr (pr, lines')"
      "x = new_order ca vi ids coupon lines' (sp_discount pr) (order_expiry sh upgrade now) now"
      "ss = place_statements sh ca ids x upgrade agent lines' coupon m pr w" by metis
    have "\<forall>l\<in>set lines. ol_discount l = 0" using check_lines_Inr [OF l(1)] by blast
    moreover have "lines \<noteq> []" using l(2) by (auto simp: assert_single_currency_def)
    ultimately have "lines' \<noteq> []" using price_order_same [OF l(3)] by auto
    with r that(4) l(4,5) show thesis by (simp add: new_order_def)
  qed (use that(1-3) in blast)+
qed

lemma place_leaves:
  assumes "\<And>d x. T (d \<lparr> shop_orders := x \<rparr>) = T d" "\<And>d x. T (d \<lparr> order_items := x \<rparr>) = T d"
    "\<And>d x. T (d \<lparr> coupon_uses := x \<rparr>) = T d" "\<And>d x. T (d \<lparr> redemptions := x \<rparr>) = T d"
    "\<And>d x. T (d \<lparr> stock := x \<rparr>) = T d" "\<And>d x. T (d \<lparr> snapshots := x \<rparr>) = T d"
    "\<And>d x. T (d \<lparr> upgrades := x \<rparr>) = T d" "\<And>d x. T (d \<lparr> agents := x \<rparr>) = T d"
    "\<And>d x. T (d \<lparr> order_events := x \<rparr>) = T d" "\<And>d x. T (d \<lparr> commerce_events := x \<rparr>) = T d"
  shows "\<forall>s\<in>set (place_statements sh ca ids x upgrade agent lines coupon m p w). leaves T s"
  using order_statements_leave [OF assms(1,3)] line_statements_leave [OF assms(2,5,6,7,8)]
    log_statements_leave [OF assms(9,10)] coupon_statements_leave [OF assms(4,1,2)]
  by (auto simp: place_statements_def)

end
