(* ===== verification/Deliveries.thy ===== *)
theory Deliveries
  imports Balance_Refunds Fulfillment_Requests
begin

text \<open>
  How a delivery is made (\<^verbatim>\<open>src/features/fulfillment/server/process.ts\<close> with
  \<^verbatim>\<open>redeem-warehouse/server/convert-delivery.ts\<close> and \<^verbatim>\<open>retryDeliveryFn\<close> of
  \<^verbatim>\<open>fulfillment/server/admin.ts\<close>): the reserved entries of an order item are opened, for a
  redeemed plan converted one by one by the warehouse, sealed and handed over; the order moves on
  and the buyer's grant becomes active. Deliveries whose shop buys by hand are started and
  completed by an administrator.
\<close>

section \<open>What a worker asks of others\<close>

text \<open>
  Ciphers, the patterns of codes and the warehouse are functions of the record; \<open>wk_convert\<close> is the
  answer of the warehouse to the plan, the entry and the key it is sent.
\<close>

record worker =
  wk_secret :: bool
  wk_open :: "string \<Rightarrow> string result"
  wk_close :: "string \<Rightarrow> string"
  wk_seal :: "string \<Rightarrow> string"
  wk_unseal :: "string \<Rightarrow> string result"
  wk_token :: "unit result"
  wk_key :: "string \<Rightarrow> string option"
  wk_convert :: "string \<Rightarrow> string \<Rightarrow> string \<Rightarrow> (string \<times> string) result"
  wk_redeem_code :: "string \<Rightarrow> string \<Rightarrow> bool"
  wk_format :: "string \<Rightarrow> string"
  wk_marked :: "string \<Rightarrow> string \<Rightarrow> bool"

record delivery_reply =
  dy_status :: delivery_status
  dy_order :: "order_status option"
  dy_duplicate :: bool

definition redeem_skus :: "string list" where
  "redeem_skus = [''GPT_PLUS_PH'', ''GPT_5X_PH'', ''GPT_20X_PH'']"

section \<open>Reading a delivery\<close>

text \<open>A delivery joined with its item and order.\<close>

definition find_delivery :: "db \<Rightarrow> string \<Rightarrow> delivery_row option" where
  "find_delivery db i = sql_first (\<lambda>d. d_id d = i) (deliveries db)"

definition find_item :: "db \<Rightarrow> string \<Rightarrow> item_row option" where
  "find_item db i = sql_first (\<lambda>it. oi_id it = i) (order_items db)"

definition load_delivery :: "db \<Rightarrow> string \<Rightarrow> (delivery_row \<times> item_row \<times> order_row) option" where
  "load_delivery db i =
     (case find_delivery db i of
        None \<Rightarrow> None
      | Some d \<Rightarrow>
          (case find_item db (d_order_item d) of
             None \<Rightarrow> None
           | Some it \<Rightarrow> map_option (\<lambda>x. (d, it, x)) (find_order db (oi_order it))))"

definition deliverable :: "order_status \<Rightarrow> bool" where
  "deliverable st \<longleftrightarrow> st \<in> {Paid, Fulfilling}"

definition undeliverable :: "order_status \<Rightarrow> bool" where
  "undeliverable st \<longleftrightarrow> st \<in> {Refunded, Cancelled, Expired}"

definition outstanding :: "string \<Rightarrow> string \<Rightarrow> db \<Rightarrow> delivery_row \<Rightarrow> bool" where
  "outstanding order_id did db d \<longleftrightarrow> d_order_item d \<in> set (order_item_ids db order_id) \<and> d_id d \<noteq> did \<and> d_status d \<noteq> Delivery_Delivered"

definition next_order_status :: "db \<Rightarrow> string \<Rightarrow> string \<Rightarrow> order_status" where
  "next_order_status db order_id did = (if sql_exists (outstanding order_id did db) (deliveries db) then Fulfilling else Completed)"

definition item_deliverable :: "db \<Rightarrow> string \<Rightarrow> bool" where
  "item_deliverable db item_id \<longleftrightarrow>
     (case find_item db item_id of
        None \<Rightarrow> False
      | Some it \<Rightarrow> (case find_order db (oi_order it) of None \<Rightarrow> False | Some x \<Rightarrow> deliverable (o_status x)))"

definition reserved_entries :: "db \<Rightarrow> string \<Rightarrow> stock_row list" where
  "reserved_entries db item_id =
     sql_ordered (\<lambda>s. (st_created_at s, st_id s)) (\<lambda>s. st_order_item s = Some item_id \<and> st_status s = Stock_Reserved) (stock db)"

section \<open>Converting an entry\<close>

definition open_key :: "worker \<Rightarrow> string \<Rightarrow> string result" where
  "open_key w content =
     (case wk_key w content of
        None \<Rightarrow> Inl (DomainError ''redeem_delivery_format_unsupported'' 409) | Some k \<Rightarrow> Inr k)"

definition replay_entry :: "worker \<Rightarrow> db \<Rightarrow> stock_row \<Rightarrow> string \<Rightarrow> string \<Rightarrow> string result" where
  "replay_entry w db s item_id sku =
     (case sql_first (\<lambda>r. st_id r = st_id s \<and> st_order_item r = Some item_id \<and> st_status r = Stock_Reserved
             \<and> st_redeem_sku r = Some sku) (stock db) of
        None \<Rightarrow> Inl (DomainError ''redeem_delivery_state_changed'' 409)
      | Some r \<Rightarrow> wk_open w (st_content r))"

definition convertible :: "stock_row \<Rightarrow> string \<Rightarrow> db \<Rightarrow> stock_row \<Rightarrow> bool" where
  "convertible s item_id db r \<longleftrightarrow> st_id r = st_id s \<and> st_order_item r = Some item_id \<and> st_status r = Stock_Reserved
     \<and> st_fingerprint r = st_fingerprint s \<and> st_redeem_sku r = None \<and> item_deliverable db item_id"

text \<open>\<open>env\<close> runs while the warehouse answers.\<close>

definition convert_reserved_stock ::
  "worker \<Rightarrow> (db \<Rightarrow> db) \<Rightarrow> stock_row \<Rightarrow> string \<Rightarrow> string \<Rightarrow> db \<Rightarrow> string result \<times> db" where
  "convert_reserved_stock w env s item_id sku db =
     (if sku \<notin> set redeem_skus then (Inl ZodError, db)
      else case wk_open w (st_content s) of
        Inl e \<Rightarrow> (Inl e, db)
      | Inr original \<Rightarrow>
          (case st_redeem_sku s of
             Some sku' \<Rightarrow>
               (if sku' \<noteq> sku then (Inl (DomainError ''redeem_delivery_sku_conflict'' 409), db)
                else if \<not> wk_marked w sku original then (Inl (DomainError ''redeem_delivery_marker_conflict'' 409), db)
                else (Inr original, db))
           | None \<Rightarrow>
               (case and_then (open_key w original) (wk_convert w sku (st_id s)) of
                  Inl e \<Rightarrow> (Inl e, db)
                | Inr (sku', cdkey) \<Rightarrow>
                    (if sku' \<noteq> sku \<or> \<not> wk_redeem_code w sku cdkey
                     then (Inl (DomainError ''redeem_delivery_response_mismatch'' 502), db)
                     else
                       (let db = env db; content = wk_format w cdkey; hit = convertible s item_id db
                        in if sql_changes hit (stock db) = 1
                           then (Inr content, db \<lparr> stock := sql_update hit
                                   (\<lambda>r. r \<lparr> st_content := wk_close w content, st_redeem_sku := Some sku \<rparr>) (stock db) \<rparr>)
                           else (replay_entry w db s item_id sku, db))))))"

text \<open>Entry by entry; the entry that fails is named to the record of the failure.\<close>

fun convert_entries ::
  "worker \<Rightarrow> (nat \<Rightarrow> db \<Rightarrow> db) \<Rightarrow> string \<Rightarrow> string \<Rightarrow> stock_row list \<Rightarrow> db \<Rightarrow> string list result \<times> db" where
  "convert_entries w env item_id sku [] db = (Inr [], db)"
| "convert_entries w env item_id sku (s # ss) db =
     (case convert_reserved_stock w (env (length ss)) s item_id sku db of
        (Inl e, db) \<Rightarrow> (Inl e, db)
      | (Inr t, db) \<Rightarrow>
          (case convert_entries w env item_id sku ss db of
             (Inl e, db) \<Rightarrow> (Inl e, db) | (Inr ts, db) \<Rightarrow> (Inr (t # ts), db)))"

fun open_entries :: "worker \<Rightarrow> stock_row list \<Rightarrow> string list result" where
  "open_entries w [] = Inr []"
| "open_entries w (s # ss) = and_then (wk_open w (st_content s)) (\<lambda>t. and_then (open_entries w ss) (\<lambda>ts. Inr (t # ts)))"

definition join_lines :: "string list \<Rightarrow> string" where
  "join_lines ts = (case ts of [] \<Rightarrow> [] | t # ts \<Rightarrow> t @ concat (map (\<lambda>u. CHR 0x0A # u) ts))"

section \<open>Failures\<close>

definition open_delivery :: "string \<Rightarrow> delivery_row \<Rightarrow> bool" where
  "open_delivery i d \<longleftrightarrow> d_id d = i \<and> d_status d \<in> {Delivery_Pending, Delivery_Processing}"

definition publish_requests :: "string \<Rightarrow> db stmt" where
  "publish_requests i = publish_events (\<lambda>db e. ob_type e = ''delivery.requested'' \<and> ob_aggregate e = i)"

definition close_delivery :: "string \<Rightarrow> db stmt" where
  "close_delivery i n db =
     Inr (db \<lparr> deliveries := sql_update (open_delivery i) (\<lambda>d. d \<lparr> d_status := Delivery_Failed,
                d_error := Some ''order_not_deliverable'', d_next_attempt_at := None \<rparr>) (deliveries db) \<rparr>,
          sql_changes (open_delivery i) (deliveries db))"

definition close_undeliverable :: "string \<Rightarrow> db \<Rightarrow> delivery_reply result \<times> db" where
  "close_undeliverable i db =
     (case run_batch [close_delivery i, publish_requests i] db of
        Inl e \<Rightarrow> (Inl e, db)
      | Inr (db, _) \<Rightarrow> (Inr \<lparr> dy_status = Delivery_Failed, dy_order = None, dy_duplicate = False \<rparr>, db))"

definition failure_name :: "string \<Rightarrow> failure \<Rightarrow> string" where
  "failure_name other e = (case e of DomainError code _ \<Rightarrow> code | _ \<Rightarrow> other)"

definition count_attempt :: "string \<Rightarrow> string \<Rightarrow> db stmt" where
  "count_attempt i code n db =
     Inr (db \<lparr> deliveries := sql_update (open_delivery i) (\<lambda>d. d \<lparr> d_attempts := d_attempts d + 1, d_error := Some code \<rparr>)
                (deliveries db) \<rparr>, sql_changes (open_delivery i) (deliveries db))"

definition record_owned_failure :: "string \<Rightarrow> string \<Rightarrow> failure \<Rightarrow> db \<Rightarrow> db" where
  "record_owned_failure i other e db =
     (case run_batch [count_attempt i (failure_name other e), audit ''redeem_delivery.failure'' i] db of
        Inl _ \<Rightarrow> db | Inr (db, _) \<Rightarrow> db)"

section \<open>Processing a delivery\<close>

text \<open>The content, opened or converted; a plan that is redeemed records why it could not be.\<close>

definition delivery_content ::
  "worker \<Rightarrow> (nat \<Rightarrow> db \<Rightarrow> db) \<Rightarrow> delivery_row \<Rightarrow> item_row \<Rightarrow> db \<Rightarrow> string option result \<times> db" where
  "delivery_content w env d it db =
     (if d_type d \<noteq> Stock_Component then (Inr (d_content d), db)
      else if \<not> wk_secret w then (Inl (DomainError ''delivery_secret_unavailable'' 503), db)
      else if int (length (reserved_entries db (oi_id it))) \<noteq> oi_quantity it
      then (Inl (DomainError ''delivery_inventory_invalid'' 409), db)
      else case d_redeem_sku d of
        None \<Rightarrow> (and_then (open_entries w (reserved_entries db (oi_id it))) (\<lambda>ts. Inr (Some (wk_seal w (join_lines ts)))), db)
      | Some sku \<Rightarrow>
          (case (case wk_token w of
                   Inl e \<Rightarrow> (Inl e, db)
                 | Inr _ \<Rightarrow> convert_entries w env (oi_id it) sku (reserved_entries db (oi_id it)) db) of
             (Inl e, db) \<Rightarrow> (Inl e, record_owned_failure (d_id d) ''redeem_delivery_conversion_failed'' e db)
           | (Inr ts, db) \<Rightarrow> (Inr (Some (wk_seal w (join_lines ts))), db)))"

definition entries_converted :: "delivery_row \<Rightarrow> db \<Rightarrow> bool" where
  "entries_converted d db \<longleftrightarrow>
     (case d_redeem_sku d of
        None \<Rightarrow> True
      | Some sku \<Rightarrow>
          (case find_item db (d_order_item d) of
             None \<Rightarrow> False
           | Some it \<Rightarrow> int (sql_changes (\<lambda>s. st_order_item s = Some (oi_id it) \<and> st_status s = Stock_Reserved
                \<and> st_redeem_sku s = Some sku) (stock db)) = oi_quantity it))"

definition mark_delivered :: "string option \<Rightarrow> int \<Rightarrow> delivery_row \<Rightarrow> delivery_row" where
  "mark_delivered content now d = d \<lparr> d_status := Delivery_Delivered, d_content := content, d_attempts := d_attempts d + 1,
     d_next_attempt_at := None, d_error := None, d_delivered_at := Some now \<rparr>"

definition deliver_record :: "string \<Rightarrow> string option \<Rightarrow> int \<Rightarrow> db stmt" where
  "deliver_record i content now n db =
     (let hit = (\<lambda>d. open_delivery i d \<and> item_deliverable db (d_order_item d) \<and> entries_converted d db)
      in Inr (db \<lparr> deliveries := sql_update hit (mark_delivered content now) (deliveries db) \<rparr>, sql_changes hit (deliveries db)))"

definition require_delivered :: "string \<Rightarrow> string \<Rightarrow> db stmt" where
  "require_delivered i code n db =
     (if sql_exists (\<lambda>d. d_id d = i \<and> d_status d = Delivery_Delivered) (deliveries db) then Inr (db, 0) else Inl (DbAbort code))"

definition deliver_stock :: "string \<Rightarrow> db stmt" where
  "deliver_stock item_id n db =
     (let hit = (\<lambda>s. st_order_item s = Some item_id \<and> st_status s = Stock_Reserved)
      in Inr (db \<lparr> stock := sql_update hit (\<lambda>s. s \<lparr> st_status := Stock_Delivered \<rparr>) (stock db) \<rparr>, sql_changes hit (stock db)))"

definition progress_order :: "order_status \<times> int \<Rightarrow> order_row \<Rightarrow> order_row" where
  "progress_order a x = (let (st, now) = a in x \<lparr> o_status := st, o_version := Suc (o_version x),
     o_completed_at := (if st = Completed then Some now else o_completed_at x), o_updated_at := now \<rparr>)"

definition progress_statements :: "order_row \<Rightarrow> order_status \<Rightarrow> string \<Rightarrow> int \<Rightarrow> db stmt list" where
  "progress_statements x st type now =
     [update_order (o_id x) (\<lambda>_ y. o_status y = o_status x \<and> o_version y = o_version x) (progress_order (st, now)),
      event_when (order_is (o_id x) st (Suc (o_version x))) \<lparr> oe_order = o_id x, oe_type = type, oe_from = Some (o_status x),
        oe_to = Some st, oe_version = Some (Suc (o_version x)) \<rparr>]"

definition announce_ready :: "string \<Rightarrow> db stmt" where
  "announce_ready i =
     outbox_when (\<lambda>db. sql_exists (\<lambda>d. d_id d = i \<and> d_status d = Delivery_Delivered) (deliveries db)) True
       (request_event ''delivery.ready'' i (''delivery-ready:'' @ i))"

definition delivery_statements ::
  "delivery_row \<Rightarrow> item_row \<Rightarrow> order_row \<Rightarrow> string option \<Rightarrow> order_status \<Rightarrow> int \<Rightarrow> db stmt list" where
  "delivery_statements d it x content st now =
     [deliver_record (d_id d) content now,
      require_delivered (d_id d) (if d_redeem_sku d = None then ''delivery_conflict'' else ''redeem_delivery_conflict'')]
     @ (if d_type d = Stock_Component then [deliver_stock (oi_id it)] else [])
     @ progress_statements x st ''delivery_progressed'' now
     @ [announce_ready (d_id d), publish_requests (d_id d)]
     @ (if d_type d = Stock_Component then activate_grant_statements False (oi_id it) now else [])"

definition delivered_again :: delivery_reply where
  "delivered_again = \<lparr> dy_status = Delivery_Delivered, dy_order = None, dy_duplicate = True \<rparr>"

definition process_plain_delivery ::
  "worker \<Rightarrow> (nat \<Rightarrow> db \<Rightarrow> db) \<Rightarrow> (db \<Rightarrow> db) \<Rightarrow> int \<Rightarrow> string \<Rightarrow> db \<Rightarrow> delivery_reply result \<times> db" where
  "process_plain_delivery w env env' now i db =
     (case load_delivery db i of
        None \<Rightarrow> (Inl (DomainError ''delivery_not_found'' 404), db)
      | Some (d, it, x) \<Rightarrow>
          (if d_status d = Delivery_Delivered then (Inr delivered_again, db)
           else if d_status d = Delivery_Failed then (Inl (DomainError ''delivery_failed'' 409), db)
           else if undeliverable (o_status x) then close_undeliverable i db
           else if \<not> deliverable (o_status x) then (Inl (DomainError ''delivery_order_not_ready'' 409), db)
           else
             (case delivery_content w env d it db of
                (Inl e, db) \<Rightarrow> (Inl e, db)
              | (Inr content, db) \<Rightarrow>
                  (let st = next_order_status db (o_id x) i; db = env' db
                   in case run_batch (delivery_statements d it x content st now) db of
                        Inl e \<Rightarrow> (Inl e, if d_redeem_sku d = None then db
                                         else record_owned_failure i ''redeem_delivery_finalization_failed'' e db)
                      | Inr (db', changes) \<Rightarrow>
                          (if changes ! 0 < 1 then (Inr delivered_again, db')
                           else (Inr \<lparr> dy_status = Delivery_Delivered, dy_order = Some st, dy_duplicate = False \<rparr>, db'))))))"

section \<open>Deliveries made by hand\<close>

definition load_manual :: "catalogue \<Rightarrow> db \<Rightarrow> string \<Rightarrow> (delivery_row \<times> item_row \<times> order_row \<times> sourcing) option" where
  "load_manual cat db i =
     (case load_delivery db i of
        None \<Rightarrow> None
      | Some (d, it, x) \<Rightarrow> map_option (\<lambda>(source, _). (d, it, x, source)) (ct_sourcing cat (oi_sellable it)))"

definition made_by_hand :: "delivery_row \<Rightarrow> sourcing \<Rightarrow> bool" where
  "made_by_hand d source \<longleftrightarrow> d_type d = Stock_Component \<and> source = Manual_Source \<and> d_redeem_sku d = None"

definition start_record :: "string \<Rightarrow> db stmt" where
  "start_record i n db =
     (let hit = (\<lambda>d. d_id d = i \<and> d_status d = Delivery_Awaiting_Supply)
      in Inr (db \<lparr> deliveries := sql_update hit (\<lambda>d. d \<lparr> d_status := Delivery_Processing \<rparr>) (deliveries db) \<rparr>,
              sql_changes hit (deliveries db)))"

definition start_manual_delivery ::
  "catalogue \<Rightarrow> (db \<Rightarrow> db) \<Rightarrow> int \<Rightarrow> string \<Rightarrow> db \<Rightarrow> delivery_reply result \<times> db" where
  "start_manual_delivery cat env now i db =
     (case load_manual cat db i of
        None \<Rightarrow> (Inl (DomainError ''delivery_not_found'' 404), db)
      | Some (d, it, x, source) \<Rightarrow>
          (if \<not> made_by_hand d source then (Inl (DomainError ''delivery_not_manual'' 409), db)
           else if d_status d = Delivery_Processing
           then (Inr \<lparr> dy_status = Delivery_Processing, dy_order = Some (o_status x), dy_duplicate = True \<rparr>, db)
           else if d_status d \<noteq> Delivery_Awaiting_Supply
           then (Inl (DomainError ''manual_delivery_not_awaiting_supply'' 409), db)
           else if \<not> deliverable (o_status x) then (Inl (DomainError ''manual_delivery_order_not_ready'' 409), db)
           else
             (let db = env db
              in case run_batch (start_record i # progress_statements x Fulfilling ''fulfillment_started'' now) db of
                   Inl e \<Rightarrow> (Inl e, db)
                 | Inr (db, changes) \<Rightarrow>
                     (if changes ! 0 \<noteq> 1 \<or> changes ! 1 \<noteq> 1
                      then (Inl (DomainError ''manual_delivery_start_conflict'' 409), db)
                      else (Inr \<lparr> dy_status = Delivery_Processing, dy_order = Some Fulfilling, dy_duplicate = False \<rparr>, db)))))"

text \<open>\<^verbatim>\<open>length\<close> counts UTF-16 units; the texts of the model are ASCII.\<close>

definition content_given :: "string \<Rightarrow> bool" where
  "content_given t \<longleftrightarrow> js_trim t \<noteq> [] \<and> length (js_trim t) \<le> 64000"

definition complete_record :: "string \<Rightarrow> string \<Rightarrow> int \<Rightarrow> db stmt" where
  "complete_record i content now n db =
     (let hit = (\<lambda>d. d_id d = i \<and> d_status d \<in> {Delivery_Awaiting_Supply, Delivery_Processing})
      in Inr (db \<lparr> deliveries := sql_update hit (mark_delivered (Some content) now) (deliveries db) \<rparr>, sql_changes hit (deliveries db)))"

definition manual_statements :: "delivery_row \<Rightarrow> item_row \<Rightarrow> order_row \<Rightarrow> string \<Rightarrow> order_status \<Rightarrow> int \<Rightarrow> db stmt list" where
  "manual_statements d it x content st now =
     complete_record (d_id d) content now # progress_statements x st ''delivery_progressed'' now
     @ announce_ready (d_id d) # activate_grant_statements False (oi_id it) now"

definition complete_manual_delivery ::
  "worker \<Rightarrow> catalogue \<Rightarrow> (db \<Rightarrow> db) \<Rightarrow> int \<Rightarrow> string \<Rightarrow> string \<Rightarrow> db \<Rightarrow> delivery_reply result \<times> db" where
  "complete_manual_delivery w cat env now i content db =
     (if \<not> content_given content then (Inl (DomainError ''manual_delivery_content_invalid'' 400), db)
      else case load_manual cat db i of
        None \<Rightarrow> (Inl (DomainError ''delivery_not_found'' 404), db)
      | Some (d, it, x, source) \<Rightarrow>
          (if d_status d = Delivery_Delivered then (Inr delivered_again, db)
           else if \<not> made_by_hand d source then (Inl (DomainError ''delivery_not_manual'' 409), db)
           else if d_status d \<notin> {Delivery_Awaiting_Supply, Delivery_Processing}
           then (Inl (DomainError ''manual_delivery_not_awaiting_supply'' 409), db)
           else if \<not> deliverable (o_status x) then (Inl (DomainError ''manual_delivery_order_not_ready'' 409), db)
           else if \<not> wk_secret w then (Inl (DomainError ''delivery_secret_unavailable'' 503), db)
           else
             (let st = next_order_status db (o_id x) i; db = env db
              in case run_batch (manual_statements d it x (wk_seal w (js_trim content)) st now) db of
                   Inl e \<Rightarrow> (Inl e, db)
                 | Inr (db, changes) \<Rightarrow>
                     (if changes ! 0 < 1 then (Inr delivered_again, db)
                      else (Inr \<lparr> dy_status = Delivery_Delivered, dy_order = Some st, dy_duplicate = False \<rparr>, db)))))"

text \<open>Whether the content was changed.\<close>

definition replace_delivered_content ::
  "worker \<Rightarrow> (db \<Rightarrow> db) \<Rightarrow> string \<Rightarrow> string \<Rightarrow> db \<Rightarrow> bool result \<times> db" where
  "replace_delivered_content w env i content db =
     (if \<not> content_given content then (Inl (DomainError ''delivery_content_invalid'' 400), db)
      else case find_delivery db i of
        None \<Rightarrow> (Inl (DomainError ''delivery_not_found'' 404), db)
      | Some d \<Rightarrow>
          (if d_status d \<noteq> Delivery_Delivered \<or> d_content d \<in> {None, Some []}
           then (Inl (DomainError ''delivery_content_not_replaceable'' 409), db)
           else if d_redeem_sku d \<noteq> None then (Inl (DomainError ''delivery_content_warehouse_managed'' 409), db)
           else if \<not> wk_secret w then (Inl (DomainError ''delivery_secret_unavailable'' 503), db)
           else
             (case wk_unseal w (the (d_content d)) of
                Inl e \<Rightarrow> (Inl e, db)
              | Inr previous \<Rightarrow>
                  (if previous = js_trim content then (Inr False, db)
                   else
                     (let db = env db;
                          hit = (\<lambda>r. d_id r = i \<and> d_status r = Delivery_Delivered \<and> d_content r = d_content d);
                          db' = db \<lparr> deliveries := sql_update hit (\<lambda>r. r \<lparr> d_content := Some (wk_seal w (js_trim content)) \<rparr>)
                                  (deliveries db) \<rparr>
                      in if sql_changes hit (deliveries db) \<noteq> 1
                         then (Inl (DomainError ''delivery_content_replace_conflict'' 409), db') else (Inr True, db'))))))"

definition reopen_record :: "string \<Rightarrow> int \<Rightarrow> db stmt" where
  "reopen_record i now n db =
     (let hit = (\<lambda>d. d_id d = i \<and> d_status d = Delivery_Failed)
      in Inr (db \<lparr> deliveries := sql_update hit (\<lambda>d. d \<lparr> d_status := Delivery_Pending, d_error := None, d_next_attempt_at := Some now \<rparr>)
                (deliveries db) \<rparr>, sql_changes hit (deliveries db)))"

definition retry_delivery :: "(db \<Rightarrow> db) \<Rightarrow> int \<Rightarrow> string \<Rightarrow> db \<Rightarrow> delivery_reply result \<times> db" where
  "retry_delivery env now i db =
     (case find_delivery db i of
        None \<Rightarrow> (Inl (DomainError ''delivery_not_found'' 404), db)
      | Some d \<Rightarrow>
          (if d_status d \<noteq> Delivery_Failed then (Inl (DomainError ''delivery_not_retryable'' 409), db)
           else
             (let db = env db
              in case run_batch [reopen_record i now,
                     outbox_when (\<lambda>_. True) False \<lparr> ob_type = ''delivery.requested'', ob_aggregate = i,
                       ob_key = ''delivery-retry:'' @ i @ '':'' @ nat_string (d_attempts d), ob_status = Outbox_Pending,
                       ob_next_attempt_at = Some now \<rparr>,
                     audit ''delivery.retried'' i] db of
                   Inl e \<Rightarrow> (Inl e, db)
                 | Inr (db, _) \<Rightarrow> (Inr \<lparr> dy_status = Delivery_Pending, dy_order = None, dy_duplicate = False \<rparr>, db))))"

section \<open>What the statements leave alone\<close>

lemma delivery_leaves [leaves]:
  "(\<And>d x. T (d \<lparr> deliveries := x \<rparr>) = T d) \<Longrightarrow> leaves T (close_delivery i)"
  "(\<And>d x. T (d \<lparr> deliveries := x \<rparr>) = T d) \<Longrightarrow> leaves T (count_attempt i code)"
  "(\<And>d x. T (d \<lparr> deliveries := x \<rparr>) = T d) \<Longrightarrow> leaves T (deliver_record i content now)"
  "leaves T (require_delivered i code)"
  "(\<And>d x. T (d \<lparr> stock := x \<rparr>) = T d) \<Longrightarrow> leaves T (deliver_stock k)"
  "(\<And>d x. T (d \<lparr> deliveries := x \<rparr>) = T d) \<Longrightarrow> leaves T (start_record i)"
  "(\<And>d x. T (d \<lparr> deliveries := x \<rparr>) = T d) \<Longrightarrow> leaves T (complete_record i c now)"
  "(\<And>d x. T (d \<lparr> deliveries := x \<rparr>) = T d) \<Longrightarrow> leaves T (reopen_record i now)"
  by (auto simp: leaves_def close_delivery_def count_attempt_def deliver_record_def require_delivered_def deliver_stock_def
      start_record_def complete_record_def reopen_record_def Let_def split: if_splits)

lemma announcement_leaves [leaves]:
  "(\<And>d x. T (d \<lparr> outbox := x \<rparr>) = T d) \<Longrightarrow> leaves T (announce_ready i)"
  "(\<And>d x. T (d \<lparr> outbox := x \<rparr>) = T d) \<Longrightarrow> leaves T (publish_requests i)"
  by (auto simp: announce_ready_def publish_requests_def intro!: leaves)

lemma grants_leave:
  assumes "\<And>d x. T (d \<lparr> entitlements := x \<rparr>) = T d" "\<And>d x. T (d \<lparr> grants := x \<rparr>) = T d"
  shows "\<forall>s\<in>set (activate_grant_statements ra k now). leaves T s"
  using assms by (auto simp: activate_grant_statements_def intro!: leaves)

section \<open>An order that is being fulfilled\<close>

text \<open>An event from a status to itself is refused, so the batch that writes it is undone.\<close>

lemma progress_same_aborts:
  assumes "order_is (o_id x) (o_status x) (o_version x) db"
  shows "\<exists>e. batch_from n (progress_statements x (o_status x) type now @ ss) db = Inl e"
proof (rule ccontr)
  assume "\<not> ?thesis"
  then obtain db' cs where b: "batch_from n (progress_statements x (o_status x) type now @ ss) db = Inr (db', cs)"
    by (metis old.sum.exhaust surj_pair)
  let ?f = "progress_order (o_status x, now)" and ?P = "\<lambda>_ y. o_status y = o_status x \<and> o_version y = o_version x"
  let ?e = "\<lparr> oe_order = o_id x, oe_type = type, oe_from = Some (o_status x), oe_to = Some (o_status x),
      oe_version = Some (Suc (o_version x)) \<rparr>"
  from b obtain d c d' c' where s: "update_order (o_id x) ?P ?f n db = Inr (d, c)"
    "event_when (order_is (o_id x) (o_status x) (Suc (o_version x))) ?e c d = Inr (d', c')"
    unfolding progress_statements_def append_Cons append_Nil by (elim batch_ConsE) (rule that)
  from assms obtain y where y: "y \<in> set (shop_orders db)" "o_id y = o_id x" "o_status y = o_status x" "o_version y = o_version x"
    by (auto simp: order_is_def sql_exists_def list_ex_iff)
  have "order_is (o_id x) (o_status x) (Suc (o_version x)) d"
    unfolding order_is_def update_order_Inr(1) [OF s(1)] using y
    by (intro sql_exists_hit [of y]) (auto simp: progress_order_def)
  with s(2) show False by (simp add: event_when_def insert_order_event_def and_then_Inr)
qed

lemma load_delivery_Some:
  "load_delivery db i = Some (d, it, x) \<Longrightarrow> find_delivery db i = Some d \<and> find_item db (d_order_item d) = Some it
     \<and> find_order db (oi_order it) = Some x \<and> d_id d = i \<and> oi_id it = d_order_item d \<and> o_id x = oi_order it"
  by (auto simp: load_delivery_def find_delivery_def find_item_def find_order_def split: option.splits dest: sql_first_Some)

lemma plain_content_keeps: "d_redeem_sku d = None \<Longrightarrow> snd (delivery_content w env d it db) = db"
  by (simp add: delivery_content_def)

lemma fulfilling_stays:
  assumes l: "load_delivery db i = Some (d, it, x)" and f: "o_status x = Fulfilling" and r: "d_redeem_sku d = None"
    and n: "next_order_status db (o_id x) i = Fulfilling"
  shows "\<exists>r. process_plain_delivery w env (\<lambda>d. d) now i db = (r, db)
     \<and> (d_status d \<noteq> Delivery_Delivered \<longrightarrow> (\<exists>e. r = Inl e))"
proof -
  have o: "order_is (o_id x) (o_status x) (o_version x) db"
    using load_delivery_Some [OF l] by (auto simp: order_is_def sql_exists_def list_ex_iff find_order_def dest: sql_first_Some)
  have fail: "\<exists>e. run_batch (delivery_statements d it x content Fulfilling now) db = Inl e" for content
  proof -
    let ?pre = "[deliver_record (d_id d) content now,
        require_delivered (d_id d) (if d_redeem_sku d = None then ''delivery_conflict'' else ''redeem_delivery_conflict'')]
      @ (if d_type d = Stock_Component then [deliver_stock (oi_id it)] else [])"
    have "\<exists>e. batch_from 0 (?pre @ progress_statements x (o_status x) type now @ ss) db = Inl e" for type ss
    proof (rule ccontr)
      assume "\<not> ?thesis"
      then obtain db' cs where "batch_from 0 (?pre @ progress_statements x (o_status x) type now @ ss) db = Inr (db', cs)"
        by (metis old.sum.exhaust surj_pair)
      then obtain m k c1 c2 where b: "batch_from 0 ?pre db = Inr (m, c1)"
        "batch_from k (progress_statements x (o_status x) type now @ ss) m = Inr (db', c2)" unfolding batch_append by blast
      have "shop_orders m = shop_orders db" by (rule leaves_batch [OF b(1)]) (auto intro!: leaves)
      then have "order_is (o_id x) (o_status x) (o_version x) m" using o by (simp add: order_is_def)
      with progress_same_aborts [OF this, of k type now ss] b(2) show False by auto
    qed
    then show ?thesis unfolding run_batch_def delivery_statements_def f [symmetric] append_assoc .
  qed
  have id: "d_id d = i" using load_delivery_Some [OF l] by simp
  show ?thesis
  proof (cases "delivery_content w env d it db")
    case (Pair c m)
    then have "m = db" using plain_content_keeps [OF r, of w env it db] by simp
    show ?thesis
    proof (cases c)
      case (Inr content)
      obtain e where "run_batch (delivery_statements d it x content Fulfilling now) db = Inl e" using fail by blast
      with Pair Inr \<open>m = db\<close> n f r l show ?thesis
        by (auto simp: process_plain_delivery_def undeliverable_def deliverable_def Let_def delivered_again_def)
    qed (use Pair \<open>m = db\<close> n f r l in \<open>auto simp: process_plain_delivery_def undeliverable_def deliverable_def Let_def delivered_again_def\<close>)
  qed
qed

lemma other_outstanding:
  assumes "load_delivery db i = Some (d, it, x)" and "d_status d \<noteq> Delivery_Delivered" and "i \<noteq> j"
  shows "next_order_status db (o_id x) j = Fulfilling"
proof -
  note l = load_delivery_Some [OF assms(1)]
  have "d \<in> set (deliveries db)" using l by (auto simp: find_delivery_def dest: sql_first_Some)
  moreover have "it \<in> set (order_items db)" using l by (auto simp: find_item_def dest: sql_first_Some)
  then have "d_order_item d \<in> set (order_item_ids db (o_id x))" using l by (force simp: order_item_ids_def)
  ultimately show ?thesis
    using assms(2,3) l by (auto simp: next_order_status_def outstanding_def sql_exists_def list_ex_iff)
qed

section \<open>What a delivery does\<close>

lemma open_entries_Inr: "open_entries w ss = Inr ts \<Longrightarrow> length ts = length ss"
  by (induction ss arbitrary: ts) (auto simp: and_then_Inr)

lemma deliver_record_Inr:
  "deliver_record i content now n db = Inr (d', c) \<Longrightarrow>
     d' = db \<lparr> deliveries := sql_update (\<lambda>d. open_delivery i d \<and> item_deliverable db (d_order_item d) \<and> entries_converted d db)
        (mark_delivered content now) (deliveries db) \<rparr>
     \<and> c = sql_changes (\<lambda>d. open_delivery i d \<and> item_deliverable db (d_order_item d) \<and> entries_converted d db) (deliveries db)"
  by (auto simp: deliver_record_def Let_def)

definition hands_over :: "string \<Rightarrow> db \<Rightarrow> delivery_row \<Rightarrow> bool" where
  "hands_over i db q \<longleftrightarrow> open_delivery i q \<and> item_deliverable db (d_order_item q) \<and> entries_converted q db"

lemma delivery_batch:
  assumes "run_batch (delivery_statements d it x content st now) m = Inr (db', cs)"
  shows "deliveries db' = sql_update (hands_over (d_id d) m) (mark_delivered content now) (deliveries m)"
    and "cs ! 0 = sql_changes (hands_over (d_id d) m) (deliveries m)"
    and "sql_exists (\<lambda>q. d_id q = d_id d \<and> d_status q = Delivery_Delivered) (deliveries db')"
    and "d_type d = Stock_Component \<Longrightarrow> \<forall>s\<in>set (stock db'). st_order_item s = Some (oi_id it) \<longrightarrow> st_status s \<noteq> Stock_Reserved"
    and "shop_orders db' = sql_update (\<lambda>y. o_id y = o_id x \<and> o_status y = o_status x \<and> o_version y = o_version x)
        (progress_order (st, now)) (shop_orders m)"
    and "sql_exists (\<lambda>e. ob_key e = ''delivery-ready:'' @ d_id d) (outbox db')"
proof -
  let ?code = "if d_redeem_sku d = None then ''delivery_conflict'' else ''redeem_delivery_conflict''"
  let ?sold = "if d_type d = Stock_Component then [deliver_stock (oi_id it)] else []"
  let ?rest = "if d_type d = Stock_Component then activate_grant_statements False (oi_id it) now else []"
  let ?update = "update_order (o_id x) (\<lambda>_ y. o_status y = o_status x \<and> o_version y = o_version x) (progress_order (st, now))"
  let ?event = "event_when (order_is (o_id x) st (Suc (o_version x))) \<lparr> oe_order = o_id x, oe_type = ''delivery_progressed'',
      oe_from = Some (o_status x), oe_to = Some st, oe_version = Some (Suc (o_version x)) \<rparr>"
  from assms have "batch_from 0 ([deliver_record (d_id d) content now, require_delivered (d_id d) ?code] @ ?sold
      @ (?update # ?event # announce_ready (d_id d) # publish_requests (d_id d) # ?rest)) m = Inr (db', cs)"
    by (simp only: run_batch_def delivery_statements_def progress_statements_def append.simps append_assoc)
  then obtain d1 c1 cs1 d2 c2 d3 k cs3 d4 c4 d5 c5 d6 c6 d7 c7 cs7 where
    s: "deliver_record (d_id d) content now 0 m = Inr (d1, c1)" "cs = c1 # cs1"
    "require_delivered (d_id d) ?code c1 d1 = Inr (d2, c2)" "batch_from c2 ?sold d2 = Inr (d3, cs3)"
    "?update k d3 = Inr (d4, c4)" "?event c4 d4 = Inr (d5, c5)" "announce_ready (d_id d) c5 d5 = Inr (d6, c6)"
    "publish_requests (d_id d) c6 d6 = Inr (d7, c7)" "batch_from c7 ?rest d7 = Inr (db', cs7)"
    unfolding append.simps batch_Cons batch_append by blast
  note r = deliver_record_Inr [OF s(1)]
  have d2: "d2 = d1" and ex: "sql_exists (\<lambda>q. d_id q = d_id d \<and> d_status q = Delivery_Delivered) (deliveries d1)"
    using s(3) by (auto simp: require_delivered_def split: if_splits)
  have up: "leaves T ?update" if "\<And>a s b. same_rest (a \<lparr> shop_orders := s \<rparr>) b \<Longrightarrow> T b = T a" for T :: "db \<Rightarrow> 'b"
    using that by (rule update_order_leaves)
  have lv: "T d4 = T d3" if "\<And>a s b. same_rest (a \<lparr> shop_orders := s \<rparr>) b \<Longrightarrow> T b = T a" for T :: "db \<Rightarrow> 'b"
    using leavesD [OF s(5) up] that by blast
  have late: "T db' = T d4" if "\<And>d x. T (d \<lparr> order_events := x \<rparr>) = T d" "\<And>d x. T (d \<lparr> outbox := x \<rparr>) = T d"
    "\<And>d x. T (d \<lparr> entitlements := x \<rparr>) = T d" "\<And>d x. T (d \<lparr> grants := x \<rparr>) = T d" for T :: "db \<Rightarrow> 'b"
  proof -
    have "T d5 = T d4" using leavesD [OF s(6) log_leaves(1)] that by blast
    moreover have "T d6 = T d5" using leavesD [OF s(7) announcement_leaves(1)] that by blast
    moreover have "T d7 = T d6" using leavesD [OF s(8) announcement_leaves(2)] that by blast
    moreover have "T db' = T d7" by (rule leaves_batch [OF s(9)]) (use grants_leave [where T = T] that in auto)
    ultimately show ?thesis by simp
  qed
  have sold: "deliveries d3 = deliveries d2" "shop_orders d3 = shop_orders d2"
    by (rule leaves_batch [OF s(4)]; auto intro!: leaves)+
  have del: "deliveries db' = deliveries d1" using late [of deliveries] lv [of deliveries] sold(1) d2 by (simp add: same_rest_def)
  show "deliveries db' = sql_update (hands_over (d_id d) m) (mark_delivered content now) (deliveries m)"
    "cs ! 0 = sql_changes (hands_over (d_id d) m) (deliveries m)"
    using r del s(2) by (simp_all add: hands_over_def [abs_def])
  show "sql_exists (\<lambda>q. d_id q = d_id d \<and> d_status q = Delivery_Delivered) (deliveries db')" using ex del by simp
  show "\<forall>s\<in>set (stock db'). st_order_item s = Some (oi_id it) \<longrightarrow> st_status s \<noteq> Stock_Reserved" if "d_type d = Stock_Component"
  proof -
    have "stock db' = stock d3" using late [of stock] lv [of stock] by (simp add: same_rest_def)
    moreover have "\<forall>s\<in>set (stock d3). st_order_item s = Some (oi_id it) \<longrightarrow> st_status s \<noteq> Stock_Reserved"
      using s(4) that by (auto simp: deliver_stock_def Let_def sql_update_def split: if_splits)
    ultimately show ?thesis by simp
  qed
  have "shop_orders d1 = shop_orders m" using r by simp
  then show "shop_orders db' = sql_update (\<lambda>y. o_id y = o_id x \<and> o_status y = o_status x \<and> o_version y = o_version x)
        (progress_order (st, now)) (shop_orders m)"
    using late [of shop_orders] update_order_Inr(1) [OF s(5)] sold(2) d2 by simp
  have "deliveries d5 = deliveries d1"
    using leavesD [OF s(6) log_leaves(1), of deliveries] lv [of deliveries] sold(1) d2 by (simp add: same_rest_def)
  then have "sql_exists (\<lambda>e. ob_key e = ''delivery-ready:'' @ d_id d) (outbox d6)"
    using s(7) ex by (auto simp: announce_ready_def outbox_when_def insert_outbox_def request_event_def sql_exists_def split: if_splits)
  moreover have "map ob_key (outbox d7) = map ob_key (outbox d6)"
    using s(8) by (auto simp: publish_requests_def publish_events_def Let_def sql_update_cong_key)
  then have "ob_key ` set (outbox d7) = ob_key ` set (outbox d6)" by (metis list.set_map)
  moreover have "outbox db' = outbox d7" by (rule leaves_batch [OF s(9)]) (use grants_leave [where T = outbox] in auto)
  ultimately show "sql_exists (\<lambda>e. ob_key e = ''delivery-ready:'' @ d_id d) (outbox db')"
    by (simp add: sql_exists_def list_ex_iff) (metis image_iff)
qed

lemma handed_over:
  assumes "process_plain_delivery w env env' now i db = (Inr r, db')" and "\<not> dy_duplicate r" and "dy_status r = Delivery_Delivered"
  obtains d it x content m cs where "load_delivery db i = Some (d, it, x)" "deliverable (o_status x)"
    "delivery_content w env d it db = (Inr content, m)"
    "run_batch (delivery_statements d it x content (next_order_status m (o_id x) i) now) (env' m) = Inr (db', cs)" "0 < cs ! 0"
    "r = \<lparr> dy_status = Delivery_Delivered, dy_order = Some (next_order_status m (o_id x) i), dy_duplicate = False \<rparr>"
proof -
  note p = assms(1) [unfolded process_plain_delivery_def]
  from p obtain d it x where l: "load_delivery db i = Some (d, it, x)" by (cases "load_delivery db i") auto
  note p = p [unfolded l option.case prod.case]
  from p assms(2) have n1: "d_status d \<noteq> Delivery_Delivered" by (auto simp: delivered_again_def)
  note p = p [unfolded if_not_P [OF n1]]
  from p have n2: "d_status d \<noteq> Delivery_Failed" by auto
  note p = p [unfolded if_not_P [OF n2]]
  have n3: "\<not> undeliverable (o_status x)"
  proof
    assume "undeliverable (o_status x)"
    with p assms(3) show False by (auto simp: close_undeliverable_def split: sum.splits prod.splits)
  qed
  note p = p [unfolded if_not_P [OF n3]]
  from p have dl: "deliverable (o_status x)" by (auto split: if_splits)
  then have n4: "\<not> \<not> deliverable (o_status x)" by simp
  note p = p [unfolded if_not_P [OF n4]]
  obtain c m where c: "delivery_content w env d it db = (c, m)" by fastforce
  note p = p [unfolded c prod.case]
  from p obtain content where k: "c = Inr content" by (cases c) auto
  note p = p [unfolded k sum.case Let_def]
  from p obtain db'' cs where b: "run_batch (delivery_statements d it x content (next_order_status m (o_id x) i) now) (env' m) = Inr (db'', cs)"
    by (cases "run_batch (delivery_statements d it x content (next_order_status m (o_id x) i) now) (env' m)") auto
  note p = p [unfolded b sum.case prod.case]
  show thesis
  proof (cases "cs ! 0 < 1")
    case True
    with p assms(2) show thesis by (auto simp: delivered_again_def)
  next
    case False
    with p b have "db'' = db'" "0 < cs ! 0" "r = \<lparr> dy_status = Delivery_Delivered, dy_order = Some (next_order_status m (o_id x) i), dy_duplicate = False \<rparr>"
      by auto
    with that l dl c k b show thesis by blast
  qed
qed

text \<open>What a buyer gets of stock that is not redeemed: its entries, opened, in order, as many as he bought.\<close>

definition content_of :: "worker \<Rightarrow> db \<Rightarrow> item_row \<Rightarrow> string option \<Rightarrow> bool" where
  "content_of w db it content \<longleftrightarrow> int (length (reserved_entries db (oi_id it))) = oi_quantity it
     \<and> (\<exists>ts. open_entries w (reserved_entries db (oi_id it)) = Inr ts \<and> content = Some (wk_seal w (join_lines ts)))"

lemma delivery_content_opened:
  assumes "delivery_content w env d it db = (Inr content, m)" and "d_type d = Stock_Component" and "d_redeem_sku d = None"
  shows "content_of w db it content"
  using assms by (auto simp: delivery_content_def content_of_def and_then_Inr split: if_splits)

text \<open>
  C25. A delivery that succeeds hands its content over: the order was paid or being fulfilled,
  also when the batch ran; stock that is not redeemed is opened, all of it and in order, and no
  entry of the item stays reserved; the record holds the content, the order that was read moves
  on or is complete, and the buyer is told once. Others may run during the calls and before the
  batch.
\<close>

lemma delivery_hands_over:
  assumes "process_plain_delivery w env env' now i db = (Inr r, db')" and "\<not> dy_duplicate r" and "dy_status r = Delivery_Delivered"
  shows "\<exists>d it x content m. load_delivery db i = Some (d, it, x) \<and> deliverable (o_status x)
     \<and> delivery_content w env d it db = (Inr content, m)
     \<and> (d_type d = Stock_Component \<and> d_redeem_sku d = None \<longrightarrow> content_of w db it content)
     \<and> sql_exists (hands_over i (env' m)) (deliveries (env' m))
     \<and> deliveries db' = sql_update (hands_over i (env' m)) (mark_delivered content now) (deliveries (env' m))
     \<and> (d_type d = Stock_Component \<longrightarrow> (\<forall>s\<in>set (stock db'). st_order_item s = Some (oi_id it) \<longrightarrow> st_status s \<noteq> Stock_Reserved))
     \<and> shop_orders db' = sql_update (\<lambda>y. o_id y = o_id x \<and> o_status y = o_status x \<and> o_version y = o_version x)
         (progress_order (next_order_status m (o_id x) i, now)) (shop_orders (env' m))
     \<and> sql_exists (\<lambda>e. ob_key e = ''delivery-ready:'' @ i) (outbox db')"
proof -
  obtain d it x content m cs where c: "load_delivery db i = Some (d, it, x)" "deliverable (o_status x)"
    "delivery_content w env d it db = (Inr content, m)"
    "run_batch (delivery_statements d it x content (next_order_status m (o_id x) i) now) (env' m) = Inr (db', cs)" "0 < cs ! 0"
    by (rule handed_over [OF assms])
  note b = delivery_batch [OF c(4)]
  have i: "d_id d = i" using load_delivery_Some [OF c(1)] by simp
  have "sql_exists (hands_over i (env' m)) (deliveries (env' m))"
    using c(5) b(2) by (simp add: i sql_exists_def list_ex_iff sql_changes_pos)
  with c(1-3) b(1,4,5,6) delivery_content_opened [OF c(3)] i show ?thesis by (intro exI) (auto simp: i)
qed

text \<open>A failure that is recorded counts the attempt and nothing else.\<close>

lemma record_owned_failure_frame:
  "stock (record_owned_failure i other e b) = stock b" "grants (record_owned_failure i other e b) = grants b"
  "entitlements (record_owned_failure i other e b) = entitlements b" "shop_orders (record_owned_failure i other e b) = shop_orders b"
  "map d_status (deliveries (record_owned_failure i other e b)) = map d_status (deliveries b)"
  by (simp_all add: record_owned_failure_def run_batch_def count_attempt_def audit_def sql_update_cong_key)

lemma undelivered_batch:
  assumes "\<forall>q\<in>set (deliveries b). d_id q = d_id d \<longrightarrow> \<not> item_deliverable b (d_order_item q) \<and> d_status q \<noteq> Delivery_Delivered"
  shows "\<exists>e. run_batch (delivery_statements d it x content st now) b = Inl e"
proof -
  have "sql_update (\<lambda>q. open_delivery (d_id d) q \<and> item_deliverable b (d_order_item q) \<and> entries_converted q b)
      (mark_delivered content now) (deliveries b) = deliveries b"
    by (rule sql_update_none) (use assms in \<open>auto simp: open_delivery_def\<close>)
  moreover have "\<not> sql_exists (\<lambda>q. d_id q = d_id d \<and> d_status q = Delivery_Delivered) (deliveries b)"
    using assms by (auto simp: sql_exists_def list_ex_iff)
  ultimately show ?thesis
    by (simp add: run_batch_def delivery_statements_def deliver_record_def require_delivered_def Let_def)
qed


section \<open>A shipment\<close>

text \<open>Three items of one order, one code each, and its workers.\<close>

definition sample_worker :: worker where
  "sample_worker = \<lparr> wk_secret = True, wk_open = Inr, wk_close = (\<lambda>t. t), wk_seal = (\<lambda>t. ''sealed '' @ t),
     wk_unseal = (\<lambda>t. Inr (drop 7 t)), wk_token = Inr (), wk_key = Some, wk_convert = (\<lambda>sku i k. Inr (sku, k)),
     wk_redeem_code = (\<lambda>sku k. True), wk_format = (\<lambda>k. k), wk_marked = (\<lambda>sku t. True) \<rparr>"

definition shipped_delivery :: "string \<Rightarrow> delivery_row" where
  "shipped_delivery i = \<lparr> d_id = ''d'' @ i, d_order_item = i, d_type = Stock_Component, d_request_key = initial_key i,
     d_status = Delivery_Pending, d_error = None, d_content = None, d_redeem_sku = None, d_attempts = 0,
     d_next_attempt_at = None, d_delivered_at = None \<rparr>"

definition shipped_entry :: "string \<Rightarrow> stock_row" where
  "shipped_entry i = \<lparr> st_id = ''s'' @ i, st_sellable = ''c'', st_status = Stock_Reserved, st_order_item = Some i,
     st_content = ''code '' @ i, st_fingerprint = i, st_redeem_sku = None, st_created_at = 1 \<rparr>"

definition shipment :: "string list \<Rightarrow> db" where
  "shipment items = sample_db \<lparr> shop_orders := [sample_order \<lparr> o_status := Paid, o_paid := 500 \<rparr>],
     order_items := map (\<lambda>i. (sample_item i ''o'') \<lparr> oi_component_type := Stock_Component \<rparr>) items,
     deliveries := map shipped_delivery items, stock := map shipped_entry items \<rparr>"

definition ship :: "(db \<Rightarrow> db) \<Rightarrow> int \<Rightarrow> string \<Rightarrow> db \<Rightarrow> delivery_reply result \<times> db" where
  "ship env now i db = process_plain_delivery sample_worker (\<lambda>k d. d) env now (''d'' @ i) db"

lemma ship_reply: "fst (ship (\<lambda>d. d) 7 ''i'' (shipment [''i'']))
    = Inr \<lparr> dy_status = Delivery_Delivered, dy_order = Some Completed, dy_duplicate = False \<rparr>"
  by code_simp

lemma delivery_hands_over_witness:
  "map d_content (deliveries (snd (ship (\<lambda>d. d) 7 ''i'' (shipment [''i''])))) = [Some ''sealed code i'']
   \<and> sql_exists (\<lambda>e. ob_key e = ''delivery-ready:di'') (outbox (snd (ship (\<lambda>d. d) 7 ''i'' (shipment [''i'']))))"
proof -
  let ?r = "\<lparr> dy_status = Delivery_Delivered, dy_order = Some Completed, dy_duplicate = False \<rparr>"
  have p: "process_plain_delivery sample_worker (\<lambda>k d. d) (\<lambda>d. d) 7 (''d'' @ ''i'') (shipment [''i''])
      = (Inr ?r, snd (ship (\<lambda>d. d) 7 ''i'' (shipment [''i''])))"
    using ship_reply by (simp add: ship_def prod_eq_iff)
  have "map d_content (deliveries (snd (ship (\<lambda>d. d) 7 ''i'' (shipment [''i''])))) = [Some ''sealed code i'']" by code_simp
  with delivery_hands_over [OF p] show ?thesis by (auto simp: sql_exists_def)
qed

definition refund_meanwhile :: "db \<Rightarrow> db" where
  "refund_meanwhile db = db \<lparr> shop_orders := sql_update (\<lambda>x. True) (\<lambda>x. x \<lparr> o_status := Refunded, o_version := o_version x + 1 \<rparr>) (shop_orders db) \<rparr>"


lemma manual_stays:
  assumes l: "load_delivery db i = Some (d, it, x)" and f: "o_status x = Fulfilling"
    and n: "next_order_status db (o_id x) i = Fulfilling"
  shows "\<exists>r. complete_manual_delivery w cat (\<lambda>d. d) now i text db = (r, db)
     \<and> (d_status d \<noteq> Delivery_Delivered \<longrightarrow> (\<exists>e. r = Inl e))"
proof -
  have o: "order_is (o_id x) (o_status x) (o_version x) db"
    using load_delivery_Some [OF l] by (auto simp: order_is_def sql_exists_def list_ex_iff find_order_def dest: sql_first_Some)
  have "\<exists>e. run_batch (manual_statements d it x content (o_status x) now) db = Inl e" for content
  proof (rule ccontr)
    assume "\<not> ?thesis"
    then obtain db' cs where "batch_from 0 (complete_record (d_id d) content now # progress_statements x (o_status x) ''delivery_progressed'' now
        @ announce_ready (d_id d) # activate_grant_statements False (oi_id it) now) db = Inr (db', cs)"
      unfolding run_batch_def manual_statements_def by (metis old.sum.exhaust surj_pair)
    then obtain m k c2 where b: "complete_record (d_id d) content now 0 db = Inr (m, k)"
      "batch_from k (progress_statements x (o_status x) ''delivery_progressed'' now
        @ announce_ready (d_id d) # activate_grant_statements False (oi_id it) now) m = Inr (db', c2)" by (elim batch_ConsE) (rule that)
    have "shop_orders m = shop_orders db" using b(1) by (auto simp: complete_record_def Let_def)
    then have "order_is (o_id x) (o_status x) (o_version x) m" using o by (simp add: order_is_def)
    then obtain e where "batch_from k (progress_statements x (o_status x) ''delivery_progressed'' now
        @ announce_ready (d_id d) # activate_grant_statements False (oi_id it) now) m = Inl e"
      using progress_same_aborts by metis
    with b(2) show False by simp
  qed
  note fail = this [unfolded f]
  show ?thesis
  proof (cases "load_manual cat db i")
    case None
    with l show ?thesis by (auto simp: complete_manual_delivery_def)
  next
    case (Some p)
    then obtain source where m: "load_manual cat db i = Some (d, it, x, source)" using l by (auto simp: load_manual_def)
    obtain e where "run_batch (manual_statements d it x (wk_seal w (js_trim text)) Fulfilling now) db = Inl e" using fail by blast
    with m n f show ?thesis by (auto simp: complete_manual_delivery_def Let_def deliverable_def delivered_again_def)
  qed
qed

end
