(* ===== verification/Service_Deliveries.thy ===== *)
theory Service_Deliveries
  imports Deliveries Payments
begin

text \<open>
  Deliveries that other services make: the upgrade of an account
  (\<^verbatim>\<open>gpt-upgrade/server/fulfillment.ts\<close>) and agent access
  (\<^verbatim>\<open>agent-access/server/fulfillment.ts\<close>). Each attempt takes a lease on its row,
  calls the service, which is a function here, and completes in one batch or schedules the next
  attempt; the eighth failure is the last. \<open>process_delivery\<close> is what the queue calls.
\<close>

section \<open>Statements of both services\<close>

definition order_has_refund :: "refund_status set \<Rightarrow> db \<Rightarrow> string \<Rightarrow> bool" where
  "order_has_refund st db i = sql_exists (\<lambda>r. r_order r = i \<and> r_status r \<in> st) (refunds db)"

definition item_order :: "db \<Rightarrow> string \<Rightarrow> order_row option" where
  "item_order db item_id = Option.bind (find_item db item_id) (\<lambda>it. find_order db (oi_order it))"

definition finish_order :: "int \<Rightarrow> order_row \<Rightarrow> order_row" where
  "finish_order now x = x \<lparr> o_status := Completed, o_completed_at := Some now, o_version := Suc (o_version x), o_updated_at := now \<rparr>"

definition complete_order :: "string \<Rightarrow> int \<Rightarrow> db stmt" where
  "complete_order i now =
     update_order i (\<lambda>db x. deliverable (o_status x)
       \<and> \<not> sql_exists (\<lambda>d. d_order_item d \<in> set (order_item_ids db i) \<and> d_status d \<noteq> Delivery_Delivered) (deliveries db))
       (finish_order now)"

text \<open>\<^verbatim>\<open>INSERT OR IGNORE\<close> of the event of a completed order, at its version.\<close>

definition completed_event :: "string \<Rightarrow> order_status option \<Rightarrow> db stmt" where
  "completed_event i from n db =
     (case sql_first (\<lambda>x. o_id x = i \<and> o_status x = Completed) (shop_orders db) of
        None \<Rightarrow> Inr (db, 0)
      | Some x \<Rightarrow>
          (case insert_order_event \<lparr> oe_order = i, oe_type = ''delivery_progressed'', oe_from = from, oe_to = Some Completed,
                  oe_version = Some (o_version x) \<rparr> db of
             Inl _ \<Rightarrow> Inr (db, 0) | Inr db \<Rightarrow> Inr (db, 1)))"

definition backoff :: "nat \<Rightarrow> int" where
  "backoff k = min 3600000 (60000 * 2 ^ k)"

definition max_attempts :: nat where
  "max_attempts = 8"

section \<open>Upgrades\<close>

definition find_upgrade :: "db \<Rightarrow> string \<Rightarrow> upgrade_row option" where
  "find_upgrade db item_id = sql_first (\<lambda>u. up_order_item u = item_id) (upgrades db)"

definition load_upgrade :: "db \<Rightarrow> string \<Rightarrow> (upgrade_row \<times> order_row) option" where
  "load_upgrade db i =
     Option.bind (find_delivery db i) (\<lambda>d. Option.bind (find_upgrade db (d_order_item d)) (\<lambda>u.
       map_option (Pair u) (item_order db (up_order_item u))))"

fun upgrade_name :: "upgrade_state \<Rightarrow> string" where
  "upgrade_name Upgrade_Pending = ''pending''"
| "upgrade_name Upgrade_Delivered = ''delivered''"
| "upgrade_name Upgrade_Review = ''needs_review''"
| "upgrade_name Upgrade_Cancelled = ''cancelled''"

definition open_refunds :: "refund_status set" where
  "open_refunds = {Refund_Pending, Refund_Processing, Refund_Succeeded}"

definition upgrade_deliverable :: "db \<Rightarrow> string \<Rightarrow> bool" where
  "upgrade_deliverable db item_id \<longleftrightarrow>
     (case item_order db item_id of
        None \<Rightarrow> False
      | Some x \<Rightarrow> deliverable (o_status x) \<and> o_paid x \<noteq> 0 \<and> \<not> order_has_refund open_refunds db (o_id x))"

definition lease_upgrade :: "string \<Rightarrow> int \<Rightarrow> db \<Rightarrow> db \<times> nat" where
  "lease_upgrade item_id now db =
     (let hit = (\<lambda>u. up_order_item u = item_id \<and> up_state u = Upgrade_Pending \<and> up_next_attempt_at u \<le> now
                   \<and> up_attempts u < max_attempts \<and> upgrade_deliverable db item_id)
      in (db \<lparr> upgrades := sql_update hit (\<lambda>u. u \<lparr> up_attempts := up_attempts u + 1, up_next_attempt_at := now + 60000 \<rparr>)
                 (upgrades db) \<rparr>, sql_changes hit (upgrades db)))"

definition finish_upgrade :: "string \<Rightarrow> string \<Rightarrow> db stmt" where
  "finish_upgrade item_id url n db =
     (let hit = (\<lambda>u. up_order_item u = item_id \<and> up_state u = Upgrade_Pending \<and> upgrade_deliverable db item_id)
      in Inr (db \<lparr> upgrades := sql_update hit (\<lambda>u. u \<lparr> up_state := Upgrade_Delivered, up_status_url := Some url, up_error := None \<rparr>)
                (upgrades db) \<rparr>, sql_changes hit (upgrades db)))"

definition deliver_upgrade_record :: "string \<Rightarrow> string \<Rightarrow> int \<Rightarrow> db stmt" where
  "deliver_upgrade_record i content now n db =
     (let hit = (\<lambda>d. open_delivery i d
            \<and> sql_exists (\<lambda>u. up_order_item u = d_order_item d \<and> up_state u = Upgrade_Delivered) (upgrades db))
      in Inr (db \<lparr> deliveries := sql_update hit (\<lambda>d. d \<lparr> d_status := Delivery_Delivered, d_content := Some content,
                 d_error := None, d_next_attempt_at := None, d_delivered_at := Some now \<rparr>) (deliveries db) \<rparr>,
              sql_changes hit (deliveries db)))"

definition upgrade_statements :: "string \<Rightarrow> string \<Rightarrow> string \<Rightarrow> string \<Rightarrow> string \<Rightarrow> int \<Rightarrow> db stmt list" where
  "upgrade_statements i item_id order_id url content now =
     [finish_upgrade item_id url, deliver_upgrade_record i content now]
     @ activate_grant_statements False item_id now
     @ [complete_order order_id now, completed_event order_id None, announce_ready i]"

definition upgrade_rejected :: "string list" where
  "upgrade_rejected = [''redeem_warehouse_http_409_upgrade.quote_already_paid'', ''redeem_warehouse_http_409_upgrade.amount_mismatch'']"

definition fail_upgrade :: "string \<Rightarrow> bool \<Rightarrow> string \<Rightarrow> int \<Rightarrow> db stmt" where
  "fail_upgrade item_id terminal code next_at n db =
     (let hit = (\<lambda>u. up_order_item u = item_id \<and> up_state u = Upgrade_Pending)
      in Inr (db \<lparr> upgrades := sql_update hit (\<lambda>u. u \<lparr> up_state := (if terminal then Upgrade_Review else Upgrade_Pending),
                 up_error := Some code, up_next_attempt_at := next_at \<rparr>) (upgrades db) \<rparr>, sql_changes hit (upgrades db)))"

definition fail_upgrade_record :: "string \<Rightarrow> bool \<Rightarrow> string \<Rightarrow> int \<Rightarrow> db stmt" where
  "fail_upgrade_record i terminal code next_at n db =
     Inr (db \<lparr> deliveries := sql_update (open_delivery i) (\<lambda>d. d \<lparr>
                d_status := (if terminal then Delivery_Failed else Delivery_Processing), d_error := Some code,
                d_attempts := d_attempts d + 1, d_next_attempt_at := (if terminal then None else Some next_at) \<rparr>)
                (deliveries db) \<rparr>, sql_changes (open_delivery i) (deliveries db))"

text \<open>The attempts are those of the row as it was read, before the lease counted this one.\<close>

definition record_upgrade_failure :: "upgrade_row \<Rightarrow> string \<Rightarrow> string \<Rightarrow> int \<Rightarrow> db \<Rightarrow> string result \<times> db" where
  "record_upgrade_failure u i code now db =
     (let terminal = (code \<in> set upgrade_rejected \<or> max_attempts \<le> up_attempts u + 1);
          next_at = now + backoff (up_attempts u)
      in case run_batch [fail_upgrade (up_order_item u) terminal code next_at, fail_upgrade_record i terminal code next_at] db of
           Inl e \<Rightarrow> (Inl e, db)
         | Inr (db, _) \<Rightarrow>
             (if terminal then Inr ''needs_review'' else Inl (DomainError ''upgrade_delivery_pending'' 503), db))"

text \<open>
  \<open>pay\<close> is the answer of the warehouse for an item: the page of the upgrade or the failure.
  Others run before the lease (\<open>env\<close>) and during the call (\<open>env'\<close>). The result is \<open>None\<close> when the
  delivery is not an upgrade.
\<close>

definition process_upgrade_delivery ::
  "(string \<Rightarrow> string result) \<Rightarrow> (string \<Rightarrow> string) \<Rightarrow> (db \<Rightarrow> db) \<Rightarrow> (db \<Rightarrow> db) \<Rightarrow> int \<Rightarrow> int \<Rightarrow> string \<Rightarrow> db
   \<Rightarrow> string result option \<times> db" where
  "process_upgrade_delivery pay content env env' now later i db =
     (case load_upgrade db i of
        None \<Rightarrow> (None, db)
      | Some (u, x) \<Rightarrow>
          (if order_has_refund open_refunds db (o_id x) \<or> o_status x \<notin> {Paid, Fulfilling, Completed} \<or> o_paid x = 0
           then (Some (Inr ''waiting''), db)
           else if up_state u \<noteq> Upgrade_Pending then (Some (Inr (upgrade_name (up_state u))), db)
           else if now < up_next_attempt_at u then (Some (Inr ''processing''), db)
           else if max_attempts \<le> up_attempts u
           then (let (r, db) = record_upgrade_failure u i ''upgrade_delivery_exhausted'' now (env db) in (Some r, db))
           else
             (let (db, leased) = lease_upgrade (up_order_item u) now (env db)
              in if leased = 0 then (Some (Inr ''processing''), db)
                 else
                   (let db = env' db
                    in case and_then (pay (up_order_item u)) (\<lambda>url.
                              run_batch (upgrade_statements i (up_order_item u) (o_id x) url (content url) later) db) of
                         Inl e \<Rightarrow> (let (r, db) = record_upgrade_failure u i (failure_name ''upgrade_delivery_pending'' e) now db
                                  in (Some r, db))
                       | Inr (db, _) \<Rightarrow>
                           (Some (Inr (if map_option up_state (find_upgrade db (up_order_item u)) = Some Upgrade_Delivered
                                       then ''delivered'' else ''waiting'')), db)))))"

section \<open>Agent access\<close>

record agent_answer =
  aa_active :: bool
  aa_user :: "int option"
  aa_domain :: "string option"
  aa_password_valid :: bool

text \<open>The service provisions or revokes the access of an item.\<close>

record agent_service =
  as_secret :: bool
  as_password :: string
  as_readable :: "string \<Rightarrow> bool"
  as_provision :: "string \<Rightarrow> agent_answer result"
  as_revoke :: "string \<Rightarrow> bool result"

fun agent_name :: "agent_state \<Rightarrow> string" where
  "agent_name Agent_Pending = ''pending''"
| "agent_name Agent_Active = ''active''"
| "agent_name Agent_Revoked = ''revoked''"
| "agent_name Agent_Cancelled = ''cancelled''"

definition find_agent :: "db \<Rightarrow> string \<Rightarrow> agent_row option" where
  "find_agent db item_id = sql_first (\<lambda>a. ag_order_item a = item_id) (agents db)"

definition load_agent :: "db \<Rightarrow> string \<Rightarrow> (agent_row \<times> order_row) option" where
  "load_agent db i =
     Option.bind (find_delivery db i) (\<lambda>d. Option.bind (find_agent db (d_order_item d)) (\<lambda>a.
       map_option (Pair a) (item_order db (ag_order_item a))))"

definition update_agent :: "string \<Rightarrow> (agent_row \<Rightarrow> bool) \<Rightarrow> (agent_row \<Rightarrow> agent_row) \<Rightarrow> db stmt" where
  "update_agent item_id P f n db =
     (let hit = (\<lambda>a. ag_order_item a = item_id \<and> P a)
      in Inr (db \<lparr> agents := sql_update hit f (agents db) \<rparr>, sql_changes hit (agents db)))"

definition agent_pending :: "agent_row \<Rightarrow> bool" where
  "agent_pending a \<longleftrightarrow> ag_state a = Agent_Pending"

text \<open>An update outside a batch.\<close>

definition write_agent :: "string \<Rightarrow> (agent_row \<Rightarrow> bool) \<Rightarrow> (agent_row \<Rightarrow> agent_row) \<Rightarrow> db \<Rightarrow> db \<times> nat" where
  "write_agent item_id P f db = (case update_agent item_id P f 0 db of Inl _ \<Rightarrow> (db, 0) | Inr r \<Rightarrow> r)"

definition lease_agent :: "string \<Rightarrow> int \<Rightarrow> db \<Rightarrow> db \<times> nat" where
  "lease_agent item_id now =
     write_agent item_id (\<lambda>a. agent_pending a \<and> ag_next_attempt_at a \<le> now \<and> ag_attempts a < max_attempts)
       (\<lambda>a. a \<lparr> ag_attempts := ag_attempts a + 1, ag_next_attempt_at := now + 60000 \<rparr>)"

definition revoke_agent :: "agent_service \<Rightarrow> (db \<Rightarrow> db) \<Rightarrow> string \<Rightarrow> db \<Rightarrow> unit result \<times> db" where
  "revoke_agent sv env item_id db =
     (case as_revoke sv item_id of
        Inl e \<Rightarrow> (Inl e, env db)
      | Inr revoked \<Rightarrow>
          (if \<not> revoked then (Inl (PlainError ''revocation_pending''), env db)
           else (Inr (), fst (write_agent item_id (\<lambda>_. True)
                   (\<lambda>a. a \<lparr> ag_state := Agent_Revoked, ag_password := None, ag_error := None \<rparr>) (env db)))))"

definition activate_agent :: "string \<Rightarrow> string \<Rightarrow> agent_answer \<Rightarrow> db stmt" where
  "activate_agent item_id order_id r n db =
     update_agent item_id (\<lambda>a. agent_pending a
         \<and> (case find_order db order_id of None \<Rightarrow> False | Some x \<Rightarrow> deliverable (o_status x))
         \<and> \<not> order_has_refund open_refunds db order_id)
       (\<lambda>a. a \<lparr> ag_state := Agent_Active, ag_remote_user := aa_user r, ag_domain := aa_domain r, ag_error := None \<rparr>) n db"

definition deliver_agent_record :: "string \<Rightarrow> string \<Rightarrow> int \<Rightarrow> db stmt" where
  "deliver_agent_record i order_id now n db =
     (let hit = (\<lambda>d. open_delivery i d
            \<and> sql_exists (\<lambda>a. ag_order_item a = d_order_item d \<and> ag_state a = Agent_Active) (agents db)
            \<and> (case find_order db order_id of None \<Rightarrow> False | Some x \<Rightarrow> deliverable (o_status x)))
      in Inr (db \<lparr> deliveries := sql_update hit (\<lambda>d. d \<lparr> d_status := Delivery_Delivered, d_delivered_at := Some now \<rparr>)
                (deliveries db) \<rparr>, sql_changes hit (deliveries db)))"

definition agent_active :: "string \<Rightarrow> db \<Rightarrow> bool" where
  "agent_active item_id db = sql_exists (\<lambda>a. ag_order_item a = item_id \<and> ag_state a = Agent_Active) (agents db)"

definition agent_statements :: "string \<Rightarrow> string \<Rightarrow> string \<Rightarrow> agent_answer \<Rightarrow> int \<Rightarrow> db stmt list" where
  "agent_statements i item_id order_id r now =
     [activate_agent item_id order_id r, deliver_agent_record i order_id now]
     @ activate_grant_statements False item_id now
     @ [complete_order order_id now, completed_event order_id (Some Fulfilling),
        audit_when (agent_active item_id) ''agent_access.delivered'' item_id]"

text \<open>
  The attempt after its lease: a password is kept before the call, so that a later attempt uses
  the same; what the service reports is recorded as soon as it is known. Everything that goes
  wrong in it is one failure, so only whether it succeeded is returned. Others run during the
  call and before the batch.
\<close>

definition open_agent ::
  "agent_service \<Rightarrow> (db \<Rightarrow> db) \<Rightarrow> (db \<Rightarrow> db) \<Rightarrow> int \<Rightarrow> string \<Rightarrow> string \<Rightarrow> string \<Rightarrow> db \<Rightarrow> string option \<times> db" where
  "open_agent sv env env' later i item_id order_id db =
     (if \<not> as_secret sv then (None, db)
      else
        (let db = fst (write_agent item_id (\<lambda>a. ag_password a = None \<and> agent_pending a)
                         (\<lambda>a. a \<lparr> ag_password := Some (as_password sv) \<rparr>) db)
         in if (case Option.bind (find_agent db item_id) ag_password of None \<Rightarrow> True | Some p \<Rightarrow> p = [] \<or> \<not> as_readable sv p)
            then (None, db)
            else case as_provision sv item_id of
              Inl e \<Rightarrow> (None, env db)
            | Inr r \<Rightarrow>
                (let db = env db;
                     db = (if aa_domain r = None then db
                           else fst (write_agent item_id agent_pending (\<lambda>a. a \<lparr> ag_domain := aa_domain r \<rparr>) db))
                 in if \<not> aa_active r \<or> aa_user r = None then (None, db)
                    else
                      (let db = (if aa_password_valid r then db
                                 else fst (write_agent item_id (\<lambda>_. True) (\<lambda>a. a \<lparr> ag_password := None \<rparr>) db));
                           db = env' db
                       in case run_batch (agent_statements i item_id order_id r later) db of
                            Inl e \<Rightarrow> (None, db)
                          | Inr (db, _) \<Rightarrow> (Some (if agent_active item_id db then ''delivered'' else ''processing''), db)))))"

definition process_agent_delivery ::
  "agent_service \<Rightarrow> (db \<Rightarrow> db) \<Rightarrow> (db \<Rightarrow> db) \<Rightarrow> (db \<Rightarrow> db) \<Rightarrow> int \<Rightarrow> int \<Rightarrow> string \<Rightarrow> db \<Rightarrow> string result option \<times> db" where
  "process_agent_delivery sv env env' env'' now later i db =
     (case load_agent db i of
        None \<Rightarrow> (None, db)
      | Some (a, x) \<Rightarrow>
          (if ag_state a \<in> {Agent_Revoked, Agent_Cancelled} then (Some (Inr (agent_name (ag_state a))), db)
           else if o_status x = Refunded
           then (case revoke_agent sv env (ag_order_item a) db of
                   (Inl e, db) \<Rightarrow> (Some (Inl e), db) | (Inr _, db) \<Rightarrow> (Some (Inr ''revoked''), db))
           else if order_has_refund {Refund_Pending, Refund_Processing} db (o_id x) \<or> o_status x \<notin> {Paid, Fulfilling, Completed}
           then (Some (Inr ''waiting''), db)
           else if ag_state a = Agent_Active then (Some (Inr ''delivered''), db)
           else if max_attempts \<le> ag_attempts a then (Some (Inl (DomainError ''agent_access_support_required'' 409)), db)
           else if now < ag_next_attempt_at a then (Some (Inr ''processing''), db)
           else
             (let (db, leased) = lease_agent (ag_order_item a) now (env db)
              in if leased = 0 then (Some (Inr ''processing''), db)
                 else case open_agent sv env' env'' later i (ag_order_item a) (o_id x) db of
                   (Some r, db) \<Rightarrow> (Some (Inr r), db)
                 | (None, db) \<Rightarrow>
                     (Some (Inl (DomainError ''agent_access_pending'' 503)),
                      fst (write_agent (ag_order_item a) agent_pending
                        (\<lambda>r. r \<lparr> ag_error := Some ''agent_access_pending'', ag_next_attempt_at := now + backoff (ag_attempts a) \<rparr>) db)))))"

section \<open>The queue and the recovery\<close>

datatype delivery_outcome = By_Service string | By_Shop delivery_reply

text \<open>
  What the queue calls for a delivery. \<open>env k\<close> is what others do at the k-th of its gaps: the
  first before the lease or the batch, the next ones during the calls.
\<close>

definition process_delivery ::
  "worker \<Rightarrow> (string \<Rightarrow> string result) \<Rightarrow> (string \<Rightarrow> string) \<Rightarrow> agent_service \<Rightarrow> (nat \<Rightarrow> db \<Rightarrow> db) \<Rightarrow> int \<Rightarrow> int \<Rightarrow> string \<Rightarrow> db
   \<Rightarrow> delivery_outcome result \<times> db" where
  "process_delivery w pay content sv env now later i db =
     (case process_upgrade_delivery pay content (env 0) (env 1) now later i db of
        (Some r, db) \<Rightarrow> (and_then r (\<lambda>s. Inr (By_Service s)), db)
      | (None, db) \<Rightarrow>
          (case process_agent_delivery sv (env 0) (env 1) (env 2) now later i db of
             (Some r, db) \<Rightarrow> (and_then r (\<lambda>s. Inr (By_Service s)), db)
           | (None, db) \<Rightarrow>
               (case process_plain_delivery w (\<lambda>k. env (Suc k)) (env 0) now i db of
                  (r, db) \<Rightarrow> (and_then r (\<lambda>y. Inr (By_Shop y)), db))))"

definition due_upgrade :: "int \<Rightarrow> db \<Rightarrow> upgrade_row \<Rightarrow> bool" where
  "due_upgrade now db u \<longleftrightarrow> up_state u = Upgrade_Pending \<and> up_next_attempt_at u \<le> now
     \<and> (case item_order db (up_order_item u) of None \<Rightarrow> False | Some x \<Rightarrow> deliverable (o_status x))"

definition item_deliveries :: "db \<Rightarrow> string \<Rightarrow> string list" where
  "item_deliveries db item_id = map d_id (filter (\<lambda>d. d_order_item d = item_id) (deliveries db))"

text \<open>Twenty deliveries at most; what one of them throws does not stop the others.\<close>

fun reconcile_each ::
  "(string \<Rightarrow> string result) \<Rightarrow> (string \<Rightarrow> string) \<Rightarrow> (nat \<Rightarrow> db \<Rightarrow> db) \<Rightarrow> int \<Rightarrow> int \<Rightarrow> string list \<Rightarrow> db \<Rightarrow> db" where
  "reconcile_each pay content env now later [] db = db"
| "reconcile_each pay content env now later (i # is) db =
     reconcile_each pay content env now later is
       (snd (process_upgrade_delivery pay content (env (2 * length is)) (env (2 * length is + 1)) now later i db))"

definition reconcile_upgrade_deliveries ::
  "(string \<Rightarrow> string result) \<Rightarrow> (string \<Rightarrow> string) \<Rightarrow> (nat \<Rightarrow> db \<Rightarrow> db) \<Rightarrow> int \<Rightarrow> int \<Rightarrow> db \<Rightarrow> nat \<times> db" where
  "reconcile_upgrade_deliveries pay content env now later db =
     (let due = take 20 (concat (map (\<lambda>u. item_deliveries db (up_order_item u))
                  (sql_ordered (\<lambda>u. (up_next_attempt_at u, up_order_item u)) (due_upgrade now db) (upgrades db))))
      in (length due, reconcile_each pay content env now later due db))"

definition due_agent :: "int \<Rightarrow> db \<Rightarrow> agent_row \<Rightarrow> bool" where
  "due_agent now db a \<longleftrightarrow> ag_state a \<in> {Agent_Pending, Agent_Active}
     \<and> (case item_order db (ag_order_item a) of
          None \<Rightarrow> False
        | Some x \<Rightarrow> o_status x = Refunded \<and> (ag_error a \<noteq> Some ''agent_access_revoke_pending'' \<or> ag_next_attempt_at a \<le> now)
            \<or> agent_pending a \<and> ag_attempts a < max_attempts \<and> ag_next_attempt_at a \<le> now \<and> deliverable (o_status x))"

text \<open>One row, as it was read with the status of its order; a failure schedules the next attempt.\<close>

definition reconcile_agent ::
  "agent_service \<Rightarrow> (nat \<Rightarrow> db \<Rightarrow> db) \<Rightarrow> int \<Rightarrow> int \<Rightarrow> string \<Rightarrow> bool \<Rightarrow> db \<Rightarrow> bool \<times> db" where
  "reconcile_agent sv env now later item_id refunded_order db =
     (let (r, db) =
        (if refunded_order then (let (r, db) = revoke_agent sv (env 0) item_id db in (map_sum id (\<lambda>_. True) r, db))
         else (case item_deliveries db item_id of
                 [] \<Rightarrow> (Inr False, db)
               | i # _ \<Rightarrow>
                   (case process_agent_delivery sv (env 0) (env 1) (env 2) now later i db of
                      (Some (Inl e), db) \<Rightarrow> (Inl e, db) | (_, db) \<Rightarrow> (Inr True, db))))
      in case r of
           Inr completed \<Rightarrow> (completed, db)
         | Inl _ \<Rightarrow> (False, fst (write_agent item_id (\<lambda>_. True) (\<lambda>a. a \<lparr> ag_error :=
               Some (if refunded_order then ''agent_access_revoke_pending'' else ''agent_access_pending''),
               ag_next_attempt_at := now + 60000 \<rparr>) db)))"

fun reconcile_agents ::
  "agent_service \<Rightarrow> (nat \<Rightarrow> nat \<Rightarrow> db \<Rightarrow> db) \<Rightarrow> int \<Rightarrow> int \<Rightarrow> (string \<times> bool) list \<Rightarrow> db \<Rightarrow> nat \<times> db" where
  "reconcile_agents sv env now later [] db = (0, db)"
| "reconcile_agents sv env now later ((item_id, refunded_order) # rs) db =
     (let (ok, db) = reconcile_agent sv (env (length rs)) now later item_id refunded_order db;
          (n, db) = reconcile_agents sv env now later rs db
      in (if ok then Suc n else n, db))"

definition reconcile_agent_access ::
  "agent_service \<Rightarrow> (nat \<Rightarrow> nat \<Rightarrow> db \<Rightarrow> db) \<Rightarrow> int \<Rightarrow> int \<Rightarrow> db \<Rightarrow> nat \<times> nat \<times> db" where
  "reconcile_agent_access sv env now later db =
     (let due = map (\<lambda>a. (ag_order_item a, map_option o_status (item_order db (ag_order_item a)) = Some Refunded))
                  (take 20 (sql_ordered (\<lambda>a. (ag_next_attempt_at a, ag_order_item a)) (due_agent now db) (agents db)))
      in (length due, reconcile_agents sv env now later due db))"

section \<open>An order that never completes\<close>

text \<open>An attempt at a delivery, alone: by the queue or by an administrator.\<close>

datatype trial = Queued string int | By_Hand string string int

fun trial_delivery_id :: "trial \<Rightarrow> string" where
  "trial_delivery_id (Queued i t) = i"
| "trial_delivery_id (By_Hand i c t) = i"

fun run_trial ::
  "worker \<Rightarrow> catalogue \<Rightarrow> (string \<Rightarrow> string result) \<Rightarrow> (string \<Rightarrow> string) \<Rightarrow> agent_service \<Rightarrow> trial \<Rightarrow> db \<Rightarrow> bool \<times> db" where
  "run_trial w cat pay content sv (Queued i t) db =
     (case process_delivery w pay content sv (\<lambda>k d. d) t t i db of (r, db) \<Rightarrow> (\<exists>e. r = Inl e, db))"
| "run_trial w cat pay content sv (By_Hand i c t) db =
     (case complete_manual_delivery w cat (\<lambda>d. d) t i c db of (r, db) \<Rightarrow> (\<exists>e. r = Inl e, db))"

text \<open>A delivery of the order that its shop makes, and does not redeem.\<close>

definition shop_delivery :: "db \<Rightarrow> order_row \<Rightarrow> string \<Rightarrow> bool" where
  "shop_delivery db x i \<longleftrightarrow> (\<exists>d it. load_delivery db i = Some (d, it, x) \<and> d_redeem_sku d = None)
     \<and> load_upgrade db i = None \<and> load_agent db i = None"

definition undelivered :: "db \<Rightarrow> string \<Rightarrow> bool" where
  "undelivered db i \<longleftrightarrow> (\<exists>d. find_delivery db i = Some d \<and> d_status d \<noteq> Delivery_Delivered)"

lemma trial_fails:
  assumes "o_status x = Fulfilling" and "shop_delivery db x a" "undelivered db a" and "shop_delivery db x b" "undelivered db b"
    and "a \<noteq> b" and "shop_delivery db x (trial_delivery_id t)"
  shows "\<exists>failed. run_trial w cat pay content sv t db = (failed, db) \<and> (undelivered db (trial_delivery_id t) \<longrightarrow> failed)"
proof -
  obtain d it where l: "load_delivery db (trial_delivery_id t) = Some (d, it, x)" "d_redeem_sku d = None"
    using assms(7) by (auto simp: shop_delivery_def)
  obtain c where c: "shop_delivery db x c" "undelivered db c" "c \<noteq> trial_delivery_id t" using assms(2-6) by metis
  then obtain dc ic where lc: "load_delivery db c = Some (dc, ic, x)" by (auto simp: shop_delivery_def)
  have "d_status dc \<noteq> Delivery_Delivered" using c(2) load_delivery_Some [OF lc] by (auto simp: undelivered_def)
  from other_outstanding [OF lc this c(3)] have n: "next_order_status db (o_id x) (trial_delivery_id t) = Fulfilling" .
  have u: "undelivered db (trial_delivery_id t) \<longleftrightarrow> d_status d \<noteq> Delivery_Delivered"
    using load_delivery_Some [OF l(1)] by (simp add: undelivered_def)
  show ?thesis
  proof (cases t)
    case (Queued i s)
    have "process_upgrade_delivery pay content e e' s s i db = (None, db)" "process_agent_delivery sv e e' e'' s s i db = (None, db)" for e e' e''
      using assms(7) Queued by (simp_all add: shop_delivery_def process_upgrade_delivery_def process_agent_delivery_def)
    then have p: "process_delivery w pay content sv (\<lambda>k d. d) s s i db
        = (case process_plain_delivery w (\<lambda>k d. d) (\<lambda>d. d) s i db of (r, db) \<Rightarrow> (and_then r (\<lambda>y. Inr (By_Shop y)), db))"
      by (simp add: process_delivery_def)
    obtain r where "process_plain_delivery w (\<lambda>k d. d) (\<lambda>d. d) s i db = (r, db)" "d_status d \<noteq> Delivery_Delivered \<longrightarrow> (\<exists>e. r = Inl e)"
      using fulfilling_stays [OF l(1) assms(1) l(2) n, of w "\<lambda>k d. d" s] Queued by auto
    with p u Queued show ?thesis by auto
  next
    case (By_Hand i c s)
    obtain r where "complete_manual_delivery w cat (\<lambda>d. d) s i c db = (r, db)" "d_status d \<noteq> Delivery_Delivered \<longrightarrow> (\<exists>e. r = Inl e)"
      using manual_stays [OF l(1) assms(1) n, of w cat s c] By_Hand by auto
    with u By_Hand show ?thesis by auto
  qed
qed

text \<open>
  C27. An order that is being fulfilled and has two deliveries of its shop outstanding never
  gets either of them: every attempt, by the queue or by hand, in any order and however often,
  fails and is rolled back, since the event of the order would repeat its status. So an order of
  three such deliveries gets the first and nothing more.
\<close>

lemma fulfilling_order_is_stuck:
  assumes "o_status x = Fulfilling" and "shop_delivery db x a" "undelivered db a" and "shop_delivery db x b" "undelivered db b"
    and "a \<noteq> b" and "\<forall>t\<in>set trials. shop_delivery db x (trial_delivery_id t)"
  shows "fold (\<lambda>t db. snd (run_trial w cat pay content sv t db)) trials db = db
     \<and> list_all (\<lambda>t. undelivered db (trial_delivery_id t) \<longrightarrow> fst (run_trial w cat pay content sv t db)) trials"
  using assms(7)
proof (induction trials)
  case (Cons t trials)
  from trial_fails [OF assms(1-6), of t] Cons.prems
  have "snd (run_trial w cat pay content sv t db) = db" "undelivered db (trial_delivery_id t) \<longrightarrow> fst (run_trial w cat pay content sv t db)"
    by (metis fst_conv snd_conv list.set_intros(1))+
  with Cons show ?case by simp
qed simp

text \<open>Of three deliveries the first is made, and neither of the others ever after.\<close>

definition idle_service :: agent_service where
  "idle_service = \<lparr> as_secret = False, as_password = [], as_readable = (\<lambda>_. False), as_provision = (\<lambda>_. Inl ZodError), as_revoke = (\<lambda>_. Inr False) \<rparr>"

definition partly_shipped :: db where
  "partly_shipped = snd (ship (\<lambda>d. d) 7 ''i'' (shipment [''i'', ''j'', ''k'']))"

definition queued_again :: "trial list" where
  "queued_again = [Queued ''dj'' 8, Queued ''dk'' 9, Queued ''dj'' 10]"

lemma fulfilling_order_is_stuck_witness:
  "fst (ship (\<lambda>d. d) 7 ''i'' (shipment [''i'', ''j'', ''k''])) = Inr \<lparr> dy_status = Delivery_Delivered, dy_order = Some Fulfilling, dy_duplicate = False \<rparr>
   \<and> fold (\<lambda>t db. snd (run_trial sample_worker shop_catalogue Inr (\<lambda>u. u) idle_service t db)) queued_again partly_shipped = partly_shipped"
proof
  show "fst (ship (\<lambda>d. d) 7 ''i'' (shipment [''i'', ''j'', ''k''])) = Inr \<lparr> dy_status = Delivery_Delivered, dy_order = Some Fulfilling, dy_duplicate = False \<rparr>"
    by code_simp
  let ?x = "sample_order \<lparr> o_status := Fulfilling, o_paid := 500, o_version := 2, o_updated_at := 7 \<rparr>"
  have s: "o_status ?x = Fulfilling" by simp
  have l: "load_delivery partly_shipped ''dj'' = Some (shipped_delivery ''j'', (sample_item ''j'' ''o'') \<lparr> oi_component_type := Stock_Component \<rparr>, ?x)"
    "load_delivery partly_shipped ''dk'' = Some (shipped_delivery ''k'', (sample_item ''k'' ''o'') \<lparr> oi_component_type := Stock_Component \<rparr>, ?x)"
    by code_simp+
  have n: "load_upgrade partly_shipped ''dj'' = None" "load_upgrade partly_shipped ''dk'' = None"
    "load_agent partly_shipped ''dj'' = None" "load_agent partly_shipped ''dk'' = None"
    by code_simp+
  have d: "shop_delivery partly_shipped ?x ''dj''" "shop_delivery partly_shipped ?x ''dk''"
    using l n by (simp_all add: shop_delivery_def shipped_delivery_def)
  have u: "undelivered partly_shipped ''dj''" "undelivered partly_shipped ''dk''"
    using load_delivery_Some [OF l(1)] load_delivery_Some [OF l(2)] by (simp_all add: undelivered_def shipped_delivery_def)
  have q: "\<forall>t\<in>set queued_again. shop_delivery partly_shipped ?x (trial_delivery_id t)" using d by (simp add: queued_again_def)
  show "fold (\<lambda>t db. snd (run_trial sample_worker shop_catalogue Inr (\<lambda>u. u) idle_service t db)) queued_again partly_shipped = partly_shipped"
    using fulfilling_order_is_stuck [OF s d(1) u(1) d(2) u(2) _ q] by simp
qed

section \<open>Upgrades that fail\<close>

lemma fail_upgrade_run:
  "record_upgrade_failure u i code now db =
     (let terminal = (code \<in> set upgrade_rejected \<or> max_attempts \<le> up_attempts u + 1); next_at = now + backoff (up_attempts u);
          hit = (\<lambda>v. up_order_item v = up_order_item u \<and> up_state v = Upgrade_Pending)
      in (if terminal then Inr ''needs_review'' else Inl (DomainError ''upgrade_delivery_pending'' 503),
          db \<lparr> upgrades := sql_update hit (\<lambda>v. v \<lparr> up_state := (if terminal then Upgrade_Review else Upgrade_Pending),
                 up_error := Some code, up_next_attempt_at := next_at \<rparr>) (upgrades db),
               deliveries := sql_update (open_delivery i) (\<lambda>d. d \<lparr>
                 d_status := (if terminal then Delivery_Failed else Delivery_Processing), d_error := Some code,
                 d_attempts := d_attempts d + 1, d_next_attempt_at := (if terminal then None else Some next_at) \<rparr>) (deliveries db) \<rparr>))"
  by (simp add: record_upgrade_failure_def run_batch_def fail_upgrade_def fail_upgrade_record_def Let_def)

lemma upgrade_views:
  assumes "\<And>v. up_order_item (f v) = up_order_item v" and "\<And>d. d_id (g d) = d_id d" "\<And>d. d_order_item (g d) = d_order_item d"
    and "load_upgrade db i = Some (u, x)"
  shows "load_upgrade (db \<lparr> upgrades := sql_update P f (upgrades db), deliveries := sql_update Q g (deliveries db) \<rparr>) i
    = Some (if P u then f u else u, x)"
proof -
  from assms(4) obtain d where d: "find_delivery db i = Some d" "find_upgrade db (d_order_item d) = Some u" "item_order db (up_order_item u) = Some x"
    by (auto simp: load_upgrade_def split: bind_splits)
  let ?db = "db \<lparr> upgrades := sql_update P f (upgrades db), deliveries := sql_update Q g (deliveries db) \<rparr>"
  have "find_delivery ?db i = Some (if Q d then g d else d)"
    using d(1) by (simp add: find_delivery_def sql_first_update_key [where k = d_id, OF assms(2)])
  moreover have "find_upgrade ?db k = map_option (\<lambda>v. if P v then f v else v) (find_upgrade db k)" for k
    by (simp add: find_upgrade_def sql_first_update_key [where k = up_order_item, OF assms(1)])
  moreover have "item_order ?db k = item_order db k" for k
    by (simp add: item_order_def find_item_def find_order_def)
  ultimately show ?thesis using d assms(1,3) by (simp add: load_upgrade_def)
qed

lemma upgrade_deliverable_frame [simp]:
  "upgrade_deliverable (db \<lparr> upgrades := us, deliveries := ds \<rparr>) k = upgrade_deliverable db k"
  by (simp add: upgrade_deliverable_def item_order_def find_item_def find_order_def order_has_refund_def cong: option.case_cong)

text \<open>One attempt at an upgrade that is due, alone, while the warehouse does not answer.\<close>

definition run_upgrade :: "(string \<Rightarrow> string result) \<Rightarrow> (string \<Rightarrow> string) \<Rightarrow> string \<Rightarrow> int \<Rightarrow> db \<Rightarrow> db" where
  "run_upgrade pay content i now db = snd (process_upgrade_delivery pay content (\<lambda>d. d) (\<lambda>d. d) now now i db)"

definition failed_upgrade :: "nat \<Rightarrow> int \<Rightarrow> upgrade_row \<Rightarrow> bool" where
  "failed_upgrade k next u \<longleftrightarrow> up_attempts u = k \<and> (up_state u = Upgrade_Review
     \<or> up_state u = Upgrade_Pending \<and> k < max_attempts \<and> up_next_attempt_at u \<le> next)"

lemma upgrade_attempt_fails:
  assumes l: "load_upgrade db i = Some (u, x)" and u: "up_state u = Upgrade_Pending" "up_next_attempt_at u \<le> now" "up_attempts u < max_attempts"
    and d: "upgrade_deliverable db (up_order_item u)" and p: "pay (up_order_item u) = Inl e"
  shows "\<exists>v. load_upgrade (run_upgrade pay content i now db) i = Some (v, x) \<and> up_order_item v = up_order_item u
     \<and> failed_upgrade (up_attempts u + 1) (now + 3600000) v
     \<and> upgrade_deliverable (run_upgrade pay content i now db) (up_order_item u)"
proof -
  let ?hit = "\<lambda>u'. up_order_item u' = up_order_item u \<and> up_state u' = Upgrade_Pending \<and> up_next_attempt_at u' \<le> now
    \<and> up_attempts u' < max_attempts \<and> upgrade_deliverable db (up_order_item u)"
  let ?m = "fst (lease_upgrade (up_order_item u) now db)"
  have m: "?m = db \<lparr> upgrades := sql_update ?hit (\<lambda>u. u \<lparr> up_attempts := up_attempts u + 1, up_next_attempt_at := now + 60000 \<rparr>) (upgrades db),
      deliveries := sql_update (\<lambda>_. False) (\<lambda>d. d) (deliveries db) \<rparr>"
    by (simp add: lease_upgrade_def Let_def sql_update_none)
  have l1: "load_upgrade ?m i = Some (u \<lparr> up_attempts := up_attempts u + 1, up_next_attempt_at := now + 60000 \<rparr>, x)"
    unfolding m by (subst upgrade_views [OF _ _ _ l]) (use u d in auto)
  from l have ux: "u \<in> set (upgrades db)" "item_order db (up_order_item u) = Some x"
    by (auto simp: load_upgrade_def find_upgrade_def dest!: sql_first_Some split: bind_splits)
  have leased: "snd (lease_upgrade (up_order_item u) now db) \<noteq> 0"
    using ux u d by (auto simp: lease_upgrade_def Let_def sql_changes_zero)
  have x: "deliverable (o_status x)" "o_paid x \<noteq> 0" "\<not> order_has_refund open_refunds db (o_id x)"
    using d ux(2) by (auto simp: upgrade_deliverable_def)
  have r: "run_upgrade pay content i now db = snd (record_upgrade_failure u i (failure_name ''upgrade_delivery_pending'' e) now ?m)"
    using l u x leased p
    by (auto simp: run_upgrade_def process_upgrade_delivery_def deliverable_def Let_def split_beta)
  let ?terminal = "failure_name ''upgrade_delivery_pending'' e \<in> set upgrade_rejected \<or> max_attempts \<le> up_attempts u + 1"
  have b: "backoff (up_attempts u) \<le> 3600000" by (simp add: backoff_def)
  have d': "upgrade_deliverable (run_upgrade pay content i now db) (up_order_item u)"
    using d unfolding r m fail_upgrade_run by (simp add: Let_def)
  let ?v = "u \<lparr> up_attempts := up_attempts u + 1, up_state := (if ?terminal then Upgrade_Review else Upgrade_Pending),
       up_error := Some (failure_name ''upgrade_delivery_pending'' e), up_next_attempt_at := now + backoff (up_attempts u) \<rparr>"
  have "load_upgrade (run_upgrade pay content i now db) i = Some (?v, x)"
    unfolding r fail_upgrade_run Let_def snd_conv by (subst upgrade_views [OF _ _ _ l1]) (use u in auto)
  moreover have "failed_upgrade (up_attempts u + 1) (now + 3600000) ?v" using b u by (auto simp: failed_upgrade_def)
  ultimately show ?thesis using d' by (intro exI [of _ ?v]) simp
qed

lemma reviewed_upgrade_stays:
  assumes "load_upgrade db i = Some (u, x)" and "up_state u = Upgrade_Review"
  shows "run_upgrade pay content i now db = db"
  using assms by (simp add: run_upgrade_def process_upgrade_delivery_def)

fun run_upgrades :: "(string \<Rightarrow> string result) \<Rightarrow> (string \<Rightarrow> string) \<Rightarrow> string \<Rightarrow> int list \<Rightarrow> db \<Rightarrow> db" where
  "run_upgrades pay content i [] db = db"
| "run_upgrades pay content i (t # ts) db = run_upgrades pay content i ts (run_upgrade pay content i t db)"

lemma reviewed_upgrade_ends:
  "load_upgrade db i = Some (u, x) \<Longrightarrow> up_state u = Upgrade_Review \<Longrightarrow> run_upgrades pay content i ts db = db"
  by (induction ts) (simp_all add: reviewed_upgrade_stays)

lemma upgrade_runs_out:
  assumes "load_upgrade db i = Some (u, x)" and "failed_upgrade k next u" and "k \<le> max_attempts"
    and "upgrade_deliverable db (up_order_item u)" and "pay (up_order_item u) = Inl e"
    and "\<forall>t\<in>set ts. next \<le> t" and "sorted_wrt (\<lambda>s t. s + 3600000 \<le> t) ts" and "max_attempts \<le> k + length ts"
  shows "\<exists>v. load_upgrade (run_upgrades pay content i ts db) i = Some (v, x) \<and> up_state v = Upgrade_Review
     \<and> k \<le> up_attempts v \<and> up_attempts v \<le> max_attempts"
  using assms
proof (induction ts arbitrary: db u k "next")
  case Nil
  then show ?case by (auto simp: failed_upgrade_def)
next
  case (Cons t ts)
  show ?case
  proof (cases "up_state u = Upgrade_Review")
    case True
    with Cons.prems reviewed_upgrade_ends [OF Cons.prems(1) True, of pay content "t # ts"] show ?thesis
      by (auto simp: failed_upgrade_def)
  next
    case False
    with Cons.prems have u: "up_state u = Upgrade_Pending" "up_next_attempt_at u \<le> t" "up_attempts u < max_attempts" "up_attempts u = k"
      by (auto simp: failed_upgrade_def)
    obtain v where v: "load_upgrade (run_upgrade pay content i t db) i = Some (v, x)" "up_order_item v = up_order_item u"
      "failed_upgrade (Suc k) (t + 3600000) v" "upgrade_deliverable (run_upgrade pay content i t db) (up_order_item v)"
      using upgrade_attempt_fails [where content = content and pay = pay, OF Cons.prems(1) u(1-3) Cons.prems(4,5)] u(4) by auto
    have "pay (up_order_item v) = Inl e" using Cons.prems(5) v(2) by simp
    with Cons.IH [OF v(1,3) _ v(4)] u Cons.prems(7,8) show ?thesis by fastforce
  qed
qed

text \<open>
  C28. An upgrade whose service fails is given up: attempted each time it is due, it ends in
  review by its eighth attempt, and no attempt follows.
\<close>

lemma upgrade_gives_up:
  assumes "load_upgrade db i = Some (u, x)" and "up_state u = Upgrade_Pending" and "up_attempts u < max_attempts"
    and "upgrade_deliverable db (up_order_item u)" and "pay (up_order_item u) = Inl e"
    and "\<forall>t\<in>set ts. up_next_attempt_at u \<le> t" and "sorted_wrt (\<lambda>s t. s + 3600000 \<le> t) ts"
    and "max_attempts \<le> up_attempts u + length ts"
  shows "\<exists>v. load_upgrade (run_upgrades pay content i ts db) i = Some (v, x) \<and> up_state v = Upgrade_Review
     \<and> up_attempts u \<le> up_attempts v \<and> up_attempts v \<le> max_attempts"
  using assms by (intro upgrade_runs_out) (auto simp: failed_upgrade_def)

definition upgrade_sale :: db where
  "upgrade_sale = sample_db \<lparr> shop_orders := [sample_order \<lparr> o_status := Paid, o_paid := 500 \<rparr>],
     order_items := [(sample_item ''i'' ''o'') \<lparr> oi_component_type := Stock_Component \<rparr>], deliveries := [shipped_delivery ''i''],
     upgrades := [\<lparr> up_order_item = ''i'', up_active_key = Some ''acc'', up_price = 500, up_state = Upgrade_Pending, up_status_url = None,
       up_attempts = 0, up_next_attempt_at = 0, up_error = None \<rparr>] \<rparr>"

definition hourly :: "int list" where
  "hourly = map (\<lambda>k. 3600000 * k) [0..7]"

lemma upgrade_gives_up_witness:
  "map_option (\<lambda>(v, x). up_state v) (load_upgrade (run_upgrades (\<lambda>_. Inl ZodError) (\<lambda>u. u) ''di'' hourly upgrade_sale) ''di'')
     = Some Upgrade_Review"
proof -
  obtain u x where l: "load_upgrade upgrade_sale ''di'' = Some (u, x)" "up_state u = Upgrade_Pending" "up_attempts u < max_attempts"
    "up_next_attempt_at u = 0" "up_attempts u = 0" "upgrade_deliverable upgrade_sale (up_order_item u)"
    by (rule that [of "hd (upgrades upgrade_sale)" "hd (shop_orders upgrade_sale)"]) code_simp+
  have t: "\<forall>t\<in>set hourly. up_next_attempt_at u \<le> t" "sorted_wrt (\<lambda>s t. s + 3600000 \<le> t) hourly"
    unfolding l(4) by code_simp+
  have n: "max_attempts \<le> up_attempts u + length hourly" unfolding l(5) by code_simp
  show ?thesis
    using upgrade_gives_up [where content = "\<lambda>u. u" and pay = "\<lambda>_. Inl ZodError", OF l(1-3,6) _ t n] by force
qed

section \<open>The event of an upgraded order\<close>

text \<open>An event to a status from none is refused, and the refusal is ignored.\<close>

lemma upgrade_event_ignored: "completed_event i None n db = Inr (db, 0)"
  by (simp add: completed_event_def insert_order_event_def split: option.split)

lemma upgrade_statements_keep_events:
  assumes "run_batch (upgrade_statements i item_id order_id url c now) db = Inr (db', cs)"
  shows "order_events db' = order_events db"
proof (rule leaves_batch [OF assms [unfolded run_batch_def]])
  have "leaves order_events (completed_event order_id None)" by (simp add: leaves_def upgrade_event_ignored)
  moreover have "leaves order_events (finish_upgrade item_id url)" "leaves order_events (deliver_upgrade_record i c now)"
    by (simp_all add: leaves_def finish_upgrade_def deliver_upgrade_record_def Let_def)
  moreover have "leaves order_events (complete_order order_id now)"
    unfolding complete_order_def by (rule update_order_leaves) (simp add: same_rest_def)
  moreover have "leaves order_events (announce_ready i)" by (rule announcement_leaves) simp
  moreover have "\<forall>s\<in>set (activate_grant_statements False item_id now). leaves order_events s" by (rule grants_leave) simp_all
  ultimately show "\<forall>s\<in>set (upgrade_statements i item_id order_id url c now). leaves order_events s"
    by (auto simp: upgrade_statements_def)
qed

lemma upgraded_order_has_no_event:
  assumes "\<And>d. order_events (env d) = order_events d" and "\<And>d. order_events (env' d) = order_events d"
  shows "order_events (snd (process_upgrade_delivery pay content env env' now later i db)) = order_events db"
proof (cases "load_upgrade db i")
  case None
  then show ?thesis by (simp add: process_upgrade_delivery_def)
next
  case (Some p)
  obtain u x where p: "p = (u, x)" by fastforce
  have f: "order_events (snd (record_upgrade_failure u i code now b)) = order_events b" for code b
    by (simp add: fail_upgrade_run Let_def)
  have e: "order_events (fst (lease_upgrade k now b)) = order_events b" for k b by (simp add: lease_upgrade_def Let_def)
  show ?thesis
    unfolding process_upgrade_delivery_def Some p option.case prod.case
    by (auto simp: Let_def split_beta assms e f and_then_Inr upgrade_statements_keep_events split: sum.split)
qed

definition paid_upgrade :: db where
  "paid_upgrade = snd (process_upgrade_delivery (\<lambda>_. Inr ''https://status'') (\<lambda>u. u) (\<lambda>d. d) (\<lambda>d. d) 7 8 ''di'' upgrade_sale)"

lemma upgraded_order_has_no_event_witness:
  "map o_status (shop_orders paid_upgrade) = [Completed] \<and> order_events paid_upgrade = []"
proof
  show "map o_status (shop_orders paid_upgrade) = [Completed]" by code_simp
  have "order_events upgrade_sale = []" by code_simp
  then show "order_events paid_upgrade = []"
    unfolding paid_upgrade_def by (simp add: upgraded_order_has_no_event)
qed

end
