(* ===== verification/Delivery_Books.thy ===== *)
theory Delivery_Books
  imports Service_Deliveries
begin

text \<open>
  Deliveries keep the books: what they write, and what runs between their reads, their calls and
  their batches. Used by the runs of the shop as a whole.
\<close>

section \<open>Statements\<close>

lemma delivery_statements_kept [keeps]:
  "stmt_keeps (books_kept start) (close_delivery i)"
  "stmt_keeps (books_kept start) (count_attempt i code)"
  "stmt_keeps (books_kept start) (deliver_record i content now)"
  "stmt_keeps (books_kept start) (require_delivered i code)"
  "stmt_keeps (books_kept start) (deliver_stock k)"
  "stmt_keeps (books_kept start) (start_record i)"
  "stmt_keeps (books_kept start) (complete_record i text now)"
  "stmt_keeps (books_kept start) (reopen_record i now)"
  "stmt_keeps (books_kept start) (announce_ready i)"
  "stmt_keeps (books_kept start) (publish_requests i)"
  by (auto intro!: leaves_books leaves)

lemma progress_kept: "\<forall>s\<in>set (progress_statements x st type now). stmt_keeps (books_kept start) s"
  by (simp add: progress_statements_def keeps)

lemma activate_kept: "\<forall>s\<in>set (activate_grant_statements ra k now). stmt_keeps (books_kept start) s"
  by (simp add: activate_grant_statements_def keeps)

lemma service_statements_kept [keeps]:
  "stmt_keeps (books_kept start) (complete_order i now)"
  "stmt_keeps (books_kept start) (completed_event i prev)"
  "stmt_keeps (books_kept start) (finish_upgrade k url)"
  "stmt_keeps (books_kept start) (deliver_upgrade_record i text now)"
  "stmt_keeps (books_kept start) (fail_upgrade k terminal code next_at)"
  "stmt_keeps (books_kept start) (fail_upgrade_record i terminal code next_at)"
  "stmt_keeps (books_kept start) (update_agent k P f)"
  "stmt_keeps (books_kept start) (activate_agent k order_id r)"
  "stmt_keeps (books_kept start) (deliver_agent_record i order_id now)"
  by (simp add: complete_order_def keeps)
    (auto intro!: stmt_keepsI elim!: books_kept_tables
      simp: completed_event_def insert_order_event_def finish_upgrade_def deliver_upgrade_record_def fail_upgrade_def
        fail_upgrade_record_def update_agent_def activate_agent_def deliver_agent_record_def Let_def
      split: option.splits sum.splits if_splits)

section \<open>Deliveries of the shop\<close>

lemma delivery_batch_kept: "\<forall>s\<in>set (delivery_statements d it x content st now). stmt_keeps (books_kept start) s"
  using progress_kept activate_kept by (auto simp: delivery_statements_def keeps)

lemma record_owned_failure_kept:
  assumes "books_kept start db"
  shows "books_kept start (record_owned_failure i other e db)"
proof -
  have "\<forall>s\<in>set [count_attempt i (failure_name other e), audit ''redeem_delivery.failure'' i]. stmt_keeps (books_kept start) s"
    by (simp add: keeps)
  note k = run_batch_books [OF _ assms this]
  show ?thesis
    by (cases "run_batch [count_attempt i (failure_name other e), audit ''redeem_delivery.failure'' i] db")
      (auto simp: record_owned_failure_def assms intro: k)
qed

lemma convert_reserved_stock_kept:
  assumes "fair env" and "books_kept start db"
  shows "books_kept start (snd (convert_reserved_stock w env s k sku db))"
proof -
  note e = fair_kept [OF assms]
  then have "books_kept start (env db \<lparr> stock := t \<rparr>)" for t by (rule books_kept_tables) simp_all
  with e assms(2) show ?thesis
    by (simp add: convert_reserved_stock_def Let_def split: sum.split option.split prod.split)
qed

lemma convert_entries_kept:
  assumes "\<forall>k. fair (env k)" and "books_kept start db"
  shows "books_kept start (snd (convert_entries w env k sku ss db))"
  using assms(2)
proof (induction ss arbitrary: db)
  case (Cons s ss)
  have "books_kept start (snd (convert_reserved_stock w (env (length ss)) s k sku db))"
    by (rule convert_reserved_stock_kept) (use assms(1) Cons.prems in auto)
  with Cons.IH show ?case by (auto split: prod.split sum.split) (metis snd_conv)+
qed simp

lemma delivery_content_kept:
  assumes "\<forall>k. fair (env k)" and "books_kept start db"
  shows "books_kept start (snd (delivery_content w env d it db))"
proof -
  have c: "books_kept start b" if "convert_entries w env (oi_id it) sku ss db = (r, b)" for sku ss r b
    using convert_entries_kept [OF assms, of w "oi_id it" sku ss] that by simp
  show ?thesis
    using assms(2) by (auto simp: delivery_content_def intro!: record_owned_failure_kept
      split: option.split sum.split prod.split dest: c)
qed

lemma process_plain_kept:
  assumes "\<forall>k. fair (env k)" and "fair env'" and "books_kept start db"
  shows "books_kept start (snd (process_plain_delivery w env env' now i db))"
proof -
  have c: "books_kept start (snd (close_undeliverable i db))"
  proof -
    have "\<forall>s\<in>set [close_delivery i, publish_requests i]. stmt_keeps (books_kept start) s" by (simp add: keeps)
    from run_batch_books [OF _ assms(3) this] assms(3) show ?thesis by (auto simp: close_undeliverable_def split: sum.split prod.split)
  qed
  have b: "books_kept start b" if "delivery_content w env d it db = (r, b)" for d it r b
    using delivery_content_kept [OF assms(1,3), of w d it] that by simp
  have e: "books_kept start (env' b)" if "books_kept start b" for b using fair_kept [OF assms(2) that] .
  show ?thesis
    using assms(3) c
    by (auto simp: process_plain_delivery_def Let_def split: option.split prod.split sum.split
        intro!: record_owned_failure_kept e dest: b run_batch_books [OF _ e [OF b] delivery_batch_kept])
qed


lemma start_manual_kept:
  assumes "fair env" and "books_kept start db"
  shows "books_kept start (snd (start_manual_delivery cat env now i db))"
proof -
  note e = fair_kept [OF assms]
  have "\<forall>s\<in>set (start_record i # progress_statements x st type now). stmt_keeps (books_kept start) s" for x st type
    using progress_kept by (auto simp: keeps)
  note b = run_batch_books [OF _ e this]
  show ?thesis
    using assms(2) e b by (auto simp: start_manual_delivery_def Let_def split: option.split prod.split sum.split)
qed

lemma complete_manual_kept:
  assumes "fair env" and "books_kept start db"
  shows "books_kept start (snd (complete_manual_delivery w cat env now i text db))"
proof -
  note e = fair_kept [OF assms]
  have "\<forall>s\<in>set (manual_statements d it x sealed st now). stmt_keeps (books_kept start) s" for d it x sealed st
    using progress_kept activate_kept by (auto simp: manual_statements_def keeps)
  note b = run_batch_books [OF _ e this]
  show ?thesis
    using assms(2) e b by (auto simp: complete_manual_delivery_def Let_def split: option.split prod.split sum.split)
qed

lemma replace_content_kept:
  assumes "fair env" and "books_kept start db"
  shows "books_kept start (snd (replace_delivered_content w env i text db))"
proof -
  note e = fair_kept [OF assms]
  then have "books_kept start (env db \<lparr> deliveries := t \<rparr>)" for t by (rule books_kept_tables) simp_all
  with e assms(2) show ?thesis
    by (simp add: replace_delivered_content_def Let_def split: sum.split option.split)
qed

lemma retry_delivery_kept:
  assumes "fair env" and "books_kept start db"
  shows "books_kept start (snd (retry_delivery env now i db))"
proof -
  note e = fair_kept [OF assms]
  have "\<forall>s\<in>set [reopen_record i now, outbox_when c ignore b, audit action i]. stmt_keeps (books_kept start) s" for c ignore b action
    by (simp add: keeps)
  note b = run_batch_books [OF _ e this]
  show ?thesis
    using assms(2) e b by (auto simp: retry_delivery_def Let_def split: option.split prod.split sum.split)
qed

section \<open>Services\<close>

lemma record_upgrade_failure_kept:
  assumes "books_kept start db"
  shows "books_kept start (snd (record_upgrade_failure u i code now db))"
  using assms by (rule books_kept_tables) (simp_all add: fail_upgrade_run Let_def)

lemma process_upgrade_kept:
  assumes "fair env" and "fair env'" and "books_kept start db"
  shows "books_kept start (snd (process_upgrade_delivery pay content env env' now later i db))"
proof -
  note e = fair_kept [OF assms(1,3)]
  have l: "books_kept start (fst (lease_upgrade k now (env db)))" for k
    using e by (rule books_kept_tables) (simp_all add: lease_upgrade_def Let_def)
  note m = fair_kept [OF assms(2) l]
  have s: "\<forall>s\<in>set (upgrade_statements i k j url c later). stmt_keeps (books_kept start) s" for k j url c
    using activate_kept by (auto simp: upgrade_statements_def keeps)
  note b = run_batch_books [OF _ m s]
  show ?thesis
    using assms(3) e m
    by (auto simp: process_upgrade_delivery_def Let_def and_then_Inr split_beta split: option.split sum.split
        intro!: record_upgrade_failure_kept l dest: b)
qed

lemma write_agent_kept:
  assumes "books_kept start db"
  shows "books_kept start (fst (write_agent k P f db))"
  using assms by (rule books_kept_tables) (simp_all add: write_agent_def update_agent_def Let_def)

lemma revoke_agent_kept:
  assumes "fair env" and "books_kept start db"
  shows "books_kept start (snd (revoke_agent sv env k db))"
  using fair_kept [OF assms] by (simp add: revoke_agent_def write_agent_kept split: sum.split)

lemma agent_batch_kept: "\<forall>s\<in>set (agent_statements i k j r now). stmt_keeps (books_kept start) s"
  using activate_kept by (auto simp: agent_statements_def keeps)

lemma open_agent_kept:
  assumes "fair env" and "fair env'" and "books_kept start db"
  shows "books_kept start (snd (open_agent sv env env' later i k j db))"
proof -
  have b: "books_kept start (snd (case run_batch (agent_statements i k j r later) m of
      Inl e \<Rightarrow> (None, m) | Inr (d, _) \<Rightarrow> (Some (g d), d)))" if "books_kept start m" for r m g
    using that run_batch_books [OF _ that agent_batch_kept] by (auto split: sum.split)
  have e: "books_kept start (env m)" "books_kept start (env' m)" if "books_kept start m" for m
    using fair_kept [OF assms(1) that] fair_kept [OF assms(2) that] .
  show ?thesis
    unfolding open_agent_def Let_def by (simp add: assms(3) b e write_agent_kept split: option.split sum.split)
qed

lemma process_agent_kept:
  assumes "fair env" and "fair env'" and "fair env''" and "books_kept start db"
  shows "books_kept start (snd (process_agent_delivery sv env env' env'' now later i db))"
proof -
  note e = fair_kept [OF assms(1,4)]
  note r = revoke_agent_kept [OF assms(1,4)]
  have l: "books_kept start (fst (lease_agent k now (env db)))" for k
    unfolding lease_agent_def by (rule write_agent_kept [OF e])
  note p = open_agent_kept [OF assms(2,3) l]
  show ?thesis
    unfolding process_agent_delivery_def Let_def split_beta
    by (simp add: assms(4) l r p write_agent_kept split: option.split sum.split)
qed

section \<open>The queue and the recoveries\<close>

lemma process_delivery_kept:
  assumes "\<forall>k. fair (env k)" and "books_kept start db"
  shows "books_kept start (snd (process_delivery w pay content sv env now later i db))"
proof -
  obtain r u where u: "process_upgrade_delivery pay content (env 0) (env 1) now later i db = (r, u)" by fastforce
  have ku: "books_kept start u" using process_upgrade_kept [of "env 0" "env 1", OF _ _ assms(2)] assms(1) u by (metis snd_conv)
  obtain q a where a: "process_agent_delivery sv (env 0) (env 1) (env 2) now later i u = (q, a)" by fastforce
  have ka: "books_kept start a" using process_agent_kept [of "env 0" "env 1" "env 2", OF _ _ _ ku] assms(1) a by (metis snd_conv)
  have "books_kept start (snd (process_plain_delivery w (\<lambda>k. env (Suc k)) (env 0) now i a))"
    by (rule process_plain_kept) (use assms(1) ka in auto)
  with ku ka show ?thesis by (auto simp: process_delivery_def u a simp del: One_nat_def split: option.split prod.split)
qed

lemma reconcile_each_kept:
  assumes "\<forall>k. fair (env k)" and "books_kept start db"
  shows "books_kept start (reconcile_each pay content env now later is db)"
  using assms(2)
proof (induction "is" arbitrary: db)
  case (Cons i js)
  have "books_kept start (snd (process_upgrade_delivery pay content (env (2 * length js)) (env (2 * length js + 1)) now later i db))"
    by (rule process_upgrade_kept) (use assms(1) Cons.prems in auto)
  with Cons.IH show ?case by simp
qed simp

lemma reconcile_upgrades_kept:
  "\<forall>k. fair (env k) \<Longrightarrow> books_kept start db \<Longrightarrow> books_kept start (snd (reconcile_upgrade_deliveries pay content env now later db))"
  by (simp add: reconcile_upgrade_deliveries_def Let_def reconcile_each_kept)

lemma reconcile_agent_kept:
  assumes "\<forall>k. fair (env k)" and "books_kept start db"
  shows "books_kept start (snd (reconcile_agent sv env now later k refunded_order db))"
proof -
  have r: "books_kept start b" if "revoke_agent sv (env 0) k db = (r, b)" for r b
    using revoke_agent_kept [of "env 0", OF _ assms(2), of sv k] assms(1) that by (metis snd_conv)
  have p: "books_kept start b" if "process_agent_delivery sv (env 0) (env 1) (env 2) now later i db = (r, b)" for i r b
    using process_agent_kept [of "env 0" "env 1" "env 2", OF _ _ _ assms(2), of sv now later i] assms(1) that by (metis snd_conv)
  show ?thesis
    by (auto simp: reconcile_agent_def Let_def assms(2) simp del: One_nat_def split: prod.split sum.split option.split list.split
        intro!: write_agent_kept dest: r p)
qed

lemma reconcile_agents_kept:
  assumes "\<forall>j k. fair (env j k)" and "books_kept start db"
  shows "books_kept start (snd (reconcile_agents sv env now later rs db))"
  using assms(2)
proof (induction rs arbitrary: db)
  case (Cons r rs)
  obtain k b where r: "r = (k, b)" by fastforce
  have "books_kept start (snd (reconcile_agent sv (env (length rs)) now later k b db))"
    by (rule reconcile_agent_kept) (use assms(1) Cons.prems in auto)
  with Cons.IH show ?case by (simp add: r Let_def split_beta)
qed simp

lemma reconcile_access_kept:
  "\<forall>j k. fair (env j k) \<Longrightarrow> books_kept start db \<Longrightarrow> books_kept start (snd (snd (reconcile_agent_access sv env now later db)))"
  by (simp add: reconcile_agent_access_def Let_def reconcile_agents_kept)

end
