(* ===== verification/Shop_Books.thy ===== *)
theory Shop_Books
  imports Payment_Attempts Refunds Order_Expiry Placed_Orders Delivery_Books
begin

text \<open>
  The shop as a whole: its handlers run in any order and interleave, each of them between the
  reads and the batch of another, and keep the books together. A wallet refund is the one handler
  that needs more: the balance it read must not move before its batch
  (\<open>lost_wallet_refund_pays_nothing\<close> shows what happens otherwise).
\<close>

section \<open>Statements of payments and refunds\<close>

lemma payment_statements_kept [keeps]:
  "stmt_keeps (books_kept start) (record_receipt channel i e st)"
  "stmt_keeps (books_kept start) (succeed_attempt from i now)"
  "stmt_keeps (books_kept start) (require_paid_event k v prev)"
  "stmt_keeps (books_kept start) (reclaim_coupon coupon k v)"
  "stmt_keeps (books_kept start) require_one_change"
  "stmt_keeps (books_kept start) (consume_coupon from' k)"
  "stmt_keeps (books_kept start) (announce_paid k v)"
  "stmt_keeps (books_kept start) (log_paid_visit visit k now)"
  "stmt_keeps (books_kept start) (update_topup k g)"
  by (auto intro!: leaves_books payment_leaves)

lemma paid_tail_kept:
  "s \<in> set (paid_tail st i v [log_paid_visit w j now]) \<Longrightarrow> stmt_keeps (books_kept start) s"
  "s \<in> set (paid_tail st i v []) \<Longrightarrow> stmt_keeps (books_kept start) s"
  by (auto simp: paid_tail_def keeps)

lemma attempt_statements_kept [keeps]:
  "stmt_keeps (books_kept start) (claim_attempt ignore a)"
  "stmt_keeps (books_kept start) (open_attempt i channel payment now)"
  "stmt_keeps (books_kept start) (insert_topup t)"
  "stmt_keeps (books_kept start) (fail_topup k now)"
  "stmt_keeps (books_kept start) (touch_attempt i now)"
proof -
  have u: "stmt_keeps (books_kept start) (update_attempt i P f)" for P f by (rule keeps)
  then show "stmt_keeps (books_kept start) (touch_attempt i now)" by (simp add: touch_attempt_def)
  show "stmt_keeps (books_kept start) (open_attempt i channel payment now)"
  proof (rule stmt_keepsI)
    fix n db db' c
    assume k: "books_kept start db" and r: "open_attempt i channel payment now n db = Inr (db', c)"
    from r have "update_attempt i (\<lambda>a. pa_status a = Attempt_Created)
        (\<lambda>a. a \<lparr> pa_provider_payment := Some payment, pa_status := Attempt_Pending, pa_updated_at := now \<rparr>) n db = Inr (db', c)"
      by (simp only: open_attempt_def split: if_splits) simp_all
    with u k show "books_kept start db'" unfolding stmt_keeps_def by blast
  qed
  show "stmt_keeps (books_kept start) (claim_attempt ignore a)"
    by (rule stmt_keepsI)
      (auto simp: claim_attempt_def and_then_Inr insert_attempt_def split: if_splits elim!: books_kept_tables)
  show "stmt_keeps (books_kept start) (insert_topup t)" "stmt_keeps (books_kept start) (fail_topup k now)"
    by (auto simp: insert_topup_def fail_topup_def intro!: stmt_keepsI split: if_splits elim!: books_kept_tables)
qed

lemma refund_statements_kept [keeps]:
  "stmt_keeps (books_kept start) (refund_outbox rid type next_at attempt guard)"
  "stmt_keeps (books_kept start) (event_of_order i P e)"
  "stmt_keeps (books_kept start) (close_case cid st rid attempt now)"
  by (auto simp: refund_outbox_def keeps intro!: stmt_keepsI)
    (auto simp: event_of_order_def insert_order_event_def and_then_Inr close_case_def Let_def
      split: option.splits if_splits elim!: books_kept_tables)

lemma update_provider_refund_kept:
  assumes "\<And>r. 0 \<le> r_cash r \<Longrightarrow> 0 \<le> r_reward r \<Longrightarrow> 0 \<le> r_cash (f r) \<and> 0 \<le> r_reward (f r)"
  shows "stmt_keeps (books_kept start) (update_provider_refund rid pid P f)"
  using update_refund_kept [of f start rid P, OF assms]
  by (auto simp: stmt_keeps_def update_provider_refund_def split: if_splits)

section \<open>A balance and its entry\<close>

text \<open>
  A balance that is written under the version it was read at, and then its entry: the two keep
  the books whatever ran since the read, as long as the entry is written exactly when the balance
  was.
\<close>

lemma booked_statements:
  assumes k: "books_kept start db" and read: "find_user db0 (u_id u) = Some u" "cash_versioned db0 db"
    and ub: "update_balance P (u_id u) (u_version u) after now n db = Inr (d, c)"
    and ins: "c = 1 \<Longrightarrow> sql_exists (\<lambda>w. u_id w = u_id u \<and> u_version w = Suc (u_version u) \<and> u_balance w = after) (users d)
       \<Longrightarrow> insert_wallet_entry e d = Inr db'" "c = 0 \<Longrightarrow> db' = d"
    and e: "we_user e = u_id u" "Shop_Triggers.signed (we_direction e) (we_amount e) = after - u_balance u"
  shows "books_kept start db'"
proof -
  from k have dist: "distinct (map u_id (users db))" by (simp add: books_kept_def rows_valid_def)
  from read obtain w where w: "find_user db (u_id u) = Some w" "u_version w = u_version u \<longrightarrow> u_balance w = u_balance u"
    by (auto simp: cash_versioned_def)
  note effect = update_balance_effect [OF ub dist w(1)]
  from effect(1) consider "c = 0" | "c = 1" by linarith
  then show ?thesis
  proof cases
    case 1
    with effect(2) ins(2) k show ?thesis by simp
  next
    case 2
    note f = effect(5) [OF 2]
    from f have st: "find_user d (u_id u) = Some (store_balance (after, now) w)" and v: "u_version w = u_version u" by auto
    have "sql_exists (\<lambda>w. u_id w = u_id u \<and> u_version w = Suc (u_version u) \<and> u_balance w = after) (users d)"
      unfolding sql_exists_def list_ex_iff using sql_first_Some [OF st [unfolded find_user_def]] v
      by (intro bexI [of _ "store_balance (after, now) w"]) (auto simp: store_balance_def)
    with ins(1) 2 have i: "insert_wallet_entry e d = Inr db'" by simp
    have s: "Shop_Triggers.signed (we_direction e) (we_amount e) = after - u_balance w" using e(2) w(2) v by simp
    note bp = booked_pair [OF w(1) effect(3) st effect(6) i e(1) s]
    have "rows_valid db'" using k effect(4) by (simp add: books_kept_def rows_valid_def bp(3-5))
    with k bp(1) show ?thesis using books_keptI by blast
  qed
qed

lemma booked_batch_kept:
  assumes b: "batch_from 0 (A # B # ss) db = Inr (db', cs)" and k: "books_kept start db"
    and pair: "\<And>d c d' c'. A 0 db = Inr (d, c) \<Longrightarrow> B c d = Inr (d', c') \<Longrightarrow> books_kept start d'"
    and ss: "\<forall>s\<in>set ss. stmt_keeps (books_kept start) s"
  shows "books_kept start db'"
proof -
  from b obtain d c d' c' cs' where s: "A 0 db = Inr (d, c)" "B c d = Inr (d', c')" "batch_from c' ss d' = Inr (db', cs')"
    by (elim batch_ConsE) (rule that, assumption+)
  from batch_from_keeps [OF ss pair [OF s(1,2)] s(3)] show ?thesis .
qed

section \<open>Handlers of payments\<close>

lemma event_batch_kept:
  assumes "books_kept start d" and "\<forall>s\<in>set ss. stmt_keeps (books_kept start) s"
  shows "books_kept start (snd (answer_event e rep (run_event_batch channel e ss d)))"
    and "books_kept start (snd (run_event_batch channel e ss d))"
proof -
  have "books_kept start d'" if "run_batch ss d = Inr (d', cs)" for d' cs
    using run_batch_books [OF that assms] .
  then show "books_kept start (snd (answer_event e rep (run_event_batch channel e ss d)))"
    and "books_kept start (snd (run_event_batch channel e ss d))"
    using assms(1) by (auto simp: answer_event_def run_event_batch_def split: sum.splits option.splits prod.splits)
qed

lemma reject_kept: "\<forall>s\<in>set (reject_statements channel a e code now). stmt_keeps (books_kept start) s"
  by (simp add: reject_statements_def keeps)

lemma close_kept: "\<forall>s\<in>set (close_statements channel a e now). stmt_keeps (books_kept start) s"
  by (auto simp: close_statements_def Let_def keeps split: option.splits)

lemma settle_kept:
  assumes "fulfill_all cat i now fresh ls = Inr ss"
  shows "\<forall>s\<in>set (settle_statements channel a e x reclaim ss visit now). stmt_keeps (books_kept start) s"
  using fulfill_all_kept [OF assms] paid_tail_kept
  by (auto simp: settle_statements_def Let_def keeps split: option.splits)

lemma settle_order_event_kept:
  assumes "fair (mo_env m)" and "books_kept start db"
  shows "books_kept start (snd (settle_order_event cat m channel e a x db))"
proof -
  note k = fair_kept [OF assms]
  have "books_kept start (snd (answer_event e rep (run_event_batch channel e
      (settle_statements channel a e x reclaim ss visit now) (mo_env m db))))"
    if "fulfill_all cat (o_id x) now fresh ls = Inr ss" for rep reclaim ss visit now fresh ls
    by (rule event_batch_kept(1) [OF k settle_kept [OF that]])
  then show ?thesis
    using assms(2) event_batch_kept(1) [OF k reject_kept]
    by (simp add: settle_order_event_def Let_def split: sum.splits option.splits)
qed

lemma settle_topup_event_kept:
  assumes "fair (mo_env m)" and "\<forall>k. fair (mo_wallet_env m k)" and "books_kept start db"
  shows "books_kept start (snd (settle_topup_event m channel e a t db))"
proof -
  obtain r d where w: "mutate_wallet (mo_wallet_env m) (mo_uuid m) (mo_clock m) (topup_credit t) db = (r, d)" by fastforce
  have d: "books_kept start d" by (rule mutate_wallet_kept [OF assms(2,3) w])
  have "books_kept start (snd (answer_event e rep (run_event_batch channel e
      [record_receipt channel (pa_id a) e Receipt_Processed, succeed_attempt st (pa_id a) now, update_topup (tp_id t) f] (mo_env m d))))"
    for rep st now f
    by (rule event_batch_kept(1) [OF fair_kept [OF assms(1) d]]) (simp add: keeps)
  then show ?thesis using assms(3) d by (simp add: settle_topup_event_def Let_def w split: sum.splits)
qed

lemma process_payment_event_kept:
  assumes "fair (mo_env m)" and "\<forall>k. fair (mo_wallet_env m k)" and "books_kept start db"
  shows "books_kept start (snd (process_payment_event cat number m channel e db))"
proof (cases "find_receipt db channel (ev_id e)")
  case None
  note k = fair_kept [OF assms(1,3)]
  show ?thesis
  proof (cases "load_payment_context db channel (ev_payment e) (ev_merchant e)")
    case (Inr p)
    obtain a x t where p: "p = (a, x, t)" by (cases p)
    have receipt: "\<forall>s\<in>set [record_receipt channel (pa_id a) e Receipt_Processed]. stmt_keeps (books_kept start) s" by (simp add: keeps)
    have rejected: "books_kept start (snd (case run_event_batch channel e (reject_statements channel a e code now) (mo_env m db) of
        (Inl f, d) \<Rightarrow> (Inl f, d) | (Inr _, d) \<Rightarrow> (Inr y, d)))" for code now y
      using event_batch_kept(2) [OF k reject_kept, of channel e channel a e code now] by (auto split: prod.split sum.split)
    show ?thesis
      by (cases "validate_event_money number a x e")
        (simp_all add: process_payment_event_def Let_def None Inr p assms(3) rejected event_batch_kept(1) [OF k receipt]
          event_batch_kept(1) [OF k close_kept] settle_order_event_kept [OF assms(1,3)] settle_topup_event_kept [OF assms]
          split: option.split)
  qed (simp add: process_payment_event_def None assms(3))
qed (simp add: process_payment_event_def assms(3))

lemma complete_free_kept:
  assumes "fair (mo_env m)" and "books_kept start db"
  shows "books_kept start (snd (complete_free_store_order cat m i u db))"
proof -
  note k = fair_kept [OF assms]
  have "books_kept start d" if "fulfill_all cat (o_id x) now fresh ls = Inr ss"
    "run_batch (free_statements x ss visit now') (mo_env m db) = Inr (d, cs)" for x now fresh ls ss visit now' d cs
  proof (rule run_batch_books [OF that(2) k])
    show "\<forall>s\<in>set (free_statements x ss visit now'). stmt_keeps (books_kept start) s"
      using fulfill_all_kept [OF that(1)] paid_tail_kept by (auto simp: free_statements_def Let_def keeps)
  qed
  then show ?thesis
    using assms(2) k by (auto simp: complete_free_store_order_def Let_def split: option.splits sum.splits prod.splits)
qed

lemma wallet_payment_kept:
  assumes "run_batch (wallet_payment_statements x u ss currency entry now) d = Inr (db', cs)" and "books_kept start d"
    and "find_user db (u_id u) = Some u" "cash_versioned db d" and "fulfill_all cat i now' fresh ls = Inr ss"
  shows "books_kept start db'"
proof -
  let ?debit = "debit_for_order x u now" and ?entry = "record_debit (Suc (u_version u)) (order_debit x u currency entry now)"
  have S: "wallet_payment_statements x u ss currency entry now
      = ?debit # ?entry # drop 2 (wallet_payment_statements x u ss currency entry now)"
    by (simp add: wallet_payment_statements_def Let_def)
  show ?thesis
  proof (rule booked_batch_kept)
    show "batch_from 0 (?debit # ?entry # drop 2 (wallet_payment_statements x u ss currency entry now)) d = Inr (db', cs)"
      using assms(1) unfolding run_batch_def S [symmetric] .
    show "\<forall>s\<in>set (drop 2 (wallet_payment_statements x u ss currency entry now)). stmt_keeps (books_kept start) s"
      using fulfill_all_kept [OF assms(5)] paid_tail_kept(2) by (auto simp: wallet_payment_statements_def Let_def keeps)
    show "books_kept start d'" if "?debit 0 d = Inr (e, c)" "?entry c e = Inr (d', c')" for e c d' c'
      by (rule booked_statements [OF assms(2-4) that(1) [unfolded debit_for_order_def], where e = "order_debit x u currency entry now"])
        (use that(2) in \<open>auto simp: record_debit_def order_debit_def and_then_Inr Shop_Triggers.signed_def split: if_splits\<close>)
  qed (rule assms(2))
qed

lemma complete_wallet_kept:
  assumes "fair (mo_env m)" and "books_kept start db"
  shows "books_kept start (snd (complete_wallet_store_order cat m i uid db))"
proof -
  note k = fair_kept [OF assms]
  have cv: "cash_versioned db (mo_env m db)" using assms by (auto simp: fair_def books_kept_def same_books_def)
  have "books_kept start d" if "run_batch (wallet_payment_statements x u ss currency entry now) (mo_env m db) = Inr (d, cs)"
    "find_user db uid = Some u" "fulfill_all cat i now' fresh ls = Inr ss" for x u ss currency entry now d cs now' fresh ls
    using wallet_payment_kept [OF that(1) k _ cv that(3)] find_user_id [OF that(2)] that(2) by simp
  then show ?thesis
    using assms(2) k by (auto simp: complete_wallet_store_order_def Let_def split: option.splits sum.splits prod.splits)
qed

lemma start_payment_kept:
  assumes "fair env" and "books_kept start db" and "\<And>f. \<forall>s\<in>set (fail f). stmt_keeps (books_kept start) s"
  shows "books_kept start (snd (start_payment create env i channel now fail db))"
proof -
  note k = fair_kept [OF assms(1,2)]
  have "\<forall>s\<in>set [open_attempt i channel p now]. stmt_keeps (books_kept start) s" for p by (simp add: keeps)
  note o = run_batch_books [OF _ k this]
  note f = run_batch_books [OF _ k assms(3)]
  show ?thesis
    using k o f by (auto simp: start_payment_def Let_def and_then_Inr split: sum.splits prod.splits)
qed

lemma creation_failure_kept: "\<forall>s\<in>set (payment_creation_failure_statements i f now). stmt_keeps (books_kept start) s"
  by (simp add: payment_creation_failure_statements_def keeps)

lemma create_shop_payment_kept:
  assumes "fair env" "fair env'" and "books_kept start db"
  shows "books_kept start (snd (create_shop_payment port cat env env' now aid q db))"
proof -
  note k = fair_kept [OF assms(1,3)]
  have "\<forall>s\<in>set [claim_attempt True a]. stmt_keeps (books_kept start) s" for a by (simp add: keeps)
  note c = run_batch_books [OF _ k this]
  have s: "books_kept start (snd (start_payment create env' i channel now (\<lambda>f. payment_creation_failure_statements aid f now) d))"
    if "run_batch [claim_attempt True a] (env db) = Inr (d, cs)" for a create i channel d cs
    by (rule start_payment_kept [OF assms(2) c [OF that] creation_failure_kept])
  show ?thesis
    using assms(3) k c s by (auto simp: create_shop_payment_def Let_def split: option.splits sum.splits prod.splits)
qed

lemma create_topup_kept:
  assumes "fair env" "fair env'" and "books_kept start db"
  shows "books_kept start (snd (create_wallet_topup_payment port cat env env' now tid aid q db))"
proof -
  note k = fair_kept [OF assms(1,3)]
  have "\<forall>s\<in>set [insert_topup t, claim_attempt False a]. stmt_keeps (books_kept start) s" for t a by (simp add: keeps)
  note c = run_batch_books [OF _ k this]
  have fk: "\<forall>s\<in>set (payment_creation_failure_statements i f now @ [fail_topup tid now]). stmt_keeps (books_kept start) s" for i f
    using creation_failure_kept by (auto simp: keeps)
  have s: "books_kept start (snd (start_payment create env' i channel now
      (\<lambda>f. payment_creation_failure_statements aid f now @ [fail_topup tid now]) d))"
    if "run_batch [insert_topup t, claim_attempt False a] (env db) = Inr (d, cs)" for t a create i channel d cs
    by (rule start_payment_kept [OF assms(2) c [OF that] fk])
  have s': "books_kept start d'"
    if "run_batch [insert_topup t, claim_attempt False a] (env db) = Inr (d, cs)"
      "start_payment create env' i channel now (\<lambda>f. payment_creation_failure_statements aid f now @ [fail_topup tid now]) d = (r, d')"
    for t a create i channel d cs r d'
    using s [OF that(1), of create i channel] that(2) by simp
  show ?thesis
    using assms(3) k s' by (auto simp: create_wallet_topup_payment_def Let_def split: option.splits sum.splits prod.splits)
qed

lemma webhook_kept:
  assumes "fair (mo_env m)" and "\<forall>k. fair (mo_wallet_env m k)" and "books_kept start db"
  shows "books_kept start (snd (handle_shop_payment_webhook port cat number m channel body db))"
proof -
  have "books_kept start d" if "process_payment_event cat number m channel e db = (r, d)" for e r d
    using process_payment_event_kept [OF assms, of cat number channel e] that by simp
  then show ?thesis
    using assms(3) by (auto simp: handle_shop_payment_webhook_def split: option.splits sum.splits prod.splits)
qed

lemma reconcile_kept:
  assumes "fair (mo_env m)" and "\<forall>k. fair (mo_wallet_env m k)" and "books_kept start db"
  shows "books_kept start (snd (reconcile_payment_attempt port cat number m a c db))"
proof -
  have "books_kept start d" if "process_payment_event cat number m channel e db = (r, d)" for channel e r d
    using process_payment_event_kept [OF assms, of cat number channel e] that by simp
  moreover have "\<forall>s\<in>set [touch_attempt i now]. stmt_keeps (books_kept start) s" for i now by (simp add: keeps)
  note run_batch_books [OF _ assms(3) this]
  ultimately show ?thesis
    using assms(3) by (auto simp: reconcile_payment_attempt_def split: sum.splits prod.splits)
qed

section \<open>Handlers of refunds\<close>

lemma refund_row_kept:
  "stmt_keeps (books_kept start) (update_refund rid P (claim_row attempt now until))"
  "stmt_keeps (books_kept start) (update_provider_refund rid pid P (close_refund st pid failure now))"
  "0 \<le> rs_cash s \<Longrightarrow> 0 \<le> rs_reward s \<Longrightarrow> stmt_keeps (books_kept start) (update_refund rid P (store_split s))"
  by (auto intro!: update_refund_kept update_provider_refund_kept simp: claim_row_def close_refund_def store_split_def)

lemma request_provider_refund_kept:
  assumes "fair env" and "books_kept start db" and "\<And>s. split = Some s \<Longrightarrow> 0 \<le> rs_cash s \<and> 0 \<le> rs_reward s"
  shows "books_kept start (snd (request_provider_refund sv env now rid key amount split p db))"
proof -
  note k = fair_kept [OF assms(1,2)]
  have "\<forall>s\<in>set (request_statements rid x a key amount payment manual split now). stmt_keeps (books_kept start) s"
    for x a payment manual
    using assms(3) by (auto simp: request_statements_def requested_refund_def Let_def keeps refund_row_kept split: option.splits)
  note r = run_batch_books [OF _ k this]
  show ?thesis
    using assms(2) k r by (auto simp: request_provider_refund_def Let_def split: sum.splits prod.splits)
qed

text \<open>A wallet refund whose user stays as he was read until the batch.\<close>

lemma wallet_refund_kept:
  assumes "run_batch (wallet_refund_statements before rid eid x u key amount st split now) d = Inr (db', cs)"
    and "books_kept start d" and "find_user d (u_id u) = Some u"
  shows "books_kept start db'"
proof -
  let ?S = "wallet_refund_statements before rid eid x u key amount st split now"
  let ?e = "\<lparr> we_id = Given eid, we_user = u_id u, we_direction = Credit, we_amount = amount, we_before = u_balance u,
    we_after = u_balance u + amount, we_currency = o_currency x, we_source = Src_Refund, we_source_id = o_id x,
    we_key = wallet_refund_key rid, we_created_at = now \<rparr>"
  let ?credit = "credit_for_order x u (u_balance u + amount) now" and ?entry = "record_credit (Suc (u_version u)) ?e"
  have S: "?S = ?credit # ?entry # drop 2 ?S" by (simp add: wallet_refund_statements_def Let_def)
  show ?thesis
  proof (rule booked_batch_kept)
    show "batch_from 0 (?credit # ?entry # drop 2 ?S) d = Inr (db', cs)"
      using assms(1) unfolding run_batch_def S [symmetric] .
    show "\<forall>s\<in>set (drop 2 ?S). stmt_keeps (books_kept start) s"
      using refund_grant_statements_kept cancel_open_kept
      by (auto simp: wallet_refund_statements_def wallet_refund_row_def new_refund_def Let_def keeps)
    show "books_kept start d2" if "?credit 0 d = Inr (d1, c1)" "?entry c1 d1 = Inr (d2, c2)" for d1 c1 d2 c2
    proof (rule booked_statements [OF assms(2,3) cash_versioned_refl that(1) [unfolded credit_for_order_def], where e = ?e])
      show "insert_wallet_entry ?e d1 = Inr d2"
        if "sql_exists (\<lambda>w. u_id w = u_id u \<and> u_version w = Suc (u_version u) \<and> u_balance w = u_balance u + amount) (users d1)"
        using that \<open>?entry c1 d1 = Inr (d2, c2)\<close> by (auto simp: record_credit_def and_then_Inr)
      have dist: "distinct (map u_id (users d))" using assms(2) by (simp add: books_kept_def rows_valid_def)
      show "d2 = d1" if "c1 = 0"
      proof -
        from update_balance_effect(2) [OF \<open>?credit 0 d = Inr (d1, c1)\<close> [unfolded credit_for_order_def] dist assms(3) that]
        have "d1 = d" .
        moreover have "w = u" if "w \<in> set (users d)" "u_id w = u_id u" for w
          using keyed_first [OF dist that(1)] that(2) assms(3) by (simp add: find_user_def)
        ultimately have "\<not> sql_exists (\<lambda>w. u_id w = u_id u \<and> u_version w = Suc (u_version u) \<and> u_balance w = u_balance u + amount) (users d1)"
          by (fastforce simp: sql_exists_def list_ex_iff)
        with \<open>?entry c1 d1 = Inr (d2, c2)\<close> show ?thesis by (simp add: record_credit_def)
      qed
    qed (simp_all add: Shop_Triggers.signed_def)
  qed (rule assms(2))
qed

lemma request_wallet_refund_kept:
  assumes "fair env" and "books_kept start db" and "users (env db) = users db"
  shows "books_kept start (snd (request_wallet_refund env now rid eid i key amount db))"
proof -
  note k = fair_kept [OF assms(1,2)]
  have u: "find_user (env db) (u_id u) = Some u" if "wallet_order db i = Some (x, u)" for x u
  proof -
    from that obtain uid where f: "find_user db uid = Some u" by (auto simp: wallet_order_def split: option.splits if_splits)
    with find_user_id [OF f] assms(3) show ?thesis by (simp add: find_user_def)
  qed
  have r: "books_kept start d" if "wallet_order db i = Some (x, u)"
      "run_batch (wallet_refund_statements db rid eid x u key amount st split now) (env db) = Inr (d, cs)" for x u st split d cs
    by (rule wallet_refund_kept [OF that(2) k u [OF that(1)]])
  show ?thesis
  proof (cases "wallet_order db i")
    case (Some p)
    obtain x u where p: "p = (x, u)" by (cases p)
    show ?thesis
      using assms(2) k r [OF Some [unfolded p]]
      by (simp add: request_wallet_refund_def Some p Let_def split: sum.split prod.split)
  qed (simp add: request_wallet_refund_def assms(2))
qed

lemma request_shop_refund_kept:
  assumes "fair env" and "books_kept start db" and "refunds_in_step db (rq_order q)"
    and "refundable_order db (rq_order q) = None \<Longrightarrow> users (env db) = users db"
  shows "books_kept start (snd (request_shop_refund sv env now rid eid q db))"
proof (cases "parse_refund_request sv q")
  case (Inr p)
  have i: "rq_order p = rq_order q" using Inr by (auto simp: parse_refund_request_def Let_def split: if_splits)
  let ?amount = "int (digits_value (rq_amount p))"
  have s: "0 \<le> rs_cash s \<and> 0 \<le> rs_reward s" if "promotion_refund_split db (rq_order q) ?amount = Inr (Some s)" for s
    using split_bounds(1,3) [OF that assms(3)] by simp
  have b: "books_kept start d" if "promotion_refund_split db (rq_order q) ?amount = Inr (Some s)"
      "refund_allocated_balance env now rid key amount s db = (r, d)" for s key amount r d
    using refund_allocated_balance_kept [OF that(2) assms(1,2)] s [OF that(1)] by simp
  have b': "books_kept start d" if "promotion_refund_split db (rq_order q) ?amount = Inr split" "balance_only split = Some s"
      "refund_allocated_balance env now rid key amount s db = (r, d)" for split s key amount r d
    using b [of s key amount r d] that by (auto simp: balance_only_def split: option.splits if_splits)
  have pr: "books_kept start (snd (request_provider_refund sv env now rid key amount split order db))"
    if "promotion_refund_split db (rq_order q) ?amount = Inr split" for split key amount order
    by (rule request_provider_refund_kept [OF assms(1,2)]) (use that s in auto)
  have w: "books_kept start (snd (request_wallet_refund env now rid eid i key amount db))"
    if "refundable_order db (rq_order q) = None" for i key amount
    by (rule request_wallet_refund_kept [OF assms(1,2) assms(4) [OF that]])
  show ?thesis
    using assms(2) b' pr w
    by (auto simp: request_shop_refund_def Inr Let_def i split: sum.splits option.splits prod.splits)
qed (simp add: request_shop_refund_def assms(2))

lemma finalize_statements_kept:
  "\<forall>s\<in>set (finalize_statements db r ost st failure pid attempt now actor). stmt_keeps (books_kept start) s"
proof -
  have "\<forall>s\<in>set (finalize_head r ost st failure pid attempt now actor). stmt_keeps (books_kept start) s"
    by (simp add: finalize_head_def Let_def keeps refund_row_kept)
  moreover have "\<forall>s\<in>set (close_after_sale_statements db i rid attempt now). stmt_keeps (books_kept start) s" for i rid
    by (auto simp: close_after_sale_statements_def keeps)
  ultimately show ?thesis
    using refund_grant_statements_kept cancel_open_kept unfolding finalize_statements_def by (auto simp: ball_Un)
qed

lemma finalize_refund_kept:
  assumes "fair env" and "books_kept start db"
  shows "books_kept start (snd (finalize_refund env now r x st failure pid attempt actor db))"
  using fair_kept [OF assms] run_batch_books [OF _ fair_kept [OF assms] finalize_statements_kept]
  by (auto simp: finalize_refund_def Let_def split: sum.splits prod.splits)

lemma small_refund_batches_kept:
  assumes "books_kept start db"
  shows "books_kept start (snd (claim_refund_attempt now r db))"
    and "books_kept start (snd (schedule_refund_check now rid pid attempt db))"
    and "books_kept start (snd (require_manual_reconciliation now r attempt db))"
proof -
  have "\<forall>s\<in>set [update_refund (r_id r) P (claim_row n now until)]. stmt_keeps (books_kept start) s" for P n until
    by (simp add: refund_row_kept)
  from run_batch_books [OF _ assms this] show "books_kept start (snd (claim_refund_attempt now r db))"
    using assms by (auto simp: claim_refund_attempt_def Let_def split: sum.split prod.split)
  have "\<forall>s\<in>set [update_provider_refund rid pid' P (\<lambda>q. q \<lparr> r_status := st, r_provider_refund := p, r_next_attempt_at := t,
      r_failure := None, r_updated_at := now \<rparr>), refund_outbox rid type n k g]. stmt_keeps (books_kept start) s" for pid' P st p t type n k g
    by (auto intro!: update_provider_refund_kept simp: keeps)
  from run_batch_books [OF _ assms this] show "books_kept start (snd (schedule_refund_check now rid pid attempt db))"
    using assms by (auto simp: schedule_refund_check_def Let_def split: sum.split prod.split)
  have "\<forall>s\<in>set [update_refund (r_id r) P (\<lambda>q. q \<lparr> r_status := st, r_failure := f, r_next_attempt_at := t, r_updated_at := now \<rparr>)].
      stmt_keeps (books_kept start) s" for P st f t
    by (auto intro!: update_refund_kept)
  from run_batch_books [OF _ assms this] show "books_kept start (snd (require_manual_reconciliation now r attempt db))"
    using assms by (auto simp: require_manual_reconciliation_def split: sum.split prod.split)
qed

lemma provider_failure_kept:
  assumes "fair env" and "books_kept start db"
  shows "books_kept start (snd (record_provider_failure env now r x attempt db))"
proof -
  have "\<forall>s\<in>set [update_refund (r_id r) P (\<lambda>q. q \<lparr> r_status := st, r_failure := f, r_next_attempt_at := t, r_updated_at := now \<rparr>),
      refund_outbox rid type n k g]. stmt_keeps (books_kept start) s" for P st f t rid type n k g
    by (auto intro!: update_refund_kept simp: keeps)
  from run_batch_books [OF _ assms(2) this] show ?thesis
    using assms(2) finalize_refund_kept [OF assms]
    by (auto simp: record_provider_failure_def Let_def split: sum.split prod.split)
qed

lemma answer_refund_kept:
  assumes "fair env" and "books_kept start db"
  shows "books_kept start (snd (answer_refund env now r x attempt answer db))"
  using small_refund_batches_kept(2,3) [OF assms(2)] finalize_refund_kept [OF assms] provider_failure_kept [OF assms]
  by (cases answer) (simp_all add: answer_refund_def)

lemma process_shop_refund_kept:
  assumes "fair env0" "fair env1" "fair env2" and "books_kept start db"
  shows "books_kept start (snd (process_shop_refund sv env0 env1 env2 claimed_at now rid db))"
proof -
  have claimed: "books_kept start d" if "claim_refund_attempt claimed_at r (env0 db) = (o', d)" for r o' d
    using small_refund_batches_kept(1) [OF fair_kept [OF assms(1,4)], of claimed_at r] that by simp
  show ?thesis
    using assms(4) claimed answer_refund_kept [OF assms(3) fair_kept [OF assms(2) claimed]]
    by (auto simp: process_shop_refund_def split: option.splits sum.splits prod.splits)
qed

lemma complete_manual_refund_kept:
  assumes "fair env0" "fair env1" "fair env2" and "books_kept start db"
  shows "books_kept start (snd (complete_manual_refund sv env0 env1 env2 claimed_at now rid ref returned db))"
proof -
  note k = fair_kept [OF assms(1,4)]
  have "\<forall>s\<in>set [update_refund rid P (\<lambda>q. q \<lparr> r_attempts := n, r_updated_at := t \<rparr>)]. stmt_keeps (books_kept start) s" for P n t
    by (auto intro!: update_refund_kept)
  note b = run_batch_books [OF _ k this]
  show ?thesis
    using assms(4) k b finalize_refund_kept [OF assms(3) fair_kept [OF assms(2) b]]
    by (auto simp: complete_manual_refund_def Let_def split: option.splits sum.splits prod.splits)
qed

lemma retry_shop_refund_kept:
  assumes "fair env" and "books_kept start db"
  shows "books_kept start (snd (retry_shop_refund env now rid db))"
proof -
  note k = fair_kept [OF assms]
  have "\<forall>s\<in>set (retry_statements r now). stmt_keeps (books_kept start) s" for r
    by (auto simp: retry_statements_def keeps intro!: update_refund_kept)
  from run_batch_books [OF _ k this] show ?thesis
    using assms(2) k by (auto simp: retry_shop_refund_def Let_def split: option.splits sum.splits prod.splits)
qed

section \<open>Expiry\<close>

lemma expire_each_kept: "expire_each i now as db = Inr db' \<Longrightarrow> books_kept start db \<Longrightarrow> books_kept start db'"
proof (induction "as" arbitrary: db)
  case (Cons a as)
  from Cons.prems(1) obtain d c where u: "update_attempt (pa_id a) (open_attempt_of i) (set_attempt_expired now) 0 db = Inr (d, c)"
    "expire_each i now as d = Inr db'" by (auto simp: and_then_Inr)
  have "stmt_keeps (books_kept start) (update_attempt (pa_id a) (open_attempt_of i) (set_attempt_expired now))" by (rule keeps)
  with u(1) Cons.prems(2) have "books_kept start d" unfolding stmt_keeps_def by blast
  with Cons.IH [OF u(2)] show ?case .
qed simp

lemma expiry_statements_kept: "\<forall>s\<in>set (expiry_statements now i v). stmt_keeps (books_kept start) s"
proof -
  have "stmt_keeps (books_kept start) (expire_attempts i w now)" for w
    by (rule stmt_keepsI) (auto simp: expire_attempts_def Let_def and_then_Inr intro: expire_each_kept)
  moreover have "stmt_keeps (books_kept start) (give_back_use i w)" "stmt_keeps (books_kept start) (release_redemption i w)" for w
    by (auto simp: give_back_use_def release_redemption_def Let_def intro!: stmt_keepsI elim!: books_kept_tables)
  moreover have "stmt_keeps (books_kept start) (event_when p e)" for p e by (rule keeps)
  then have "stmt_keeps (books_kept start) (event_unless_taken p e)" for p e
    unfolding stmt_keeps_def event_unless_taken_def by (simp split: if_split)
  ultimately show ?thesis by (simp add: expiry_statements_def Let_def keeps)
qed

lemma expire_loop_kept:
  assumes "\<forall>k. fair (env k)" and "books_kept start db"
  shows "books_kept start (snd (expire_loop env now os n db))"
  using assms(2)
proof (induction os arbitrary: n db)
  case (Cons p os)
  obtain i v where p: "p = (i, v)" by fastforce
  have k: "books_kept start (env (length os) db)" using fair_kept assms(1) Cons.prems by blast
  show ?case
    using k Cons.IH [OF run_batch_books [OF _ k expiry_statements_kept]]
    by (simp add: p Let_def split: sum.split prod.split)
qed simp

lemma expire_store_orders_kept:
  assumes "\<forall>k. fair (env k)" and "books_kept start db"
  shows "books_kept start (snd (expire_store_orders env now limit db))"
  using expire_loop_kept [OF assms, of now "due_orders now (pass_limit limit) db" 0]
  by (auto simp: expire_store_orders_def Let_def split: prod.splits sum.splits)

section \<open>Checkout\<close>

lemma leaves_same: "run_batch ss d = Inr (d', cs) \<Longrightarrow> \<forall>s\<in>set ss. leaves T s \<Longrightarrow> T d' = T d"
  unfolding run_batch_def by (rule leaves_batch)

lemma create_order_kept:
  assumes "fair env" and k: "books_kept start (snd c)"
  shows "books_kept start (snd (snd (create_order env collate sh ids now ca vi c)))"
proof -
  obtain t db where c: "c = (t, db)" by fastforce
  obtain r t' db' where o: "create_order env collate sh ids now ca vi (t, db) = (r, t', db')" using prod_cases3 by blast
  have p: "books_kept start (snd (prepare_agent_checkout sh ca (vi_user vi) db))"
    using k by (rule books_kept_tables) (simp_all add: c prepare_agent_leaves)
  then have m: "books_kept start (met env sh ca vi db)" unfolding met_def by (rule fair_kept [OF assms(1)])
  from o have "books_kept start db'"
  proof (cases rule: create_order_ends)
    case (4 x upgrade agent lines coupon m p w cs)
    show ?thesis
      by (rule books_kept_tables [OF m]; rule leaves_same [OF 4(1) place_leaves]; simp)
  qed (use k p m c in auto)
  then show ?thesis by (simp add: c o)
qed

section \<open>Runs of the shop\<close>

text \<open>
  A run is any sequence of handlers, each with runs of the shop between its reads and its batch
  (the collation of a checkout ranks strings by numbers).
  A refund request is made while the refunds of its order are in step with what paid for it
  (\<open>balance_refund_in_step\<close>), and one that ends as a wallet refund meets no other
  request that writes users.
\<close>

inductive shop_run :: "db \<Rightarrow> db \<Rightarrow> bool" where
  idle: "shop_run db db"
| andthen: "shop_run db d \<Longrightarrow> shop_run d d' \<Longrightarrow> shop_run db d'"
| wallet: "\<forall>k d. shop_run d (env k d) \<Longrightarrow> shop_run db (snd (mutate_wallet env uuid clock w db))"
| checkout: "\<forall>d. shop_run d (env d)
    \<Longrightarrow> shop_run db (snd (snd (create_order env (collate :: string \<Rightarrow> nat) sh ids now ca vi (t, db))))"
| reserve: "\<forall>d. shop_run d (env d) \<Longrightarrow> shop_run db (snd (reserve_order_balance env now i u db))"
| rewards: "shop_run db (snd (settle_promotion_rewards now db))"
| unstarted: "shop_run db (snd (cancel_unstarted_balance_payment now i db))"
| transition: "\<forall>d. shop_run d (env d) \<Longrightarrow> shop_run db (snd (transition_order env now i v dst db))"
| expire: "\<forall>k d. shop_run d (env k d) \<Longrightarrow> shop_run db (snd (expire_store_orders env now limit db))"
| access: "\<forall>d. shop_run d (env d) \<Longrightarrow> shop_run db (snd (consume_access env now i k f db))"
| payment: "\<forall>d. shop_run d (mo_env m d) \<Longrightarrow> \<forall>k d. shop_run d (mo_wallet_env m k d)
    \<Longrightarrow> shop_run db (snd (process_payment_event cat number m channel e db))"
| free: "\<forall>d. shop_run d (mo_env m d) \<Longrightarrow> shop_run db (snd (complete_free_store_order cat m i bu db))"
| from_wallet: "\<forall>d. shop_run d (mo_env m d) \<Longrightarrow> shop_run db (snd (complete_wallet_store_order cat m i u db))"
| pay: "\<forall>d. shop_run d (env d) \<Longrightarrow> \<forall>d. shop_run d (env' d)
    \<Longrightarrow> shop_run db (snd (create_shop_payment port cat env env' now aid q db))"
| topup: "\<forall>d. shop_run d (env d) \<Longrightarrow> \<forall>d. shop_run d (env' d)
    \<Longrightarrow> shop_run db (snd (create_wallet_topup_payment port cat env env' now tid aid t db))"
| webhook: "\<forall>d. shop_run d (mo_env m d) \<Longrightarrow> \<forall>k d. shop_run d (mo_wallet_env m k d)
    \<Longrightarrow> shop_run db (snd (handle_shop_payment_webhook port cat number m channel body db))"
| reconcile: "\<forall>d. shop_run d (mo_env m d) \<Longrightarrow> \<forall>k d. shop_run d (mo_wallet_env m k d)
    \<Longrightarrow> shop_run db (snd (reconcile_payment_attempt port cat number m a c db))"
| refund: "\<forall>d. shop_run d (env d) \<Longrightarrow> refunds_in_step db (rq_order rq)
    \<Longrightarrow> refundable_order db (rq_order rq) = None \<longrightarrow> users (env db) = users db
    \<Longrightarrow> shop_run db (snd (request_shop_refund sv env now rid eid rq db))"
| process: "\<forall>d. shop_run d (env d) \<Longrightarrow> \<forall>d. shop_run d (env' d) \<Longrightarrow> \<forall>d. shop_run d (env'' d)
    \<Longrightarrow> shop_run db (snd (process_shop_refund sv env env' env'' claimed_at now rid db))"
| manual: "\<forall>d. shop_run d (env d) \<Longrightarrow> \<forall>d. shop_run d (env' d) \<Longrightarrow> \<forall>d. shop_run d (env'' d)
    \<Longrightarrow> shop_run db (snd (complete_manual_refund sv env env' env'' claimed_at now rid ref returned db))"
| again: "\<forall>d. shop_run d (env d) \<Longrightarrow> shop_run db (snd (retry_shop_refund env now rid db))"
| deliver: "\<forall>k d. shop_run d (env k d) \<Longrightarrow> shop_run db (snd (process_delivery w pay content sv env now later i db))"
| start_by_hand: "\<forall>d. shop_run d (env d) \<Longrightarrow> shop_run db (snd (start_manual_delivery cat env now i db))"
| by_hand: "\<forall>d. shop_run d (env d) \<Longrightarrow> shop_run db (snd (complete_manual_delivery w cat env now i content db))"
| replace_content: "\<forall>d. shop_run d (env d) \<Longrightarrow> shop_run db (snd (replace_delivered_content w env i content db))"
| deliver_again: "\<forall>d. shop_run d (env d) \<Longrightarrow> shop_run db (snd (retry_delivery env now i db))"
| upgrade: "\<forall>k d. shop_run d (env k d) \<Longrightarrow> shop_run db (snd (reconcile_upgrade_deliveries pay content env now later db))"
| agent: "\<forall>j k d. shop_run d (env j k d) \<Longrightarrow> shop_run db (snd (snd (reconcile_agent_access sv env now later db)))"

definition keeps_books :: "db \<Rightarrow> db \<Rightarrow> bool" where
  "keeps_books db db' \<longleftrightarrow> (\<forall>start. books_kept start db \<longrightarrow> books_kept start db')"

lemma keeps_books_fair: "\<forall>d. keeps_books d (env d) \<Longrightarrow> fair env"
  unfolding keeps_books_def fair_def books_kept_def by (meson same_books_refl)

lemma keeps_booksI: "(\<And>start. books_kept start db \<Longrightarrow> books_kept start db') \<Longrightarrow> keeps_books db db'"
  by (simp add: keeps_books_def)

lemma small_handlers_kept:
  assumes "books_kept start db"
  shows "books_kept start (snd (cancel_unstarted_balance_payment now i db))"
    and "books_kept start (snd (settle_promotion_rewards now db))"
    and "fair env \<Longrightarrow> books_kept start (snd (consume_access env now i k f db))"
proof -
  have "\<forall>s\<in>set [update_order i P g]. stmt_keeps (books_kept start) s" for P g by (simp add: keeps)
  from run_batch_books [OF _ assms this] show "books_kept start (snd (cancel_unstarted_balance_payment now i db))"
    using assms by (auto simp: cancel_unstarted_balance_payment_def split: sum.split prod.split)
  show "books_kept start (snd (settle_promotion_rewards now db))"
    unfolding settle_promotion_rewards_def by (rule settle_rewards_kept [OF assms]) (rule prod.collapse [symmetric])
  assume "fair env"
  note e = fair_kept [OF this assms]
  have "\<forall>s\<in>set [use_access i now, record_access i k]. stmt_keeps (books_kept start) s"
    by (auto simp: use_access_def record_access_def Let_def intro!: stmt_keepsI elim!: books_kept_tables split: if_splits)
  from run_batch_books [OF _ e this] show "books_kept start (snd (consume_access env now i k f db))"
    using assms e by (auto simp: consume_access_def Let_def split: sum.splits prod.splits)
qed

lemma shop_run_keeps: "shop_run db db' \<Longrightarrow> keeps_books db db'"
proof (induction rule: shop_run.induct)
  case (wallet env db uuid clock w)
  then have "\<forall>k. fair (env k)" using keeps_books_fair by blast
  then show ?case by (intro keeps_booksI mutate_wallet_kept [OF _ _ prod.collapse [symmetric]])
next
  case (checkout env db collate sh ids now ca vi t)
  then have "fair env" using keeps_books_fair by blast
  then show ?case by (intro keeps_booksI create_order_kept) simp_all
next
  case (reserve env db now i u)
  then have "fair env" using keeps_books_fair by blast
  then show ?case by (intro keeps_booksI reserve_order_balance_kept [OF _ _ prod.collapse [symmetric]])
next
  case (transition env db now i v dst)
  then have "fair env" using keeps_books_fair by blast
  then show ?case by (intro keeps_booksI transition_order_kept [OF prod.collapse [symmetric]])
next
  case (payment m db cat number channel e)
  then have "fair (mo_env m)" "\<forall>k. fair (mo_wallet_env m k)" using keeps_books_fair by blast+
  then show ?case by (intro keeps_booksI process_payment_event_kept)
next
  case (webhook m db port cat number channel body)
  then have "fair (mo_env m)" "\<forall>k. fair (mo_wallet_env m k)" using keeps_books_fair by blast+
  then show ?case by (intro keeps_booksI webhook_kept)
next
  case (reconcile m db port cat number a c)
  then have "fair (mo_env m)" "\<forall>k. fair (mo_wallet_env m k)" using keeps_books_fair by blast+
  then show ?case by (intro keeps_booksI reconcile_kept)
next
  case (refund env db rq sv now rid eid)
  then have "fair env" using keeps_books_fair by blast
  then show ?case by (intro keeps_booksI request_shop_refund_kept) (use refund in auto)
next
  case (expire env db now limit)
  then have "\<forall>k. fair (env k)" using keeps_books_fair by blast
  then show ?case by (intro keeps_booksI expire_store_orders_kept)
next
  case (rewards now db)
  show ?case by (intro keeps_booksI small_handlers_kept(2))
next
  case (unstarted now i db)
  show ?case by (intro keeps_booksI small_handlers_kept(1))
next
  case (access env db now i k f)
  then have "fair env" using keeps_books_fair by blast
  then show ?case by (intro keeps_booksI small_handlers_kept(3))
next
  case (free m db cat i bu)
  then have "fair (mo_env m)" using keeps_books_fair by blast
  then show ?case by (intro keeps_booksI complete_free_kept)
next
  case (from_wallet m db cat i u)
  then have "fair (mo_env m)" using keeps_books_fair by blast
  then show ?case by (intro keeps_booksI complete_wallet_kept)
next
  case (pay env env' db port cat now aid q)
  then have "fair env" "fair env'" using keeps_books_fair by blast+
  then show ?case by (intro keeps_booksI create_shop_payment_kept)
next
  case (topup env env' db port cat now tid aid t)
  then have "fair env" "fair env'" using keeps_books_fair by blast+
  then show ?case by (intro keeps_booksI create_topup_kept)
next
  case (process env env' env'' db sv claimed_at now rid)
  then have "fair env" "fair env'" "fair env''" using keeps_books_fair by blast+
  then show ?case by (intro keeps_booksI process_shop_refund_kept)
next
  case (manual env env' env'' db sv claimed_at now rid ref returned)
  then have "fair env" "fair env'" "fair env''" using keeps_books_fair by blast+
  then show ?case by (intro keeps_booksI complete_manual_refund_kept)
next
  case (again env db now rid)
  then have "fair env" using keeps_books_fair by blast
  then show ?case by (intro keeps_booksI retry_shop_refund_kept)
next
  case (deliver env db w pay content sv now later i)
  then have "\<forall>k. fair (env k)" using keeps_books_fair by blast
  then show ?case by (intro keeps_booksI process_delivery_kept)
next
  case (start_by_hand env db cat now i)
  then have "fair env" using keeps_books_fair by blast
  then show ?case by (intro keeps_booksI start_manual_kept)
next
  case (by_hand env db w cat now i content)
  then have "fair env" using keeps_books_fair by blast
  then show ?case by (intro keeps_booksI complete_manual_kept)
next
  case (replace_content env db w i content)
  then have "fair env" using keeps_books_fair by blast
  then show ?case by (intro keeps_booksI replace_content_kept)
next
  case (deliver_again env db now i)
  then have "fair env" using keeps_books_fair by blast
  then show ?case by (intro keeps_booksI retry_delivery_kept)
next
  case (upgrade env db pay content now later)
  then have "\<forall>k. fair (env k)" using keeps_books_fair by blast
  then show ?case by (intro keeps_booksI reconcile_upgrades_kept)
next
  case (agent env db sv now later)
  then have "\<forall>j k. fair (env j k)" using keeps_books_fair by blast
  then show ?case by (intro keeps_booksI reconcile_access_kept)
qed (simp_all add: keeps_books_def)

section \<open>Properties\<close>



end
