(* ===== verification/Coupon_Use.thy ===== *)
theory Coupon_Use
  imports Placed_Orders Order_Expiry
begin

text \<open>
  The counter of a coupon. It is written from four places: the checkout that claims it
  (\<^verbatim>\<open>storefront/server/multi-order.ts\<close>), the pass that gives it back when an order expires
  (\<^verbatim>\<open>shop-orders/server/expiration.ts\<close>), the payment that takes it again, and the trigger
  \<^verbatim>\<open>promotion_coupon_release\<close> on the status of an order. The counter is to be the number of
  redemptions that hold or have used the coupon, and never more than its limit.
\<close>

section \<open>Counters in step\<close>

definition active_uses :: "db \<Rightarrow> string \<Rightarrow> nat" where
  "active_uses db i = sql_changes (\<lambda>r. cr_coupon r = i \<and> redemption_active r) (redemptions db)"

definition within_limit :: "coupon_use_row \<Rightarrow> bool" where
  "within_limit c \<longleftrightarrow> (case cu_usage_limit c of None \<Rightarrow> True | Some l \<Rightarrow> cu_used c \<le> l)"

definition coupons_in_step :: "db \<Rightarrow> bool" where
  "coupons_in_step db \<longleftrightarrow> distinct (map cu_id (coupon_uses db)) \<and> distinct (map cr_order (redemptions db))
     \<and> list_all (\<lambda>c. cu_used c = active_uses db (cu_id c) \<and> within_limit c) (coupon_uses db)"

lemma coupons_in_step_tables:
  "coupon_uses d' = coupon_uses d \<Longrightarrow> redemptions d' = redemptions d \<Longrightarrow> coupons_in_step d' = coupons_in_step d"
  by (simp add: coupons_in_step_def active_uses_def)

lemma leaves_in_step: "leaves coupon_uses s \<Longrightarrow> leaves redemptions s \<Longrightarrow> stmt_keeps coupons_in_step s"
  unfolding leaves_def stmt_keeps_def using coupons_in_step_tables by blast

text \<open>A redemption that is given back, with its use.\<close>

definition give_use :: "coupon_use_row \<Rightarrow> coupon_use_row" where
  "give_use c = c \<lparr> cu_used := cu_used c - 1 \<rparr>"

definition set_released :: "redemption_row \<Rightarrow> redemption_row" where
  "set_released r = r \<lparr> cr_status := Redemption_Released \<rparr>"

definition reserved_for :: "string \<Rightarrow> redemption_row \<Rightarrow> bool" where
  "reserved_for i r \<longleftrightarrow> cr_order r = i \<and> cr_status r = Redemption_Reserved"

lemma sql_changes_one:
  assumes "distinct (map k t)" and "x \<in> set t" and "\<And>y. y \<in> set t \<Longrightarrow> P y \<longleftrightarrow> k y = k x"
  shows "sql_changes P t = 1"
proof -
  have "sql_changes P t = sql_changes (\<lambda>y. k y \<in> set [k x]) t" by (rule sql_changes_cong) (use assms(3) in simp)
  also have "\<dots> = length [k x]" by (rule sql_changes_keys [OF assms(1)]) (use assms(2) in auto)
  finally show ?thesis by simp
qed

lemma used_given_back:
  assumes s: "coupons_in_step d" and r: "r \<in> set (redemptions d)" "reserved_for i r"
    and u: "coupon_uses d' = sql_update (\<lambda>c. cu_id c = cr_coupon r) give_use (coupon_uses d)"
    and v: "redemptions d' = sql_update (reserved_for i) set_released (redemptions d)"
  shows "coupons_in_step d'"
proof -
  have di: "distinct (map cr_order (redemptions d))" using s by (simp add: coupons_in_step_def)
  have only: "y = r" if "y \<in> set (redemptions d)" "reserved_for i y" for y
    using that r di by (metis keyed_first option.inject reserved_for_def)
  have a: "active_uses d' j = sql_changes (\<lambda>y. (cr_coupon y = j \<and> redemption_active y) \<and> \<not> reserved_for i y) (redemptions d)" for j
    unfolding active_uses_def v sql_changes_update
    by (rule sql_changes_cong) (auto simp: set_released_def redemption_active_def)
  have h: "sql_changes (\<lambda>y. (cr_coupon y = j \<and> redemption_active y) \<and> reserved_for i y) (redemptions d)
      = (if j = cr_coupon r then 1 else 0)" for j
  proof (cases "j = cr_coupon r")
    case True
    have "sql_changes (\<lambda>y. (cr_coupon y = j \<and> redemption_active y) \<and> reserved_for i y) (redemptions d) = 1"
    proof (rule sql_changes_one [OF di r(1)])
      fix y assume y: "y \<in> set (redemptions d)"
      show "((cr_coupon y = j \<and> redemption_active y) \<and> reserved_for i y) \<longleftrightarrow> cr_order y = cr_order r"
      proof
        assume "cr_order y = cr_order r"
        then have "y = r" using di y r(1) by (metis keyed_first option.inject)
        with r True show "(cr_coupon y = j \<and> redemption_active y) \<and> reserved_for i y"
          by (simp add: reserved_for_def redemption_active_def)
      qed (use r in \<open>auto simp: reserved_for_def\<close>)
    qed
    with True show ?thesis by simp
  next
    case False
    with only show ?thesis by (auto simp: sql_changes_zero)
  qed
  have act: "active_uses d j = active_uses d' j + (if j = cr_coupon r then 1 else 0)" for j
    unfolding a unfolding active_uses_def
    using sql_changes_split [of "\<lambda>y. cr_coupon y = j \<and> redemption_active y" "redemptions d" "reserved_for i"] h [of j] by simp
  have "distinct (map cu_id (coupon_uses d'))"
    using s unfolding u by (subst sql_update_cong_key) (simp_all add: give_use_def coupons_in_step_def)
  moreover have "distinct (map cr_order (redemptions d'))"
    using di unfolding v by (subst sql_update_cong_key) (simp_all add: set_released_def)
  moreover have "cu_used c = active_uses d' (cu_id c) \<and> within_limit c" if "c \<in> set (coupon_uses d')" for c
  proof -
    from that u obtain e where e: "e \<in> set (coupon_uses d)" "c = (if cu_id e = cr_coupon r then give_use e else e)"
      by (auto simp: sql_update_def)
    with s have "cu_used e = active_uses d (cu_id e)" "within_limit e" by (auto simp: coupons_in_step_def list_all_iff)
    with e(2) act [of "cu_id e"] show ?thesis by (auto simp: give_use_def within_limit_def split: option.splits)
  qed
  ultimately show ?thesis by (simp add: coupons_in_step_def list_all_iff)
qed

text \<open>The redemption of a coupon that does not exist any more is let go without a use.\<close>

lemma in_step_none:
  assumes "coupons_in_step d" and "sql_first (reserved_for i) (redemptions d) = None"
  shows "sql_update (\<lambda>r. reserved_for i r \<and> Q r) f (redemptions d) = redemptions d"
  using assms(2) by (auto simp: sql_first_None intro: sql_update_none)

section \<open>The trigger\<close>

lemma coupon_release_in_step:
  assumes "coupons_in_step d"
  shows "coupons_in_step (coupon_release old new d)"
proof (cases "o_status old = Pending_Payment \<and> o_status new \<in> {Cancelled, Expired}")
  case False
  then have "coupon_release old new d = d" by (auto simp: coupon_release_def)
  with assms show ?thesis by simp
next
  case True
  let ?i = "o_id new" and ?e = "coupon_release old new d"
  let ?promo = "\<lambda>i. sql_exists (\<lambda>u. cu_id u = i \<and> cu_purpose u \<noteq> Standard) (coupon_uses d)"
  have e: "coupon_uses ?e = sql_update (\<lambda>u. cu_purpose u \<noteq> Standard
        \<and> sql_exists (\<lambda>c. reserved_for ?i c \<and> cr_coupon c = cu_id u) (redemptions d)) give_use (coupon_uses d)"
    "redemptions ?e = sql_update (\<lambda>c. reserved_for ?i c \<and> ?promo (cr_coupon c)) set_released (redemptions d)"
    using True by (simp_all add: coupon_release_def Let_def reserved_for_def give_use_def set_released_def
        give_use_def [abs_def] set_released_def [abs_def])
  have dc: "distinct (map cu_id (coupon_uses d))" and dr: "distinct (map cr_order (redemptions d))"
    using assms by (simp_all add: coupons_in_step_def)
  show ?thesis
  proof (cases "sql_first (reserved_for ?i) (redemptions d)")
    case None
    then have "coupon_uses ?e = coupon_uses d" "redemptions ?e = redemptions d"
      unfolding e using in_step_none [OF assms None] by (auto simp: sql_first_None sql_exists_def list_ex_iff intro!: sql_update_none)
    with assms coupons_in_step_tables show ?thesis by blast
  next
    case (Some r)
    note r = sql_first_Some [OF Some]
    have only: "y = r" if "y \<in> set (redemptions d)" "reserved_for ?i y" for y
      using that r dr by (metis keyed_first option.inject reserved_for_def)
    have mine: "sql_exists (\<lambda>c. reserved_for ?i c \<and> cr_coupon c = j) (redemptions d) \<longleftrightarrow> j = cr_coupon r" for j
      using only r by (auto simp: sql_exists_def list_ex_iff)
    show ?thesis
    proof (cases "?promo (cr_coupon r)")
      case True
      then obtain c where c: "c \<in> set (coupon_uses d)" "cu_id c = cr_coupon r" "cu_purpose c \<noteq> Standard"
        by (auto simp: sql_exists_def list_ex_iff)
      have "cu_purpose u \<noteq> Standard" if "u \<in> set (coupon_uses d)" "cu_id u = cr_coupon r" for u
        using that c dc by (metis keyed_first option.inject)
      then have "coupon_uses ?e = sql_update (\<lambda>c. cu_id c = cr_coupon r) give_use (coupon_uses d)"
        unfolding e mine sql_update_def by (intro map_cong) auto
      moreover have "redemptions ?e = sql_update (reserved_for ?i) set_released (redemptions d)"
        unfolding e sql_update_def by (intro map_cong) (use only True in auto)
      ultimately show ?thesis using used_given_back [OF assms] r by blast
    next
      case False
      then have "coupon_uses ?e = coupon_uses d" "redemptions ?e = redemptions d"
        unfolding e mine by (auto simp: sql_exists_def list_ex_iff intro!: sql_update_none dest!: only)
      with assms coupons_in_step_tables show ?thesis by blast
    qed
  qed
qed

section \<open>Statements\<close>

text \<open>Ledgers and holds know nothing of coupons.\<close>

lemma ledger_coupons:
  "post_cash d uid a src sid key now db = Inr db' \<Longrightarrow> coupon_uses db' = coupon_uses db"
  "shift_user uid c r k now db = Inr db' \<Longrightarrow> coupon_uses db' = coupon_uses db"
  "post_reward uid delta kind sid key db = Inr db' \<Longrightarrow> coupon_uses db' = coupon_uses db"
  by (auto simp: post_cash_def insert_wallet_entry_def shift_user_def post_reward_def insert_reward_entry_def
      split: option.splits if_splits)

lemma settle_hold_coupons:
  assumes "settle_hold i st now db = Inr db'" and "st \<noteq> Held"
  shows "coupon_uses db' = coupon_uses db" and "redemptions db' = redemptions db"
proof -
  have "coupon_uses d' = coupon_uses d" if "hold_release h d = Inr d'" for h d d'
    using that unfolding hold_release_def and_then_Inr by (auto dest!: ledger_coupons split: if_splits)
  then show "coupon_uses db' = coupon_uses db"
    using assms(1) by (fastforce simp: settle_hold_def Let_def split: option.splits if_splits)
  show "redemptions db' = redemptions db" by (rule settle_hold_fewer(2) [OF assms])
qed

lemma order_lifecycle_coupons:
  assumes "order_lifecycle new db = Inr d"
  shows "coupon_uses d = coupon_uses db \<and> redemptions d = redemptions db"
proof -
  from assms obtain d1 d2 where s: "lifecycle_hold new db = Inr d1" "lifecycle_reward new d1 = Inr d2" "d = lifecycle_schedule new d2"
    unfolding order_lifecycle_def and_then_Inr by auto
  have "coupon_uses d1 = coupon_uses db \<and> redemptions d1 = redemptions db"
    using s(1) settle_hold_coupons by (fastforce simp: lifecycle_hold_def split: if_splits)
  moreover have "coupon_uses d2 = coupon_uses d1 \<and> redemptions d2 = redemptions d1"
    using s(2) by (auto simp: lifecycle_reward_def split: if_splits option.splits)
  ultimately show ?thesis by (simp add: s(3) lifecycle_schedule_def)
qed

named_theorems in_step "statements that keep the counters of coupons in step"

lemma update_order_in_step [in_step]: "stmt_keeps coupons_in_step (update_order i P f)"
proof (rule stmt_keepsI)
  fix n db db' c assume k: "coupons_in_step db" and u: "update_order i P f n db = Inr (db', c)"
  show "coupons_in_step db'"
  proof (cases "sql_first (\<lambda>x. o_id x = i \<and> P db x) (shop_orders db)")
    case None
    with u k show ?thesis by (simp add: update_order_def)
  next
    case (Some old)
    with u obtain d where d: "order_lifecycle (f old) (db \<lparr> shop_orders := sql_update (\<lambda>x. o_id x = i \<and> P db x) f (shop_orders db) \<rparr>) = Inr d"
      "db' = coupon_release old (f old) d" by (auto simp: update_order_def Let_def and_then_Inr)
    have "coupons_in_step d" using k order_lifecycle_coupons [OF d(1)] coupons_in_step_tables [of d db] by simp
    with coupon_release_in_step show ?thesis by (simp add: d(2))
  qed
qed

lemma update_attempt_in_step [in_step]: "stmt_keeps coupons_in_step (update_attempt i P f)"
proof (rule stmt_keepsI)
  fix n db db' c assume k: "coupons_in_step db" and u: "update_attempt i P f n db = Inr (db', c)"
  show "coupons_in_step db'"
  proof (cases "sql_first (\<lambda>a. pa_id a = i \<and> P a) (attempts db)")
    case None
    with u k show ?thesis by (simp add: update_attempt_def)
  next
    case (Some old)
    let ?d = "db \<lparr> attempts := sql_update (\<lambda>a. pa_id a = i \<and> P a) f (attempts db) \<rparr>"
    from u Some have a: "attempt_failed_release old (f old) ?d = Inr db'"
      by (auto simp: update_attempt_def and_then_Inr)
    have kd: "coupons_in_step ?d" using k coupons_in_step_tables [of ?d db] by simp
    have "coupons_in_step e" if "settle_hold j Released now ?d = Inr e" for j now e
      using settle_hold_coupons [OF that] kd coupons_in_step_tables [of e ?d] by simp
    with a kd update_order_in_step show ?thesis
      by (fastforce simp: attempt_failed_release_def and_then_Inr stmt_keeps_def split: if_splits option.splits)
  qed
qed

lemma log_in_step [in_step]:
  "stmt_keeps coupons_in_step (event_when c e)" "stmt_keeps coupons_in_step (outbox_when c ignore b)"
  "stmt_keeps coupons_in_step (audit_when c action target)" "stmt_keeps coupons_in_step (release_sale i)"
  "stmt_keeps coupons_in_step (unallocated_payment i)"
  by (rule leaves_in_step; rule leaves; simp)+

section \<open>Handlers\<close>

lemma run_batch_in_step:
  "\<forall>s\<in>set ss. stmt_keeps coupons_in_step s \<Longrightarrow> coupons_in_step db \<Longrightarrow> run_batch ss db = Inr (db', cs) \<Longrightarrow> coupons_in_step db'"
  unfolding run_batch_def by (rule batch_from_keeps)

lemma transition_in_step:
  assumes "coupons_in_step (env db)" and "coupons_in_step db"
  shows "coupons_in_step (snd (transition_order env now i v dst db))"
proof -
  have "\<forall>s\<in>set (transition_statements i src v dst now). stmt_keeps coupons_in_step s" for src
    by (simp add: transition_statements_def Let_def in_step)
  then have "coupons_in_step d" if "run_batch (transition_statements i src v dst now) (env db) = Inr (d, cs)" for src d cs
    using run_batch_in_step [OF _ assms(1) that] by blast
  with assms show ?thesis
    by (auto simp: transition_order_def Let_def split: option.splits sum.splits prod.splits)
qed

text \<open>The pass gives the use back and then lets the redemption go.\<close>

lemma expire_each_in_step: "expire_each i now as db = Inr db' \<Longrightarrow> coupons_in_step db \<Longrightarrow> coupons_in_step db'"
proof (induction "as" arbitrary: db)
  case (Cons a as)
  from Cons.prems(1) obtain d c where u: "update_attempt (pa_id a) (open_attempt_of i) (set_attempt_expired now) 0 db = Inr (d, c)"
    "expire_each i now as d = Inr db'" by (auto simp: and_then_Inr)
  have "coupons_in_step d" using update_attempt_in_step u(1) Cons.prems(2) unfolding stmt_keeps_def by blast
  with Cons.IH [OF u(2)] show ?case .
qed simp

lemma given_back_in_step:
  assumes "give_back_use i v n d = Inr (d1, c)" and "release_redemption i v m d1 = Inr (d2, c')" and "coupons_in_step d"
  shows "coupons_in_step d2"
proof (cases "order_is i Expired v d")
  case False
  then have "d1 = d" using give_back_Inr [OF assms(1)] by auto
  moreover have "redemptions d2 = redemptions d1" "coupon_uses d2 = coupon_uses d1"
    using assms(2) False \<open>d1 = d\<close> by (auto simp: release_redemption_def Let_def sql_update_none)
  ultimately show ?thesis using assms(3) coupons_in_step_tables [of d2 d] by simp
next
  case True
  have x: "order_is i Expired v d1" using True assms(1) by (auto simp: give_back_use_def order_is_def Let_def)
  have v: "redemptions d2 = sql_update (reserved_for i) set_released (redemptions d)" "coupon_uses d2 = coupon_uses d1"
    using assms(1,2) x by (auto simp: give_back_use_def release_redemption_def Let_def reserved_for_def [abs_def] set_released_def [abs_def])
  have m: "reserved_for i = (\<lambda>r. cr_order r = i \<and> cr_status r = Redemption_Reserved)" by (simp add: reserved_for_def fun_eq_iff)
  show ?thesis
  proof (cases "sql_first (reserved_for i) (redemptions d)")
    case None
    then have "coupon_uses d1 = coupon_uses d" using assms(1) unfolding m by (auto simp: give_back_use_def Let_def sql_update_none)
    moreover have "redemptions d2 = redemptions d" using None unfolding v by (auto simp: sql_first_None intro!: sql_update_none)
    ultimately show ?thesis using assms(3) v(2) coupons_in_step_tables [of d2 d] by simp
  next
    case (Some r)
    then have "coupon_uses d2 = sql_update (\<lambda>c. cu_id c = cr_coupon r) give_use (coupon_uses d)"
      using assms(1) True v(2) unfolding m by (auto simp: give_back_use_def Let_def give_use_def [abs_def])
    from used_given_back [OF assms(3) _ _ this v(1)] sql_first_Some [OF Some] show ?thesis by blast
  qed
qed

lemma expiry_batch_in_step:
  assumes "run_batch (expiry_statements now i v) db = Inr (db', cs)" and "coupons_in_step db"
  shows "coupons_in_step db'"
proof -
  obtain d1 c1 d2 c2 d3 c3 d4 c4 d5 c5 c6 where
    s: "update_order i (\<lambda>_ x. due_order now x \<and> o_version x = v) (set_expired now) 0 db = Inr (d1, c1)"
    "give_back_use i (Suc v) c1 d1 = Inr (d2, c2)" "release_redemption i (Suc v) c2 d2 = Inr (d3, c3)"
    "expire_attempts i (Suc v) now c3 d3 = Inr (d4, c4)"
    "event_unless_taken (order_is i Expired (Suc v)) (expired_event i (Suc v)) c4 d4 = Inr (d5, c5)"
    "release_sale i c5 d5 = Inr (db', c6)" "cs ! 0 = c1"
    by (rule expiry_steps [OF assms(1)]) (rule that)
  have "coupons_in_step d1" using update_order_in_step s(1) assms(2) unfolding stmt_keeps_def by blast
  then have "coupons_in_step d3" by (rule given_back_in_step [OF s(2,3)])
  then have "coupons_in_step d4" using s(4) by (auto simp: expire_attempts_def Let_def and_then_Inr intro: expire_each_in_step)
  moreover have "coupon_uses d5 = coupon_uses d4 \<and> redemptions d5 = redemptions d4"
    using event_unless_Inr [OF s(5)] by auto
  ultimately have "coupons_in_step d5" using coupons_in_step_tables [of d5 d4] by simp
  then show ?thesis using log_in_step(4) s(6) unfolding stmt_keeps_def by blast
qed

lemma expire_in_step:
  assumes env: "\<And>k d. coupons_in_step d \<Longrightarrow> coupons_in_step (env k d)" and k: "coupons_in_step db"
  shows "coupons_in_step (snd (expire_store_orders env now limit db))"
proof -
  have "coupons_in_step (snd (expire_loop env now os n d))" if "coupons_in_step d" for os n d
    using that
  proof (induction os arbitrary: n d)
    case (Cons p os)
    obtain i v where p: "p = (i, v)" by fastforce
    have e: "coupons_in_step (env (length os) d)" using env Cons.prems by blast
    show ?case using e Cons.IH expiry_batch_in_step [OF _ e] by (simp add: p Let_def split: sum.split prod.split)
  qed simp
  from this [OF k, of "due_orders now (pass_limit limit) db" 0] show ?thesis
    by (auto simp: expire_store_orders_def Let_def split: prod.splits sum.splits)
qed

text \<open>The checkout claims a use and records its redemption.\<close>

lemma place_in_step:
  assumes b: "run_batch (place_statements sh ca ids x upgrade agent lines coupon m p w) d = Inr (db', cs)"
    and fresh: "find_order d (o_id x) = None" and ne: "lines \<noteq> []" and k: "coupons_in_step d"
  shows "coupons_in_step db'"
proof -
  from place_parts [OF b] obtain d1 d2 d3 n1 n2 n3 c1 c2 c3 c4 where s:
    "batch_from 0 (order_statements x coupon) d = Inr (d1, c1)"
    "batch_from n1 (concat (map (line_statements sh (o_id x) upgrade agent) lines)) d1 = Inr (d2, c2)"
    "batch_from n2 (log_statements ca ids x) d2 = Inr (d3, c3)"
    "batch_from n3 (coupon_statements ids x coupon m p w) d3 = Inr (db', c4)" .
  have u: "coupon_uses d2 = coupon_uses d1" "coupon_uses d3 = coupon_uses d2" "coupon_uses db' = coupon_uses d3"
    by (rule leaves_batch [OF s(2) line_statements_leave] leaves_batch [OF s(3) log_statements_leave]
          leaves_batch [OF s(4) coupon_statements_leave]; simp)+
  have r: "redemptions d1 = redemptions d" "redemptions d2 = redemptions d1" "redemptions d3 = redemptions d2"
    by (rule leaves_batch [OF s(1) order_statements_leave] leaves_batch [OF s(2) line_statements_leave]
          leaves_batch [OF s(3) log_statements_leave]; simp)+
  have f: "find_order d1 (o_id x) \<noteq> None" using lines_Inr [OF s(2)] ne by blast
  note part = order_part(5,6) [OF s(1) fresh f]
  show ?thesis
  proof (cases coupon)
    case None
    then show ?thesis using part(1) coupon_part(3) [OF s(4)] u r k coupons_in_step_tables [of db' d] by simp
  next
    case (Some c)
    let ?row = "\<lparr> cr_id = id_redemption ids, cr_coupon = cu_id c, cr_order = o_id x, cr_user = o_user x, cr_email = m,
        cr_status = Redemption_Reserved \<rparr>"
    note claimed = part(2) [OF Some]
    from coupon_part(4) [OF s(4) Some] obtain j e where i: "insert_redemption ?row (o_created_at x) n3 d3 = Inr (e, j)"
      "redemptions db' = redemptions e" by blast
    then have rd: "redemptions db' = redemptions d @ [?row]" and new: "\<forall>q\<in>set (redemptions d). cr_order q \<noteq> o_id x"
      using r by (auto simp: insert_redemption_def sql_exists_def list_ex_iff split: option.splits if_splits)
    have ud: "coupon_uses db' = sql_update (claimable (cu_id c) (cu_used c)) count_use (coupon_uses d)" using claimed u by simp
    have act: "active_uses db' i = active_uses d i + (if i = cu_id c then 1 else 0)" for i
      by (simp add: active_uses_def rd sql_changes_def redemption_active_def)
    have dist: "distinct (map cu_id (coupon_uses d))" using k by (simp add: coupons_in_step_def)
    from claimed obtain c0 where c0: "c0 \<in> set (coupon_uses d)" "claimable (cu_id c) (cu_used c) c0"
      using sql_changes_zero [of "claimable (cu_id c) (cu_used c)" "coupon_uses d"] by auto
    have "cu_used q = active_uses db' (cu_id q) \<and> within_limit q" if "q \<in> set (coupon_uses db')" for q
    proof -
      from that ud obtain q0 where q: "q0 \<in> set (coupon_uses d)"
        "q = (if claimable (cu_id c) (cu_used c) q0 then count_use q0 else q0)" by (auto simp: sql_update_def)
      have old: "cu_used q0 = active_uses d (cu_id q0)" "within_limit q0"
        using k q(1) by (auto simp: coupons_in_step_def list_all_iff)
      show ?thesis
      proof (cases "cu_id q0 = cu_id c")
        case True
        with c0 q(1) dist have "q0 = c0" by (metis keyed_first option.inject claimable_def)
        with c0 q(2) old act [of "cu_id q0"] show ?thesis
          by (auto simp: claimable_def count_use_def within_limit_def under_limit_def split: option.splits)
      next
        case False
        with q(2) old act [of "cu_id q0"] show ?thesis by (simp add: claimable_def)
      qed
    qed
    moreover have "distinct (map cu_id (coupon_uses db'))"
      using dist unfolding ud by (subst sql_update_cong_key) (simp_all add: count_use_def)
    moreover have "distinct (map cr_order (redemptions db'))"
      using k new by (auto simp: rd coupons_in_step_def)
    ultimately show ?thesis by (simp add: coupons_in_step_def list_all_iff)
  qed
qed

lemma checkout_in_step:
  assumes env: "\<And>d. coupons_in_step d \<Longrightarrow> coupons_in_step (env d)" and k: "coupons_in_step db"
    and fresh: "find_order (met env sh ca vi db) (id_order ids) = None"
  shows "coupons_in_step (snd (snd (create_order env collate sh ids now ca vi (t, db))))"
proof -
  obtain r t' db' where o: "create_order env collate sh ids now ca vi (t, db) = (r, t', db')" using prod_cases3 by blast
  have p: "coupons_in_step (snd (prepare_agent_checkout sh ca (vi_user vi) db))"
    using k coupons_in_step_tables [of "snd (prepare_agent_checkout sh ca (vi_user vi) db)" db] by (simp add: prepare_agent_leaves)
  then have m: "coupons_in_step (met env sh ca vi db)" unfolding met_def by (rule env)
  from o have "coupons_in_step db'"
  proof (cases rule: create_order_ends)
    case (4 x upgrade agent lines coupon m p w cs)
    show ?thesis by (rule place_in_step [OF 4(1) _ 4(3)]) (use fresh m 4(2) in simp_all)
  qed (use k p m in auto)
  then show ?thesis by (simp add: o)
qed

section \<open>Runs\<close>

text \<open>
  Checkouts, transitions and passes of the expiry in any order, each with runs between its reads
  and its batch, beside handlers that leave coupons alone. The id of a new order is new.
\<close>

inductive coupon_run :: "db \<Rightarrow> db \<Rightarrow> bool" where
  idle: "coupon_run db db"
| andthen: "coupon_run db d \<Longrightarrow> coupon_run d d' \<Longrightarrow> coupon_run db d'"
| elsewhere: "coupon_uses db' = coupon_uses db \<Longrightarrow> redemptions db' = redemptions db \<Longrightarrow> coupon_run db db'"
| checkout: "\<forall>d. coupon_run d (env d) \<Longrightarrow> find_order (met env sh ca vi db) (id_order ids) = None
    \<Longrightarrow> coupon_run db (snd (snd (create_order env (collate :: string \<Rightarrow> nat) sh ids now ca vi (t, db))))"
| transition: "\<forall>d. coupon_run d (env d) \<Longrightarrow> coupon_run db (snd (transition_order env now i v dst db))"
| expire: "\<forall>k d. coupon_run d (env k d) \<Longrightarrow> coupon_run db (snd (expire_store_orders env now limit db))"

text \<open>
  C7. However checkouts, transitions and passes of the expiry run and cross each other, the
  counter of every coupon is the number of redemptions that hold or have used it and stays
  within its limit: no use is lost, given back twice or claimed beyond the limit.
\<close>

lemma coupon_counters_in_step:
  assumes "coupon_run db db'" and "coupons_in_step db"
  shows "coupons_in_step db'"
  using assms
proof (induction rule: coupon_run.induct)
  case (elsewhere db' db)
  then show ?case using coupons_in_step_tables by blast
next
  case (checkout env sh ca vi db ids collate now t)
  then show ?case by (intro checkout_in_step) auto
next
  case (transition env db now i v dst)
  then show ?case by (intro transition_in_step) auto
next
  case (expire env db now limit)
  then show ?case by (intro expire_in_step) auto
qed simp_all

text \<open>Two checkouts reach for the last use of a coupon.\<close>

definition other_checkout :: "db \<Rightarrow> db" where
  "other_checkout d = (if find_order d ''j-order'' = None then snd (sample_checkout id ''j'' ''CODE'' d) else d)"

lemma coupon_run_sample:
  assumes "\<forall>d. coupon_run d (env d)" and "find_order (env db) (p @ ''-order'') = None"
  shows "coupon_run db (snd (sample_checkout env p coupon db))"
proof -
  have "coupon_run db (snd (snd (create_order env (length :: string \<Rightarrow> nat) sample_shelf (sample_ids p) 1000
      (sample_cart p coupon) sample_visitor ([], db))))"
    by (rule coupon_run.checkout) (use assms in \<open>simp_all add: sample_met sample_ids_def\<close>)
  then show ?thesis by (simp add: sample_checkout_def case_prod_unfold)
qed

lemma coupon_counters_in_step_witness:
  "coupons_in_step (snd (sample_checkout other_checkout ''k'' ''CODE'' sample_stocked))
   \<and> fst (sample_checkout other_checkout ''k'' ''CODE'' sample_stocked) = Inl (DomainError ''coupon_unavailable'' 409)"
proof
  have e: "coupon_run d (other_checkout d)" for d
    by (auto simp: other_checkout_def intro!: coupon_run.idle coupon_run_sample)
  have "find_order (other_checkout sample_stocked) (''k'' @ ''-order'') = None" by code_simp
  with e have "coupon_run sample_stocked (snd (sample_checkout other_checkout ''k'' ''CODE'' sample_stocked))"
    by (intro coupon_run_sample) auto
  moreover have "coupons_in_step sample_stocked" by code_simp
  ultimately show "coupons_in_step (snd (sample_checkout other_checkout ''k'' ''CODE'' sample_stocked))"
    by (rule coupon_counters_in_step)
  show "fst (sample_checkout other_checkout ''k'' ''CODE'' sample_stocked) = Inl (DomainError ''coupon_unavailable'' 409)"
    by code_simp
qed

section \<open>A coupon that is not given back\<close>

lemma cancelled_order_keeps_coupon:
  "map cu_used (coupon_uses (snd (expire_store_orders (\<lambda>k d. d) 901000 10 (snd (sample_checkout id ''k'' ''CODE'' sample_stocked))))) = [0]
   \<and> (case transition_order (\<lambda>d. d) 2000 ''k-order'' 1 Cancelled (snd (sample_checkout id ''k'' ''CODE'' sample_stocked)) of
        (r, db) \<Rightarrow> r = Inr (Pending_Payment, 2) \<and> map cu_used (coupon_uses db) = [1]
          \<and> map cr_status (redemptions db) = [Redemption_Reserved]
          \<and> fst (sample_checkout id ''l'' ''CODE'' db) = Inl (DomainError ''coupon_unavailable'' 409)
          \<and> map cu_used (coupon_uses (snd (expire_store_orders (\<lambda>k d. d) 901000 10 db))) = [1])"
  by (intro conjI; code_simp)

end
