(* ===== verification/Supplier_Orders.thy ===== *)
theory Supplier_Orders
  imports Delivery_Books Rate_Limits Money
begin

text \<open>
  Orders at suppliers (\<^verbatim>\<open>src/features/suppliers/server/process.ts\<close>, the actions of
  \<^verbatim>\<open>orders-admin.ts\<close>) under the locks of tracked tasks
  (\<^verbatim>\<open>operations/server/task-runs.ts\<close>). An order tries the accounts of its supplier one after
  another, is claimed for an account before it is bought there, and stays with the account as
  soon as the purchase may have gone through; the cards that arrive become reserved stock of the
  item and ask for its delivery.
\<close>

section \<open>Tracked tasks\<close>

text \<open>A run holds its task for thirty minutes, or until it ends; the state \<open>'s\<close> is passed through.\<close>

definition task_lease_ms :: int where
  "task_lease_ms = 1800000"

definition task_running :: "string \<Rightarrow> int \<Rightarrow> task_row \<Rightarrow> bool" where
  "task_running task now r \<longleftrightarrow> tk_task r = task \<and> tk_status r = Task_Running \<and> now - task_lease_ms < tk_started_at r"

definition expire_tasks :: "string \<Rightarrow> int \<Rightarrow> task_row list \<Rightarrow> task_row list" where
  "expire_tasks task now =
     sql_update (\<lambda>r. tk_task r = task \<and> tk_status r = Task_Running \<and> tk_started_at r \<le> now - task_lease_ms)
       (\<lambda>r. r \<lparr> tk_status := Task_Failed, tk_error := Some ''lease_expired'' \<rparr>)"

definition start_task :: "string \<Rightarrow> string \<Rightarrow> int \<Rightarrow> db \<Rightarrow> bool \<times> db" where
  "start_task run_id task now db =
     (let t = expire_tasks task now (task_runs db)
      in if sql_exists (task_running task now) t then (False, db \<lparr> task_runs := t \<rparr>)
         else (True, db \<lparr> task_runs := t @ [\<lparr> tk_id = run_id, tk_task = task, tk_status = Task_Running, tk_started_at = now,
                  tk_error = None \<rparr>] \<rparr>))"

definition end_task :: "string \<Rightarrow> 'a result \<Rightarrow> db \<Rightarrow> db" where
  "end_task run_id r db =
     db \<lparr> task_runs := sql_update (\<lambda>t. tk_id t = run_id \<and> tk_status t = Task_Running)
       (case r of
          Inl e \<Rightarrow> (\<lambda>t. t \<lparr> tk_status := Task_Failed, tk_error := Some (failure_name ''task_failed'' e) \<rparr>)
        | Inr _ \<Rightarrow> (\<lambda>t. t \<lparr> tk_status := Task_Succeeded \<rparr>)) (task_runs db) \<rparr>"

datatype 'a tracked = Task_Busy | Task_Ran "'a result"

definition run_tracked_task ::
  "string \<Rightarrow> string \<Rightarrow> int \<Rightarrow> ('s \<times> db \<Rightarrow> 'a result \<times> 's \<times> db) \<Rightarrow> 's \<times> db \<Rightarrow> 'a tracked \<times> 's \<times> db" where
  "run_tracked_task run_id task now act c =
     (case start_task run_id task now (snd c) of
        (False, db) \<Rightarrow> (Task_Busy, fst c, db)
      | (True, db) \<Rightarrow> (case act (fst c, db) of (r, s, db) \<Rightarrow> (Task_Ran r, s, end_task run_id r db)))"

section \<open>What a supplier is asked\<close>

datatype purchase = Supplied string "string list" | Processing string | Rejected string | Unclear "string option" string

record offer =
  of_cost :: string
  of_stock :: int
  of_active :: bool

text \<open>
  The clients of the suppliers, the ciphers and digests and the text of a card are functions.
  \<open>pt_submit\<close> buys for an order under a request number; \<open>pt_reconcile\<close> only asks what became of it.
\<close>

record supplier_port =
  pt_secret :: bool
  pt_adapter :: "account_row \<Rightarrow> nat \<Rightarrow> unit result"
  pt_balance :: "account_row \<Rightarrow> int result"
  pt_offer :: "account_row \<Rightarrow> binding_row \<Rightarrow> offer result"
  pt_submit :: "account_row \<Rightarrow> supply_row \<Rightarrow> string \<Rightarrow> purchase result"
  pt_reconcile :: "account_row \<Rightarrow> supply_row \<Rightarrow> purchase result"
  pt_source :: "binding_row \<Rightarrow> string"
  pt_sha :: "string \<Rightarrow> string"
  pt_stock_id :: "string \<Rightarrow> nat \<Rightarrow> string"
  pt_content :: "string \<Rightarrow> string \<Rightarrow> string"
  pt_seal :: "string \<Rightarrow> string"
  pt_fingerprint :: "string \<Rightarrow> string"

record supply_reply =
  sy_state :: supply_state
  sy_duplicate :: bool

definition provider_request_number :: "(string \<Rightarrow> string) \<Rightarrow> string \<Rightarrow> string \<Rightarrow> string \<Rightarrow> string" where
  "provider_request_number sha provider order account =
     (let digest = sha (provider @ CHR 0x0A # order @ CHR 0x0A # account)
      in if provider = ''acg'' then take 24 digest
         else if provider = ''shared_stock'' then take 10 digest else ''gm_'' @ take 40 digest)"

definition parse_binding :: "binding_row option \<Rightarrow> binding_row result" where
  "parse_binding b =
     (case b of
        None \<Rightarrow> Inl (DomainError ''supplier_binding_snapshot_invalid'' 500)
      | Some b \<Rightarrow>
          (if bd_provider b \<notin> {''acg'', ''dujiao_next'', ''gmshop_edge'', ''shared_stock''} \<or> bd_origin b = [] \<or> bd_protocol b = []
              \<or> bd_product b = [] \<or> bd_sku b = [] \<or> bd_max_cost b = None
           then Inl (DomainError ''supplier_binding_snapshot_invalid'' 500) else Inr b))"

section \<open>Candidates\<close>

definition find_supply :: "db \<Rightarrow> string \<Rightarrow> supply_row option" where
  "find_supply db i = sql_first (\<lambda>s. so_id s = i) (supplies db)"

definition find_account :: "db \<Rightarrow> string \<Rightarrow> account_row option" where
  "find_account db i = sql_first (\<lambda>a. ac_id a = i) (supplier_accounts db)"

definition candidate :: "binding_row \<Rightarrow> int \<Rightarrow> account_row \<Rightarrow> bool" where
  "candidate b now a \<longleftrightarrow> ac_provider a = bd_provider b \<and> ac_origin a = bd_origin b \<and> ac_protocol a = bd_protocol b
     \<and> ac_enabled a \<and> ac_health a \<noteq> Health_Unavailable \<and> (case ac_cooldown a of None \<Rightarrow> True | Some t \<Rightarrow> t \<le> now)"

definition candidate_rank :: "account_row \<Rightarrow> nat \<times> int \<times> nat \<times> int \<times> string" where
  "candidate_rank a = (ac_failures a, (case ac_last_selected a of None \<Rightarrow> 0 | Some t \<Rightarrow> t),
     (case ac_balance a of None \<Rightarrow> (1, 0, ac_id a) | Some m \<Rightarrow> (0, - m, ac_id a)))"

definition candidate_accounts :: "binding_row \<Rightarrow> int \<Rightarrow> db \<Rightarrow> account_row list" where
  "candidate_accounts b now db = take 20 (sql_ordered candidate_rank (candidate b now) (supplier_accounts db))"

text \<open>What the open purchases of an account will cost; \<^verbatim>\<open>BigInt(null)\<close> throws.\<close>

definition commitment :: "string \<Rightarrow> supply_row \<Rightarrow> bool" where
  "commitment account s \<longleftrightarrow> so_account s = Some account \<and> so_state s \<in> {Supply_Submitting, Supply_Uncertain}"

fun add_costs :: "supply_row list \<Rightarrow> int result" where
  "add_costs [] = Inr 0"
| "add_costs (s # ss) = (case so_total_cost s of None \<Rightarrow> Inl TypeError | Some c \<Rightarrow> and_then (add_costs ss) (\<lambda>t. Inr (c + t)))"

definition committed :: "string \<Rightarrow> db \<Rightarrow> int result" where
  "committed account db = add_costs (filter (commitment account) (supplies db))"

definition assert_candidate_budget :: "db \<Rightarrow> account_row \<Rightarrow> int \<Rightarrow> int \<Rightarrow> offer \<Rightarrow> int \<Rightarrow> int \<Rightarrow> unit result" where
  "assert_candidate_budget db a balance total_cost f quantity max_cost =
     and_then (committed (ac_id a) db) (\<lambda>open_cost.
       if \<not> of_active f \<or> of_stock f < quantity \<or> max_cost < int (digits_value (of_cost f))
          \<or> balance - ac_reserve a - open_cost < total_cost
          \<or> (\<exists>m\<in>set_option (ac_max_order a). m < total_cost)
       then Inl (DomainError ''supplier_account_ineligible'' 409) else Inr ())"

section \<open>Writing an order at a supplier\<close>

definition claimable_supply :: "string \<Rightarrow> supply_row \<Rightarrow> bool" where
  "claimable_supply i s \<longleftrightarrow> so_id s = i \<and> so_account s = None \<and> so_state s \<in> {Supply_Pending, Supply_Selecting}"

definition select_account :: "account_row \<Rightarrow> string \<Rightarrow> int \<Rightarrow> int \<Rightarrow> supply_row \<Rightarrow> supply_row" where
  "select_account a request unit_cost total_cost s = s \<lparr> so_unit_cost := Some unit_cost, so_total_cost := Some total_cost,
     so_state := Supply_Submitting, so_account := Some (ac_id a), so_revision := Some (ac_revision a), so_request := Some request,
     so_attempts := so_attempts s + 1, so_selections := so_selections s + 1, so_next_retry_at := None, so_error := None \<rparr>"

text \<open>One statement; a request number of the account that is taken violates the unique index.\<close>

definition claim_purchase :: "string \<Rightarrow> account_row \<Rightarrow> string \<Rightarrow> int \<Rightarrow> int \<Rightarrow> db \<Rightarrow> unit result \<times> db" where
  "claim_purchase i a request unit_cost total_cost db =
     (if sql_exists (claimable_supply i) (supplies db)
         \<and> sql_exists (\<lambda>s. so_id s \<noteq> i \<and> so_account s = Some (ac_id a) \<and> so_request s = Some request) (supplies db)
      then (Inl (DbAbort ''supplier_orders_account_request_uidx''), db)
      else if sql_changes (claimable_supply i) (supplies db) \<noteq> 1
      then (Inl (DomainError ''supplier_order_claim_conflict'' 409), db)
      else (Inr (), db \<lparr> supplies := sql_update (claimable_supply i) (select_account a request unit_cost total_cost) (supplies db) \<rparr>))"

definition use_account :: "string \<Rightarrow> int \<Rightarrow> int \<Rightarrow> db \<Rightarrow> db" where
  "use_account i balance now db =
     db \<lparr> supplier_accounts := sql_update (\<lambda>a. ac_id a = i) (\<lambda>a. a \<lparr> ac_balance := Some balance, ac_health := Health_Healthy,
       ac_failures := 0, ac_last_selected := Some now, ac_error := None \<rparr>) (supplier_accounts db) \<rparr>"

definition purchase_open :: "string \<Rightarrow> supply_row \<Rightarrow> bool" where
  "purchase_open i s \<longleftrightarrow> so_id s = i \<and> so_account s \<noteq> None \<and> so_state s \<in> {Supply_Submitting, Supply_Uncertain}"

definition coalesce :: "'a option \<Rightarrow> 'a option \<Rightarrow> 'a option" where
  "coalesce a b = (case a of None \<Rightarrow> b | Some _ \<Rightarrow> a)"

definition lock_account :: "string option \<Rightarrow> string \<Rightarrow> int \<Rightarrow> supply_row \<Rightarrow> supply_row" where
  "lock_account upstream code now s = s \<lparr> so_state := Supply_Uncertain, so_upstream := coalesce upstream (so_upstream s),
     so_locked_at := coalesce (so_locked_at s) (Some now), so_next_retry_at := Some (now + 15000), so_error := Some code \<rparr>"

definition mark_uncertain :: "int \<Rightarrow> string \<Rightarrow> string \<Rightarrow> string option \<Rightarrow> db \<Rightarrow> db" where
  "mark_uncertain now i code upstream db =
     db \<lparr> supplies := sql_update (purchase_open i) (lock_account upstream code now) (supplies db) \<rparr>"

definition drop_account :: "string \<Rightarrow> supply_row \<Rightarrow> supply_row" where
  "drop_account code s = s \<lparr> so_unit_cost := None, so_total_cost := None, so_state := Supply_Selecting, so_account := None,
     so_revision := None, so_request := None, so_upstream := None, so_locked_at := None, so_error := Some code \<rparr>"

definition release_purchase :: "string \<Rightarrow> string \<Rightarrow> string \<Rightarrow> db stmt" where
  "release_purchase i account code n db =
     (let hit = (\<lambda>s. so_id s = i \<and> so_account s = Some account \<and> so_locked_at s = None)
      in Inr (db \<lparr> supplies := sql_update hit (drop_account code) (supplies db) \<rparr>, sql_changes hit (supplies db)))"

definition degrade_account :: "string \<Rightarrow> string \<Rightarrow> int \<Rightarrow> db stmt" where
  "degrade_account i code now n db =
     Inr (db \<lparr> supplier_accounts := sql_update (\<lambda>a. ac_id a = i) (\<lambda>a. a \<lparr> ac_health := Health_Degraded,
                ac_failures := ac_failures a + 1, ac_cooldown := Some (now + 60000), ac_error := Some code \<rparr>) (supplier_accounts db) \<rparr>,
          sql_changes (\<lambda>a. ac_id a = i) (supplier_accounts db))"

definition release_definitive_failure :: "string \<Rightarrow> string \<Rightarrow> string \<Rightarrow> int \<Rightarrow> db \<Rightarrow> db" where
  "release_definitive_failure i account code now db =
     (case run_batch [release_purchase i account code, degrade_account account code now] db of Inl _ \<Rightarrow> db | Inr (db, _) \<Rightarrow> db)"

section \<open>The cards arrive\<close>

text \<open>\<^verbatim>\<open>[...new Set(cards)]\<close> keeps the first of equal cards.\<close>

definition distinct_cards :: "string list \<Rightarrow> string list" where
  "distinct_cards cards = filter (\<lambda>c. c \<noteq> []) (rev (remdups (rev (map js_trim cards))))"

definition supplied_now :: "string \<Rightarrow> int \<Rightarrow> db \<Rightarrow> bool" where
  "supplied_now i now db = sql_exists (\<lambda>s. so_id s = i \<and> so_state s = Supply_Supplied \<and> so_supplied_at s = Some now) (supplies db)"

definition supply_order :: "string \<Rightarrow> string \<Rightarrow> int \<Rightarrow> db stmt" where
  "supply_order i upstream now n db =
     (let hit = (\<lambda>s. so_id s = i \<and> so_state s \<in> {Supply_Submitting, Supply_Uncertain})
      in Inr (db \<lparr> supplies := sql_update hit (\<lambda>s. s \<lparr> so_state := Supply_Supplied, so_upstream := Some upstream,
                 so_next_retry_at := None, so_error := None, so_supplied_at := Some now \<rparr>) (supplies db) \<rparr>,
              sql_changes hit (supplies db)))"

text \<open>A card, as it is stored; an id that exists is left alone, a fingerprint that exists aborts.\<close>

definition card_entry :: "supplier_port \<Rightarrow> supply_row \<Rightarrow> int \<Rightarrow> string \<Rightarrow> nat \<times> string \<Rightarrow> stock_row" where
  "card_entry port s now sellable c = \<lparr> st_id = pt_stock_id port (so_id s) (fst c), st_sellable = sellable,
     st_status = Stock_Reserved, st_order_item = Some (so_order_item s), st_content = pt_seal port (pt_content port (so_id s) (snd c)),
     st_fingerprint = pt_fingerprint port (snd c), st_redeem_sku = None, st_created_at = now \<rparr>"

definition insert_card :: "supplier_port \<Rightarrow> supply_row \<Rightarrow> int \<Rightarrow> nat \<times> string \<Rightarrow> db stmt" where
  "insert_card port s now c n db =
     (case find_item db (so_order_item s) of
        None \<Rightarrow> Inr (db, 0)
      | Some it \<Rightarrow>
          (let e = card_entry port s now (oi_sellable it) c
           in if \<not> supplied_now (so_id s) now db \<or> sql_exists (\<lambda>r. st_id r = st_id e) (stock db) then Inr (db, 0)
              else if sql_exists (\<lambda>r. st_sellable r = st_sellable e \<and> st_fingerprint r = st_fingerprint e) (stock db)
              then Inl (DbAbort ''stock_entries_item_fingerprint_uidx'')
              else Inr (db \<lparr> stock := stock db @ [e] \<rparr>, 1)))"

definition await_delivery :: "supply_row \<Rightarrow> int \<Rightarrow> db stmt" where
  "await_delivery s now n db =
     (let hit = (\<lambda>d. d_id d = so_delivery s \<and> d_status d = Delivery_Awaiting_Supply \<and> supplied_now (so_id s) now db)
      in Inr (db \<lparr> deliveries := sql_update hit (\<lambda>d. d \<lparr> d_status := Delivery_Pending, d_next_attempt_at := Some now, d_error := None \<rparr>)
                (deliveries db) \<rparr>, sql_changes hit (deliveries db)))"

definition card_statements :: "supplier_port \<Rightarrow> supply_row \<Rightarrow> string \<Rightarrow> string list \<Rightarrow> int \<Rightarrow> db stmt list" where
  "card_statements port s upstream cards now =
     supply_order (so_id s) upstream now # map (insert_card port s now) (enumerate 0 cards)
     @ [await_delivery s now,
        outbox_when (supplied_now (so_id s) now) True
          (request_event ''delivery.requested'' (so_delivery s) (''supplier-delivery-requested:'' @ so_delivery s))]"

definition note_late_supply :: "string \<Rightarrow> string \<Rightarrow> db \<Rightarrow> db" where
  "note_late_supply i upstream db =
     db \<lparr> supplies := sql_update (\<lambda>s. so_id s = i \<and> so_state s = Supply_Refunded)
       (\<lambda>s. s \<lparr> so_upstream := Some upstream, so_error := Some ''supplier_supplied_after_refund'' \<rparr>) (supplies db) \<rparr>"

text \<open>\<open>env\<close> runs while the cards are encrypted, \<open>env'\<close> after the batch.\<close>

definition fulfill_supplier_order ::
  "supplier_port \<Rightarrow> (db \<Rightarrow> db) \<Rightarrow> (db \<Rightarrow> db) \<Rightarrow> int \<Rightarrow> supply_row \<Rightarrow> string \<Rightarrow> string list \<Rightarrow> db
   \<Rightarrow> supply_reply result \<times> db" where
  "fulfill_supplier_order port env env' now s upstream cards db =
     (if int (length (distinct_cards cards)) \<noteq> so_quantity s
      then (Inl (DomainError ''supplier_delivery_quantity_mismatch'' 502), db)
      else
        (let db = env db
         in case run_batch (card_statements port s upstream (distinct_cards cards) now) db of
              Inl e \<Rightarrow> (Inl e, db)
            | Inr (db, changes) \<Rightarrow>
                (if changes ! 0 = 1 then (Inr \<lparr> sy_state = Supply_Supplied, sy_duplicate = False \<rparr>, db)
                 else
                   (let db = env' db
                    in if map_option so_state (find_supply db (so_id s)) = Some Supply_Refunded
                       then (Inr \<lparr> sy_state = Supply_Refunded, sy_duplicate = True \<rparr>, note_late_supply (so_id s) upstream db)
                       else (Inr \<lparr> sy_state = Supply_Supplied, sy_duplicate = True \<rparr>, db)))))"

section \<open>Buying\<close>

definition error_code :: "failure \<Rightarrow> string" where
  "error_code = failure_name ''supplier_response_processing_failed''"

definition uncertain_error :: "failure \<Rightarrow> bool" where
  "uncertain_error e \<longleftrightarrow> (case e of DomainError code _ \<Rightarrow> code \<noteq> ''supplier_request_failed'' | _ \<Rightarrow> True)"

text \<open>What the supplier answered; others run before it is written and in the gaps of the cards.\<close>

definition apply_purchase_result ::
  "supplier_port \<Rightarrow> (nat \<Rightarrow> db \<Rightarrow> db) \<Rightarrow> int \<Rightarrow> supply_row \<Rightarrow> purchase \<Rightarrow> db \<Rightarrow> supply_reply result \<times> db" where
  "apply_purchase_result port env now s result db =
     (case result of
        Supplied upstream cards \<Rightarrow>
          (case fulfill_supplier_order port (env 0) (env 1) now s upstream cards
                  (mark_uncertain now (so_id s) ''supplier_delivery_validation_pending'' (Some upstream) db) of
             (Inl e, db) \<Rightarrow> (Inl e, mark_uncertain now (so_id s) (error_code e) (Some upstream) db)
           | (Inr r, db) \<Rightarrow> (Inr r, db))
      | Processing upstream \<Rightarrow>
          (Inl (DomainError ''supplier_order_pending'' 503),
           mark_uncertain now (so_id s) ''supplier_order_processing'' (Some upstream) db)
      | Unclear upstream code \<Rightarrow>
          (Inl (DomainError ''supplier_order_pending'' 503), mark_uncertain now (so_id s) code upstream db)
      | Rejected code \<Rightarrow>
          (Inl (DomainError code 409),
           release_definitive_failure (so_id s) (case so_account s of None \<Rightarrow> [] | Some a \<Rightarrow> a) code now db))"

text \<open>
  One account, under its task: its balance and the offer are asked for, the purchase is checked
  against both, the order is claimed for the account, and only then bought.
\<close>

definition buy_from ::
  "supplier_port \<Rightarrow> (nat \<Rightarrow> db \<Rightarrow> db) \<Rightarrow> int \<Rightarrow> int \<Rightarrow> supply_row \<Rightarrow> binding_row \<Rightarrow> account_row
   \<Rightarrow> counters \<times> db \<Rightarrow> supply_reply result \<times> counters \<times> db" where
  "buy_from port env now later s b a c =
     (case c of (t, db) \<Rightarrow>
        (case claim_supplier_api_budget now (pt_source port b) (ac_id a) t of
           (Inl e, t) \<Rightarrow> (Inl e, t, db)
         | (Inr _, t) \<Rightarrow>
             (case and_then (pt_adapter port a (ac_revision a)) (\<lambda>_. and_then (pt_balance port a) (\<lambda>balance.
                     and_then (pt_offer port a b) (\<lambda>f. and_then (multiply_minor (of_cost f) (so_quantity s))
                       (\<lambda>cost. Inr (balance, f, cost))))) of
                Inl e \<Rightarrow> (Inl e, t, env 0 db)
              | Inr (balance, f, cost) \<Rightarrow>
                  (let db = env 0 db
                   in case assert_candidate_budget db a balance cost f (so_quantity s) (the (bd_max_cost b)) of
                        Inl e \<Rightarrow> (Inl e, t, db)
                      | Inr _ \<Rightarrow>
                          (let request = provider_request_number (pt_sha port) (bd_provider b) (so_id s) (ac_id a)
                           in case claim_purchase (so_id s) a request (int (digits_value (of_cost f))) cost (env 1 db) of
                                (Inl e, db) \<Rightarrow> (Inl e, t, db)
                              | (Inr _, db) \<Rightarrow>
                                  (let db = use_account (ac_id a) balance now db;
                                       s = select_account a request (int (digits_value (of_cost f))) cost s
                                   in case pt_submit port a s request of
                                        Inl e \<Rightarrow> (Inl e, t, env 2 db)
                                      | Inr result \<Rightarrow>
                                          (case apply_purchase_result port (\<lambda>k. env (k + 3)) later s result (env 2 db) of
                                             (r, db) \<Rightarrow> (r, t, db))))))))"

text \<open>
  A failure is written by what is known of the purchase: certain not to have gone through, the
  account is released and the next one tried; else the order stays with it.
\<close>

fun try_accounts ::
  "supplier_port \<Rightarrow> (nat \<Rightarrow> nat \<Rightarrow> db \<Rightarrow> db) \<Rightarrow> (nat \<Rightarrow> string) \<Rightarrow> int \<Rightarrow> int \<Rightarrow> supply_row \<Rightarrow> binding_row
   \<Rightarrow> account_row list \<Rightarrow> counters \<times> db \<Rightarrow> supply_reply result option \<times> counters \<times> db" where
  "try_accounts port env runs now later s b [] c = (None, c)"
| "try_accounts port env runs now later s b (a # as) c =
     (case run_tracked_task (runs (length as)) (''supplier.account.'' @ ac_id a) now
             (buy_from port (env (length as)) now later s b a) c of
        (Task_Busy, c) \<Rightarrow> try_accounts port env runs now later s b as c
      | (Task_Ran (Inr r), c) \<Rightarrow> (Some (Inr r), c)
      | (Task_Ran (Inl e), t, db) \<Rightarrow>
          (case find_supply db (so_id s) of
             None \<Rightarrow> try_accounts port env runs now later s b as (t, db)
           | Some cur \<Rightarrow>
               (if so_account cur \<noteq> Some (ac_id a) then try_accounts port env runs now later s b as (t, db)
                else if so_state cur = Supply_Uncertain then (Some (Inl e), t, db)
                else if uncertain_error e then (Some (Inl e), t, mark_uncertain later (so_id s) (error_code e) None db)
                else try_accounts port env runs now later s b as
                       (t, release_definitive_failure (so_id s) (ac_id a) (error_code e) now db))))"

definition start_selection :: "string \<Rightarrow> db \<Rightarrow> db" where
  "start_selection i db =
     db \<lparr> supplies := sql_update (\<lambda>s. so_id s = i \<and> so_state s = Supply_Pending \<and> so_account s = None)
       (\<lambda>s. s \<lparr> so_state := Supply_Selecting \<rparr>) (supplies db) \<rparr>"

definition give_up_supply :: "string \<Rightarrow> db \<Rightarrow> db" where
  "give_up_supply i db =
     db \<lparr> supplies := sql_update (claimable_supply i) (\<lambda>s. s \<lparr> so_state := Supply_Failed,
       so_error := Some ''supplier_accounts_exhausted'', so_next_retry_at := None \<rparr>) (supplies db) \<rparr>"

text \<open>An order that has an account is only asked about.\<close>

definition reconcile_supply ::
  "supplier_port \<Rightarrow> (nat \<Rightarrow> db \<Rightarrow> db) \<Rightarrow> int \<Rightarrow> supply_row \<Rightarrow> binding_row \<Rightarrow> string \<Rightarrow> counters \<times> db
   \<Rightarrow> supply_reply result \<times> counters \<times> db" where
  "reconcile_supply port env later s b account c =
     (case c of (t, db) \<Rightarrow>
        (case (find_account db account, so_revision s) of
           (Some a, Some (Suc v)) \<Rightarrow>
             (case pt_adapter port a (Suc v) of
                Inl e \<Rightarrow> (Inl e, t, db)
              | Inr _ \<Rightarrow>
                  (case claim_supplier_api_budget later (pt_source port b) (ac_id a) t of
                     (Inl e, t) \<Rightarrow> (Inl e, t, db)
                   | (Inr _, t) \<Rightarrow>
                       (case pt_reconcile port a s of
                          Inl e \<Rightarrow> (Inl e, t, env 0 db)
                        | Inr result \<Rightarrow>
                            (case apply_purchase_result port (\<lambda>k. env (k + 1)) later s result (env 0 db) of
                               (r, db) \<Rightarrow> (r, t, db)))))
         | _ \<Rightarrow> (Inl (DomainError ''supplier_locked_account_unavailable'' 409), t, db)))"

definition process_supply_unlocked ::
  "supplier_port \<Rightarrow> (nat \<Rightarrow> nat \<Rightarrow> db \<Rightarrow> db) \<Rightarrow> (nat \<Rightarrow> string) \<Rightarrow> int \<Rightarrow> int \<Rightarrow> string \<Rightarrow> counters \<times> db
   \<Rightarrow> supply_reply result \<times> counters \<times> db" where
  "process_supply_unlocked port env runs now later i c =
     (case find_supply (snd c) i of
        None \<Rightarrow> (Inl (DomainError ''supplier_order_not_found'' 404), c)
      | Some s \<Rightarrow>
          (if so_state s = Supply_Supplied then (Inr \<lparr> sy_state = Supply_Supplied, sy_duplicate = True \<rparr>, c)
           else if so_state s \<in> {Supply_Failed, Supply_Refunded} then (Inl (DomainError ''supplier_order_terminal'' 409), c)
           else if \<not> pt_secret port then (Inl (DomainError ''supplier_configuration_unavailable'' 503), c)
           else case parse_binding (so_binding s) of
             Inl e \<Rightarrow> (Inl e, c)
           | Inr b \<Rightarrow>
               (case so_account s of
                  Some account \<Rightarrow> reconcile_supply port (env 0) later s b account c
                | None \<Rightarrow>
                    (let db = env 20 1 (start_selection i (env 20 0 (snd c)))
                     in case try_accounts port env runs now later s b (candidate_accounts b now db) (fst c, db) of
                          (Some r, c) \<Rightarrow> (r, c)
                        | (None, t, db) \<Rightarrow> (Inl (DomainError ''supplier_accounts_exhausted'' 409), t, give_up_supply i db)))))"

definition process_supplier_order ::
  "supplier_port \<Rightarrow> (nat \<Rightarrow> nat \<Rightarrow> db \<Rightarrow> db) \<Rightarrow> (nat \<Rightarrow> string) \<Rightarrow> int \<Rightarrow> int \<Rightarrow> string \<Rightarrow> counters \<times> db
   \<Rightarrow> supply_reply tracked \<times> counters \<times> db" where
  "process_supplier_order port env runs now later i =
     run_tracked_task (runs 20) (''supplier.order.'' @ i) now (process_supply_unlocked port env runs now later i)"

text \<open>The supplier tells of its own accord that the cards are there.\<close>

definition complete_from_callback ::
  "supplier_port \<Rightarrow> (nat \<Rightarrow> db \<Rightarrow> db) \<Rightarrow> int \<Rightarrow> string \<Rightarrow> string \<Rightarrow> string list \<Rightarrow> db \<Rightarrow> supply_reply result \<times> db" where
  "complete_from_callback port env now i upstream cards db =
     (case find_supply db i of
        None \<Rightarrow> (Inl (DomainError ''supplier_order_not_found'' 404), db)
      | Some s \<Rightarrow>
          (if so_state s = Supply_Supplied then (Inr \<lparr> sy_state = Supply_Supplied, sy_duplicate = True \<rparr>, db)
           else if so_state s \<notin> {Supply_Submitting, Supply_Uncertain}
           then (Inl (DomainError ''supplier_order_callback_state_invalid'' 409), db)
           else if \<not> pt_secret port then (Inl (DomainError ''supplier_configuration_unavailable'' 503), db)
           else fulfill_supplier_order port (env 0) (env 1) now s upstream cards db))"

datatype supply_action = Reconcile_Supply | Reselect_Supply

fun action_name :: "supply_action \<Rightarrow> string" where
  "action_name Reconcile_Supply = ''reconcile''"
| "action_name Reselect_Supply = ''reselect''"

definition act_supplier_order :: "(db \<Rightarrow> db) \<Rightarrow> int \<Rightarrow> supply_action \<Rightarrow> string \<Rightarrow> db \<Rightarrow> unit result \<times> db" where
  "act_supplier_order env now action i db =
     (case find_supply db i of
        None \<Rightarrow> (Inl (DomainError ''supplier_order_not_found'' 404), db)
      | Some s \<Rightarrow>
          (if action = Reconcile_Supply \<and> so_account s = None
           then (Inl (DomainError ''supplier_order_account_not_selected'' 409), db)
           else if action = Reselect_Supply \<and> (so_state s = Supply_Uncertain \<or> so_locked_at s \<noteq> None)
           then (Inl (DomainError ''supplier_order_account_locked'' 409), db)
           else if so_state s \<in> {Supply_Supplied, Supply_Refunded} then (Inl (DomainError ''supplier_order_terminal'' 409), db)
           else
             (let db = env db;
                  st = (if action = Reselect_Supply then Supply_Pending else so_state s);
                  write = (\<lambda>n db. Inr (db \<lparr> supplies := sql_update (\<lambda>r. so_id r = i) (\<lambda>r. r \<lparr> so_state := st, so_next_retry_at := Some now,
                              so_error := None \<rparr>) (supplies db) \<rparr>, sql_changes (\<lambda>r. so_id r = i) (supplies db)))
              in case run_batch [write,
                     outbox_when (\<lambda>_. True) False (request_event ''supplier.requested'' i
                       (''supplier-admin-'' @ action_name action @ '':'' @ i @ '':'' @ nat_string (nat now))),
                     audit (''supplier_order.'' @ action_name action) i] db of
                   Inl e \<Rightarrow> (Inl e, db) | Inr (db, _) \<Rightarrow> (Inr (), db))))"

section \<open>An account stays locked\<close>

text \<open>
  What may happen to an order at a supplier between two states: rows are added, none is removed,
  and one whose purchase may have gone through keeps its account and request number.
\<close>

definition same_purchase :: "supply_row \<Rightarrow> supply_row \<Rightarrow> bool" where
  "same_purchase s s' \<longleftrightarrow> so_id s' = so_id s \<and> (so_account s \<noteq> None \<and> so_locked_at s \<noteq> None \<longrightarrow>
     so_account s' = so_account s \<and> so_revision s' = so_revision s \<and> so_request s' = so_request s \<and> so_locked_at s' \<noteq> None)"

definition purchases_kept :: "db \<Rightarrow> db \<Rightarrow> bool" where
  "purchases_kept db db' \<longleftrightarrow> (\<exists>us rest. supplies db' = us @ rest \<and> list_all2 same_purchase (supplies db) us)"

lemma same_purchase_refl [simp]: "same_purchase s s"
  by (simp add: same_purchase_def)

lemma same_purchase_trans: "same_purchase a b \<Longrightarrow> same_purchase b c \<Longrightarrow> same_purchase a c"
  by (auto simp: same_purchase_def)

lemma purchases_kept_same: "supplies db' = supplies db \<Longrightarrow> purchases_kept db db'"
  unfolding purchases_kept_def by (intro exI [of _ "supplies db"] exI [of _ "[]"]) (simp add: list_all2_same)

lemma purchases_kept_refl [simp]: "purchases_kept db db"
  by (rule purchases_kept_same) simp

lemma purchases_kept_trans:
  assumes "purchases_kept a b" and "purchases_kept b c"
  shows "purchases_kept a c"
proof -
  from assms obtain us rest vs more where b: "supplies b = us @ rest" "list_all2 same_purchase (supplies a) us"
    and c: "supplies c = vs @ more" "list_all2 same_purchase (us @ rest) vs"
    unfolding purchases_kept_def by metis
  from c(2) obtain v1 v2 where v: "vs = v1 @ v2" "list_all2 same_purchase us v1" by (auto simp: list_all2_append1)
  have "list_all2 same_purchase (supplies a) v1" by (rule list_all2_trans [OF same_purchase_trans b(2) v(2)])
  with c(1) v(1) show ?thesis unfolding purchases_kept_def by auto
qed

lemma purchases_kept_update:
  assumes "\<And>s. P s \<Longrightarrow> same_purchase s (f s)"
  shows "purchases_kept db (db \<lparr> supplies := sql_update P f (supplies db) \<rparr>)"
proof -
  have "list_all2 same_purchase ss (sql_update P f ss)" for ss by (induction ss) (simp_all add: assms)
  then show ?thesis unfolding purchases_kept_def by (intro exI [of _ "sql_update P f (supplies db)"] exI [of _ "[]"]) simp
qed

text \<open>A statement or step that others can rely on; \<open>good env\<close> is what is asked of them.\<close>

definition keeps_purchases :: "db stmt \<Rightarrow> bool" where
  "keeps_purchases s \<longleftrightarrow> (\<forall>n db db' c. s n db = Inr (db', c) \<longrightarrow> purchases_kept db db')"

definition good :: "(db \<Rightarrow> db) \<Rightarrow> bool" where
  "good env \<longleftrightarrow> (\<forall>d. purchases_kept d (env d))"

lemma goodD: "good env \<Longrightarrow> purchases_kept a b \<Longrightarrow> purchases_kept a (env b)"
  using purchases_kept_trans by (auto simp: good_def)

lemma keeps_purchases_batch:
  "batch_from n ss db = Inr (db', cs) \<Longrightarrow> \<forall>s\<in>set ss. keeps_purchases s \<Longrightarrow> purchases_kept db db'"
proof (induction ss arbitrary: n db cs)
  case (Cons s ss)
  from Cons.prems(1) obtain d c cs' where s: "s n db = Inr (d, c)" "batch_from c ss d = Inr (db', cs')" by (elim batch_ConsE) (rule that)
  from Cons s(2) have "purchases_kept d db'" by simp
  moreover have "keeps_purchases s" using Cons.prems(2) by simp
  then have "purchases_kept db d" using s(1) unfolding keeps_purchases_def by blast
  ultimately show ?case using purchases_kept_trans by blast
qed simp

lemma leaves_purchases: "leaves supplies s \<Longrightarrow> keeps_purchases s"
  unfolding keeps_purchases_def by (metis leavesD purchases_kept_same)

lemma purchase_steps_kept:
  "purchases_kept db (mark_uncertain now i code upstream db)"
  "purchases_kept db (start_selection i db)" "purchases_kept db (give_up_supply i db)"
  "purchases_kept db (note_late_supply i ref db)"
  by (auto simp: mark_uncertain_def start_selection_def give_up_supply_def note_late_supply_def
      lock_account_def coalesce_def same_purchase_def intro!: purchases_kept_update split: option.splits)

lemma other_steps_kept:
  "purchases_kept db (use_account k balance now db)" "purchases_kept db (end_task run_id r db)"
  by (auto simp: use_account_def end_task_def intro: purchases_kept_same)

lemma keeps_purchase_updates:
  "keeps_purchases (release_purchase i account code)" "keeps_purchases (supply_order i upstream now)" "keeps_purchases (cancel_supplies i)"
  by (auto simp: keeps_purchases_def release_purchase_def supply_order_def cancel_supplies_def Let_def drop_account_def
      same_purchase_def intro!: purchases_kept_update)

lemma keeps_purchase_others:
  "keeps_purchases (degrade_account i code now)" "keeps_purchases (insert_card port s now c)" "keeps_purchases (await_delivery s now)"
  by (auto simp: keeps_purchases_def degrade_account_def insert_card_def await_delivery_def Let_def intro!: purchases_kept_same
      split: option.splits if_splits)

lemma release_kept: "purchases_kept db (release_definitive_failure i account code now db)"
proof (cases "run_batch [release_purchase i account code, degrade_account account code now] db")
  case (Inr p)
  obtain d cs where p: "p = (d, cs)" by fastforce
  have "\<forall>s\<in>set [release_purchase i account code, degrade_account account code now]. keeps_purchases s"
    using keeps_purchase_updates(1) keeps_purchase_others(1) by simp
  from keeps_purchases_batch [OF Inr [unfolded run_batch_def p] this] show ?thesis by (simp only: release_definitive_failure_def Inr p sum.case prod.case)
qed (simp add: release_definitive_failure_def)

lemma claim_kept: "purchases_kept db (snd (claim_purchase i a request unit_cost total_cost db))"
  by (auto simp: claim_purchase_def claimable_supply_def select_account_def same_purchase_def intro!: purchases_kept_update)

lemma cards_kept: "\<forall>st\<in>set (card_statements port s upstream cards now). keeps_purchases st"
proof -
  have "keeps_purchases (outbox_when c ignore b)" for c ignore b
    by (rule leaves_purchases, rule log_leaves) simp
  then show ?thesis using keeps_purchase_updates(2) keeps_purchase_others(2,3) by (auto simp: card_statements_def)
qed

lemma fulfill_supply_kept:
  assumes "good env" "good env'" and "purchases_kept a db"
  shows "purchases_kept a (snd (fulfill_supplier_order port env env' now s upstream cards db))"
proof -
  have e: "purchases_kept a (env db)" using assms(1,3) by (rule goodD)
  have b: "purchases_kept a d" if "run_batch (card_statements port s upstream cs now) (env db) = Inr (d, k)" for cs d k
    using keeps_purchases_batch [OF that [unfolded run_batch_def] cards_kept] e purchases_kept_trans by blast
  have f: "purchases_kept a (env' d)" "purchases_kept a (note_late_supply i u (env' d))"
    if "run_batch (card_statements port s upstream cs now) (env db) = Inr (d, k)" for cs d k i u
    using goodD [OF assms(2) b [OF that]] purchase_steps_kept(4) purchases_kept_trans by blast+
  show ?thesis using assms(3) e by (auto simp: fulfill_supplier_order_def Let_def b f split: sum.split prod.split)
qed

lemma apply_result_kept:
  assumes "\<forall>k. good (env k)" and "purchases_kept a db"
  shows "purchases_kept a (snd (apply_purchase_result port env now s result db))"
proof -
  have m: "purchases_kept a (mark_uncertain now i code u d)" if "purchases_kept a d" for i code u d
    using that purchase_steps_kept(1) purchases_kept_trans by blast
  have f: "purchases_kept a d" if "fulfill_supplier_order port (env 0) (env 1) now s u cards (mark_uncertain now i code v db) = (r, d)" for u cards i code v r d
    using fulfill_supply_kept [OF _ _ m [OF assms(2)], of "env 0" "env 1" port now s u cards i code v] assms(1) that by simp
  show ?thesis
    using assms(2) by (auto simp: apply_purchase_result_def simp del: One_nat_def split: purchase.split prod.split sum.split
        intro: m purchases_kept_trans [OF _ release_kept] dest: f)
qed


lemma buy_from_kept:
  assumes "\<forall>k. good (env k)" and "purchases_kept a db"
  shows "purchases_kept a (snd (snd (buy_from port env now later s b acc (t, db))))"
proof -
  have g: "purchases_kept a (env k d)" if "purchases_kept a d" for k d using goodD assms(1) that by blast
  have c: "purchases_kept a d" if "claim_purchase i acc q u c (env 1 (env 0 db)) = (r, d)" for i q u c r d
    using claim_kept [of "env 1 (env 0 db)" i acc q u c] that purchases_kept_trans [OF g [OF g [OF assms(2)]], of _ _ d] by simp
  have u: "purchases_kept a (use_account k bal now d)" if "purchases_kept a d" for k bal d
    using purchases_kept_trans [OF that other_steps_kept(1)] .
  have r: "purchases_kept a d'" if "apply_purchase_result port (\<lambda>k. env (k + 3)) later s' result d = (r, d')" "purchases_kept a d" for s' result d r d'
    using apply_result_kept [of "\<lambda>k. env (k + 3)" a d port later s' result] assms(1) that by simp
  show ?thesis
    by (auto simp: buy_from_def Let_def assms(2) simp del: One_nat_def split: prod.split sum.split
        intro!: g u elim!: c r)
qed

lemma run_tracked_kept:
  assumes "\<And>d. purchases_kept a d \<Longrightarrow> purchases_kept a (snd (snd (act (fst c, d))))" and "purchases_kept a (snd c)"
  shows "purchases_kept a (snd (snd (run_tracked_task run_id task now act c)))"
proof -
  have s: "purchases_kept a d" if "start_task run_id task now (snd c) = (x, d)" for x d
    using that purchases_kept_trans [OF assms(2) purchases_kept_same] by (auto simp: start_task_def Let_def split: if_splits)
  have "purchases_kept a d'" if "start_task run_id task now (snd c) = (x, d)" "act (fst c, d) = (r, s, d')" for x d r s d'
    using assms(1) [OF s [OF that(1)]] that(2) by simp
  then show ?thesis
    by (auto simp: run_tracked_task_def split: prod.split bool.split intro: s purchases_kept_trans [OF _ other_steps_kept(2)])
qed

lemma try_accounts_kept:
  assumes "\<forall>j k. good (env j k)" and "purchases_kept a (snd c)"
  shows "purchases_kept a (snd (snd (try_accounts port env runs now later s b accs c)))"
  using assms(2)
proof (induction accs arbitrary: c)
  case (Cons acc accs)
  obtain r t d where r: "run_tracked_task (runs (length accs)) (''supplier.account.'' @ ac_id acc) now
      (buy_from port (env (length accs)) now later s b acc) c = (r, t, d)" using prod_cases3 by blast
  have "purchases_kept a d"
    using run_tracked_kept [of a "buy_from port (env (length accs)) now later s b acc" c
        "runs (length accs)" "''supplier.account.'' @ ac_id acc" now] buy_from_kept assms(1) Cons.prems r by simp
  then have d: "purchases_kept a d" "purchases_kept a (mark_uncertain later i code u d)" "purchases_kept a (release_definitive_failure i k code now d)" for i code u k
    using purchases_kept_trans purchase_steps_kept(1) release_kept by blast+
  show ?case
    using r Cons.IH d by (auto split: tracked.split sum.split option.split)
qed simp

lemma reconcile_supply_kept:
  assumes "\<forall>k. good (env k)" and "purchases_kept a (snd c)"
  shows "purchases_kept a (snd (snd (reconcile_supply port env later s b k c)))"
proof -
  obtain t d where c: "c = (t, d)" by fastforce
  have g: "purchases_kept a (env 0 d)" using goodD assms c by auto
  have r: "purchases_kept a d'" if "apply_purchase_result port (\<lambda>k. env (Suc k)) later s result (env 0 d) = (r, d')" for result r d'
    using apply_result_kept [of "\<lambda>k. env (Suc k)", OF _ g, of port later s result] assms(1) that by simp
  show ?thesis
    using assms(2) g by (auto simp: reconcile_supply_def c split: prod.split sum.split option.split nat.split dest: r)
qed

lemma process_unlocked_kept:
  assumes "\<forall>j k. good (env j k)" and "purchases_kept a (snd c)"
  shows "purchases_kept a (snd (snd (process_supply_unlocked port env runs now later i c)))"
proof -
  have e: "purchases_kept a (env 20 1 (start_selection i (env 20 0 (snd c))))"
    using goodD assms purchases_kept_trans [OF _ purchase_steps_kept(2)] by blast
  have t: "purchases_kept a d" if "try_accounts port env runs now later s b accs (fst c, env 20 1 (start_selection i (env 20 0 (snd c)))) = (r, t, d)"
    for s b accs r t d
    using try_accounts_kept [OF assms(1), of a "(fst c, env 20 1 (start_selection i (env 20 0 (snd c))))" port runs now later s b accs] e that by simp
  have r: "purchases_kept a (snd (snd (reconcile_supply port (env 0) later s b k c)))" for s b k
    by (rule reconcile_supply_kept) (use assms in auto)
  show ?thesis
    using assms(2) r by (auto simp: process_supply_unlocked_def Let_def simp del: One_nat_def split: option.split sum.split prod.split
        intro: purchases_kept_trans [OF _ purchase_steps_kept(3)] dest: t)
qed

lemma process_supply_kept:
  assumes "\<forall>j k. good (env j k)"
  shows "purchases_kept db (snd (snd (process_supplier_order port env runs now later i (t, db))))"
  unfolding process_supplier_order_def by (rule run_tracked_kept) (use process_unlocked_kept [OF assms] in auto)

lemma callback_kept:
  assumes "\<forall>k. good (env k)"
  shows "purchases_kept db (snd (complete_from_callback port env now i upstream cards db))"
proof -
  have "purchases_kept db (snd (fulfill_supplier_order port (env 0) (env 1) now s upstream cards db))" for s
    by (rule fulfill_supply_kept) (use assms in auto)
  then show ?thesis by (auto simp: complete_from_callback_def simp del: One_nat_def split: option.split)
qed

lemma action_kept:
  assumes "good env"
  shows "purchases_kept db (snd (act_supplier_order env now action i db))"
proof -
  have e: "purchases_kept db (env db)" using assms by (simp add: good_def)
  have w: "keeps_purchases (\<lambda>n db. Inr (db \<lparr> supplies := sql_update (\<lambda>r. so_id r = i) (\<lambda>r. r \<lparr> so_state := st, so_next_retry_at := at,
      so_error := None \<rparr>) (supplies db) \<rparr>, k db))" for st at k
    by (auto simp: keeps_purchases_def same_purchase_def intro!: purchases_kept_update)
  have o: "keeps_purchases (outbox_when c ignore b)" "keeps_purchases (audit action' target)" for c ignore b action' target
    by (rule leaves_purchases, rule log_leaves, simp)+
  show ?thesis
    using e purchases_kept_trans [OF e keeps_purchases_batch] w o
    by (auto simp: act_supplier_order_def Let_def run_batch_def simp del: batch_from.simps split: option.split sum.split prod.split)
qed


text \<open>
  Runs of the shop as its orders at suppliers see them: their handlers, with runs in every gap;
  the refund that stops an order, the payment that adds one, and whatever leaves the table alone.
\<close>

inductive supply_run :: "db \<Rightarrow> db \<Rightarrow> bool" where
  idle: "supply_run db db"
| andthen: "supply_run db d \<Longrightarrow> supply_run d d' \<Longrightarrow> supply_run db d'"
| process: "\<forall>j k d. supply_run d (env j k d)
    \<Longrightarrow> supply_run db (snd (snd (process_supplier_order port env runs now later i (t, db))))"
| callback: "\<forall>k d. supply_run d (env k d) \<Longrightarrow> supply_run db (snd (complete_from_callback port env now i upstream cards db))"
| act: "\<forall>d. supply_run d (env d) \<Longrightarrow> supply_run db (snd (act_supplier_order env now action i db))"
| stop: "cancel_supplies order_id n db = Inr (db', c) \<Longrightarrow> supply_run db db'"
| sell: "request_supply order_id now l did sid n db = Inr (db', c) \<Longrightarrow> supply_run db db'"
| other: "supplies db' = supplies db \<Longrightarrow> supply_run db db'"

lemma supply_run_keeps: "supply_run db db' \<Longrightarrow> purchases_kept db db'"
proof (induction rule: supply_run.induct)
  case (andthen db d d')
  then show ?case using purchases_kept_trans by blast
next
  case (process env db port runs now later i t)
  then show ?case by (intro process_supply_kept) (simp add: good_def)
next
  case (callback env db port now i upstream cards)
  then show ?case by (intro callback_kept) (simp add: good_def)
next
  case (act env db now action i)
  then show ?case by (intro action_kept) (simp add: good_def)
next
  case (stop order_id n db db' c)
  then show ?case using keeps_purchase_updates(3) unfolding keeps_purchases_def by blast
next
  case (sell order_id now l did sid n db db' c)
  then have "supplies db' = supplies db \<or> (\<exists>s. supplies db' = supplies db @ [s])"
    by (auto simp: request_supply_def insert_supply_def Let_def split: if_splits)
  then show ?case
  proof
    assume "\<exists>s. supplies db' = supplies db @ [s]"
    then show ?thesis unfolding purchases_kept_def by (auto simp: list_all2_same)
  qed (rule purchases_kept_same)
qed (simp_all add: purchases_kept_same)

lemma kept_purchase:
  assumes "purchases_kept db db'" and "find_supply db i = Some s"
  obtains s' where "find_supply db' i = Some s'" and "same_purchase s s'"
proof -
  from assms(1) obtain us rest where u: "supplies db' = us @ rest" "list_all2 same_purchase (supplies db) us"
    by (auto simp: purchases_kept_def)
  have "\<exists>s'. sql_first (\<lambda>s. so_id s = i) us = Some s' \<and> same_purchase s s'"
    using u(2) assms(2) [unfolded find_supply_def]
  proof (induction rule: list_all2_induct)
    case (Cons x xs y ys)
    then show ?case by (auto simp: same_purchase_def split: if_splits)
  qed simp
  then show thesis using that u(1) by (auto simp: find_supply_def sql_first_append)
qed

text \<open>An order that has an account is never bought: what \<open>pt_submit\<close> would answer does not matter.\<close>

lemma submit_unused:
  assumes "find_supply db i = Some s" and "so_account s = Some a"
  shows "process_supplier_order (port \<lparr> pt_submit := f \<rparr>) env runs now later i (t, db)
    = process_supplier_order port env runs now later i (t, db)"
proof -
  have "card_entry (port \<lparr> pt_submit := f \<rparr>) = card_entry port" by (intro ext) (simp add: card_entry_def)
  then have "insert_card (port \<lparr> pt_submit := f \<rparr>) = insert_card port" by (intro ext) (simp only: insert_card_def)
  then have "card_statements (port \<lparr> pt_submit := f \<rparr>) = card_statements port" by (intro ext) (simp only: card_statements_def)
  then have p: "fulfill_supplier_order (port \<lparr> pt_submit := f \<rparr>) = fulfill_supplier_order port"
    by (intro ext) (simp only: fulfill_supplier_order_def)
  have "apply_purchase_result (port \<lparr> pt_submit := f \<rparr>) = apply_purchase_result port"
    by (intro ext) (simp only: apply_purchase_result_def p)
  then have r: "reconcile_supply (port \<lparr> pt_submit := f \<rparr>) = reconcile_supply port"
    by (intro ext) (simp add: reconcile_supply_def cong: option.case_cong prod.case_cong sum.case_cong nat.case_cong)
  have "find_supply d i = Some s" if "start_task run_id task now db = (x, d)" for run_id task x d
    using that assms(1) by (auto simp: start_task_def find_supply_def Let_def split: if_splits)
  moreover have "process_supply_unlocked (port \<lparr> pt_submit := f \<rparr>) env runs now later i (t, d)
      = process_supply_unlocked port env runs now later i (t, d)" if "find_supply d i = Some s" for d
    using that assms(2) by (simp add: process_supply_unlocked_def r cong: sum.case_cong)
  ultimately show ?thesis by (auto simp: process_supplier_order_def run_tracked_task_def split: prod.split bool.split)
qed

text \<open>
  C29. An order at a supplier that may have been bought stays where it was bought: whatever
  handlers of these orders run, in any order and in the gaps of each other, it keeps its
  account, credentials and request number once it is locked, and processing it again never buys,
  whatever the supplier would answer to that.
\<close>

lemma locked_purchase_stays:
  assumes "supply_run db db'" and "find_supply db i = Some s" and "so_account s = Some a" and "so_locked_at s \<noteq> None"
  shows "\<exists>s'. find_supply db' i = Some s' \<and> so_account s' = Some a \<and> so_revision s' = so_revision s \<and> so_request s' = so_request s
     \<and> so_locked_at s' \<noteq> None
     \<and> process_supplier_order (port \<lparr> pt_submit := f \<rparr>) env runs now later i (t, db')
       = process_supplier_order port env runs now later i (t, db')"
proof -
  obtain s' where s: "find_supply db' i = Some s'" "same_purchase s s'"
    by (rule kept_purchase [OF supply_run_keeps [OF assms(1)] assms(2)])
  then have "so_account s' = Some a \<and> so_revision s' = so_revision s \<and> so_request s' = so_request s \<and> so_locked_at s' \<noteq> None"
    using assms(3,4) by (auto simp: same_purchase_def)
  with s(1) submit_unused [OF s(1)] show ?thesis by blast
qed

section \<open>Within the balance\<close>

lemma claimed_costs:
  assumes "distinct (map so_id ss)" and "sql_changes (claimable_supply i) ss = 1" and "add_costs (filter (commitment k) ss) = Inr c"
    and "ac_id a = k"
  shows "add_costs (filter (commitment k) (sql_update (claimable_supply i) (select_account a q u cost) ss)) = Inr (c + cost)"
  using assms(1-3)
proof (induction ss arbitrary: c)
  case (Cons s ss)
  show ?case
  proof (cases "claimable_supply i s")
    case True
    then have n: "\<not> commitment k s" by (auto simp: claimable_supply_def commitment_def)
    have "\<forall>r\<in>set ss. \<not> claimable_supply i r" using Cons.prems(2) True by (simp add: sql_changes_def filter_empty_conv)
    then have "sql_update (claimable_supply i) (select_account a q u cost) ss = ss" by (rule sql_update_none)
    moreover have "commitment k (select_account a q u cost s)" "so_total_cost (select_account a q u cost s) = Some cost"
      using assms(4) by (simp_all add: commitment_def select_account_def)
    ultimately show ?thesis using True n Cons.prems(3) by simp
  next
    case False
    then have k: "sql_changes (claimable_supply i) ss = 1" using Cons.prems(2) by (simp add: sql_changes_def)
    show ?thesis
    proof (cases "commitment k s")
      case True
      with Cons.prems(3) obtain x d where "so_total_cost s = Some x" "add_costs (filter (commitment k) ss) = Inr d" "c = x + d"
        by (auto simp: and_then_Inr split: option.splits)
      with Cons.IH [OF _ k, of d] Cons.prems(1) False True show ?thesis by simp
    qed (use Cons.IH [OF _ k] Cons.prems(1,3) False in simp)
  qed
qed (simp add: sql_changes_def)

text \<open>
  What is claimed for an account stays, with all its open purchases, within the balance it reported
  less its reserve, when no other purchase was claimed there since the check.
\<close>

lemma purchase_within_balance:
  assumes "assert_candidate_budget db a balance total_cost f quantity max_cost = Inr ()"
    and "claim_purchase i a request (int (digits_value (of_cost f))) total_cost db' = (Inr (), db'')"
    and "committed (ac_id a) db' = committed (ac_id a) db" and "distinct (map so_id (supplies db'))"
  shows "\<exists>c s. committed (ac_id a) db'' = Inr c \<and> c \<le> balance - ac_reserve a
     \<and> find_supply db'' i = Some s \<and> so_account s = Some (ac_id a) \<and> so_unit_cost s = Some (int (digits_value (of_cost f)))
     \<and> int (digits_value (of_cost f)) \<le> max_cost \<and> (\<forall>m\<in>set_option (ac_max_order a). total_cost \<le> m) \<and> quantity \<le> of_stock f"
proof -
  from assms(1) obtain c where c: "committed (ac_id a) db = Inr c" "c + total_cost \<le> balance - ac_reserve a"
    "int (digits_value (of_cost f)) \<le> max_cost" "\<forall>m\<in>set_option (ac_max_order a). total_cost \<le> m" "quantity \<le> of_stock f"
    by (auto simp: assert_candidate_budget_def and_then_Inr not_less split: if_splits)
  from assms(2) have d: "sql_changes (claimable_supply i) (supplies db') = 1"
    "supplies db'' = sql_update (claimable_supply i) (select_account a request (int (digits_value (of_cost f))) total_cost) (supplies db')"
    by (auto simp: claim_purchase_def split: if_splits)
  have "committed (ac_id a) db'' = Inr (c + total_cost)"
    unfolding committed_def d(2) by (rule claimed_costs [OF assms(4) d(1)]) (use c(1) assms(3) in \<open>simp_all add: committed_def\<close>)
  moreover have "\<exists>s\<in>set (supplies db'). claimable_supply i s"
    using d(1) sql_changes_zero [of "claimable_supply i" "supplies db'"] by auto
  then obtain s where s: "s \<in> set (supplies db')" "claimable_supply i s" by blast
  then have "find_supply db' i = Some s" using keyed_first [OF assms(4) s(1)] by (simp add: find_supply_def claimable_supply_def)
  then have "find_supply db'' i = Some (select_account a request (int (digits_value (of_cost f))) total_cost s)"
    using s(2) by (simp add: find_supply_def d(2) sql_first_update_key [where k = so_id] select_account_def)
  ultimately show ?thesis using c(2-5) by (auto simp: select_account_def)
qed


section \<open>The cards of an order\<close>

lemma insert_cards:
  assumes "batch_from n (map (insert_card port s now) cs) d = Inr (d', ks)" and "find_item d (so_order_item s) = Some it"
    and "supplied_now (so_id s) now d" and "distinct (map (\<lambda>c. pt_stock_id port (so_id s) (fst c)) cs)"
    and "\<forall>c\<in>set cs. \<forall>e\<in>set (stock d). st_id e \<noteq> pt_stock_id port (so_id s) (fst c)"
  shows "stock d' = stock d @ map (card_entry port s now (oi_sellable it)) cs \<and> supplies d' = supplies d
     \<and> deliveries d' = deliveries d \<and> outbox d' = outbox d"
  using assms
proof (induction cs arbitrary: n d ks)
  case (Cons c cs)
  let ?e = "card_entry port s now (oi_sellable it) c"
  from Cons.prems(1) obtain d1 k k2 where b: "insert_card port s now c n d = Inr (d1, k)"
    "batch_from k (map (insert_card port s now) cs) d1 = Inr (d', k2)"
    unfolding list.map by (elim batch_ConsE) (rule that)
  have "st_id ?e = pt_stock_id port (so_id s) (fst c)" by (simp add: card_entry_def)
  then have "\<not> sql_exists (\<lambda>r. st_id r = st_id ?e) (stock d)" using Cons.prems(5) by (auto simp: sql_exists_def list_ex_iff)
  with b(1) Cons.prems(2,3) have d1: "d1 = d \<lparr> stock := stock d @ [?e] \<rparr>" by (auto simp: insert_card_def Let_def split: if_splits)
  have "find_item d1 (so_order_item s) = Some it" "supplied_now (so_id s) now d1"
    using Cons.prems(2,3) by (simp_all add: d1 find_item_def supplied_now_def)
  moreover have "\<forall>c'\<in>set cs. \<forall>e\<in>set (stock d1). st_id e \<noteq> pt_stock_id port (so_id s) (fst c')"
    using Cons.prems(4,5) \<open>st_id ?e = _\<close> by (auto simp: d1 image_iff)
  ultimately show ?case using Cons.IH [OF b(2)] Cons.prems(4) by (simp add: d1)
qed simp

lemma cards_batch:
  assumes "run_batch (card_statements port s upstream cs now) d = Inr (d', ks)" and "ks ! 0 = 1"
    and "find_item d (so_order_item s) = Some it" and "inj (pt_stock_id port (so_id s))"
    and "\<forall>k. \<forall>e\<in>set (stock d). st_id e \<noteq> pt_stock_id port (so_id s) k"
  shows "stock d' = stock d @ map (card_entry port s now (oi_sellable it)) (enumerate 0 cs)"
    and "supplied_now (so_id s) now d'" and "\<exists>x\<in>set (supplies d'). so_id x = so_id s \<and> so_state x = Supply_Supplied \<and> so_upstream x = Some upstream"
    and "\<forall>x\<in>set (deliveries d'). d_id x = so_delivery s \<longrightarrow> d_status x \<noteq> Delivery_Awaiting_Supply"
    and "sql_exists (\<lambda>e. ob_key e = ''supplier-delivery-requested:'' @ so_delivery s) (outbox d')"
proof -
  let ?hit = "\<lambda>x. so_id x = so_id s \<and> so_state x \<in> {Supply_Submitting, Supply_Uncertain}"
  let ?f = "\<lambda>x. x \<lparr> so_state := Supply_Supplied, so_upstream := Some upstream, so_next_retry_at := None, so_error := None,
    so_supplied_at := Some now \<rparr>"
  let ?ask = "outbox_when (supplied_now (so_id s) now) True
    (request_event ''delivery.requested'' (so_delivery s) (''supplier-delivery-requested:'' @ so_delivery s))"
  from assms(1) obtain d1 c1 d2 k k2 d3 c3 c4 r where b: "supply_order (so_id s) upstream now 0 d = Inr (d1, c1)" "ks = c1 # r"
    "batch_from c1 (map (insert_card port s now) (enumerate 0 cs)) d1 = Inr (d2, k2)"
    "await_delivery s now k d2 = Inr (d3, c3)" "?ask c3 d3 = Inr (d', c4)"
    unfolding run_batch_def card_statements_def append.simps batch_Cons batch_append by fastforce
  have d1: "d1 = d \<lparr> supplies := sql_update ?hit ?f (supplies d) \<rparr>" "c1 = sql_changes ?hit (supplies d)"
    using b(1) by (auto simp: supply_order_def Let_def)
  have "\<exists>x\<in>set (supplies d). ?hit x" using assms(2) b(2) d1(2) sql_changes_zero [of ?hit "supplies d"] by auto
  then obtain x where x: "x \<in> set (supplies d)" "?hit x" by blast
  then have fx: "?f x \<in> set (supplies d1)" by (auto simp: d1 sql_update_def)
  then have now1: "supplied_now (so_id s) now d1" using x(2) by (auto simp: supplied_now_def sql_exists_def list_ex_iff intro!: bexI [of _ "?f x"])
  have i: "find_item d1 (so_order_item s) = Some it" using assms(3) by (simp add: d1 find_item_def)
  have dist: "distinct (map (\<lambda>c. pt_stock_id port (so_id s) (fst c)) (enumerate 0 cs))"
  proof -
    have "map (\<lambda>c. pt_stock_id port (so_id s) (fst c)) (enumerate 0 cs) = map (pt_stock_id port (so_id s)) (map fst (enumerate 0 cs))" by (simp only: map_map comp_def)
    also have "distinct \<dots>" unfolding map_fst_enumerate distinct_map using inj_on_subset [OF assms(4)] by simp
    finally show ?thesis .
  qed
  have c: "stock d2 = stock d1 @ map (card_entry port s now (oi_sellable it)) (enumerate 0 cs) \<and> supplies d2 = supplies d1
     \<and> deliveries d2 = deliveries d1 \<and> outbox d2 = outbox d1"
    by (rule insert_cards [OF b(3) i now1 dist]) (use assms(5) d1 in auto)
  have now2: "supplied_now (so_id s) now d2" using now1 c by (simp add: supplied_now_def)
  have d3: "stock d3 = stock d2" "supplies d3 = supplies d2"
    "\<forall>x\<in>set (deliveries d3). d_id x = so_delivery s \<longrightarrow> d_status x \<noteq> Delivery_Awaiting_Supply"
    using b(4) now2 by (auto simp: await_delivery_def Let_def sql_update_def)
  have now3: "supplied_now (so_id s) now d3" using now2 d3 by (simp add: supplied_now_def)
  have d4: "stock d' = stock d3" "supplies d' = supplies d3" "deliveries d' = deliveries d3"
    "sql_exists (\<lambda>e. ob_key e = ''supplier-delivery-requested:'' @ so_delivery s) (outbox d')"
    using b(5) now3 by (auto simp: outbox_when_def insert_outbox_def request_event_def sql_exists_def split: if_splits)
  show "stock d' = stock d @ map (card_entry port s now (oi_sellable it)) (enumerate 0 cs)" using c d3 d4 d1 by simp
  show "supplied_now (so_id s) now d'" using now3 d4 by (simp add: supplied_now_def)
  show "\<exists>x\<in>set (supplies d'). so_id x = so_id s \<and> so_state x = Supply_Supplied \<and> so_upstream x = Some upstream"
    using fx x(2) c d3 d4 by (intro bexI [of _ "?f x"]) auto
  show "\<forall>x\<in>set (deliveries d'). d_id x = so_delivery s \<longrightarrow> d_status x \<noteq> Delivery_Awaiting_Supply" using d3(3) d4(3) by simp
  show "sql_exists (\<lambda>e. ob_key e = ''supplier-delivery-requested:'' @ so_delivery s) (outbox d')" using d4(4) .
qed

text \<open>
  C30. When the cards of an order arrive and it still waits for them, they become stock of its
  item, all of them, once each and in order: as many as were ordered, reserved for the item and
  sealed; the order is supplied, its delivery no longer waits for supply and is asked for.
  Others may run while the cards are sealed.
\<close>

lemma supplied_gets_cards:
  assumes "fulfill_supplier_order port env env' now s upstream cards db = (Inr r, db')" and "\<not> sy_duplicate r"
    and "find_item (env db) (so_order_item s) = Some it" and "inj (pt_stock_id port (so_id s))"
    and "\<forall>k. \<forall>e\<in>set (stock (env db)). st_id e \<noteq> pt_stock_id port (so_id s) k"
  shows "\<exists>entries. stock db' = stock (env db) @ entries \<and> int (length entries) = so_quantity s
     \<and> map st_content entries = map (\<lambda>c. pt_seal port (pt_content port (so_id s) c)) (distinct_cards cards)
     \<and> (\<forall>e\<in>set entries. st_status e = Stock_Reserved \<and> st_order_item e = Some (so_order_item s) \<and> st_sellable e = oi_sellable it)
     \<and> (\<exists>x\<in>set (supplies db'). so_id x = so_id s \<and> so_state x = Supply_Supplied \<and> so_upstream x = Some upstream)
     \<and> (\<forall>d\<in>set (deliveries db'). d_id d = so_delivery s \<longrightarrow> d_status d \<noteq> Delivery_Awaiting_Supply)
     \<and> sql_exists (\<lambda>e. ob_key e = ''supplier-delivery-requested:'' @ so_delivery s) (outbox db')"
proof -
  let ?cards = "distinct_cards cards" and ?e = "card_entry port s now (oi_sellable it)"
  from assms(1,2) obtain ks where b: "int (length ?cards) = so_quantity s"
    "run_batch (card_statements port s upstream ?cards now) (env db) = Inr (db', ks)" "ks ! 0 = 1"
    by (auto simp: fulfill_supplier_order_def Let_def split: if_splits sum.splits prod.splits)
  note c = cards_batch [OF b(2,3) assms(3-5)]
  have "map (st_content \<circ> ?e) (enumerate 0 ?cards) = map (\<lambda>c. pt_seal port (pt_content port (so_id s) c)) ?cards"
    by (rule nth_equalityI) (simp_all add: card_entry_def nth_enumerate_eq)
  then show ?thesis using c b(1)
    by (intro exI [of _ "map ?e (enumerate 0 ?cards)"]) (auto simp: card_entry_def comp_def)
qed

text \<open>An order that is not waiting for its cards does not take them.\<close>

lemma no_supply_batch:
  assumes "\<forall>s\<in>set ss. \<forall>m. s m d = Inr (d, 0)"
  shows "\<exists>ks. batch_from m ss d = Inr (d, ks)"
  using assms
proof (induction ss arbitrary: m)
  case (Cons s ss)
  from Cons.IH [of 0] Cons.prems show ?case by auto
qed simp

lemma dead_supply_batch:
  assumes "\<forall>x\<in>set (supplies d). so_id x = so_id s \<longrightarrow> so_state x \<notin> {Supply_Submitting, Supply_Uncertain, Supply_Supplied}"
  shows "\<exists>ks. run_batch (card_statements port s upstream cs now) d = Inr (d, 0 # ks)"
proof -
  have n: "\<not> supplied_now (so_id s) now d" using assms by (auto simp: supplied_now_def sql_exists_def list_ex_iff)
  have u: "sql_update (\<lambda>x. so_id x = so_id s \<and> so_state x \<in> {Supply_Submitting, Supply_Uncertain}) f (supplies d) = supplies d"
    "sql_changes (\<lambda>x. so_id x = so_id s \<and> so_state x \<in> {Supply_Submitting, Supply_Uncertain}) (supplies d) = 0" for f
    using assms by (auto simp: sql_changes_zero intro!: sql_update_none)
  have i: "insert_card port s now e m d = Inr (d, 0)" for e m using n by (simp add: insert_card_def Let_def split: option.split)
  have a: "await_delivery s now m d = Inr (d, 0)" for m using n by (simp add: await_delivery_def Let_def sql_update_none sql_changes_zero)
  have o: "outbox_when (supplied_now (so_id s) now) True b m d = Inr (d, 0)" for b m using n by (simp add: outbox_when_def)
  have u': "supply_order (so_id s) upstream now 0 d = Inr (d, 0)" using u by (simp add: supply_order_def Let_def)
  obtain ss where ss: "card_statements port s upstream cs now = supply_order (so_id s) upstream now # ss"
    "\<forall>st\<in>set ss. \<forall>m. st m d = Inr (d, 0)"
    unfolding card_statements_def using i a o by auto
  show ?thesis using no_supply_batch [OF ss(2), of 0] u' by (auto simp: run_batch_def ss(1))
qed

lemma pending_supply_is_lost:
  assumes "find_supply db i = Some s" and "so_state s = Supply_Pending" and "so_account s = Some k" and "so_revision s = Some (Suc v)"
    and "\<forall>x\<in>set (supplies db). so_id x = i \<longrightarrow> x = s" and "pt_secret port" and "parse_binding (so_binding s) = Inr b"
    and "find_account db k = Some a" and "pt_adapter port a (Suc v) = Inr ()"
    and "claim_supplier_api_budget later (pt_source port b) (ac_id a) t = (Inr (), t')"
    and "pt_reconcile port a s = Inr (Supplied upstream cards)" and "int (length (distinct_cards cards)) = so_quantity s"
  shows "process_supply_unlocked port (\<lambda>_ _ d. d) runs now later i (t, db)
    = (Inr \<lparr> sy_state = Supply_Supplied, sy_duplicate = True \<rparr>, t', db)"
proof -
  have i: "so_id s = i" using assms(1) by (auto simp: find_supply_def dest: sql_first_Some)
  have "\<forall>x\<in>set (supplies db). so_id x = so_id s \<longrightarrow> so_state x \<notin> {Supply_Submitting, Supply_Uncertain, Supply_Supplied}"
    using assms(2,5) i by auto
  from dead_supply_batch [OF this] obtain ks where b: "run_batch (card_statements port s upstream (distinct_cards cards) later) db = Inr (db, 0 # ks)"
    by blast
  have "sql_update (purchase_open i) f (supplies db) = supplies db" for f
    using assms(2,5) by (intro sql_update_none) (auto simp: purchase_open_def)
  then have "mark_uncertain later (so_id s) code u db = db" for code u using i by (simp add: mark_uncertain_def)
  then have "apply_purchase_result port (\<lambda>k d. d) later s (Supplied upstream cards) db
      = (Inr \<lparr> sy_state = Supply_Supplied, sy_duplicate = True \<rparr>, db)"
    using assms(1,2,12) b i by (simp add: apply_purchase_result_def fulfill_supplier_order_def Let_def)
  then show ?thesis
    using assms by (simp add: process_supply_unlocked_def reconcile_supply_def)
qed

text \<open>
  C31. An order at a supplier that is reselected while its purchase is under way loses its
  cards: it waits again but keeps its account, so it is only asked about, and what the supplier
  then delivers is reported as a duplicate and dropped.
\<close>

lemma reselected_supply_is_lost:
  assumes "find_supply db i = Some s" and "so_account s = Some k" and "so_revision s = Some (Suc v)"
    and "distinct (map so_id (supplies db))" and "act_supplier_order (\<lambda>d. d) start Reselect_Supply i db = (Inr (), db')"
    and "pt_secret port" and "parse_binding (so_binding s) = Inr b"
    and "find_account db k = Some a" and "pt_adapter port a (Suc v) = Inr ()"
    and "claim_supplier_api_budget later (pt_source port b) (ac_id a) t = (Inr (), t')"
    and "\<forall>s. pt_reconcile port a s = Inr (Supplied upstream cards)" and "int (length (distinct_cards cards)) = so_quantity s"
  shows "map_option so_state (find_supply db' i) = Some Supply_Pending
     \<and> process_supply_unlocked port (\<lambda>_ _ d. d) runs now later i (t, db')
       = (Inr \<lparr> sy_state = Supply_Supplied, sy_duplicate = True \<rparr>, t', db')"
proof -
  let ?s = "s \<lparr> so_state := Supply_Pending, so_next_retry_at := Some start, so_error := None \<rparr>"
  have d: "supplies db' = sql_update (\<lambda>r. so_id r = i)
      (\<lambda>r. r \<lparr> so_state := Supply_Pending, so_next_retry_at := Some start, so_error := None \<rparr>) (supplies db)"
    "supplier_accounts db' = supplier_accounts db"
    using assms(1,2,5) by (auto simp: act_supplier_order_def Let_def run_batch_def outbox_when_def insert_outbox_def request_event_def
        audit_def split: if_splits sum.splits)
  have i: "so_id s = i" "s \<in> set (supplies db)" using assms(1) by (auto simp: find_supply_def dest: sql_first_Some)
  have f: "find_supply db' i = Some ?s"
    using assms(1) i(1) by (simp add: find_supply_def d(1) sql_first_update_key [where k = so_id])
  have "\<forall>x\<in>set (supplies db'). so_id x = i \<longrightarrow> x = ?s"
    using assms(4) i by (auto simp: d(1) sql_update_def distinct_map inj_on_def split: if_splits)
  moreover have "find_account db' k = Some a" using assms(8) d(2) by (simp add: find_account_def)
  ultimately show ?thesis
    using pending_supply_is_lost [OF f, of k v port b a later t t' upstream cards runs now] f assms(2,3,6,7,9-12) by simp
qed

section \<open>One order at a supplier\<close>

text \<open>A supplier with one account, and an order for one card there.\<close>

definition sample_binding :: binding_row where
  "sample_binding = \<lparr> bd_id = ''b'', bd_provider = ''acg'', bd_origin = ''s.example'', bd_protocol = ''1'', bd_product = ''p'',
     bd_sku = ''k'', bd_reference_cost = Some 80, bd_max_cost = Some 100, bd_currency = Some ''CNY'' \<rparr>"

definition sample_account :: account_row where
  "sample_account = \<lparr> ac_id = ''a'', ac_provider = ''acg'', ac_origin = ''s.example'', ac_protocol = ''1'', ac_revision = 1,
     ac_balance = Some 1000, ac_reserve = 100, ac_max_order = Some 500, ac_health = Health_Healthy, ac_failures = 0,
     ac_cooldown = None, ac_last_selected = None, ac_error = None, ac_enabled = True \<rparr>"

definition waiting_supply :: supply_row where
  "waiting_supply = \<lparr> so_id = ''so'', so_order = ''o'', so_order_item = ''i'', so_delivery = ''di'', so_quantity = 1,
     so_binding = Some sample_binding, so_unit_cost = None, so_total_cost = None, so_state = Supply_Selecting, so_account = None,
     so_revision = None, so_request = None, so_upstream = None, so_attempts = 0, so_selections = 0, so_locked_at = None,
     so_next_retry_at = None, so_error = None, so_supplied_at = None \<rparr>"

definition bought_supply :: supply_row where
  "bought_supply = select_account sample_account ''r'' 90 90 waiting_supply"

definition sample_port :: supplier_port where
  "sample_port = \<lparr> pt_secret = True, pt_adapter = (\<lambda>a v. Inr ()), pt_balance = (\<lambda>a. Inr 1000),
     pt_offer = (\<lambda>a b. Inr \<lparr> of_cost = ''90'', of_stock = 5, of_active = True \<rparr>), pt_submit = (\<lambda>a s r. Inr (Processing ''u'')),
     pt_reconcile = (\<lambda>a s. Inr (Supplied ''u'' [''card''])), pt_source = bd_origin, pt_sha = id,
     pt_stock_id = (\<lambda>i n. i @ replicate n CHR ''-''), pt_content = (\<lambda>i c. c), pt_seal = id, pt_fingerprint = id \<rparr>"

definition supplied_shop :: "supply_row \<Rightarrow> db" where
  "supplied_shop s = (shipment [''i'']) \<lparr> stock := [],
     deliveries := [(shipped_delivery ''i'') \<lparr> d_status := Delivery_Awaiting_Supply \<rparr>],
     supplies := [s], supplier_accounts := [sample_account] \<rparr>"

lemma supplied_shop_simps [simp]:
  "find_supply (supplied_shop s) i = (if so_id s = i then Some s else None)" "supplies (supplied_shop s) = [s]"
  "find_account (supplied_shop s) ''a'' = Some sample_account" "stock (supplied_shop s) = []"
  by (simp_all add: find_supply_def find_account_def supplied_shop_def sample_account_def)

lemma locked_purchase_stays_witness:
  "\<exists>s'. find_supply (snd (snd (process_supplier_order sample_port (\<lambda>_ _ d. d) (\<lambda>n. replicate n CHR ''r'') 5 6 ''so''
       ([], supplied_shop (lock_account None ''e'' 1 bought_supply))))) ''so'' = Some s'
     \<and> so_account s' = Some ''a'' \<and> so_revision s' = Some 1 \<and> so_request s' = Some ''r'' \<and> so_locked_at s' \<noteq> None"
proof -
  let ?s = "lock_account None ''e'' 1 bought_supply"
  have r: "supply_run (supplied_shop ?s) (snd (snd (process_supplier_order sample_port (\<lambda>_ _ d. d) (\<lambda>n. replicate n CHR ''r'') 5 6
      ''so'' ([], supplied_shop ?s))))"
    by (rule supply_run.process) (simp add: supply_run.idle)
  have s: "find_supply (supplied_shop ?s) ''so'' = Some ?s" "so_account ?s = Some ''a''" "so_locked_at ?s \<noteq> None"
    "so_revision ?s = Some 1" "so_request ?s = Some ''r''"
    by (simp_all add: lock_account_def bought_supply_def select_account_def waiting_supply_def sample_account_def coalesce_def)
  from locked_purchase_stays [OF r s(1,2,3)] s(4,5) show ?thesis by metis
qed

lemma purchase_within_balance_witness:
  "\<exists>c s. committed ''a'' (snd (claim_purchase ''so'' sample_account ''r'' 90 90 (supplied_shop waiting_supply))) = Inr c \<and> c \<le> 900
     \<and> find_supply (snd (claim_purchase ''so'' sample_account ''r'' 90 90 (supplied_shop waiting_supply))) ''so'' = Some s
     \<and> so_account s = Some ''a'' \<and> so_unit_cost s = Some 90"
proof -
  let ?f = "\<lparr> of_cost = ''90'', of_stock = 5, of_active = True \<rparr>"
  let ?d = "supplied_shop waiting_supply"
  have p: "int (digits_value (of_cost ?f)) = 90" by code_simp
  have b: "assert_candidate_budget ?d sample_account 1000 90 ?f 1 100 = Inr ()"
    using p by (simp add: assert_candidate_budget_def committed_def commitment_def waiting_supply_def sample_account_def)
  have "claim_purchase ''so'' sample_account ''r'' 90 90 ?d = (Inr (), snd (claim_purchase ''so'' sample_account ''r'' 90 90 ?d))"
    by (simp add: claim_purchase_def claimable_supply_def waiting_supply_def sql_changes_def sql_exists_def)
  then have c: "claim_purchase ''so'' sample_account ''r'' (int (digits_value (of_cost ?f))) 90 ?d
      = (Inr (), snd (claim_purchase ''so'' sample_account ''r'' 90 90 ?d))" by (simp only: p)
  have "ac_id sample_account = ''a''" "ac_reserve sample_account = 100" by (simp_all add: sample_account_def)
  with purchase_within_balance [OF b c refl] show ?thesis unfolding p by auto
qed

lemma sample_ids_new: "inj (pt_stock_id sample_port i)"
  by (rule injI) (simp add: sample_port_def)

lemma supplied_gets_cards_witness:
  "\<exists>entries. stock (snd (fulfill_supplier_order sample_port (\<lambda>d. d) (\<lambda>d. d) 7 bought_supply ''u'' ['' card ''] (supplied_shop bought_supply)))
     = entries \<and> map st_content entries = [''card'']"
proof -
  let ?r = "fulfill_supplier_order sample_port (\<lambda>d. d) (\<lambda>d. d) 7 bought_supply ''u'' ['' card ''] (supplied_shop bought_supply)"
  have "fst ?r = Inr \<lparr> sy_state = Supply_Supplied, sy_duplicate = False \<rparr>" by code_simp
  then have r: "?r = (Inr \<lparr> sy_state = Supply_Supplied, sy_duplicate = False \<rparr>, snd ?r)" by (metis prod.collapse)
  have i: "find_item (supplied_shop bought_supply) (so_order_item bought_supply)
      = Some ((sample_item ''i'' ''o'') \<lparr> oi_component_type := Stock_Component \<rparr>)"
    by (simp add: find_item_def supplied_shop_def shipment_def bought_supply_def select_account_def waiting_supply_def sample_item_def)
  have c: "map (\<lambda>c. pt_seal sample_port (pt_content sample_port (so_id bought_supply) c)) (distinct_cards ['' card '']) = [''card'']"
    by code_simp
  from supplied_gets_cards [OF r _ i sample_ids_new] c show ?thesis by auto
qed

lemma reselected_supply_is_lost_witness:
  "\<exists>t. process_supply_unlocked sample_port (\<lambda>_ _ d. d) (\<lambda>n. []) 8 9 ''so''
      ([], snd (act_supplier_order (\<lambda>d. d) 7 Reselect_Supply ''so'' (supplied_shop bought_supply)))
   = (Inr \<lparr> sy_state = Supply_Supplied, sy_duplicate = True \<rparr>, t,
      snd (act_supplier_order (\<lambda>d. d) 7 Reselect_Supply ''so'' (supplied_shop bought_supply)))"
proof -
  let ?a = "act_supplier_order (\<lambda>d. d) 7 Reselect_Supply ''so'' (supplied_shop bought_supply)"
  have "fst ?a = Inr ()" by code_simp
  then have a: "?a = (Inr (), snd ?a)" by (metis prod.collapse)
  let ?c = "claim_supplier_api_budget 9 (pt_source sample_port sample_binding) (ac_id sample_account) []"
  have "fst ?c = Inr ()" by code_simp
  then have c: "?c = (Inr (), snd ?c)" by (metis prod.collapse)
  have s: "find_supply (supplied_shop bought_supply) ''so'' = Some bought_supply" "so_account bought_supply = Some ''a''"
    "so_revision bought_supply = Some (Suc 0)" "distinct (map so_id (supplies (supplied_shop bought_supply)))"
    by (simp_all add: bought_supply_def select_account_def waiting_supply_def sample_account_def)
  have b: "parse_binding (so_binding bought_supply) = Inr sample_binding" by code_simp
  have p: "pt_secret sample_port" "pt_adapter sample_port sample_account (Suc 0) = Inr ()"
    "\<forall>s. pt_reconcile sample_port sample_account s = Inr (Supplied ''u'' [''card''])"
    by (simp_all add: sample_port_def)
  have n: "int (length (distinct_cards [''card''])) = so_quantity bought_supply" by code_simp
  show ?thesis
    using reselected_supply_is_lost [OF s(1-4) a p(1) b _ p(2) c p(3) n, of "\<lambda>n. []" 8] by simp
qed

end
